(* ===== verification/Prelude.thy ===== *)
theory Prelude
  imports Main "HOL-Library.Word"
begin

text \<open>
  Shared vocabulary of the development.

  Rust text comes in two forms. Code that counts characters (the Bash output buffers)
  works on \<open>ustr\<close>, a list of Unicode scalar values, where a byte offset is the
  sum of the UTF-8 widths of the characters before it. Code that only compares, splits
  and splices text (paths, file contents, tokens) works on \<open>string\<close>, the UTF-8
  bytes of the Rust string; a match of a valid UTF-8 pattern in valid UTF-8 text is the
  same match on bytes. \<open>usize\<close> counters of in-memory data are \<open>nat\<close>; parsing a
  \<open>usize\<close> keeps the 64-bit bound. A Rust panic is \<open>None\<close>.
\<close>

named_theorems text_simps \<open>byte widths and slices of text\<close>
named_theorems str_simps \<open>prefix and suffix functions of strings\<close>

type_synonym u8 = "8 word"
type_synonym uchar = nat
type_synonym ustr = "uchar list"

section \<open>Text: characters, byte offsets and slices\<close>

definition len_utf8 :: "uchar \<Rightarrow> nat" where
  "len_utf8 c = (if c < 128 then 1 else if c < 2048 then 2 else if c < 65536 then 3 else 4)"

definition utf8_len :: "ustr \<Rightarrow> nat" where
  "utf8_len cs = sum_list (map len_utf8 cs)"

lemma len_utf8_pos [text_simps]: "0 < len_utf8 c"
  by (simp add: len_utf8_def)

lemma utf8_len_Nil [simp, text_simps]: "utf8_len [] = 0"
  and utf8_len_Cons [simp, text_simps]: "utf8_len (c # cs) = len_utf8 c + utf8_len cs"
  and utf8_len_append [simp, text_simps]: "utf8_len (xs @ ys) = utf8_len xs + utf8_len ys"
  by (simp_all add: utf8_len_def)

lemma utf8_len_0_iff [simp]: "utf8_len cs = 0 \<longleftrightarrow> cs = []"
  using len_utf8_pos by (cases cs) auto

lemma utf8_len_pos [simp]: "0 < utf8_len cs \<longleftrightarrow> cs \<noteq> []"
  using utf8_len_0_iff [of cs] by (metis neq0_conv)

lemma length_le_utf8_len: "length cs \<le> utf8_len cs"
proof (induction cs)
  case (Cons c cs)
  then show ?case using len_utf8_pos [of c] by simp
qed simp

text \<open>\<open>s[n..]\<close> and \<open>s[..n]\<close>: a byte offset off a character boundary panics.\<close>

fun slice_from :: "ustr \<Rightarrow> nat \<Rightarrow> ustr option" where
  "slice_from cs 0 = Some cs"
| "slice_from [] (Suc n) = None"
| "slice_from (c # cs) (Suc n) =
     (if len_utf8 c \<le> Suc n then slice_from cs (Suc n - len_utf8 c) else None)"

fun slice_to :: "ustr \<Rightarrow> nat \<Rightarrow> ustr option" where
  "slice_to cs 0 = Some []"
| "slice_to [] (Suc n) = None"
| "slice_to (c # cs) (Suc n) =
     (if len_utf8 c \<le> Suc n then map_option ((#) c) (slice_to cs (Suc n - len_utf8 c)) else None)"

lemma slice_from_append [simp, text_simps]: "slice_from (xs @ ys) (utf8_len xs) = Some ys"
proof (induction xs)
  case (Cons x xs)
  obtain k where "len_utf8 x = Suc k"
    using len_utf8_pos [of x] by (cases "len_utf8 x") auto
  with Cons show ?case by simp
qed simp

lemma slice_to_append [simp, text_simps]: "slice_to (xs @ ys) (utf8_len xs) = Some xs"
proof (induction xs)
  case (Cons x xs)
  obtain k where "len_utf8 x = Suc k"
    using len_utf8_pos [of x] by (cases "len_utf8 x") auto
  with Cons show ?case by simp
qed simp

lemma slice_from_take: "slice_from cs (utf8_len (take n cs)) = Some (drop n cs)"
  using slice_from_append [of "take n cs" "drop n cs"] by simp

lemma slice_to_take: "slice_to cs (utf8_len (take n cs)) = Some (take n cs)"
  using slice_to_append [of "take n cs" "drop n cs"] by simp

text \<open>\<open>s.char_indices().nth(n)\<close>: the byte offset of character \<open>n\<close>.\<close>

definition char_index_nth :: "ustr \<Rightarrow> nat \<Rightarrow> nat option" where
  "char_index_nth cs n = (if n < length cs then Some (utf8_len (take n cs)) else None)"

section \<open>The last elements of a list\<close>

definition take_last :: "nat \<Rightarrow> 'a list \<Rightarrow> 'a list" where
  "take_last n xs = drop (length xs - n) xs"

lemma length_take_last [simp]: "length (take_last n xs) = min n (length xs)"
  by (auto simp: take_last_def)

lemma take_last_all [simp]: "length xs \<le> n \<Longrightarrow> take_last n xs = xs"
  by (simp add: take_last_def)

lemma take_last_append: "take_last n (take_last n xs @ ys) = take_last n (xs @ ys)"
proof (cases "length xs \<le> n")
  case True
  then show ?thesis by (simp add: take_last_def)
next
  case False
  then show ?thesis
    by (simp add: take_last_def) (metis add.commute diff_diff_cancel diff_diff_left diff_le_self
        diff_zero nat_le_linear diff_is_0_eq)
qed

lemma set_take_last: "set (take_last n xs) \<subseteq> set xs"
  by (simp add: take_last_def set_drop_subset)

section \<open>Loops that may stop early\<close>

text \<open>A \<open>for\<close> loop whose body may panic or fail: it stops at the first \<open>None\<close>.\<close>

fun fold_opt :: "('s \<Rightarrow> 'x \<Rightarrow> 's option) \<Rightarrow> 's \<Rightarrow> 'x list \<Rightarrow> 's option" where
  "fold_opt f s [] = Some s"
| "fold_opt f s (x # xs) = (case f s x of None \<Rightarrow> None | Some s' \<Rightarrow> fold_opt f s' xs)"

text \<open>A \<open>for\<close> loop with \<open>?\<close>: it stops at the first error.\<close>

fun fold_res :: "('s \<Rightarrow> 'x \<Rightarrow> 'e + 's) \<Rightarrow> 's \<Rightarrow> 'x list \<Rightarrow> 'e + 's" where
  "fold_res f s [] = Inr s"
| "fold_res f s (x # xs) = (case f s x of Inl e \<Rightarrow> Inl e | Inr s' \<Rightarrow> fold_res f s' xs)"

lemma fold_res_append:
  "fold_res f s (xs @ ys) = (case fold_res f s xs of Inl e \<Rightarrow> Inl e | Inr s' \<Rightarrow> fold_res f s' ys)"
  by (induction xs arbitrary: s) (auto split: sum.splits)

lemma fold_res_inv:
  assumes "fold_res f s xs = Inr s'" "P s"
    and "\<And>s x s'. x \<in> set xs \<Longrightarrow> f s x = Inr s' \<Longrightarrow> P s \<Longrightarrow> P s'"
  shows "P s'"
  using assms
proof (induction xs arbitrary: s)
  case (Cons x xs)
  then obtain s1 where s1: "f s x = Inr s1" "fold_res f s1 xs = Inr s'"
    by (auto split: sum.splits)
  have "P s1" using Cons.prems(3) [of x s s1] s1(1) Cons.prems(2) by simp
  then show ?case using Cons.IH [OF s1(2)] Cons.prems(3) by (meson list.set_intros(2))
qed simp

section \<open>Strings: prefixes, suffixes, splitting\<close>

fun strip_prefix :: "'a list \<Rightarrow> 'a list \<Rightarrow> 'a list option" where
  "strip_prefix [] xs = Some xs"
| "strip_prefix (p # ps) [] = None"
| "strip_prefix (p # ps) (x # xs) = (if p = x then strip_prefix ps xs else None)"

lemma strip_prefix_iff: "strip_prefix p xs = Some ys \<longleftrightarrow> xs = p @ ys"
  by (induction p xs rule: strip_prefix.induct) auto

lemma strip_prefix_append [simp, str_simps]: "strip_prefix p (p @ ys) = Some ys"
  by (simp add: strip_prefix_iff)

lemma strip_prefix_None: "strip_prefix p xs = None \<longleftrightarrow> (\<forall>ys. xs \<noteq> p @ ys)"
  by (metis not_Some_eq strip_prefix_iff)

definition starts_with :: "'a list \<Rightarrow> 'a list \<Rightarrow> bool" where
  "starts_with xs p \<longleftrightarrow> strip_prefix p xs \<noteq> None"

definition ends_with :: "'a list \<Rightarrow> 'a list \<Rightarrow> bool" where
  "ends_with xs p \<longleftrightarrow> strip_prefix (rev p) (rev xs) \<noteq> None"

lemma starts_with_iff [str_simps]: "starts_with xs p \<longleftrightarrow> (\<exists>ys. xs = p @ ys)"
  by (simp add: starts_with_def strip_prefix_iff)

lemma ends_with_iff [str_simps]: "ends_with xs p \<longleftrightarrow> (\<exists>ys. xs = ys @ p)"
proof -
  have "ends_with xs p \<longleftrightarrow> (\<exists>ys. rev xs = rev p @ ys)"
    by (simp add: ends_with_def strip_prefix_iff)
  also have "\<dots> \<longleftrightarrow> (\<exists>ys. xs = ys @ p)"
    by (metis rev_append rev_rev_ident)
  finally show ?thesis .
qed

text \<open>\<open>s.split(c)\<close> on one byte: always at least one part.\<close>

fun split_on :: "'a \<Rightarrow> 'a list \<Rightarrow> 'a list list" where
  "split_on c [] = [[]]"
| "split_on c (x # xs) =
     (if x = c then [] # split_on c xs
      else (case split_on c xs of [] \<Rightarrow> [[x]] | p # ps \<Rightarrow> (x # p) # ps))"

fun join_with :: "'a list \<Rightarrow> 'a list list \<Rightarrow> 'a list" where
  "join_with sep [] = []"
| "join_with sep [p] = p"
| "join_with sep (p # q # ps) = p @ sep @ join_with sep (q # ps)"

lemma split_on_not_Nil [simp]: "split_on c xs \<noteq> []"
  by (cases xs) (auto split: list.splits)

lemma join_split: "join_with [c] (split_on c xs) = xs"
proof (induction xs)
  case (Cons x xs)
  obtain p ps where "split_on c xs = p # ps"
    by (cases "split_on c xs") auto
  with Cons show ?case by (cases ps) auto
qed simp

lemma split_on_append: "split_on c (xs @ c # ys) = split_on c xs @ split_on c ys"
proof (induction xs)
  case (Cons x xs)
  obtain p ps where "split_on c xs = p # ps"
    by (cases "split_on c xs") auto
  with Cons show ?case by auto
qed simp

lemma join_with_append:
  "ps \<noteq> [] \<Longrightarrow> qs \<noteq> [] \<Longrightarrow> join_with sep (ps @ qs) = join_with sep ps @ sep @ join_with sep qs"
proof (induction ps)
  case (Cons p ps)
  then show ?case by (cases ps; cases qs) auto
qed simp

lemma split_on_prefix_iff:
  "(\<exists>r. split_on c xs = split_on c p @ r) \<longleftrightarrow> xs = p \<or> (\<exists>ys. xs = p @ c # ys)"
proof
  assume "\<exists>r. split_on c xs = split_on c p @ r"
  then obtain r where r: "split_on c xs = split_on c p @ r" by blast
  have "xs = join_with [c] (split_on c p @ r)" using join_split [of c xs] r by simp
  then show "xs = p \<or> (\<exists>ys. xs = p @ c # ys)"
    by (cases "r = []") (auto simp: join_with_append join_split)
qed (auto simp: split_on_append)

lemma split_on_no_sep: "p \<in> set (split_on c xs) \<Longrightarrow> c \<notin> set p"
proof (induction xs arbitrary: p)
  case (Cons x xs)
  obtain q qs where "split_on c xs = q # qs"
    by (cases "split_on c xs") auto
  with Cons show ?case by (auto split: if_splits)
qed simp

section \<open>Decimal numbers\<close>

text \<open>\<open>format!("{n}")\<close> and \<open>parse::<usize>()\<close>: an optional sign \<open>+\<close>, at least
  one digit, and a value that fits in 64 bits.\<close>

definition digit_char :: "nat \<Rightarrow> char" where
  "digit_char d = char_of (48 + d)"

fun show_nat :: "nat \<Rightarrow> string" where
  "show_nat n = (if n < 10 then [digit_char n] else show_nat (n div 10) @ [digit_char (n mod 10)])"

declare show_nat.simps [simp del]

definition digit_val :: "char \<Rightarrow> nat option" where
  "digit_val c = (let n = of_char c in if 48 \<le> n \<and> n \<le> 57 then Some (n - 48) else None)"

fun parse_digits :: "nat \<Rightarrow> string \<Rightarrow> nat option" where
  "parse_digits acc [] = Some acc"
| "parse_digits acc (c # cs) =
     (case digit_val c of None \<Rightarrow> None | Some d \<Rightarrow> parse_digits (acc * 10 + d) cs)"

definition usize_max :: nat where
  "usize_max = 18446744073709551615"

definition parse_usize :: "string \<Rightarrow> nat option" where
  "parse_usize s =
     (let t = (case s of [] \<Rightarrow> [] | c # cs \<Rightarrow> if c = CHR ''+'' then cs else s)
      in if t = [] then None
         else case parse_digits 0 t of
                None \<Rightarrow> None
              | Some n \<Rightarrow> if n \<le> usize_max then Some n else None)"

lemma digit_val_char [simp]: "d < 10 \<Longrightarrow> digit_val (digit_char d) = Some d"
  by (simp add: digit_val_def digit_char_def of_char_of Let_def)

lemma parse_digits_append:
  "parse_digits acc (xs @ ys) = Option.bind (parse_digits acc xs) (\<lambda>a. parse_digits a ys)"
  by (induction xs arbitrary: acc) (auto split: option.splits)

lemma parse_show_digits: "parse_digits 0 (show_nat n) = Some n"
proof (induction n rule: show_nat.induct)
  case (1 n)
  show ?case
  proof (cases "n < 10")
    case True
    then show ?thesis by (simp add: show_nat.simps [of n])
  next
    case False
    then show ?thesis using 1 by (simp add: show_nat.simps [of n] parse_digits_append)
  qed
qed

lemma digit_char_not_plus: "d < 10 \<Longrightarrow> digit_char d \<noteq> CHR ''+''"
  using digit_val_char [of d] by (auto simp: digit_val_def)

lemma show_nat_hd: "\<exists>d cs. show_nat n = digit_char d # cs \<and> d < 10"
proof (induction n rule: show_nat.induct)
  case (1 n)
  show ?case
  proof (cases "n < 10")
    case True
    then show ?thesis by (auto simp: show_nat.simps [of n])
  next
    case False
    then obtain d cs where "show_nat (n div 10) = digit_char d # cs" "d < 10"
      using 1 by blast
    with False show ?thesis by (auto simp: show_nat.simps [of n])
  qed
qed

lemma parse_show_usize: "n \<le> usize_max \<Longrightarrow> parse_usize (show_nat n) = Some n"
proof -
  assume n: "n \<le> usize_max"
  obtain d cs where s: "show_nat n = digit_char d # cs" and d: "d < 10"
    using show_nat_hd [of n] by blast
  show ?thesis
    using n parse_show_digits [of n] digit_char_not_plus [OF d] unfolding s
    by (simp add: parse_usize_def Let_def)
qed

section \<open>ASCII case\<close>

definition ascii_lower_char :: "char \<Rightarrow> char" where
  "ascii_lower_char c =
     (let n = (of_char c :: nat) in if 65 \<le> n \<and> n \<le> 90 then char_of (n + 32) else c)"

definition ascii_lower :: "string \<Rightarrow> string" where
  "ascii_lower s = map ascii_lower_char s"

text \<open>\<open>min_by_key\<close>: the first of the least elements.\<close>

fun min_by_key :: "('x \<Rightarrow> 'k::linorder) \<Rightarrow> 'x list \<Rightarrow> 'x option" where
  "min_by_key key [] = None"
| "min_by_key key (x # xs) =
     (case min_by_key key xs of
        None \<Rightarrow> Some x
      | Some y \<Rightarrow> if key x \<le> key y then Some x else Some y)"

end
