(* ===== verification/Bounded_Tail.thy ===== *)
theory Bounded_Tail
  imports Prelude
begin

text \<open>
  The interface of a bounded in-memory log: it keeps the last \<open>limit\<close> items pushed.
  The Bash output buffers (\<open>TailBuffer\<close>) and the mutation log of the change ledger
  both promise it; the counted form also says how many items were dropped, so that an
  item keeps its absolute offset.
\<close>

locale bounded_tail =
  fixes push :: "'b \<Rightarrow> 'a list \<Rightarrow> 'b option"
    and kept :: "'b \<Rightarrow> 'a list"
    and limit :: "'b \<Rightarrow> nat"
    and inv :: "'b \<Rightarrow> bool"
  assumes push_total: "inv b \<Longrightarrow> \<exists>b'. push b xs = Some b'"
    and push_inv: "inv b \<Longrightarrow> push b xs = Some b' \<Longrightarrow> inv b'"
    and push_limit: "inv b \<Longrightarrow> push b xs = Some b' \<Longrightarrow> limit b' = limit b"
    and push_kept: "inv b \<Longrightarrow> push b xs = Some b' \<Longrightarrow> kept b' = take_last (limit b) (kept b @ xs)"
    and kept_bounded: "inv b \<Longrightarrow> length (kept b) \<le> limit b"
begin

lemma push_allD:
  assumes "inv b" "fold_opt push b xss = Some b'"
  shows "inv b' \<and> limit b' = limit b \<and> kept b' = take_last (limit b) (kept b @ concat xss)"
  using assms
proof (induction xss arbitrary: b)
  case Nil
  then show ?case using kept_bounded [of b] by simp
next
  case (Cons xs xss)
  then obtain b1 where b1: "push b xs = Some b1" "fold_opt push b1 xss = Some b'"
    by (auto split: option.splits)
  with Cons.IH [of b1] Cons.prems(1) show ?case
    by (simp add: push_inv push_limit push_kept take_last_append)
qed

lemma push_all_total: "inv b \<Longrightarrow> \<exists>b'. fold_opt push b xss = Some b'"
proof (induction xss arbitrary: b)
  case (Cons xs xss)
  then show ?case using push_total [of b xs] push_inv [of b xs] by fastforce
qed simp

lemma push_all_kept:
  assumes "inv b" "fold_opt push b xss = Some b'"
  shows "kept b' = take_last (limit b) (kept b @ concat xss)"
  using push_allD [OF assms] by simp

lemma push_all_chunks:
  assumes "inv b" "fold_opt push b xss = Some b1" "push b (concat xss) = Some b2"
  shows "kept b1 = kept b2"
  using push_allD [OF assms(1,2)] push_kept [OF assms(1,3)] by simp

end

locale counted_tail = bounded_tail +
  fixes dropped :: "'b \<Rightarrow> nat"
  assumes push_dropped: "inv b \<Longrightarrow> push b xs = Some b' \<Longrightarrow>
      dropped b' + length (kept b') = dropped b + length (kept b) + length xs"
begin

lemma push_all_total_count:
  assumes "inv b" "fold_opt push b xss = Some b'"
  shows "dropped b' + length (kept b') = dropped b + length (kept b) + length (concat xss)"
  using assms
proof (induction xss arbitrary: b)
  case (Cons xs xss)
  then obtain b1 where "push b xs = Some b1" "fold_opt push b1 xss = Some b'"
    by (auto split: option.splits)
  with Cons show ?case using push_dropped [of b xs b1] push_inv [of b xs b1] by simp
qed simp

text \<open>The kept items are the end of everything pushed, from the dropped count on.\<close>

lemma push_all_history:
  assumes "inv b" "kept b = []" "dropped b = 0" "fold_opt push b xss = Some b'"
  shows "kept b' = drop (dropped b') (concat xss)"
proof -
  have k: "kept b' = take_last (limit b) (concat xss)"
    using push_all_kept [OF assms(1,4)] assms(2) by simp
  have "dropped b' + length (kept b') = length (concat xss)"
    using push_all_total_count [OF assms(1,4)] assms(2,3) by simp
  then have "dropped b' = length (concat xss) - limit b" using k by simp
  with k show ?thesis by (simp add: take_last_def)
qed

end

end
