(* ===== verification/Output_Decoder.thy ===== *)
theory Output_Decoder
  imports Prelude
begin

text \<open>
  The decoder of one pipe of a Bash run (\<open>StreamDecoder\<close> and \<open>strip_ansi\<close> in
  \<open>src/bash/output.rs\<close>). \<open>from_utf8\<close> and \<open>from_utf8_lossy\<close> are the standard
  library's: the table of lead bytes, the ranges of the second byte and the length of an
  invalid sequence are those of \<open>core::str\<close>. The loop of \<open>decode\<close> is refined to
  the reference decoding \<open>utf8_lossy\<close>, from which the result is seen not to depend on
  how the bytes were split into chunks.
\<close>

section \<open>UTF-8 validation of the standard library\<close>

text \<open>
  One step of \<open>core::str::from_utf8\<close> at the head of a non-empty byte sequence: a
  character and its width, an invalid sequence and its length (\<open>error_len\<close>), or a
  sequence that the input ends in the middle of (\<open>error_len() == None\<close>).
\<close>

datatype utf8_step = Valid uchar nat | Invalid nat | Incomplete

definition is_cont :: "u8 \<Rightarrow> bool" where
  "is_cont b \<longleftrightarrow> 0x80 \<le> b \<and> b \<le> 0xBF"

definition cont_val :: "u8 \<Rightarrow> nat" where
  "cont_val b = unat b - 0x80"

definition second_ok3 :: "u8 \<Rightarrow> u8 \<Rightarrow> bool" where
  "second_ok3 b0 b1 \<longleftrightarrow>
     (b0 = 0xE0 \<and> 0xA0 \<le> b1 \<and> b1 \<le> 0xBF)
   \<or> (0xE1 \<le> b0 \<and> b0 \<le> 0xEC \<and> is_cont b1)
   \<or> (b0 = 0xED \<and> 0x80 \<le> b1 \<and> b1 \<le> 0x9F)
   \<or> (0xEE \<le> b0 \<and> b0 \<le> 0xEF \<and> is_cont b1)"

definition second_ok4 :: "u8 \<Rightarrow> u8 \<Rightarrow> bool" where
  "second_ok4 b0 b1 \<longleftrightarrow>
     (b0 = 0xF0 \<and> 0x90 \<le> b1 \<and> b1 \<le> 0xBF)
   \<or> (0xF1 \<le> b0 \<and> b0 \<le> 0xF3 \<and> is_cont b1)
   \<or> (b0 = 0xF4 \<and> 0x80 \<le> b1 \<and> b1 \<le> 0x8F)"

text \<open>The table \<open>UTF8_CHAR_WIDTH\<close>: 0 for a byte that cannot begin a character.\<close>

definition utf8_char_width :: "u8 \<Rightarrow> nat" where
  "utf8_char_width b =
     (if b < 0x80 then 1
      else if 0xC2 \<le> b \<and> b \<le> 0xDF then 2
      else if 0xE0 \<le> b \<and> b \<le> 0xEF then 3
      else if 0xF0 \<le> b \<and> b \<le> 0xF4 then 4
      else 0)"

definition utf8_next2 :: "u8 \<Rightarrow> u8 list \<Rightarrow> utf8_step" where
  "utf8_next2 b0 bs = (case bs of
     [] \<Rightarrow> Incomplete
   | b1 # _ \<Rightarrow>
       if is_cont b1 then Valid ((unat b0 - 0xC0) * 64 + cont_val b1) 2 else Invalid 1)"

definition utf8_next3 :: "u8 \<Rightarrow> u8 list \<Rightarrow> utf8_step" where
  "utf8_next3 b0 bs = (case bs of
     [] \<Rightarrow> Incomplete
   | b1 # bs1 \<Rightarrow>
       if \<not> second_ok3 b0 b1 then Invalid 1
       else (case bs1 of
          [] \<Rightarrow> Incomplete
        | b2 # _ \<Rightarrow>
            if is_cont b2
            then Valid ((unat b0 - 0xE0) * 4096 + cont_val b1 * 64 + cont_val b2) 3
            else Invalid 2))"

definition utf8_next4 :: "u8 \<Rightarrow> u8 list \<Rightarrow> utf8_step" where
  "utf8_next4 b0 bs = (case bs of
     [] \<Rightarrow> Incomplete
   | b1 # bs1 \<Rightarrow>
       if \<not> second_ok4 b0 b1 then Invalid 1
       else (case bs1 of
          [] \<Rightarrow> Incomplete
        | b2 # bs2 \<Rightarrow>
            if \<not> is_cont b2 then Invalid 2
            else (case bs2 of
               [] \<Rightarrow> Incomplete
             | b3 # _ \<Rightarrow>
                 if is_cont b3
                 then Valid ((unat b0 - 0xF0) * 262144 + cont_val b1 * 4096
                             + cont_val b2 * 64 + cont_val b3) 4
                 else Invalid 3)))"

definition utf8_next :: "u8 \<Rightarrow> u8 list \<Rightarrow> utf8_step" where
  "utf8_next b0 bs =
     (if utf8_char_width b0 = 1 then Valid (unat b0) 1
      else if utf8_char_width b0 = 2 then utf8_next2 b0 bs
      else if utf8_char_width b0 = 3 then utf8_next3 b0 bs
      else if utf8_char_width b0 = 4 then utf8_next4 b0 bs
      else Invalid 1)"

lemmas utf8_next_defs = utf8_next_def utf8_next2_def utf8_next3_def utf8_next4_def

text \<open>A step decided on a prefix is decided, the same way, on any longer input.\<close>

lemma utf8_next_append:
  "utf8_next b bs \<noteq> Incomplete \<Longrightarrow> utf8_next b (bs @ cs) = utf8_next b bs"
proof -
  have two: "utf8_next2 b bs \<noteq> Incomplete \<Longrightarrow> utf8_next2 b (bs @ cs) = utf8_next2 b bs"
    by (cases bs) (simp_all add: utf8_next2_def)
  have three: "utf8_next3 b bs \<noteq> Incomplete \<Longrightarrow> utf8_next3 b (bs @ cs) = utf8_next3 b bs"
    by (auto simp: utf8_next3_def split: list.splits)
  have four: "utf8_next4 b bs \<noteq> Incomplete \<Longrightarrow> utf8_next4 b (bs @ cs) = utf8_next4 b bs"
    by (auto simp: utf8_next4_def split: list.splits)
  show "utf8_next b bs \<noteq> Incomplete \<Longrightarrow> ?thesis" using two three four by (simp add: utf8_next_def split: if_splits)
qed

lemma utf8_next_bounds:
  "utf8_next b bs = Valid c n \<Longrightarrow> 0 < n \<and> n \<le> Suc (length bs)"
  "utf8_next b bs = Invalid n \<Longrightarrow> 0 < n \<and> n \<le> Suc (length bs)"
  by (auto simp: utf8_next_defs split: list.splits if_splits)

lemma utf8_next_width:
  "utf8_next b bs = Valid c n \<Longrightarrow> n = utf8_char_width b"
  by (auto simp: utf8_next_defs split: list.splits if_splits)

text \<open>A step looks at the bytes of its own sequence only.\<close>

lemma utf8_next_take:
  assumes "utf8_next b bs = Valid c n" "n \<le> m"
  shows "utf8_next b (take (m - 1) bs) = Valid c n"
proof -
  obtain r where r: "bs = take (m - 1) bs @ r" using append_take_drop_id by metis
  have "utf8_next b (take (m - 1) bs) \<noteq> Incomplete"
    using assms utf8_next_bounds(1) [OF assms(1)]
    by (auto simp: utf8_next_defs take_Cons' split: list.splits if_splits)
  then show ?thesis using utf8_next_append r assms(1) by metis
qed

text \<open>\<open>from_utf8\<close>: the text, or \<open>valid_up_to\<close> and \<open>error_len\<close>.\<close>

function from_utf8 :: "u8 list \<Rightarrow> (nat \<times> nat option) + ustr" where
  "from_utf8 [] = Inr []"
| "from_utf8 (b # bs) =
     (case utf8_next b bs of
        Incomplete \<Rightarrow> Inl (0, None)
      | Invalid n \<Rightarrow> Inl (0, Some n)
      | Valid c n \<Rightarrow>
          (case from_utf8 (drop n (b # bs)) of
             Inl (k, e) \<Rightarrow> Inl (n + k, e)
           | Inr cs \<Rightarrow> Inr (c # cs)))"
  by pat_completeness auto
termination
  by (relation "measure length") (auto dest: utf8_next_bounds)

lemma from_utf8_error:
  "from_utf8 bs = Inl (k, e) \<Longrightarrow> k < length bs \<and> (\<forall>n. e = Some n \<longrightarrow> 0 < n \<and> k + n \<le> length bs)"
proof (induction bs arbitrary: k e rule: from_utf8.induct)
  case (2 b bs)
  show ?case
  proof (cases "utf8_next b bs")
    case (Valid c n)
    with "2.prems" obtain k' where k': "from_utf8 (drop n (b # bs)) = Inl (k', e)" "k = n + k'"
      by (auto split: sum.splits prod.splits)
    from "2.IH" [OF Valid k'(1)] have "k' < length (drop n (b # bs))"
      "\<forall>m. e = Some m \<longrightarrow> 0 < m \<and> k' + m \<le> length (drop n (b # bs))" by auto
    with k'(2) show ?thesis by fastforce
  qed (use "2.prems" utf8_next_bounds(2) [of b bs] in auto)
qed simp

text \<open>The bytes before the error are valid on their own.\<close>

lemma from_utf8_valid_prefix:
  "from_utf8 bs = Inl (k, e) \<Longrightarrow> \<exists>cs. from_utf8 (take k bs) = Inr cs"
proof (induction bs arbitrary: k e rule: from_utf8.induct)
  case (2 b bs)
  show ?case
  proof (cases "utf8_next b bs")
    case (Valid c n)
    with "2.prems" obtain k' where k': "from_utf8 (drop n (b # bs)) = Inl (k', e)" "k = n + k'"
      by (auto split: sum.splits prod.splits)
    from "2.IH" [OF Valid k'(1)] obtain cs where cs: "from_utf8 (take k' (drop n (b # bs))) = Inr cs"
      by blast
    have n: "0 < n" using utf8_next_bounds(1) [OF Valid] by simp
    have eq: "take k (b # bs) = b # take (k - 1) bs" using n k'(2) by (simp add: take_Cons')
    have "utf8_next b (take (k - 1) bs) = Valid c n"
      using utf8_next_take [OF Valid, of k] k'(2) by simp
    moreover have "drop n (b # take (k - 1) bs) = take k' (drop n (b # bs))"
      using n k'(2) by (cases n) (auto simp: drop_take)
    ultimately show ?thesis using cs eq by simp
  qed (use "2.prems" in auto)
qed simp

text \<open>
  The reference decoding: invalid sequences become U+FFFD, and an incomplete sequence
  at the end is left over. \<open>String::from_utf8_lossy\<close> replaces the left-over too.
\<close>

definition replacement :: uchar where
  "replacement = 0xFFFD"

function utf8_lossy :: "u8 list \<Rightarrow> ustr \<times> u8 list" where
  "utf8_lossy [] = ([], [])"
| "utf8_lossy (b # bs) =
     (case utf8_next b bs of
        Incomplete \<Rightarrow> ([], b # bs)
      | Invalid n \<Rightarrow> (case utf8_lossy (drop n (b # bs)) of (cs, r) \<Rightarrow> (replacement # cs, r))
      | Valid c n \<Rightarrow> (case utf8_lossy (drop n (b # bs)) of (cs, r) \<Rightarrow> (c # cs, r)))"
  by pat_completeness auto
termination
  by (relation "measure length") (auto dest: utf8_next_bounds)

definition from_utf8_lossy :: "u8 list \<Rightarrow> ustr" where
  "from_utf8_lossy bs =
     (case utf8_lossy bs of (cs, r) \<Rightarrow> if r = [] then cs else cs @ [replacement])"

lemma utf8_lossy_append:
  "utf8_lossy (xs @ ys) =
     (case utf8_lossy xs of (c1, r1) \<Rightarrow> case utf8_lossy (r1 @ ys) of (c2, r2) \<Rightarrow> (c1 @ c2, r2))"
proof (induction xs rule: utf8_lossy.induct)
  case (2 b bs)
  show ?case
  proof (cases "utf8_next b bs")
    case (Valid c n)
    moreover from this have "utf8_next b (bs @ ys) = Valid c n" using utf8_next_append by simp
    moreover have "drop n (b # bs @ ys) = drop n (b # bs) @ ys"
      using utf8_next_bounds(1) [OF Valid] by (cases n) auto
    ultimately show ?thesis using "2.IH"(1) [OF Valid] by (simp split: prod.splits)
  next
    case (Invalid n)
    moreover from this have "utf8_next b (bs @ ys) = Invalid n" using utf8_next_append by simp
    moreover have "drop n (b # bs @ ys) = drop n (b # bs) @ ys"
      using utf8_next_bounds(2) [OF Invalid] by (cases n) auto
    ultimately show ?thesis using "2.IH"(2) [OF Invalid] by (simp split: prod.splits)
  qed (simp split: prod.splits)
qed simp

lemma utf8_lossy_rest: "utf8_lossy bs = (cs, r) \<Longrightarrow> utf8_lossy r = ([], r)"
  by (induction bs arbitrary: cs rule: utf8_lossy.induct)
    (auto split: utf8_step.splits prod.splits)

lemma from_utf8_lossy_whole: "from_utf8 bs = Inr cs \<Longrightarrow> utf8_lossy bs = (cs, [])"
  by (induction bs arbitrary: cs rule: from_utf8.induct)
    (auto split: utf8_step.splits sum.splits)

lemma from_utf8_error_head:
  assumes "from_utf8 (b # bs) = Inl (0, e)"
  shows "utf8_next b bs = (case e of None \<Rightarrow> Incomplete | Some n \<Rightarrow> Invalid n)"
proof (cases "utf8_next b bs")
  case (Valid c n)
  then show ?thesis using assms utf8_next_bounds(1) [OF Valid] by (auto split: sum.splits)
qed (use assms in auto)

lemma from_utf8_error_drop: "from_utf8 bs = Inl (k, e) \<Longrightarrow> from_utf8 (drop k bs) = Inl (0, e)"
proof (induction bs arbitrary: k rule: from_utf8.induct)
  case (2 b bs)
  show ?case
  proof (cases "utf8_next b bs")
    case (Valid c n)
    with "2.prems" obtain k' where k': "from_utf8 (drop n (b # bs)) = Inl (k', e)" "k = n + k'"
      by (auto split: sum.splits prod.splits)
    from "2.IH" [OF Valid k'(1)] k'(2) show ?thesis by (simp add: add.commute)
  qed (use "2.prems" in auto)
qed simp

lemma from_utf8_error_lossy:
  assumes "from_utf8 bs = Inl (k, e)"
  shows "\<exists>cs. from_utf8 (take k bs) = Inr cs \<and>
     utf8_lossy bs = (case e of
        None \<Rightarrow> (cs, drop k bs)
      | Some n \<Rightarrow> (case utf8_lossy (drop (k + n) bs) of (cs', r) \<Rightarrow> (cs @ replacement # cs', r)))"
proof -
  from from_utf8_valid_prefix [OF assms] obtain cs where cs: "from_utf8 (take k bs) = Inr cs"
    by blast
  have bs: "utf8_lossy bs = (case utf8_lossy (drop k bs) of (c2, r2) \<Rightarrow> (cs @ c2, r2))"
    using utf8_lossy_append [of "take k bs" "drop k bs"] from_utf8_lossy_whole [OF cs] by simp
  obtain b bs' where b: "drop k bs = b # bs'"
    using from_utf8_error [OF assms] by (cases "drop k bs") auto
  have hd: "utf8_next b bs' = (case e of None \<Rightarrow> Incomplete | Some n \<Rightarrow> Invalid n)"
    using from_utf8_error_head from_utf8_error_drop [OF assms] b by simp
  show ?thesis
  proof (cases e)
    case None
    with hd b bs cs show ?thesis by simp
  next
    case (Some n)
    have "drop n (b # bs') = drop (k + n) bs" using b by (metis drop_drop add.commute)
    with Some hd b bs cs show ?thesis by (simp split: prod.splits)
  qed
qed

section \<open>The ANSI escape parser\<close>

datatype ansi_state = AText | Escape | Csi | Osc | OscEscape

fun ansi_step :: "ansi_state \<Rightarrow> uchar \<Rightarrow> ansi_state" where
  "ansi_step AText ch = (if ch = 0x1b then Escape else AText)"
| "ansi_step Escape ch =
     (if ch = 0x5b then Csi
      else if ch = 0x5d then Osc
      else if ch = 0x1b then Escape
      else AText)"
| "ansi_step Csi ch = (if 0x40 \<le> ch \<and> ch \<le> 0x7e then AText else Csi)"
| "ansi_step Osc ch =
     (if ch = 0x7 then AText
      else if ch = 0x1b then OscEscape
      else Osc)"
| "ansi_step OscEscape ch =
     (if ch = 0x5c then AText
      else if ch = 0x1b then OscEscape
      else Osc)"

fun strip_ansi :: "ansi_state \<Rightarrow> ustr \<Rightarrow> ustr \<Rightarrow> ansi_state \<times> ustr" where
  "strip_ansi st [] out = (st, out)"
| "strip_ansi st (ch # cs) out =
     (let out' = (if st = AText \<and> ch \<noteq> 0x1b then out @ [ch] else out)
      in strip_ansi (ansi_step st ch) cs out')"

lemma strip_ansi_append:
  "strip_ansi st (xs @ ys) out = (case strip_ansi st xs out of (st1, o1) \<Rightarrow> strip_ansi st1 ys o1)"
  by (induction xs arbitrary: st out) (auto simp: Let_def)

lemma strip_ansi_out:
  "strip_ansi st cs out = (fst (strip_ansi st cs []), out @ snd (strip_ansi st cs []))"
proof (induction cs arbitrary: st out)
  case (Cons c cs)
  show ?case
    by (simp add: Let_def) (metis Cons.IH append_assoc fst_conv snd_conv)
qed simp

lemma strip_ansi_subset: "set (snd (strip_ansi st cs out)) \<subseteq> set out \<union> (set cs - {0x1b})"
proof (induction cs arbitrary: st out)
  case (Cons c cs)
  show ?case
    using Cons.IH [of "ansi_step st c" "if st = AText \<and> c \<noteq> 0x1b then out @ [c] else out"]
    by (auto simp: Let_def split: if_splits)
qed simp

lemma strip_ansi_plain: "0x1b \<notin> set cs \<Longrightarrow> strip_ansi AText cs out = (AText, out @ cs)"
  by (induction cs arbitrary: out) auto

section \<open>The incremental decoder\<close>

record stream_decoder =
  pending_utf8 :: "u8 list"
  ansi :: ansi_state

definition decoder_default :: stream_decoder where
  "decoder_default = \<lparr>pending_utf8 = [], ansi = AText\<rparr>"

text \<open>
  The loop of \<open>decode\<close> on the bytes not yet consumed: the parser state, the output and
  the bytes left pending when it stops.
\<close>

function decode_loop :: "ansi_state \<Rightarrow> u8 list \<Rightarrow> ustr \<Rightarrow> ansi_state \<times> ustr \<times> u8 list" where
  "decode_loop st bs out =
     (if bs = [] then (st, out, [])
      else case from_utf8 bs of
        Inr valid \<Rightarrow> (case strip_ansi st valid out of (st', out') \<Rightarrow> (st', out', []))
      | Inl (valid_up_to, error_len) \<Rightarrow>
          (case (case from_utf8 (take valid_up_to bs) of
                   Inr valid \<Rightarrow> strip_ansi st valid out
                 | Inl _ \<Rightarrow> (st, out)) of
             (st1, out1) \<Rightarrow>
               (case error_len of
                  None \<Rightarrow> (st1, out1, drop valid_up_to bs)
                | Some n \<Rightarrow>
                    (case strip_ansi st1 [replacement] out1 of
                       (st2, out2) \<Rightarrow> decode_loop st2 (drop (valid_up_to + n) bs) out2))))"
  by pat_completeness auto
termination
  by (relation "measure (\<lambda>(st, bs, out). length bs)") (auto dest!: from_utf8_error)

declare decode_loop.simps [simp del]

definition decode :: "stream_decoder \<Rightarrow> u8 list \<Rightarrow> ustr \<Rightarrow> stream_decoder \<times> ustr" where
  "decode d bytes out =
     (case decode_loop (ansi d) (pending_utf8 d @ bytes) out of
        (st, out', rest) \<Rightarrow> (d\<lparr>pending_utf8 := rest, ansi := st\<rparr>, out'))"

definition decoder_finish :: "stream_decoder \<Rightarrow> ustr \<Rightarrow> stream_decoder \<times> ustr" where
  "decoder_finish d out =
     (case strip_ansi (ansi d) (from_utf8_lossy (pending_utf8 d)) out of
        (_, out') \<Rightarrow> (d\<lparr>pending_utf8 := [], ansi := AText\<rparr>, out'))"

lemma decode_loop_spec:
  "decode_loop st bs out =
     (case utf8_lossy bs of (cs, r) \<Rightarrow> case strip_ansi st cs out of (st', out') \<Rightarrow> (st', out', r))"
proof (induction st bs out rule: decode_loop.induct)
  case (1 st bs out)
  show ?case
  proof (cases "from_utf8 bs")
    case (Inr cs)
    then show ?thesis
      using from_utf8_lossy_whole [OF Inr]
      by (auto simp: decode_loop.simps [of st bs out] split: prod.splits)
  next
    case (Inl err)
    obtain k e where err: "err = (k, e)" by (cases err)
    from Inl err have ne: "bs \<noteq> []" by auto
    from from_utf8_error_lossy [OF Inl [unfolded err]] obtain cs
      where cs: "from_utf8 (take k bs) = Inr cs"
        and ly: "utf8_lossy bs = (case e of
            None \<Rightarrow> (cs, drop k bs)
          | Some n \<Rightarrow> (case utf8_lossy (drop (k + n) bs) of (cs', r) \<Rightarrow> (cs @ replacement # cs', r)))"
      by blast
    obtain st1 out1 where s1: "strip_ansi st cs out = (st1, out1)" by fastforce
    show ?thesis
    proof (cases e)
      case None
      with Inl err ne cs ly s1 show ?thesis by (simp add: decode_loop.simps [of st bs out])
    next
      case (Some n)
      obtain st2 out2 where s2: "strip_ansi st1 [replacement] out1 = (st2, out2)" by fastforce
      obtain cs' r where tl: "utf8_lossy (drop (k + n) bs) = (cs', r)" by fastforce
      have "decode_loop st2 (drop (k + n) bs) out2
          = (case strip_ansi st2 cs' out2 of (st', out') \<Rightarrow> (st', out', r))"
        using "1.IH" [OF ne Inl err [symmetric] _ Some, of st1 out1 st2 out2] cs s1 s2 tl
        by simp
      moreover have "strip_ansi st (cs @ replacement # cs') out = strip_ansi st2 cs' out2"
        using s1 s2 strip_ansi_append [of st1 "[replacement]" cs' out1]
        by (simp add: strip_ansi_append)
      ultimately show ?thesis
        using Inl err ne cs ly s1 s2 tl Some by (simp add: decode_loop.simps [of st bs out])
    qed
  qed
qed

lemma decode_spec:
  "decode d bs out =
     (case utf8_lossy (pending_utf8 d @ bs) of (cs, r) \<Rightarrow>
        (\<lparr>pending_utf8 = r, ansi = fst (strip_ansi (ansi d) cs [])\<rparr>,
         out @ snd (strip_ansi (ansi d) cs [])))"
proof -
  obtain cs r where "utf8_lossy (pending_utf8 d @ bs) = (cs, r)" by fastforce
  then show ?thesis
    using strip_ansi_out [of "ansi d" cs out]
    by (cases d) (simp add: decode_def decode_loop_spec)
qed

text \<open>Between chunks a decoder holds at most the start of one character.\<close>

definition decoder_ok :: "stream_decoder \<Rightarrow> bool" where
  "decoder_ok d \<longleftrightarrow> utf8_lossy (pending_utf8 d) = ([], pending_utf8 d)"

lemma decoder_ok_default [simp]: "decoder_ok decoder_default"
  by (simp add: decoder_ok_def decoder_default_def)

lemma decoder_ok_decode: "decoder_ok (fst (decode d bs out))"
  by (auto simp: decoder_ok_def decode_spec split: prod.splits dest: utf8_lossy_rest)

lemma decoder_ok_finish: "decoder_ok (fst (decoder_finish d out))"
  by (auto simp: decoder_ok_def decoder_finish_def split: prod.splits)

lemma decode_out: "decode d bs out = (fst (decode d bs []), out @ snd (decode d bs []))"
  by (simp add: decode_spec split: prod.splits)

lemma decode_append:
  "decode d (xs @ ys) out = (case decode d xs out of (d1, o1) \<Rightarrow> decode d1 ys o1)"
proof -
  obtain c1 r1 where l1: "utf8_lossy (pending_utf8 d @ xs) = (c1, r1)" by fastforce
  obtain c2 r2 where l2: "utf8_lossy (r1 @ ys) = (c2, r2)" by fastforce
  obtain st o1 where s1: "strip_ansi (ansi d) c1 [] = (st, o1)" by fastforce
  have "utf8_lossy (pending_utf8 d @ xs @ ys) = (c1 @ c2, r2)"
    using utf8_lossy_append [of "pending_utf8 d @ xs" ys] l1 l2 by simp
  moreover have "strip_ansi (ansi d) (c1 @ c2) []
      = (fst (strip_ansi st c2 []), o1 @ snd (strip_ansi st c2 []))"
    using s1 strip_ansi_out [of st c2 o1] by (simp add: strip_ansi_append)
  ultimately show ?thesis using l1 l2 s1 by (simp add: decode_spec)
qed

lemma decode_Nil: "decoder_ok d \<Longrightarrow> decode d [] out = (d, out)"
  by (simp add: decode_spec decoder_ok_def)

fun decode_all :: "stream_decoder \<Rightarrow> u8 list list \<Rightarrow> ustr \<Rightarrow> stream_decoder \<times> ustr" where
  "decode_all d [] out = (d, out)"
| "decode_all d (c # cs) out = (case decode d c out of (d1, o1) \<Rightarrow> decode_all d1 cs o1)"

lemma decode_all_concat:
  "decoder_ok d \<Longrightarrow> decode_all d chunks out = decode d (concat chunks) out"
proof (induction chunks arbitrary: d out)
  case (Cons c cs)
  then show ?case using decoder_ok_decode [of d c out]
    by (auto simp: decode_append split: prod.splits)
qed (simp add: decode_Nil)

lemma from_utf8_lossy_rest:
  "utf8_lossy bs = (cs, r) \<Longrightarrow> from_utf8_lossy bs = cs @ from_utf8_lossy r"
  by (auto simp: from_utf8_lossy_def dest: utf8_lossy_rest)

lemma decode_finish_spec:
  "(case decode d bs out of (d1, o1) \<Rightarrow> decoder_finish d1 o1) =
     (decoder_default,
      out @ snd (strip_ansi (ansi d) (from_utf8_lossy (pending_utf8 d @ bs)) []))"
proof -
  obtain cs r where ly: "utf8_lossy (pending_utf8 d @ bs) = (cs, r)" by fastforce
  obtain st o1 where s1: "strip_ansi (ansi d) cs [] = (st, o1)" by fastforce
  have "strip_ansi (ansi d) (from_utf8_lossy (pending_utf8 d @ bs)) []
      = strip_ansi st (from_utf8_lossy r) o1"
    using from_utf8_lossy_rest [OF ly] s1 by (simp add: strip_ansi_append)
  moreover have "strip_ansi st (from_utf8_lossy r) (out @ o1)
      = (fst (strip_ansi st (from_utf8_lossy r) o1), out @ snd (strip_ansi st (from_utf8_lossy r) o1))"
    using strip_ansi_out [of st "from_utf8_lossy r" "out @ o1"]
      strip_ansi_out [of st "from_utf8_lossy r" o1] by simp
  ultimately show ?thesis
    using ly s1
    by (simp add: decode_spec decoder_finish_def decoder_default_def split: prod.splits)
qed

end
