(* ===== verification/Run_Output.thy ===== *)
theory Run_Output
  imports Bounded_Tail Output_Decoder
begin

text \<open>
  The retained output of a Bash run (\<open>src/bash/output.rs\<close>): the bounded tail of one
  stream (\<open>TailBuffer\<close>) with its absolute offsets and pages, the three streams of a run
  (\<open>RunOutput\<close>) and the continuation tokens of \<open>bash_output\<close>. Byte slices of text
  panic off a character boundary; the operations return \<open>None\<close> there, and the buffer's
  invariant shows that they never do.
\<close>

section \<open>Streams and pipes\<close>

datatype output_stream = Combined | Stdout | Stderr

definition stream_as_str :: "output_stream \<Rightarrow> string" where
  "stream_as_str s = (case s of
     Combined \<Rightarrow> ''combined'' | Stdout \<Rightarrow> ''stdout'' | Stderr \<Rightarrow> ''stderr'')"

datatype pipe = PStdout | PStderr

section \<open>The tail buffer\<close>

record tail_buffer =
  tb_text :: ustr
  tb_start :: nat
  tb_retained_chars :: nat
  tb_dropped_chars :: nat
  tb_limit :: nat

definition tail_new :: "nat \<Rightarrow> tail_buffer" where
  "tail_new limit =
     \<lparr>tb_text = [], tb_start = 0, tb_retained_chars = 0, tb_dropped_chars = 0, tb_limit = limit\<rparr>"

definition tail_push :: "tail_buffer \<Rightarrow> ustr \<Rightarrow> tail_buffer option" where
  "tail_push b t =
     (let text' = tb_text b @ t;
          retained = tb_retained_chars b + length t
      in if retained \<le> tb_limit b
         then Some (b\<lparr>tb_text := text', tb_retained_chars := retained\<rparr>)
         else
           let excess = retained - tb_limit b
           in (case slice_from text' (tb_start b) of
                 None \<Rightarrow> None
               | Some tail \<Rightarrow>
                   let advance = (case char_index_nth tail excess of
                                    None \<Rightarrow> utf8_len text' - tb_start b
                                  | Some index \<Rightarrow> index);
                       start = tb_start b + advance;
                       b' = b\<lparr>tb_text := text', tb_start := start,
                              tb_retained_chars := retained - excess,
                              tb_dropped_chars := tb_dropped_chars b + excess\<rparr>
                   in if start > utf8_len text' div 2
                      then (case slice_from text' start of
                              None \<Rightarrow> None
                            | Some rest \<Rightarrow> Some (b'\<lparr>tb_text := rest, tb_start := 0\<rparr>))
                      else Some b'))"

definition tail_retained :: "tail_buffer \<Rightarrow> ustr option" where
  "tail_retained b = slice_from (tb_text b) (tb_start b)"

definition tail_total_chars :: "tail_buffer \<Rightarrow> nat" where
  "tail_total_chars b = tb_dropped_chars b + tb_retained_chars b"

definition byte_at_char :: "ustr \<Rightarrow> nat \<Rightarrow> nat" where
  "byte_at_char value chars =
     (case char_index_nth value chars of None \<Rightarrow> utf8_len value | Some index \<Rightarrow> index)"

record page =
  page_text :: ustr
  page_next :: "nat option"

definition tail_page :: "tail_buffer \<Rightarrow> nat \<Rightarrow> nat \<Rightarrow> page option" where
  "tail_page b from max_chars =
     (case tail_retained b of
        None \<Rightarrow> None
      | Some retained \<Rightarrow>
          let skip = min (from - tb_dropped_chars b) (tb_retained_chars b);
              begin = byte_at_char retained skip
          in (case slice_from retained begin of
                None \<Rightarrow> None
              | Some rest \<Rightarrow>
                  let end = byte_at_char rest max_chars
                  in (case slice_to rest end of
                        None \<Rightarrow> None
                      | Some head \<Rightarrow>
                          Some \<lparr>page_text = head,
                                page_next = (if end < utf8_len rest
                                             then Some (tb_dropped_chars b + skip + length head)
                                             else None)\<rparr>)))"

text \<open>\<open>clamp_chars\<close>: the inner option is the code's, the outer one a panic.\<close>

definition clamp_chars :: "ustr \<Rightarrow> nat \<Rightarrow> bool \<Rightarrow> ustr option option" where
  "clamp_chars value limit keep_tail =
     (let count = length value
      in if count \<le> limit then Some None
         else if keep_tail
              then map_option Some (slice_from value (byte_at_char value (count - limit)))
              else map_option Some (slice_to value (byte_at_char value limit)))"

subsection \<open>The invariant and the bounded-tail contract\<close>

definition tail_kept :: "tail_buffer \<Rightarrow> ustr" where
  "tail_kept b = (case tail_retained b of None \<Rightarrow> [] | Some live \<Rightarrow> live)"

definition tail_inv :: "tail_buffer \<Rightarrow> bool" where
  "tail_inv b \<longleftrightarrow>
     tail_retained b \<noteq> None
   \<and> tb_retained_chars b = length (tail_kept b)
   \<and> length (tail_kept b) \<le> tb_limit b
   \<and> (tb_dropped_chars b \<noteq> 0 \<longrightarrow> length (tail_kept b) = tb_limit b)
   \<and> 2 * tb_start b \<le> utf8_len (tb_text b)"

lemma byte_at_char_take: "byte_at_char cs n = utf8_len (take n cs)"
  by (simp add: byte_at_char_def char_index_nth_def)

lemma slice_from_SomeD:
  "slice_from cs n = Some live \<Longrightarrow> \<exists>dead. cs = dead @ live \<and> n = utf8_len dead"
proof (induction cs n rule: slice_from.induct)
  case (3 c cs n)
  then obtain dead where "cs = dead @ live" "Suc n - len_utf8 c = utf8_len dead"
    by (auto split: if_splits)
  with 3 show ?case by (intro exI [of _ "c # dead"]) (auto split: if_splits)
qed auto

lemma tail_invE:
  assumes "tail_inv b"
  obtains dead where "tb_text b = dead @ tail_kept b" "tb_start b = utf8_len dead"
proof -
  from assms obtain live where "tail_retained b = Some live"
    by (auto simp: tail_inv_def)
  with that show thesis
    using slice_from_SomeD by (fastforce simp: tail_kept_def tail_retained_def)
qed

lemma tail_kept_eq:
  "tb_text b = dead @ live \<Longrightarrow> tb_start b = utf8_len dead \<Longrightarrow> tail_kept b = live"
  by (simp add: tail_kept_def tail_retained_def)

lemma tail_new_inv [simp]: "tail_inv (tail_new n)" "tail_kept (tail_new n) = []"
  "tb_dropped_chars (tail_new n) = 0" "tb_limit (tail_new n) = n"
  by (simp_all add: tail_inv_def tail_new_def tail_kept_def tail_retained_def)

lemma tail_push_within:
  assumes "tail_inv b" "length (tail_kept b) + length t \<le> tb_limit b"
  shows "tail_push b t = Some (b\<lparr>tb_text := tb_text b @ t,
      tb_retained_chars := length (tail_kept b) + length t\<rparr>)"
  using assms by (simp add: tail_push_def tail_inv_def Let_def)

lemma tail_push_over:
  assumes inv: "tail_inv b" and over: "tb_limit b < length (tail_kept b) + length t"
  defines "excess \<equiv> length (tail_kept b) + length t - tb_limit b"
  defines "live \<equiv> drop excess (tail_kept b @ t)"
  shows "\<exists>b'. tail_push b t = Some b' \<and> tb_limit b' = tb_limit b
      \<and> tb_dropped_chars b' = tb_dropped_chars b + excess
      \<and> tb_retained_chars b' = tb_limit b
      \<and> 2 * tb_start b' \<le> utf8_len (tb_text b')
      \<and> tail_retained b' = Some live"
proof -
  obtain dead where d: "tb_text b = dead @ tail_kept b" "tb_start b = utf8_len dead"
    using inv by (rule tail_invE)
  have r: "tb_retained_chars b = length (tail_kept b)" using inv by (simp add: tail_inv_def)
  define g where "g = utf8_len (take excess (tail_kept b @ t))"
  define full where "full = tb_text b @ t"
  have split: "full = (dead @ take excess (tail_kept b @ t)) @ live"
    by (simp add: full_def d live_def del: take_append drop_append)
  have sl: "slice_from full (tb_start b) = Some (tail_kept b @ t)"
    by (simp add: full_def d)
  have adv: "(case char_index_nth (tail_kept b @ t) excess of
        None \<Rightarrow> utf8_len full - tb_start b | Some index \<Rightarrow> index) = g"
    by (auto simp: char_index_nth_def g_def full_def d)
  have sl2: "slice_from full (tb_start b + g) = Some live"
    unfolding split d(2) g_def
    using slice_from_append [of "dead @ take excess (tail_kept b @ t)" live]
    by (simp del: take_append)
  have lim: "length (tail_kept b) + length t - excess = tb_limit b"
    using over by (simp add: excess_def)
  have push: "tail_push b t =
     (let b' = b\<lparr>tb_text := full, tb_start := tb_start b + g, tb_retained_chars := tb_limit b,
                 tb_dropped_chars := tb_dropped_chars b + excess\<rparr>
      in if tb_start b + g > utf8_len full div 2
         then Some (b'\<lparr>tb_text := live, tb_start := 0\<rparr>) else Some b')"
    unfolding tail_push_def Let_def r full_def [symmetric] excess_def [symmetric] lim
    using over adv by (simp add: sl sl2)
  show ?thesis
    unfolding push Let_def
    using sl2 by (cases "tb_start b + g > utf8_len full div 2") (simp_all add: tail_retained_def)
qed

text \<open>One push, seen from outside: the laws of a counted bounded tail.\<close>

lemma tail_push_spec:
  assumes "tail_inv b"
  shows "\<exists>b'. tail_push b t = Some b' \<and> tail_inv b' \<and> tb_limit b' = tb_limit b
     \<and> tail_kept b' = take_last (tb_limit b) (tail_kept b @ t)
     \<and> tb_dropped_chars b' + length (tail_kept b')
         = tb_dropped_chars b + length (tail_kept b) + length t"
proof (cases "length (tail_kept b) + length t \<le> tb_limit b")
  case True
  obtain dead where d: "tb_text b = dead @ tail_kept b" "tb_start b = utf8_len dead"
    using assms by (rule tail_invE)
  let ?b = "b\<lparr>tb_text := tb_text b @ t, tb_retained_chars := length (tail_kept b) + length t\<rparr>"
  have r: "tail_retained ?b = Some (tail_kept b @ t)"
    by (simp add: tail_retained_def d)
  then have k: "tail_kept ?b = tail_kept b @ t" by (simp add: tail_kept_def)
  have "tail_inv ?b" using assms True r k by (auto simp: tail_inv_def)
  with tail_push_within [OF assms True] k True show ?thesis by simp
next
  case False
  then have over: "tb_limit b < length (tail_kept b) + length t" by simp
  from tail_push_over [OF assms over] obtain b' where b':
    "tail_push b t = Some b'" "tb_limit b' = tb_limit b"
    "tb_dropped_chars b' = tb_dropped_chars b + (length (tail_kept b) + length t - tb_limit b)"
    "tb_retained_chars b' = tb_limit b" "2 * tb_start b' \<le> utf8_len (tb_text b')"
    "tail_retained b' = Some (take_last (tb_limit b) (tail_kept b @ t))"
    by (auto simp: take_last_def)
  then have k: "tail_kept b' = take_last (tb_limit b) (tail_kept b @ t)"
    by (simp add: tail_kept_def)
  have "tail_inv b'" using b' k over by (auto simp: tail_inv_def)
  with b' k over show ?thesis by auto
qed

lemma tail_pushD:
  "tail_inv b \<Longrightarrow> tail_push b t = Some b' \<Longrightarrow> tail_inv b' \<and> tb_limit b' = tb_limit b
     \<and> tail_kept b' = take_last (tb_limit b) (tail_kept b @ t)
     \<and> tb_dropped_chars b' + length (tail_kept b')
         = tb_dropped_chars b + length (tail_kept b) + length t"
  using tail_push_spec [of b t] by auto

interpretation tail: counted_tail tail_push tail_kept tb_limit tail_inv tb_dropped_chars
proof unfold_locales
  show "tail_inv b \<Longrightarrow> \<exists>b'. tail_push b xs = Some b'" for b xs using tail_push_spec [of b xs] by blast
  show "tail_inv b \<Longrightarrow> length (tail_kept b) \<le> tb_limit b" for b by (simp add: tail_inv_def)
qed (use tail_pushD in blast)+

lemma tail_page_spec:
  assumes "tail_inv b"
  defines "skip from \<equiv> min (from - tb_dropped_chars b) (length (tail_kept b))"
  shows "tail_page b from max_chars = Some
     \<lparr>page_text = take max_chars (drop (skip from) (tail_kept b)),
      page_next = (if skip from + max_chars < length (tail_kept b)
                   then Some (tb_dropped_chars b + skip from + max_chars) else None)\<rparr>"
proof -
  obtain live where live: "tail_retained b = Some live" "tail_kept b = live"
    "tb_retained_chars b = length live"
    using assms(1) by (auto simp: tail_inv_def tail_kept_def)
  define s where "s = min (from - tb_dropped_chars b) (length live)"
  have s: "skip from = s" by (simp add: skip_def s_def live)
  let ?s = s and ?rest = "drop s live"
  have e: "utf8_len (take max_chars ?rest) < utf8_len ?rest \<longleftrightarrow> ?s + max_chars < length live"
  proof -
    have "utf8_len ?rest = utf8_len (take max_chars ?rest) + utf8_len (drop max_chars ?rest)"
      by (metis append_take_drop_id utf8_len_append)
    then show ?thesis by auto
  qed
  have "slice_from live (byte_at_char live ?s) = Some ?rest"
    by (simp add: byte_at_char_take slice_from_take)
  moreover have "slice_to ?rest (byte_at_char ?rest max_chars) = Some (take max_chars ?rest)"
    by (simp add: byte_at_char_take slice_to_take)
  ultimately show ?thesis
    using e unfolding tail_page_def s live
    by (simp add: Let_def s_def [symmetric] byte_at_char_take min_absorb2)
qed

lemma clamp_chars_spec:
  "clamp_chars value limit keep_tail = Some
     (if length value \<le> limit then None
      else Some (if keep_tail then take_last limit value else take limit value))"
  by (simp add: clamp_chars_def Let_def byte_at_char_take slice_from_take slice_to_take take_last_def)

section \<open>The output of a run\<close>

record run_output =
  ro_stdout :: tail_buffer
  ro_stderr :: tail_buffer
  ro_combined :: tail_buffer
  ro_stdout_decoder :: stream_decoder
  ro_stderr_decoder :: stream_decoder

definition output_new :: "nat \<Rightarrow> run_output" where
  "output_new limit =
     \<lparr>ro_stdout = tail_new limit, ro_stderr = tail_new limit, ro_combined = tail_new limit,
      ro_stdout_decoder = decoder_default, ro_stderr_decoder = decoder_default\<rparr>"

definition output_decoder :: "run_output \<Rightarrow> pipe \<Rightarrow> stream_decoder" where
  "output_decoder ro p = (case p of PStdout \<Rightarrow> ro_stdout_decoder ro | PStderr \<Rightarrow> ro_stderr_decoder ro)"

definition set_decoder :: "run_output \<Rightarrow> pipe \<Rightarrow> stream_decoder \<Rightarrow> run_output" where
  "set_decoder ro p d = (case p of
     PStdout \<Rightarrow> ro\<lparr>ro_stdout_decoder := d\<rparr> | PStderr \<Rightarrow> ro\<lparr>ro_stderr_decoder := d\<rparr>)"

definition output_append :: "run_output \<Rightarrow> pipe \<Rightarrow> ustr \<Rightarrow> run_output option" where
  "output_append ro p t =
     (if t = [] then Some ro
      else
        (case (case p of
                 PStdout \<Rightarrow> map_option (\<lambda>b. ro\<lparr>ro_stdout := b\<rparr>) (tail_push (ro_stdout ro) t)
               | PStderr \<Rightarrow> map_option (\<lambda>b. ro\<lparr>ro_stderr := b\<rparr>) (tail_push (ro_stderr ro) t)) of
           None \<Rightarrow> None
         | Some ro1 \<Rightarrow> map_option (\<lambda>b. ro1\<lparr>ro_combined := b\<rparr>) (tail_push (ro_combined ro1) t)))"

definition output_ingest :: "run_output \<Rightarrow> pipe \<Rightarrow> u8 list \<Rightarrow> run_output option" where
  "output_ingest ro p bytes =
     (case decode (output_decoder ro p) bytes [] of
        (d, t) \<Rightarrow> output_append (set_decoder ro p d) p t)"

definition output_finish :: "run_output \<Rightarrow> pipe \<Rightarrow> run_output option" where
  "output_finish ro p =
     (case decoder_finish (output_decoder ro p) [] of
        (d, t) \<Rightarrow> output_append (set_decoder ro p d) p t)"

definition output_stream_of :: "run_output \<Rightarrow> output_stream \<Rightarrow> tail_buffer" where
  "output_stream_of ro s = (case s of
     Combined \<Rightarrow> ro_combined ro | Stdout \<Rightarrow> ro_stdout ro | Stderr \<Rightarrow> ro_stderr ro)"

definition output_truncated :: "run_output \<Rightarrow> bool" where
  "output_truncated ro \<longleftrightarrow> 0 < tb_dropped_chars (ro_combined ro)"

text \<open>
  The invariant of a run's output: the three buffers are well formed with one limit, and
  the combined stream has received every character of the two others.
\<close>

definition output_inv :: "nat \<Rightarrow> run_output \<Rightarrow> bool" where
  "output_inv limit ro \<longleftrightarrow>
     (\<forall>s \<in> {Combined, Stdout, Stderr}.
        tail_inv (output_stream_of ro s) \<and> tb_limit (output_stream_of ro s) = limit)
   \<and> (\<forall>p \<in> {PStdout, PStderr}. decoder_ok (output_decoder ro p))
   \<and> tail_total_chars (ro_combined ro) = tail_total_chars (ro_stdout ro) + tail_total_chars (ro_stderr ro)"

lemma output_inv_new [simp]: "output_inv limit (output_new limit)"
  by (simp add: output_inv_def output_new_def output_stream_of_def output_decoder_def
      tail_total_chars_def) (simp add: tail_new_def)

lemma set_decoder_sel [simp]:
  "ro_stdout (set_decoder ro p d) = ro_stdout ro"
  "ro_stderr (set_decoder ro p d) = ro_stderr ro"
  "ro_combined (set_decoder ro p d) = ro_combined ro"
  "output_decoder (set_decoder ro p d) q = (if p = q then d else output_decoder ro q)"
  by (auto simp: set_decoder_def output_decoder_def split: pipe.splits)

lemma output_inv_set_decoder:
  "output_inv limit ro \<Longrightarrow> decoder_ok d \<Longrightarrow> output_inv limit (set_decoder ro p d)"
  by (auto simp: output_inv_def output_stream_of_def)

definition pipe_buffer :: "run_output \<Rightarrow> pipe \<Rightarrow> tail_buffer" where
  "pipe_buffer ro p = (case p of PStdout \<Rightarrow> ro_stdout ro | PStderr \<Rightarrow> ro_stderr ro)"

lemma tail_total_push:
  "tail_inv b \<Longrightarrow> tail_push b t = Some b' \<Longrightarrow> tail_total_chars b' = tail_total_chars b + length t"
  using tail.push_dropped [of b t b'] tail.push_inv [of b t b']
  by (auto simp: tail_total_chars_def tail_inv_def)

lemma output_append_spec:
  assumes "output_inv limit ro"
  shows "\<exists>ro'. output_append ro p t = Some ro' \<and> output_inv limit ro'
     \<and> (\<forall>q. output_decoder ro' q = output_decoder ro q)
     \<and> tail_kept (pipe_buffer ro' p) = take_last limit (tail_kept (pipe_buffer ro p) @ t)
     \<and> (\<forall>q. q \<noteq> p \<longrightarrow> pipe_buffer ro' q = pipe_buffer ro q)
     \<and> tail_kept (ro_combined ro') = take_last limit (tail_kept (ro_combined ro) @ t)"
proof (cases "t = []")
  case True
  have "length (tail_kept (pipe_buffer ro p)) \<le> limit" "length (tail_kept (ro_combined ro)) \<le> limit"
    using assms tail.kept_bounded [of "ro_stdout ro"] tail.kept_bounded [of "ro_stderr ro"]
      tail.kept_bounded [of "ro_combined ro"]
    by (auto simp: output_inv_def output_stream_of_def pipe_buffer_def split: pipe.splits)
  with True assms show ?thesis by (simp add: output_append_def)
next
  case False
  have i: "tail_inv (pipe_buffer ro p)" "tb_limit (pipe_buffer ro p) = limit"
    "tail_inv (ro_combined ro)" "tb_limit (ro_combined ro) = limit"
    using assms by (auto simp: output_inv_def output_stream_of_def pipe_buffer_def split: pipe.splits)
  obtain b where b: "tail_push (pipe_buffer ro p) t = Some b" "tail_inv b" "tb_limit b = limit"
      "tail_kept b = take_last limit (tail_kept (pipe_buffer ro p) @ t)"
    using tail_push_spec [OF i(1), of t] i(2) by auto
  obtain c where c: "tail_push (ro_combined ro) t = Some c" "tail_inv c" "tb_limit c = limit"
      "tail_kept c = take_last limit (tail_kept (ro_combined ro) @ t)"
    using tail_push_spec [OF i(3), of t] i(4) by auto
  note tot = tail_total_push [OF i(1) b(1)] tail_total_push [OF i(3) c(1)]
  let ?r = "(case p of PStdout \<Rightarrow> ro\<lparr>ro_stdout := b\<rparr> | PStderr \<Rightarrow> ro\<lparr>ro_stderr := b\<rparr>)\<lparr>ro_combined := c\<rparr>"
  have app: "output_append ro p t = Some ?r"
    using False b(1) c(1) by (cases p) (simp_all add: output_append_def pipe_buffer_def)
  have inv: "output_inv limit ?r"
    using assms b c tot
    by (cases p) (auto simp: output_inv_def output_stream_of_def output_decoder_def pipe_buffer_def)
  show ?thesis
    by (intro exI [of _ ?r] conjI app inv)
      (use b c in \<open>cases p; auto simp: output_decoder_def pipe_buffer_def split: pipe.splits\<close>)+
qed

lemma output_ingest_spec:
  assumes "output_inv limit ro"
  shows "\<exists>ro'. output_ingest ro p bytes = Some ro' \<and> output_inv limit ro'
     \<and> (\<forall>q. output_decoder ro' q
          = (if q = p then fst (decode (output_decoder ro p) bytes []) else output_decoder ro q))
     \<and> (\<forall>q. tail_kept (pipe_buffer ro' q)
          = (if q = p then take_last limit
               (tail_kept (pipe_buffer ro p) @ snd (decode (output_decoder ro p) bytes []))
             else tail_kept (pipe_buffer ro q)))"
proof -
  obtain d t where d: "decode (output_decoder ro p) bytes [] = (d, t)" by fastforce
  then have "decoder_ok d" using decoder_ok_decode [of "output_decoder ro p" bytes "[]"] by simp
  with assms have "output_inv limit (set_decoder ro p d)" by (rule output_inv_set_decoder)
  from output_append_spec [OF this, of p t] d show ?thesis
    by (fastforce simp: output_ingest_def pipe_buffer_def split: pipe.splits)
qed

lemma output_finish_spec:
  assumes "output_inv limit ro"
  shows "\<exists>ro'. output_finish ro p = Some ro' \<and> output_inv limit ro'"
proof -
  obtain d t where d: "decoder_finish (output_decoder ro p) [] = (d, t)" by fastforce
  then have "decoder_ok d" using decoder_ok_finish [of "output_decoder ro p" "[]"] by simp
  with assms have "output_inv limit (set_decoder ro p d)" by (rule output_inv_set_decoder)
  from output_append_spec [OF this, of p t] d show ?thesis
    by (auto simp: output_finish_def)
qed

text \<open>A run's chunks in the order the readers delivered them.\<close>

definition ingest_all :: "run_output \<Rightarrow> (pipe \<times> u8 list) list \<Rightarrow> run_output option" where
  "ingest_all ro chunks = fold_opt (\<lambda>r (p, bytes). output_ingest r p bytes) ro chunks"

definition pipe_bytes :: "pipe \<Rightarrow> (pipe \<times> u8 list) list \<Rightarrow> u8 list" where
  "pipe_bytes p chunks = concat (map snd (filter (\<lambda>c. fst c = p) chunks))"

lemma pipe_bytes_Cons [simp]:
  "pipe_bytes p ((q, bs) # chunks) = (if q = p then bs @ pipe_bytes p chunks else pipe_bytes p chunks)"
  by (simp add: pipe_bytes_def)

lemma ingest_all_spec:
  assumes "output_inv limit ro"
  shows "\<exists>ro'. ingest_all ro chunks = Some ro' \<and> output_inv limit ro'
     \<and> (\<forall>q. tail_kept (pipe_buffer ro' q)
          = take_last limit (tail_kept (pipe_buffer ro q)
              @ snd (decode (output_decoder ro q) (pipe_bytes q chunks) [])))"
  using assms
proof (induction chunks arbitrary: ro)
  case Nil
  have "length (tail_kept (pipe_buffer ro q)) \<le> limit" for q
    using Nil tail.kept_bounded [of "pipe_buffer ro q"]
    by (auto simp: output_inv_def output_stream_of_def pipe_buffer_def split: pipe.splits)
  moreover have "decoder_ok (output_decoder ro q)" for q
    using Nil by (cases q) (auto simp: output_inv_def)
  ultimately show ?case
    using Nil by (simp add: ingest_all_def pipe_bytes_def decode_Nil)
next
  case (Cons c chunks)
  obtain p bytes where c: "c = (p, bytes)" by (cases c)
  from output_ingest_spec [OF Cons.prems, of p bytes] obtain r1 where
    r1: "output_ingest ro p bytes = Some r1" "output_inv limit r1"
    and d1: "\<And>q. output_decoder r1 q
          = (if q = p then fst (decode (output_decoder ro p) bytes []) else output_decoder ro q)"
    and k1: "\<And>q. tail_kept (pipe_buffer r1 q)
          = (if q = p then take_last limit
               (tail_kept (pipe_buffer ro p) @ snd (decode (output_decoder ro p) bytes []))
             else tail_kept (pipe_buffer ro q))"
    by blast
  have app: "snd (decode (output_decoder ro p) (bytes @ ys) [])
      = snd (decode (output_decoder ro p) bytes []) @ snd (decode (output_decoder r1 p) ys [])" for ys
    using d1 [of p] decode_out [of "output_decoder r1 p" ys "snd (decode (output_decoder ro p) bytes [])"]
    by (simp add: decode_append case_prod_beta)
  from Cons.IH [OF r1(2)] obtain r2 where r2: "ingest_all r1 chunks = Some r2" "output_inv limit r2"
    and k2: "\<And>q. tail_kept (pipe_buffer r2 q)
          = take_last limit (tail_kept (pipe_buffer r1 q)
              @ snd (decode (output_decoder r1 q) (pipe_bytes q chunks) []))"
    by blast
  have "tail_kept (pipe_buffer r2 q) = take_last limit (tail_kept (pipe_buffer ro q)
              @ snd (decode (output_decoder ro q) (pipe_bytes q (c # chunks)) []))" for q
    using k2 [of q] k1 [of q] d1 [of q] app
    by (cases "q = p") (simp_all add: c take_last_append)
  with r1 r2 c show ?case by (auto simp: ingest_all_def)
qed

lemma output_inv_truncated:
  assumes "output_inv limit ro"
  shows "output_truncated ro \<longleftrightarrow> (\<exists>s. 0 < tb_dropped_chars (output_stream_of ro s))"
proof
  assume "\<exists>s. 0 < tb_dropped_chars (output_stream_of ro s)"
  then obtain s where s: "0 < tb_dropped_chars (output_stream_of ro s)" by blast
  have i: "tail_inv (output_stream_of ro t)" "tb_limit (output_stream_of ro t) = limit" for t
    using assms by (cases t; auto simp: output_inv_def)+
  have "limit < tail_total_chars (output_stream_of ro s)"
    using s i [of s] by (auto simp: tail_total_chars_def tail_inv_def)
  also have "\<dots> \<le> tail_total_chars (ro_combined ro)"
    using assms by (cases s) (auto simp: output_inv_def output_stream_of_def)
  finally show "output_truncated ro"
    using i [of Combined]
    by (auto simp: output_truncated_def tail_total_chars_def tail_inv_def output_stream_of_def)
qed (auto simp: output_truncated_def output_stream_of_def intro: exI [of _ Combined])

section \<open>Continuation tokens\<close>

definition continuation_token :: "string \<Rightarrow> output_stream \<Rightarrow> nat \<Rightarrow> string" where
  "continuation_token run_id s offset =
     ''bash:'' @ run_id @ '':'' @ stream_as_str s @ '':'' @ show_nat offset"

definition continuation_offset :: "string option \<Rightarrow> string \<Rightarrow> output_stream \<Rightarrow> nat option" where
  "continuation_offset token run_id s =
     (case token of
        None \<Rightarrow> None
      | Some v \<Rightarrow>
          (case strip_prefix (''bash:'' @ run_id @ '':'' @ stream_as_str s @ '':'') v of
             Some offset \<Rightarrow> parse_usize offset
           | None \<Rightarrow>
               if s = Combined
               then (case strip_prefix (''bash:'' @ run_id @ '':'') v of
                       Some offset \<Rightarrow> parse_usize offset
                     | None \<Rightarrow> None)
               else None))"

section \<open>Properties\<close>

text \<open>C16. Whatever the chunk boundaries, the text a stream shows after its chunks are
  decoded and the stream is finished is the lossy UTF-8 decoding of all its bytes with the
  escape sequences removed, and the decoder is back in its initial state: no chunk boundary
  inside a character or an escape sequence is visible.\<close>

theorem decode_chunk_independent:
  "(case decode_all decoder_default chunks out of (d, o1) \<Rightarrow> decoder_finish d o1) =
     (decoder_default, out @ snd (strip_ansi AText (from_utf8_lossy (concat chunks)) []))"
  using decode_finish_spec [of decoder_default "concat chunks" out]
  by (simp add: decode_all_concat) (simp add: decoder_default_def)

text \<open>C11. Ingesting any interleaving of chunks from the two pipes never panics, and each
  pipe's buffer then holds exactly the last \<open>limit\<close> characters of the decoding of that
  pipe's bytes.\<close>

theorem ingest_keeps_pipe_tails:
  "\<exists>ro. ingest_all (output_new limit) chunks = Some ro
     \<and> (\<forall>p. tail_kept (pipe_buffer ro p)
          = take_last limit (snd (decode decoder_default (pipe_bytes p chunks) [])))"
proof -
  have "tail_kept (pipe_buffer (output_new limit) q) = []"
    "output_decoder (output_new limit) q = decoder_default" for q
    by (cases q; simp add: pipe_buffer_def output_new_def output_decoder_def)+
  then show ?thesis using ingest_all_spec [of limit "output_new limit" chunks] by auto
qed

text \<open>The combined stream is the only one \<open>truncated\<close> looks at, and it answers for
  all three: in every output a run can reach it reports truncation exactly when some stream
  dropped a character.\<close>

theorem truncated_covers_all_streams:
  assumes "ingest_all (output_new limit) chunks = Some ro"
  shows "output_truncated ro \<longleftrightarrow> (\<exists>s. 0 < tb_dropped_chars (output_stream_of ro s))"
  using ingest_all_spec [of limit "output_new limit" chunks] assms output_inv_truncated by auto

theorem truncated_covers_all_streams_witness:
  "\<exists>ro. ingest_all (output_new 1) [(PStderr, [0x61, 0x62])] = Some ro \<and> output_truncated ro
     \<and> (\<exists>s. 0 < tb_dropped_chars (output_stream_of ro s))"
proof -
  have "map_option output_truncated (ingest_all (output_new 1) [(PStderr, [0x61, 0x62])]) = Some True"
    by code_simp
  then obtain ro where ro: "ingest_all (output_new 1) [(PStderr, [0x61, 0x62])] = Some ro"
    "output_truncated ro" by auto
  then show ?thesis using truncated_covers_all_streams [OF ro(1)] by blast
qed

text \<open>A page of a buffer is cut from everything ever pushed at absolute offsets: it
  starts at the requested offset, or at the oldest retained character when that offset was
  already dropped, and the next offset continues exactly where the page stopped.\<close>

theorem tail_page_absolute:
  "\<exists>b. fold_opt tail_push (tail_new limit) chunks = Some b
     \<and> tail_page b from max_chars = Some
         \<lparr>page_text = take max_chars (drop (max from (tb_dropped_chars b)) (concat chunks)),
          page_next = (if max from (tb_dropped_chars b) + max_chars < length (concat chunks)
                       then Some (max from (tb_dropped_chars b) + max_chars) else None)\<rparr>"
proof -
  obtain b where b: "fold_opt tail_push (tail_new limit) chunks = Some b"
    using tail.push_all_total [of "tail_new limit" chunks] by auto
  have inv: "tail_inv b" using tail.push_allD [OF _ b] by simp
  have hist: "tail_kept b = drop (tb_dropped_chars b) (concat chunks)"
    using tail.push_all_history [OF _ _ _ b] by simp
  have len: "tb_dropped_chars b + length (tail_kept b) = length (concat chunks)"
    using tail.push_all_total_count [OF _ b] by simp
  let ?d = "tb_dropped_chars b" and ?s = "min (from - tb_dropped_chars b) (length (tail_kept b))"
  have tail: "drop ?s (tail_kept b) = drop (max from ?d) (concat chunks)"
    using len by (auto simp: hist min_def max_def add.commute)
  have "?s + max_chars < length (tail_kept b) \<longleftrightarrow> max from ?d + max_chars < length (concat chunks)"
    "?s + max_chars < length (tail_kept b) \<longrightarrow> ?d + ?s = max from ?d"
    using len by (auto simp: min_def max_def)
  with b tail tail_page_spec [OF inv, of "from" max_chars] show ?thesis by auto
qed

text \<open>A continuation token read back for its run gives its offset for its own stream
  and is refused for the two other streams.\<close>

theorem continuation_token_roundtrip:
  assumes "offset \<le> usize_max"
  shows "continuation_offset (Some (continuation_token run_id s offset)) run_id t =
     (if s = t then Some offset else None)"
proof -
  have sub: "parse_usize (stream_as_str s @ '':'' @ show_nat offset) = None"
    by (cases s) (simp_all add: parse_usize_def stream_as_str_def digit_val_def)
  have "strip_prefix (stream_as_str t @ '':'') (stream_as_str s @ '':'' @ show_nat offset) =
     (if s = t then Some (show_nat offset) else None)"
    by (cases s; cases t) (simp_all add: stream_as_str_def)
  moreover have "strip_prefix (xs @ p) (xs @ ys) = strip_prefix p ys" for xs p ys :: string
    by (induction xs) auto
  ultimately show ?thesis
    using sub parse_show_usize [OF assms]
    by (simp add: continuation_offset_def continuation_token_def)
qed

theorem continuation_token_roundtrip_witness:
  "continuation_offset (Some (continuation_token ''run_1'' Stdout 42)) ''run_1'' Combined = None"
  using continuation_token_roundtrip [of 42 "''run_1''" Stdout Combined]
  by (simp add: usize_max_def)

end
