(* ===== verification/App_Error.thy ===== *)
theory App_Error
  imports Prelude
begin

text \<open>
  The application error (\<open>src/error.rs\<close>) and the retry policy a failed tool call
  reports (\<open>Retry::of\<close> and the two result shapes of \<open>src/tools/call.rs\<close>). JSON values
  are a datatype with objects as association lists in insertion order.
\<close>

section \<open>JSON values\<close>

datatype json =
    JNull
  | JBool bool
  | JNum int
  | JStr string
  | JArr "json list"
  | JObj "(string \<times> json) list"

text \<open>\<open>Map::insert\<close> keeps one value per key; \<open>Value::get\<close> is \<open>None\<close> off objects.\<close>

fun obj_insert :: "string \<Rightarrow> json \<Rightarrow> (string \<times> json) list \<Rightarrow> (string \<times> json) list" where
  "obj_insert k v [] = [(k, v)]"
| "obj_insert k v ((k', v') # kvs) =
     (if k = k' then (k, v) # kvs else (k', v') # obj_insert k v kvs)"

definition json_get :: "json \<Rightarrow> string \<Rightarrow> json option" where
  "json_get j k = (case j of JObj kvs \<Rightarrow> map_of kvs k | _ \<Rightarrow> None)"

definition json_as_bool :: "json \<Rightarrow> bool option" where
  "json_as_bool j = (case j of JBool b \<Rightarrow> Some b | _ \<Rightarrow> None)"

definition json_as_str :: "json \<Rightarrow> string option" where
  "json_as_str j = (case j of JStr s \<Rightarrow> Some s | _ \<Rightarrow> None)"

definition json_is_object :: "json \<Rightarrow> bool" where
  "json_is_object j \<longleftrightarrow> (case j of JObj _ \<Rightarrow> True | _ \<Rightarrow> False)"

lemma map_of_obj_insert [simp]:
  "map_of (obj_insert k v kvs) = (map_of kvs)(k \<mapsto> v)"
  by (induction k v kvs rule: obj_insert.induct) (auto simp: fun_upd_twist)

section \<open>Error codes\<close>

datatype (plugins only: size) error_code =
    AmbiguousHandleEditOrder
  | AmbiguousSymbol
  | AtomicWriteFailed
  | BashExecutionFailed
  | BashPipeFailed
  | BashQueueClosed
  | BashStartFailed
  | BashUnavailable
  | ConfirmationRequired
  | ContinuationScopeMismatch
  | DuplicateRetrievalOperationId
  | ExactMatchCount
  | GitFailed
  | GitTimeout
  | GitUnavailable
  | IndexRefreshFailed
  | IntelligenceStale
  | InternalError
  | InvalidArgument
  | InvalidBashRequest
  | InvalidChangeField
  | InvalidConfig
  | InvalidContinuation
  | InvalidCwd
  | InvalidExcludePattern
  | InvalidFetchKind
  | InvalidHandle
  | InvalidHandleRange
  | InvalidJson
  | InvalidLspEdit
  | InvalidLspPosition
  | InvalidLspResponse
  | InvalidLspUri
  | InvalidOperationField
  | InvalidOutlinePath
  | InvalidPolicy
  | InvalidRegex
  | InvalidTimeout
  | LspBusy
  | LspError
  | LspProtocolError
  | LspStartFailed
  | LspSyncUnsupported
  | LspTimeout
  | LspTransportError
  | LspUnsupported
  | LspWorkerStartFailed
  | LspWorkerStopped
  | MissingChangeField
  | MissingHandle
  | MissingOperationField
  | MissingPrecondition
  | NotGitRepository
  | NotInitialized
  | OutsideRoot
  | OverlappingEdits
  | OverlappingLspEdits
  | PartialCommit
  | PathExists
  | PathNotFound
  | PathNotIndexed
  | PermissionDenied
  | ReadFailed
  | RunBusy
  | RunNotFound
  | SemanticBackendUnavailable
  | StaleContinuation
  | StaleFile
  | StaleHandle
  | StaleSnapshot
  | SymbolNotFound
  | SyntaxError
  | TooManyRetrievalOperations
  | UnknownChangeField
  | UnknownOperationField
  | UnknownToolField
  | UnsupportedChangeKind
  | UnsupportedLspUri
  | UnsupportedReadTarget
  | UnsupportedRetrievalOperation
  | UnsupportedWorkspaceEdit
  | WorkspaceNotDirectory
  | WorkspaceNotFound

definition error_code_all :: "error_code list" where
  "error_code_all =
     [AmbiguousHandleEditOrder,
      AmbiguousSymbol,
      AtomicWriteFailed,
      BashExecutionFailed,
      BashPipeFailed,
      BashQueueClosed,
      BashStartFailed,
      BashUnavailable,
      ConfirmationRequired,
      ContinuationScopeMismatch,
      DuplicateRetrievalOperationId,
      ExactMatchCount,
      GitFailed,
      GitTimeout,
      GitUnavailable,
      IndexRefreshFailed,
      IntelligenceStale,
      InternalError,
      InvalidArgument,
      InvalidBashRequest,
      InvalidChangeField,
      InvalidConfig,
      InvalidContinuation,
      InvalidCwd,
      InvalidExcludePattern,
      InvalidFetchKind,
      InvalidHandle,
      InvalidHandleRange,
      InvalidJson,
      InvalidLspEdit,
      InvalidLspPosition,
      InvalidLspResponse,
      InvalidLspUri,
      InvalidOperationField,
      InvalidOutlinePath,
      InvalidPolicy,
      InvalidRegex,
      InvalidTimeout,
      LspBusy,
      LspError,
      LspProtocolError,
      LspStartFailed,
      LspSyncUnsupported,
      LspTimeout,
      LspTransportError,
      LspUnsupported,
      LspWorkerStartFailed,
      LspWorkerStopped,
      MissingChangeField,
      MissingHandle,
      MissingOperationField,
      MissingPrecondition,
      NotGitRepository,
      NotInitialized,
      OutsideRoot,
      OverlappingEdits,
      OverlappingLspEdits,
      PartialCommit,
      PathExists,
      PathNotFound,
      PathNotIndexed,
      PermissionDenied,
      ReadFailed,
      RunBusy,
      RunNotFound,
      SemanticBackendUnavailable,
      StaleContinuation,
      StaleFile,
      StaleHandle,
      StaleSnapshot,
      SymbolNotFound,
      SyntaxError,
      TooManyRetrievalOperations,
      UnknownChangeField,
      UnknownOperationField,
      UnknownToolField,
      UnsupportedChangeKind,
      UnsupportedLspUri,
      UnsupportedReadTarget,
      UnsupportedRetrievalOperation,
      UnsupportedWorkspaceEdit,
      WorkspaceNotDirectory,
      WorkspaceNotFound]"

text \<open>The wire string of a code.\<close>

primrec error_code_as_str :: "error_code \<Rightarrow> string" where
  "error_code_as_str AmbiguousHandleEditOrder = ''AMBIGUOUS_HANDLE_EDIT_ORDER''"
| "error_code_as_str AmbiguousSymbol = ''AMBIGUOUS_SYMBOL''"
| "error_code_as_str AtomicWriteFailed = ''ATOMIC_WRITE_FAILED''"
| "error_code_as_str BashExecutionFailed = ''BASH_EXECUTION_FAILED''"
| "error_code_as_str BashPipeFailed = ''BASH_PIPE_FAILED''"
| "error_code_as_str BashQueueClosed = ''BASH_QUEUE_CLOSED''"
| "error_code_as_str BashStartFailed = ''BASH_START_FAILED''"
| "error_code_as_str BashUnavailable = ''BASH_UNAVAILABLE''"
| "error_code_as_str ConfirmationRequired = ''CONFIRMATION_REQUIRED''"
| "error_code_as_str ContinuationScopeMismatch = ''CONTINUATION_SCOPE_MISMATCH''"
| "error_code_as_str DuplicateRetrievalOperationId = ''DUPLICATE_RETRIEVAL_OPERATION_ID''"
| "error_code_as_str ExactMatchCount = ''EXACT_MATCH_COUNT''"
| "error_code_as_str GitFailed = ''GIT_FAILED''"
| "error_code_as_str GitTimeout = ''GIT_TIMEOUT''"
| "error_code_as_str GitUnavailable = ''GIT_UNAVAILABLE''"
| "error_code_as_str IndexRefreshFailed = ''INDEX_REFRESH_FAILED''"
| "error_code_as_str IntelligenceStale = ''INTELLIGENCE_STALE''"
| "error_code_as_str InternalError = ''INTERNAL_ERROR''"
| "error_code_as_str InvalidArgument = ''INVALID_ARGUMENT''"
| "error_code_as_str InvalidBashRequest = ''INVALID_BASH_REQUEST''"
| "error_code_as_str InvalidChangeField = ''INVALID_CHANGE_FIELD''"
| "error_code_as_str InvalidConfig = ''INVALID_CONFIG''"
| "error_code_as_str InvalidContinuation = ''INVALID_CONTINUATION''"
| "error_code_as_str InvalidCwd = ''INVALID_CWD''"
| "error_code_as_str InvalidExcludePattern = ''INVALID_EXCLUDE_PATTERN''"
| "error_code_as_str InvalidFetchKind = ''INVALID_FETCH_KIND''"
| "error_code_as_str InvalidHandle = ''INVALID_HANDLE''"
| "error_code_as_str InvalidHandleRange = ''INVALID_HANDLE_RANGE''"
| "error_code_as_str InvalidJson = ''INVALID_JSON''"
| "error_code_as_str InvalidLspEdit = ''INVALID_LSP_EDIT''"
| "error_code_as_str InvalidLspPosition = ''INVALID_LSP_POSITION''"
| "error_code_as_str InvalidLspResponse = ''INVALID_LSP_RESPONSE''"
| "error_code_as_str InvalidLspUri = ''INVALID_LSP_URI''"
| "error_code_as_str InvalidOperationField = ''INVALID_OPERATION_FIELD''"
| "error_code_as_str InvalidOutlinePath = ''INVALID_OUTLINE_PATH''"
| "error_code_as_str InvalidPolicy = ''INVALID_POLICY''"
| "error_code_as_str InvalidRegex = ''INVALID_REGEX''"
| "error_code_as_str InvalidTimeout = ''INVALID_TIMEOUT''"
| "error_code_as_str LspBusy = ''LSP_BUSY''"
| "error_code_as_str LspError = ''LSP_ERROR''"
| "error_code_as_str LspProtocolError = ''LSP_PROTOCOL_ERROR''"
| "error_code_as_str LspStartFailed = ''LSP_START_FAILED''"
| "error_code_as_str LspSyncUnsupported = ''LSP_SYNC_UNSUPPORTED''"
| "error_code_as_str LspTimeout = ''LSP_TIMEOUT''"
| "error_code_as_str LspTransportError = ''LSP_TRANSPORT_ERROR''"
| "error_code_as_str LspUnsupported = ''LSP_UNSUPPORTED''"
| "error_code_as_str LspWorkerStartFailed = ''LSP_WORKER_START_FAILED''"
| "error_code_as_str LspWorkerStopped = ''LSP_WORKER_STOPPED''"
| "error_code_as_str MissingChangeField = ''MISSING_CHANGE_FIELD''"
| "error_code_as_str MissingHandle = ''MISSING_HANDLE''"
| "error_code_as_str MissingOperationField = ''MISSING_OPERATION_FIELD''"
| "error_code_as_str MissingPrecondition = ''MISSING_PRECONDITION''"
| "error_code_as_str NotGitRepository = ''NOT_GIT_REPOSITORY''"
| "error_code_as_str NotInitialized = ''NOT_INITIALIZED''"
| "error_code_as_str OutsideRoot = ''OUTSIDE_ROOT''"
| "error_code_as_str OverlappingEdits = ''OVERLAPPING_EDITS''"
| "error_code_as_str OverlappingLspEdits = ''OVERLAPPING_LSP_EDITS''"
| "error_code_as_str PartialCommit = ''PARTIAL_COMMIT''"
| "error_code_as_str PathExists = ''PATH_EXISTS''"
| "error_code_as_str PathNotFound = ''PATH_NOT_FOUND''"
| "error_code_as_str PathNotIndexed = ''PATH_NOT_INDEXED''"
| "error_code_as_str PermissionDenied = ''PERMISSION_DENIED''"
| "error_code_as_str ReadFailed = ''READ_FAILED''"
| "error_code_as_str RunBusy = ''RUN_BUSY''"
| "error_code_as_str RunNotFound = ''RUN_NOT_FOUND''"
| "error_code_as_str SemanticBackendUnavailable = ''SEMANTIC_BACKEND_UNAVAILABLE''"
| "error_code_as_str StaleContinuation = ''STALE_CONTINUATION''"
| "error_code_as_str StaleFile = ''STALE_FILE''"
| "error_code_as_str StaleHandle = ''STALE_HANDLE''"
| "error_code_as_str StaleSnapshot = ''STALE_SNAPSHOT''"
| "error_code_as_str SymbolNotFound = ''SYMBOL_NOT_FOUND''"
| "error_code_as_str SyntaxError = ''SYNTAX_ERROR''"
| "error_code_as_str TooManyRetrievalOperations = ''TOO_MANY_RETRIEVAL_OPERATIONS''"
| "error_code_as_str UnknownChangeField = ''UNKNOWN_CHANGE_FIELD''"
| "error_code_as_str UnknownOperationField = ''UNKNOWN_OPERATION_FIELD''"
| "error_code_as_str UnknownToolField = ''UNKNOWN_TOOL_FIELD''"
| "error_code_as_str UnsupportedChangeKind = ''UNSUPPORTED_CHANGE_KIND''"
| "error_code_as_str UnsupportedLspUri = ''UNSUPPORTED_LSP_URI''"
| "error_code_as_str UnsupportedReadTarget = ''UNSUPPORTED_READ_TARGET''"
| "error_code_as_str UnsupportedRetrievalOperation = ''UNSUPPORTED_RETRIEVAL_OPERATION''"
| "error_code_as_str UnsupportedWorkspaceEdit = ''UNSUPPORTED_WORKSPACE_EDIT''"
| "error_code_as_str WorkspaceNotDirectory = ''WORKSPACE_NOT_DIRECTORY''"
| "error_code_as_str WorkspaceNotFound = ''WORKSPACE_NOT_FOUND''"

text \<open>The derived order is the declaration order.\<close>

primrec error_code_index :: "error_code \<Rightarrow> nat" where
  "error_code_index AmbiguousHandleEditOrder = 0"
| "error_code_index AmbiguousSymbol = 1"
| "error_code_index AtomicWriteFailed = 2"
| "error_code_index BashExecutionFailed = 3"
| "error_code_index BashPipeFailed = 4"
| "error_code_index BashQueueClosed = 5"
| "error_code_index BashStartFailed = 6"
| "error_code_index BashUnavailable = 7"
| "error_code_index ConfirmationRequired = 8"
| "error_code_index ContinuationScopeMismatch = 9"
| "error_code_index DuplicateRetrievalOperationId = 10"
| "error_code_index ExactMatchCount = 11"
| "error_code_index GitFailed = 12"
| "error_code_index GitTimeout = 13"
| "error_code_index GitUnavailable = 14"
| "error_code_index IndexRefreshFailed = 15"
| "error_code_index IntelligenceStale = 16"
| "error_code_index InternalError = 17"
| "error_code_index InvalidArgument = 18"
| "error_code_index InvalidBashRequest = 19"
| "error_code_index InvalidChangeField = 20"
| "error_code_index InvalidConfig = 21"
| "error_code_index InvalidContinuation = 22"
| "error_code_index InvalidCwd = 23"
| "error_code_index InvalidExcludePattern = 24"
| "error_code_index InvalidFetchKind = 25"
| "error_code_index InvalidHandle = 26"
| "error_code_index InvalidHandleRange = 27"
| "error_code_index InvalidJson = 28"
| "error_code_index InvalidLspEdit = 29"
| "error_code_index InvalidLspPosition = 30"
| "error_code_index InvalidLspResponse = 31"
| "error_code_index InvalidLspUri = 32"
| "error_code_index InvalidOperationField = 33"
| "error_code_index InvalidOutlinePath = 34"
| "error_code_index InvalidPolicy = 35"
| "error_code_index InvalidRegex = 36"
| "error_code_index InvalidTimeout = 37"
| "error_code_index LspBusy = 38"
| "error_code_index LspError = 39"
| "error_code_index LspProtocolError = 40"
| "error_code_index LspStartFailed = 41"
| "error_code_index LspSyncUnsupported = 42"
| "error_code_index LspTimeout = 43"
| "error_code_index LspTransportError = 44"
| "error_code_index LspUnsupported = 45"
| "error_code_index LspWorkerStartFailed = 46"
| "error_code_index LspWorkerStopped = 47"
| "error_code_index MissingChangeField = 48"
| "error_code_index MissingHandle = 49"
| "error_code_index MissingOperationField = 50"
| "error_code_index MissingPrecondition = 51"
| "error_code_index NotGitRepository = 52"
| "error_code_index NotInitialized = 53"
| "error_code_index OutsideRoot = 54"
| "error_code_index OverlappingEdits = 55"
| "error_code_index OverlappingLspEdits = 56"
| "error_code_index PartialCommit = 57"
| "error_code_index PathExists = 58"
| "error_code_index PathNotFound = 59"
| "error_code_index PathNotIndexed = 60"
| "error_code_index PermissionDenied = 61"
| "error_code_index ReadFailed = 62"
| "error_code_index RunBusy = 63"
| "error_code_index RunNotFound = 64"
| "error_code_index SemanticBackendUnavailable = 65"
| "error_code_index StaleContinuation = 66"
| "error_code_index StaleFile = 67"
| "error_code_index StaleHandle = 68"
| "error_code_index StaleSnapshot = 69"
| "error_code_index SymbolNotFound = 70"
| "error_code_index SyntaxError = 71"
| "error_code_index TooManyRetrievalOperations = 72"
| "error_code_index UnknownChangeField = 73"
| "error_code_index UnknownOperationField = 74"
| "error_code_index UnknownToolField = 75"
| "error_code_index UnsupportedChangeKind = 76"
| "error_code_index UnsupportedLspUri = 77"
| "error_code_index UnsupportedReadTarget = 78"
| "error_code_index UnsupportedRetrievalOperation = 79"
| "error_code_index UnsupportedWorkspaceEdit = 80"
| "error_code_index WorkspaceNotDirectory = 81"
| "error_code_index WorkspaceNotFound = 82"

lemma error_code_all_nth: "error_code_all ! error_code_index c = c"
  by (cases c) (simp_all only: error_code_index.simps error_code_all_def, simp_all)

lemma error_code_index_bound: "error_code_index c < length error_code_all"
  by (cases c) (simp_all add: error_code_all_def)

lemma error_code_all_complete: "c \<in> set error_code_all"
  using nth_mem [OF error_code_index_bound [of c]] by (simp add: error_code_all_nth)

lemma error_code_index_inject: "error_code_index c = error_code_index d \<longleftrightarrow> c = d"
  by (metis error_code_all_nth)

instantiation error_code :: equal
begin

definition equal_error_code :: "error_code \<Rightarrow> error_code \<Rightarrow> bool" where
  "equal_error_code c d \<longleftrightarrow> error_code_index c = error_code_index d"

instance
  by standard (simp add: equal_error_code_def error_code_index_inject)

end

instantiation error_code :: linorder
begin

definition less_eq_error_code :: "error_code \<Rightarrow> error_code \<Rightarrow> bool" where
  "less_eq_error_code c d \<longleftrightarrow> error_code_index c \<le> error_code_index d"

definition less_error_code :: "error_code \<Rightarrow> error_code \<Rightarrow> bool" where
  "less_error_code c d \<longleftrightarrow> error_code_index c < error_code_index d"

instance
  by standard (auto simp: less_eq_error_code_def less_error_code_def error_code_index_inject)

end

section \<open>Policies that depend on the code\<close>

record request_policy =
  rp_retry_kind :: string
  rp_category :: string

definition retries_same_request :: "error_code \<Rightarrow> bool" where
  "retries_same_request c \<longleftrightarrow> c \<in> {StaleSnapshot, StaleFile, StaleHandle, StaleContinuation}"

definition request_policy_of :: "error_code \<Rightarrow> request_policy option" where
  "request_policy_of c =
     (let policy = (\<lambda>retry_kind category. \<lparr>rp_retry_kind = retry_kind, rp_category = category\<rparr>) in
      if c \<in> {MissingOperationField, InvalidOperationField, MissingChangeField,
               InvalidChangeField, InvalidBashRequest}
      then Some (policy ''fix_request'' ''invalid_request'')
      else if c \<in> {UnknownOperationField, UnknownChangeField}
      then Some (policy ''remove_field'' ''invalid_request'')
      else if c = UnsupportedRetrievalOperation
      then Some (policy ''choose_supported_operation'' ''unsupported_request'')
      else if c = UnsupportedChangeKind
      then Some (policy ''choose_supported_change'' ''unsupported_request'')
      else None)"

section \<open>The error value\<close>

record app_error =
  ae_code :: error_code
  ae_message :: string
  ae_details :: "json option"

definition error_build :: "error_code \<Rightarrow> string \<Rightarrow> json option \<Rightarrow> app_error" where
  "error_build c message details =
     \<lparr>ae_code = c, ae_message = message,
      ae_details = (case request_policy_of c of
          None \<Rightarrow> details
        | Some policy \<Rightarrow>
            let obj0 = (case details of Some (JObj kvs) \<Rightarrow> kvs | _ \<Rightarrow> []);
                obj1 = obj_insert ''retryable'' (JBool False) obj0;
                obj2 = obj_insert ''retry_kind'' (JStr (rp_retry_kind policy)) obj1;
                obj3 = obj_insert ''category'' (JStr (rp_category policy)) obj2
            in Some (JObj obj3))\<rparr>"

definition error_new :: "error_code \<Rightarrow> string \<Rightarrow> app_error" where
  "error_new c message = error_build c message None"

definition error_with_details :: "error_code \<Rightarrow> string \<Rightarrow> json \<Rightarrow> app_error" where
  "error_with_details c message details = error_build c message (Some details)"

definition error_invalid :: "string \<Rightarrow> app_error" where
  "error_invalid message = error_new InvalidArgument message"

definition error_internal :: "string \<Rightarrow> app_error" where
  "error_internal message = error_new InternalError message"

definition error_with_message :: "app_error \<Rightarrow> string \<Rightarrow> app_error" where
  "error_with_message e message = e\<lparr>ae_message := message\<rparr>"

lemma error_build_code [simp]: "ae_code (error_build c m d) = c"
  "ae_message (error_build c m d) = m"
  by (simp_all add: error_build_def)

lemma error_code_simps [simp]:
  "ae_code (error_new c m) = c" "ae_code (error_with_details c m j) = c"
  "ae_code (error_invalid m) = InvalidArgument" "ae_code (error_internal m) = InternalError"
  by (simp_all add: error_new_def error_with_details_def error_invalid_def error_internal_def)

text \<open>The kinds of \<open>std::io::Error\<close> the source tells apart.\<close>

datatype io_kind = IoNotFound | IoAlreadyExists | IoPermissionDenied | IoOther

record io_error =
  io_kind_of :: io_kind
  io_message :: string

definition error_from_io :: "io_error \<Rightarrow> app_error" where
  "error_from_io e =
     error_new (case io_kind_of e of
         IoNotFound \<Rightarrow> PathNotFound
       | IoAlreadyExists \<Rightarrow> PathExists
       | IoPermissionDenied \<Rightarrow> PermissionDenied
       | IoOther \<Rightarrow> InternalError) (io_message e)"

definition error_display :: "app_error \<Rightarrow> string" where
  "error_display e = ''['' @ error_code_as_str (ae_code e) @ ''] '' @ ae_message e"

section \<open>The retry hint of a failed tool call\<close>

record retry =
  rt_retryable :: bool
  rt_kind :: string

definition retry_of :: "app_error \<Rightarrow> retry" where
  "retry_of e =
     (let details = ae_details e;
          stale = retries_same_request (ae_code e);
          own = Option.bind (Option.bind details (\<lambda>d. json_get d ''retryable'')) json_as_bool;
          retryable = (stale \<or> (case own of Some b \<Rightarrow> b | None \<Rightarrow> False));
          kind = (case Option.bind (Option.bind details (\<lambda>d. json_get d ''retry_kind'')) json_as_str of
                    Some k \<Rightarrow> k
                  | None \<Rightarrow> if stale then ''retry_same_request''
                            else if retryable then ''retry_with_changes''
                            else ''not_retryable'')
      in \<lparr>rt_retryable = retryable, rt_kind = kind\<rparr>)"

record tool_result =
  tr_structured :: json
  tr_is_error :: "bool option"

definition tool_success :: "json \<Rightarrow> tool_result" where
  "tool_success v =
     \<lparr>tr_structured = (if json_is_object v then v else JObj [(''value'', v)]), tr_is_error = None\<rparr>"

definition tool_failure :: "app_error \<Rightarrow> tool_result" where
  "tool_failure e =
     (let retry = retry_of e
      in \<lparr>tr_structured = JObj [(''error'', JObj
            [(''code'', JStr (error_code_as_str (ae_code e))),
             (''message'', JStr (ae_message e)),
             (''retryable'', JBool (rt_retryable retry)),
             (''retry_kind'', JStr (rt_kind retry)),
             (''details'', case ae_details e of None \<Rightarrow> JNull | Some d \<Rightarrow> d)])],
          tr_is_error = Some True\<rparr>)"

section \<open>Properties\<close>

lemma error_code_wire_names:
  "map error_code_as_str error_code_all =
     [''AMBIGUOUS_HANDLE_EDIT_ORDER'',
      ''AMBIGUOUS_SYMBOL'',
      ''ATOMIC_WRITE_FAILED'',
      ''BASH_EXECUTION_FAILED'',
      ''BASH_PIPE_FAILED'',
      ''BASH_QUEUE_CLOSED'',
      ''BASH_START_FAILED'',
      ''BASH_UNAVAILABLE'',
      ''CONFIRMATION_REQUIRED'',
      ''CONTINUATION_SCOPE_MISMATCH'',
      ''DUPLICATE_RETRIEVAL_OPERATION_ID'',
      ''EXACT_MATCH_COUNT'',
      ''GIT_FAILED'',
      ''GIT_TIMEOUT'',
      ''GIT_UNAVAILABLE'',
      ''INDEX_REFRESH_FAILED'',
      ''INTELLIGENCE_STALE'',
      ''INTERNAL_ERROR'',
      ''INVALID_ARGUMENT'',
      ''INVALID_BASH_REQUEST'',
      ''INVALID_CHANGE_FIELD'',
      ''INVALID_CONFIG'',
      ''INVALID_CONTINUATION'',
      ''INVALID_CWD'',
      ''INVALID_EXCLUDE_PATTERN'',
      ''INVALID_FETCH_KIND'',
      ''INVALID_HANDLE'',
      ''INVALID_HANDLE_RANGE'',
      ''INVALID_JSON'',
      ''INVALID_LSP_EDIT'',
      ''INVALID_LSP_POSITION'',
      ''INVALID_LSP_RESPONSE'',
      ''INVALID_LSP_URI'',
      ''INVALID_OPERATION_FIELD'',
      ''INVALID_OUTLINE_PATH'',
      ''INVALID_POLICY'',
      ''INVALID_REGEX'',
      ''INVALID_TIMEOUT'',
      ''LSP_BUSY'',
      ''LSP_ERROR'',
      ''LSP_PROTOCOL_ERROR'',
      ''LSP_START_FAILED'',
      ''LSP_SYNC_UNSUPPORTED'',
      ''LSP_TIMEOUT'',
      ''LSP_TRANSPORT_ERROR'',
      ''LSP_UNSUPPORTED'',
      ''LSP_WORKER_START_FAILED'',
      ''LSP_WORKER_STOPPED'',
      ''MISSING_CHANGE_FIELD'',
      ''MISSING_HANDLE'',
      ''MISSING_OPERATION_FIELD'',
      ''MISSING_PRECONDITION'',
      ''NOT_GIT_REPOSITORY'',
      ''NOT_INITIALIZED'',
      ''OUTSIDE_ROOT'',
      ''OVERLAPPING_EDITS'',
      ''OVERLAPPING_LSP_EDITS'',
      ''PARTIAL_COMMIT'',
      ''PATH_EXISTS'',
      ''PATH_NOT_FOUND'',
      ''PATH_NOT_INDEXED'',
      ''PERMISSION_DENIED'',
      ''READ_FAILED'',
      ''RUN_BUSY'',
      ''RUN_NOT_FOUND'',
      ''SEMANTIC_BACKEND_UNAVAILABLE'',
      ''STALE_CONTINUATION'',
      ''STALE_FILE'',
      ''STALE_HANDLE'',
      ''STALE_SNAPSHOT'',
      ''SYMBOL_NOT_FOUND'',
      ''SYNTAX_ERROR'',
      ''TOO_MANY_RETRIEVAL_OPERATIONS'',
      ''UNKNOWN_CHANGE_FIELD'',
      ''UNKNOWN_OPERATION_FIELD'',
      ''UNKNOWN_TOOL_FIELD'',
      ''UNSUPPORTED_CHANGE_KIND'',
      ''UNSUPPORTED_LSP_URI'',
      ''UNSUPPORTED_READ_TARGET'',
      ''UNSUPPORTED_RETRIEVAL_OPERATION'',
      ''UNSUPPORTED_WORKSPACE_EDIT'',
      ''WORKSPACE_NOT_DIRECTORY'',
      ''WORKSPACE_NOT_FOUND'']"
  by (simp only: error_code_all_def list.map error_code_as_str.simps)

lemma error_code_wire_distinct: "distinct (map error_code_as_str error_code_all)"
  unfolding error_code_wire_names by code_simp

lemma error_code_as_str_inj: "error_code_as_str c = error_code_as_str d \<Longrightarrow> c = d"
  using error_code_wire_distinct error_code_all_complete [of c] error_code_all_complete [of d]
  by (auto simp: distinct_map dest: inj_onD)

lemma stale_no_policy: "retries_same_request c \<Longrightarrow> request_policy_of c = None"
  by (auto simp: retries_same_request_def request_policy_of_def)

text \<open>The code of an error names its class: distinct codes have distinct wire strings,
  and the retry hint a client receives follows the code. A request-validation error is never
  retryable and carries its own hint, and a stale-state error is always retryable.\<close>

theorem error_codes_determine_retry:
  "(error_code_as_str c = error_code_as_str d \<longleftrightarrow> c = d)
   \<and> (case request_policy_of c of
        Some p \<Rightarrow>
          retry_of (error_build c m det) = \<lparr>rt_retryable = False, rt_kind = rp_retry_kind p\<rparr>
      | None \<Rightarrow>
          rt_retryable (retry_of (error_build c m det)) =
            (retries_same_request c
             \<or> Option.bind (Option.bind det (\<lambda>j. json_get j ''retryable'')) json_as_bool = Some True))"
  (is "?inj \<and> ?pol")
proof
  show ?inj using error_code_as_str_inj by blast
  show ?pol
  proof (cases "request_policy_of c")
    case None
    then show ?thesis
      by (auto simp: retry_of_def error_build_def Let_def split: option.splits)
  next
    case (Some p)
    then have "\<not> retries_same_request c" using stale_no_policy by auto
    with Some show ?thesis
      by (simp add: retry_of_def error_build_def Let_def json_get_def json_as_bool_def json_as_str_def)
  qed
qed

end
