(* ===== verification/Run_Lifecycle.thy ===== *)
theory Run_Lifecycle
  imports Run_Output App_Error
begin

text \<open>
  The record of a Bash run and the one state machine that ends it
  (\<open>src/bash/lifecycle.rs\<close>). Time is a number (the code only compares and stores it), a
  process group is the number that names its shared handle together with the process id
  the handle reports. An operation takes the clock it reads as an argument.
\<close>

type_synonym instant = nat

section \<open>Run status\<close>

datatype run_status = Queued | Running | Cancelling | Succeeded | Failed | TimedOut | Cancelled

definition run_status_all :: "run_status list" where
  "run_status_all = [Queued, Running, Cancelling, Succeeded, Failed, TimedOut, Cancelled]"

definition status_as_str :: "run_status \<Rightarrow> string" where
  "status_as_str s = (case s of
     Queued \<Rightarrow> ''queued'' | Running \<Rightarrow> ''running'' | Cancelling \<Rightarrow> ''cancelling''
   | Succeeded \<Rightarrow> ''succeeded'' | Failed \<Rightarrow> ''failed'' | TimedOut \<Rightarrow> ''timed_out''
   | Cancelled \<Rightarrow> ''cancelled'')"

definition status_parse :: "string \<Rightarrow> run_status option" where
  "status_parse v = find (\<lambda>s. status_as_str s = v) run_status_all"

fun is_terminal :: "run_status \<Rightarrow> bool" where
  "is_terminal Succeeded = True"
| "is_terminal Failed = True"
| "is_terminal TimedOut = True"
| "is_terminal Cancelled = True"
| "is_terminal _ = False"

definition keeps_output_tail :: "run_status \<Rightarrow> bool" where
  "keeps_output_tail s \<longleftrightarrow> s \<noteq> Succeeded"

fun can_become :: "run_status \<Rightarrow> run_status \<Rightarrow> bool" where
  "can_become Queued next = (next \<in> {Running, Cancelling, Failed, Cancelled})"
| "can_become Running next = (next \<in> {Cancelling, Succeeded, Failed, TimedOut, Cancelled})"
| "can_become Cancelling next = (next \<in> {Cancelled, Failed})"
| "can_become _ next = False"

section \<open>The interface of a one-shot lifecycle\<close>

text \<open>
  What clients of a lifecycle rely on: the end states are final, and an active state can
  always be ended. Whatever moves are made, at most one of them enters an end state.
\<close>

locale lifecycle =
  fixes can_move :: "'s \<Rightarrow> 's \<Rightarrow> bool"
    and final :: "'s \<Rightarrow> bool"
  assumes final_stuck: "final s \<Longrightarrow> \<not> can_move s t"
    and active_can_end: "\<not> final s \<Longrightarrow> \<exists>t. final t \<and> can_move s t"
begin

lemma move_from_active: "can_move s t \<Longrightarrow> \<not> final s"
  using final_stuck by blast

lemma final_forever: "can_move\<^sup>*\<^sup>* s t \<Longrightarrow> final s \<Longrightarrow> t = s"
  by (induction rule: converse_rtranclp_induct) (auto dest: final_stuck)

lemma one_end:
  assumes "can_move\<^sup>*\<^sup>* s t" "can_move\<^sup>*\<^sup>* s u" "can_move\<^sup>*\<^sup>* t u \<or> can_move\<^sup>*\<^sup>* u t"
    and "final t" "final u"
  shows "t = u"
  using assms final_forever by blast

end

interpretation run: lifecycle can_become is_terminal
proof unfold_locales
  show "is_terminal s \<Longrightarrow> \<not> can_become s t" for s t by (cases s) auto
  show "\<not> is_terminal s \<Longrightarrow> \<exists>t. is_terminal t \<and> can_become s t" for s
    by (cases s) (auto intro: exI [of _ Failed])
qed

section \<open>The run record\<close>

datatype process_outcome =
    Exited "int option" bool
  | WaitFailed string
  | OutcomeTimedOut nat

record process_group =
  pg_handle :: nat
  pg_pid :: "nat option"

record change_baseline =
  cb_generation :: nat
  cb_dirty :: "string set"

record frozen_changes =
  fc_generation :: nat
  fc_paths :: "string set"

record run_change_window =
  cw_baseline :: change_baseline
  cw_ended_at :: "instant option"
  cw_frozen :: "frozen_changes option"

datatype cancel_request = AlreadyTerminal | Requested "process_group option"

record run_record =
  rr_run_id :: string
  rr_sequence :: nat
  rr_command :: string
  rr_cwd :: string
  rr_started_at :: instant
  rr_status :: run_status
  rr_ended_at :: "instant option"
  rr_exit_code :: "int option"
  rr_cancel_requested :: bool
  rr_process :: "process_group option"
  rr_output :: run_output
  rr_notes :: "string list"
  rr_baseline :: "change_baseline option"
  rr_frozen_changes :: "frozen_changes option"

definition run_queued :: "instant \<Rightarrow> string \<Rightarrow> nat \<Rightarrow> string \<Rightarrow> string \<Rightarrow> nat \<Rightarrow> run_record" where
  "run_queued now run_id sequence command cwd output_limit =
     \<lparr>rr_run_id = run_id, rr_sequence = sequence, rr_command = command, rr_cwd = cwd,
      rr_started_at = now, rr_status = Queued, rr_ended_at = None, rr_exit_code = None,
      rr_cancel_requested = False, rr_process = None, rr_output = output_new output_limit,
      rr_notes = [], rr_baseline = None, rr_frozen_changes = None\<rparr>"

definition run_pid :: "run_record \<Rightarrow> nat option" where
  "run_pid r = Option.bind (rr_process r) pg_pid"

definition add_note :: "run_record \<Rightarrow> string \<Rightarrow> run_record" where
  "add_note r note = r\<lparr>rr_notes := rr_notes r @ [note]\<rparr>"

text \<open>\<open>transition\<close>: the single status writer. The flag says whether the move was made.\<close>

definition transition :: "instant \<Rightarrow> run_record \<Rightarrow> run_status \<Rightarrow> bool \<times> run_record" where
  "transition now r next =
     (if \<not> can_become (rr_status r) next then (False, r)
      else (let r1 = r\<lparr>rr_status := next\<rparr>
            in (True, if is_terminal next then r1\<lparr>rr_ended_at := Some now, rr_process := None\<rparr> else r1)))"

definition finish_run ::
    "instant \<Rightarrow> run_record \<Rightarrow> run_status \<Rightarrow> int option \<Rightarrow> string option \<Rightarrow> bool \<times> run_record" where
  "finish_run now r status exit_code note =
     (case transition now r status of
        (False, r1) \<Rightarrow> (False, r1)
      | (True, r1) \<Rightarrow>
          (True, r1\<lparr>rr_exit_code := exit_code,
                    rr_notes := rr_notes r1 @ (case note of None \<Rightarrow> [] | Some n \<Rightarrow> [n])\<rparr>))"

definition cancelled_note :: string where
  "cancelled_note = ''Bash run was cancelled; partial output was retained.''"

definition outcome_result ::
    "bool \<Rightarrow> process_outcome \<Rightarrow> run_status \<times> int option \<times> string option" where
  "outcome_result cancelled outcome =
     (case outcome of
        Exited code success \<Rightarrow>
          if cancelled then (Cancelled, code, Some cancelled_note)
          else (if success then Succeeded else Failed, code, None)
      | WaitFailed e \<Rightarrow> (Failed, None, Some (''Bash wait failed: '' @ e))
      | OutcomeTimedOut timeout_ms \<Rightarrow>
          if cancelled then (Cancelled, None, Some cancelled_note)
          else (TimedOut, None,
                Some (''Bash run exceeded timeout of '' @ show_nat timeout_ms
                      @ '' ms; partial output was retained.'')))"

definition finish_process :: "instant \<Rightarrow> run_record \<Rightarrow> process_outcome \<Rightarrow> bool \<times> run_record" where
  "finish_process now r outcome =
     (case outcome_result (rr_cancel_requested r) outcome of
        (status, exit_code, note) \<Rightarrow> finish_run now r status exit_code note)"

definition finish_if_cancelled_before_start :: "instant \<Rightarrow> run_record \<Rightarrow> bool \<times> run_record" where
  "finish_if_cancelled_before_start now r =
     (if rr_cancel_requested r
      then finish_run now r Cancelled None
             (Some ''Bash run was cancelled before the process started.'')
      else (False, r))"

definition start_process :: "instant \<Rightarrow> run_record \<Rightarrow> process_group \<Rightarrow> bool \<times> run_record" where
  "start_process now r g =
     (let r1 = r\<lparr>rr_started_at := now\<rparr>;
          r2 = (if rr_cancel_requested r1 then r1 else snd (transition now r1 Running));
          r3 = (if is_terminal (rr_status r2) then r2 else r2\<lparr>rr_process := Some g\<rparr>)
      in (rr_cancel_requested r3, r3))"

definition request_cancel :: "instant \<Rightarrow> run_record \<Rightarrow> cancel_request \<times> run_record" where
  "request_cancel now r =
     (case transition now r Cancelling of
        (False, r1) \<Rightarrow>
          (if rr_status r1 = Cancelling then Requested (rr_process r1) else AlreadyTerminal, r1)
      | (True, r1) \<Rightarrow>
          (let r2 = r1\<lparr>rr_cancel_requested := True\<rparr> in (Requested (rr_process r2), r2)))"

definition set_baseline :: "run_record \<Rightarrow> change_baseline \<Rightarrow> run_record" where
  "set_baseline r baseline = r\<lparr>rr_baseline := Some baseline\<rparr>"

definition change_window :: "run_record \<Rightarrow> change_baseline \<Rightarrow> run_change_window \<times> run_record" where
  "change_window r fallback =
     (let baseline = (case rr_baseline r of Some b \<Rightarrow> b | None \<Rightarrow> fallback);
          r1 = r\<lparr>rr_baseline := Some baseline\<rparr>
      in (\<lparr>cw_baseline = baseline, cw_ended_at = rr_ended_at r1, cw_frozen = rr_frozen_changes r1\<rparr>, r1))"

definition freeze_changes :: "run_record \<Rightarrow> frozen_changes \<Rightarrow> frozen_changes \<times> run_record" where
  "freeze_changes r changes =
     (let frozen = (case rr_frozen_changes r of Some f \<Rightarrow> f | None \<Rightarrow> changes)
      in (frozen, r\<lparr>rr_frozen_changes := Some frozen\<rparr>))"

definition with_output :: "run_record \<Rightarrow> run_output \<Rightarrow> run_record" where
  "with_output r out = r\<lparr>rr_output := out\<rparr>"

section \<open>The steps of a record\<close>

text \<open>
  Every way the rest of the program changes a record: \<open>output_mut\<close> and the setters
  change it as a whole, the status only moves through the operations above.
\<close>

inductive record_step :: "run_record \<Rightarrow> run_record \<Rightarrow> bool" where
  noted: "record_step r (add_note r n)"
| finish: "is_terminal s \<Longrightarrow> record_step r (snd (finish_run now r s c n))"
| finish_process: "record_step r (snd (finish_process now r outcome))"
| cancelled_before_start: "record_step r (snd (finish_if_cancelled_before_start now r))"
| start: "record_step r (snd (start_process now r g))"
| cancel: "record_step r (snd (request_cancel now r))"
| set_base: "record_step r (set_baseline r b)"
| set_window: "record_step r (snd (change_window r b))"
| freeze: "record_step r (snd (freeze_changes r f))"
| set_output: "record_step r (with_output r out)"

inductive_cases record_stepE: "record_step r r'"

text \<open>The fields of a record agree: the end fields are set exactly in a terminal status,
  and cancelling is always on request.\<close>

definition record_inv :: "run_record \<Rightarrow> bool" where
  "record_inv r \<longleftrightarrow>
     (rr_ended_at r \<noteq> None \<longleftrightarrow> is_terminal (rr_status r))
   \<and> (is_terminal (rr_status r) \<longrightarrow> rr_process r = None)
   \<and> (rr_exit_code r \<noteq> None \<longrightarrow> is_terminal (rr_status r))
   \<and> (rr_status r = Cancelling \<longrightarrow> rr_cancel_requested r)
   \<and> (rr_cancel_requested r \<longrightarrow> rr_status r \<in> {Cancelling, Cancelled, Failed})"

lemmas lifecycle_defs = transition_def finish_run_def outcome_result_def finish_process_def
  finish_if_cancelled_before_start_def start_process_def request_cancel_def set_baseline_def
  change_window_def freeze_changes_def with_output_def add_note_def

lemma record_inv_queued: "record_inv (run_queued now run_id sq command cwd limit)"
  by (simp add: record_inv_def run_queued_def)

lemma finish_run_inv:
  assumes "record_inv r" "is_terminal s"
  shows "record_inv (snd (finish_run now r s c n))"
proof (cases "can_become (rr_status r) s")
  case True
  have "rr_cancel_requested r \<Longrightarrow> s \<in> {Cancelled, Failed}"
    using assms True by (cases "rr_status r") (auto simp: record_inv_def)
  then show ?thesis
    using assms True by (auto simp: finish_run_def transition_def record_inv_def Let_def)
qed (use assms in \<open>simp add: finish_run_def transition_def\<close>)

lemma outcome_terminal: "is_terminal (fst (outcome_result cancelled outcome))"
  by (auto simp: outcome_result_def split: process_outcome.splits)

lemma finish_process_inv: "record_inv r \<Longrightarrow> record_inv (snd (finish_process now r outcome))"
  using outcome_terminal [of "rr_cancel_requested r" outcome]
  by (auto simp: finish_process_def finish_run_inv split: prod.splits)

lemma start_process_inv: "record_inv r \<Longrightarrow> record_inv (snd (start_process now r g))"
  by (cases "rr_status r") (auto simp: start_process_def transition_def record_inv_def Let_def)

lemma request_cancel_inv: "record_inv r \<Longrightarrow> record_inv (snd (request_cancel now r))"
  by (cases "rr_status r") (auto simp: request_cancel_def transition_def record_inv_def Let_def)

lemma bookkeeping_inv:
  "record_inv r \<Longrightarrow> record_inv (add_note r n)"
  "record_inv r \<Longrightarrow> record_inv (set_baseline r b)"
  "record_inv r \<Longrightarrow> record_inv (snd (change_window r b))"
  "record_inv r \<Longrightarrow> record_inv (snd (freeze_changes r f))"
  "record_inv r \<Longrightarrow> record_inv (with_output r out)"
  by (simp_all add: record_inv_def add_note_def set_baseline_def change_window_def
      freeze_changes_def with_output_def Let_def)

lemma cancelled_before_start_inv:
  "record_inv r \<Longrightarrow> record_inv (snd (finish_if_cancelled_before_start now r))"
  by (simp add: finish_if_cancelled_before_start_def finish_run_inv)

lemmas operation_inv = finish_run_inv finish_process_inv start_process_inv request_cancel_inv
  bookkeeping_inv cancelled_before_start_inv

lemma record_step_inv: "record_step r r' \<Longrightarrow> record_inv r \<Longrightarrow> record_inv r'"
  by (erule record_stepE) (simp_all add: operation_inv)

lemma record_steps_inv: "record_step\<^sup>*\<^sup>* r r' \<Longrightarrow> record_inv r \<Longrightarrow> record_inv r'"
  by (induction rule: rtranclp_induct) (auto intro: record_step_inv)

text \<open>A step moves the status by at most one legal move, and a first freeze stays.\<close>

lemma record_step_status:
  "record_step r r' \<Longrightarrow> rr_status r' = rr_status r \<or> can_become (rr_status r) (rr_status r')"
  by (induction rule: record_step.induct)
    (auto simp: lifecycle_defs Let_def split: process_outcome.splits)

lemma record_steps_status:
  "record_step\<^sup>*\<^sup>* r r' \<Longrightarrow> can_become\<^sup>*\<^sup>* (rr_status r) (rr_status r')"
proof (induction rule: rtranclp_induct)
  case (step r1 r2)
  then show ?case using record_step_status [OF step(2)] by (auto intro: rtranclp.rtrancl_into_rtrancl)
qed simp

lemma transition_stuck: "is_terminal (rr_status r) \<Longrightarrow> transition now r s = (False, r)"
  using run.final_stuck by (simp add: transition_def)

lemma record_step_terminal:
  "record_step r r' \<Longrightarrow> is_terminal (rr_status r) \<Longrightarrow>
     rr_status r' = rr_status r \<and> rr_ended_at r' = rr_ended_at r
   \<and> rr_exit_code r' = rr_exit_code r \<and> rr_process r' = rr_process r
   \<and> (\<forall>f. rr_frozen_changes r = Some f \<longrightarrow> rr_frozen_changes r' = Some f)"
  by (induction rule: record_step.induct)
    (auto simp: transition_stuck finish_run_def finish_process_def
      finish_if_cancelled_before_start_def start_process_def request_cancel_def set_baseline_def
      change_window_def freeze_changes_def with_output_def add_note_def Let_def split: prod.splits)

lemma record_step_frozen:
  "record_step r r' \<Longrightarrow> rr_frozen_changes r = Some f \<Longrightarrow> rr_frozen_changes r' = Some f"
  by (induction rule: record_step.induct)
    (auto simp: lifecycle_defs Let_def split: process_outcome.splits)

section \<open>Properties\<close>

text \<open>In every record reachable from a queued run the end time is set exactly when the
  status is terminal, a terminal record holds no process group, an exit code appears only at
  the end, and a cancelling run was asked to cancel.\<close>

theorem run_end_fields_agree:
  assumes "record_step\<^sup>*\<^sup>* (run_queued now run_id sq command cwd limit) r"
  shows "record_inv r"
  using record_steps_inv [OF assms record_inv_queued] .

theorem run_end_fields_agree_witness:
  "record_inv (snd (request_cancel 2 (run_queued 1 ''run_1'' 0 ''ls'' ''/w'' 10)))"
  by (rule run_end_fields_agree, rule r_into_rtranclp, rule record_step.cancel)

text \<open>C11. The end of a run is recorded exactly once: after any reachable record is
  terminal, no sequence of operations changes its status, end time or exit code, gives it a
  process again, or replaces changed paths that were already frozen.\<close>

theorem run_end_recorded_once:
  assumes "record_step\<^sup>*\<^sup>* r r'" "is_terminal (rr_status r)"
  shows "rr_status r' = rr_status r \<and> rr_ended_at r' = rr_ended_at r
       \<and> rr_exit_code r' = rr_exit_code r \<and> rr_process r' = rr_process r
       \<and> (case rr_frozen_changes r of None \<Rightarrow> True | Some f \<Rightarrow> rr_frozen_changes r' = Some f)"
  using assms(1)
proof (induction rule: rtranclp_induct)
  case base
  then show ?case by (simp split: option.splits)
next
  case (step r1 r2)
  then have "is_terminal (rr_status r1)" using assms(2) by simp
  from record_step_terminal [OF step(2) this] step.IH show ?case by (auto split: option.splits)
qed

theorem run_end_recorded_once_witness:
  "let r = snd (finish_run 5 (run_queued 1 ''run_1'' 0 ''ls'' ''/w'' 10) Failed (Some 2) None)
   in rr_status (snd (request_cancel 9 r)) = Failed \<and> rr_ended_at (snd (request_cancel 9 r)) = Some 5"
proof -
  let ?r = "snd (finish_run 5 (run_queued 1 ''run_1'' 0 ''ls'' ''/w'' 10) Failed (Some 2) None)"
  have f: "rr_status ?r = Failed" "rr_ended_at ?r = Some 5"
    by (simp_all add: finish_run_def transition_def run_queued_def Let_def)
  have "record_step\<^sup>*\<^sup>* ?r (snd (request_cancel 9 ?r))"
    by (rule r_into_rtranclp, rule record_step.cancel)
  from run_end_recorded_once [OF this] f show ?thesis by (simp add: Let_def)
qed

end
