(* ===== verification/Run_Execution.thy ===== *)
theory Run_Execution
  imports Run_Lifecycle
begin

text \<open>
  Running one queued record to completion (\<open>src/bash/execution.rs\<close>). The execution task
  locks the record for one operation at a time, so cancel requests from other tasks fall
  between any two of its operations. The phase says how far the task is; what the
  environment decides (the launch result, how the process ended, the drain warning, the
  clock) is chosen freely by the step.
\<close>

datatype exec_phase =
    Waiting
  | Launching
  | Executing bool
  | Ending process_outcome
  | Done

definition abandoned_note :: string where
  "abandoned_note = ''Bash run was abandoned; the process tree was terminated.''"

text \<open>\<open>AbandonGuard::drop\<close>\<close>

definition abandon :: "instant \<Rightarrow> run_record \<Rightarrow> run_record" where
  "abandon now r = snd (finish_run now r Cancelled None (Some abandoned_note))"

definition finalize_run_error :: "instant \<Rightarrow> run_record \<Rightarrow> app_error \<Rightarrow> run_record" where
  "finalize_run_error now r e =
     snd (finish_run now r Failed None (Some (''CodeWeave Bash execution failed: '' @ ae_message e)))"

definition note_warning :: "run_record \<Rightarrow> string option \<Rightarrow> run_record" where
  "note_warning r w = (case w of None \<Rightarrow> r | Some n \<Rightarrow> add_note r n)"

text \<open>The time the task waits for the process after it started.\<close>

definition stop_wait_ms :: nat where
  "stop_wait_ms = 5000"

definition execute_wait :: "bool \<Rightarrow> nat \<Rightarrow> nat" where
  "execute_wait cancel_after_spawn timeout_ms =
     (if cancel_after_spawn then stop_wait_ms else timeout_ms)"

text \<open>What \<open>timeout(wait, exit)\<close> observed: the exit, a wait error, or no answer in time.\<close>

datatype wait_result = ExitObserved "int option" bool | WaitError string | Elapsed

definition execute_outcome :: "nat \<Rightarrow> wait_result \<Rightarrow> process_outcome" where
  "execute_outcome timeout_ms w = (case w of
     ExitObserved code success \<Rightarrow> Exited code success
   | WaitError e \<Rightarrow> WaitFailed e
   | Elapsed \<Rightarrow> OutcomeTimedOut timeout_ms)"

text \<open>What became of the output collector within the drain timeout.\<close>

datatype drain_result = Drained | PipeFailed string | CollectorFailed string | PipesOpen

definition collector_warning :: "drain_result \<Rightarrow> string option" where
  "collector_warning d = (case d of
     Drained \<Rightarrow> None
   | PipeFailed m \<Rightarrow> Some (''CodeWeave warning: live Bash logging failed: '' @ m)
   | CollectorFailed m \<Rightarrow> Some (''CodeWeave warning: output collector failed: '' @ m)
   | PipesOpen \<Rightarrow>
       Some ''CodeWeave warning: output pipes did not close after process termination'')"

text \<open>One read of the collector: an empty read ends the pipe's decoder.\<close>

definition collect_chunk :: "run_record \<Rightarrow> pipe \<Rightarrow> u8 list \<Rightarrow> run_record option" where
  "collect_chunk r p bytes =
     map_option (with_output r)
       (if bytes = [] then output_finish (rr_output r) p else output_ingest (rr_output r) p bytes)"

inductive exec_step ::
    "nat \<Rightarrow> run_record \<times> exec_phase \<Rightarrow> run_record \<times> exec_phase \<Rightarrow> bool" for timeout_ms where
  cancel: "exec_step timeout_ms (r, p) (snd (request_cancel now r), p)"
| queue_closed: "exec_step timeout_ms (r, Waiting) (finalize_run_error now r e, Done)"
| begin_cancelled: "finish_if_cancelled_before_start now r = (True, r') \<Longrightarrow>
     exec_step timeout_ms (r, Waiting) (r', Done)"
| proceed: "finish_if_cancelled_before_start now r = (False, r') \<Longrightarrow>
     exec_step timeout_ms (r, Waiting) (r', Launching)"
| launch_failed: "exec_step timeout_ms (r, Launching) (finalize_run_error now r e, Done)"
| launched: "start_process now (note_warning r warning) g = (cancelled, r') \<Longrightarrow>
     exec_step timeout_ms (r, Launching) (r', Executing cancelled)"
| chunk: "collect_chunk r p bytes = Some r' \<Longrightarrow>
     exec_step timeout_ms (r, Executing c) (r', Executing c)"
| late_chunk: "collect_chunk r p bytes = Some r' \<Longrightarrow>
     exec_step timeout_ms (r, Ending outcome) (r', Ending outcome)"
| ended: "exec_step timeout_ms (r, Executing c) (r, Ending (execute_outcome timeout_ms w))"
| finished: "finish_process now (note_warning r (collector_warning d)) outcome = (b, r') \<Longrightarrow>
     exec_step timeout_ms (r, Ending outcome) (r', Done)"
| abandoned: "exec_step timeout_ms (r, p) (abandon now r, Done)"

inductive_cases exec_stepE: "exec_step timeout_ms s (r', p')"
inductive_cases waiting_stepE: "exec_step timeout_ms (r, Waiting) (r', p')"

definition exec_inv :: "run_record \<times> exec_phase \<Rightarrow> bool" where
  "exec_inv s \<longleftrightarrow> (case s of (r, p) \<Rightarrow>
     record_inv r \<and> (case p of
       Waiting \<Rightarrow> rr_status r \<in> {Queued, Cancelling} \<and> rr_process r = None
     | Launching \<Rightarrow> rr_status r \<in> {Queued, Cancelling} \<and> rr_process r = None
     | Executing _ \<Rightarrow> rr_status r \<in> {Running, Cancelling} \<and> rr_process r \<noteq> None
     | Ending _ \<Rightarrow> rr_status r \<in> {Running, Cancelling} \<and> rr_process r \<noteq> None
     | Done \<Rightarrow> is_terminal (rr_status r)))"

lemma note_warning_simps [simp]:
  "rr_status (note_warning r w) = rr_status r" "rr_process (note_warning r w) = rr_process r"
  "rr_cancel_requested (note_warning r w) = rr_cancel_requested r"
  "record_inv (note_warning r w) = record_inv r"
  by (auto simp: note_warning_def add_note_def record_inv_def split: option.splits)

lemma finish_run_terminal:
  assumes "can_become (rr_status r) s \<or> is_terminal (rr_status r)" "is_terminal s"
  shows "is_terminal (rr_status (snd (finish_run now r s c n)))"
  using assms by (auto simp: finish_run_def transition_def Let_def)

lemma finish_process_terminal:
  assumes "record_inv r" "rr_status r \<in> {Running, Cancelling}"
  shows "is_terminal (rr_status (snd (finish_process now r outcome)))"
proof -
  have "rr_status r = Cancelling \<Longrightarrow> rr_cancel_requested r" "rr_cancel_requested r \<Longrightarrow> rr_status r = Cancelling"
    using assms by (auto simp: record_inv_def)
  with assms(2) have "can_become (rr_status r) (fst (outcome_result (rr_cancel_requested r) outcome))"
    by (cases outcome; cases "rr_cancel_requested r") (auto simp: outcome_result_def)
  with outcome_terminal [of "rr_cancel_requested r" outcome] show ?thesis
    by (auto simp: finish_process_def intro!: finish_run_terminal split: prod.splits)
qed

lemma collect_chunk_simps:
  assumes "collect_chunk r p bytes = Some r'"
  shows "rr_status r' = rr_status r" "rr_process r' = rr_process r" "record_inv r' = record_inv r"
    "rr_cancel_requested r' = rr_cancel_requested r"
proof -
  from assms obtain out where "r' = with_output r out" by (auto simp: collect_chunk_def)
  then show "rr_status r' = rr_status r" "rr_process r' = rr_process r" "record_inv r' = record_inv r"
    "rr_cancel_requested r' = rr_cancel_requested r" by (simp_all add: with_output_def record_inv_def)
qed

lemma start_process_state:
  assumes "record_inv r" "rr_status r \<in> {Queued, Cancelling}"
  shows "rr_status (snd (start_process now r g)) \<in> {Running, Cancelling}
    \<and> rr_process (snd (start_process now r g)) \<noteq> None"
proof -
  have "rr_status r = Cancelling \<Longrightarrow> rr_cancel_requested r" "rr_status r = Queued \<Longrightarrow> \<not> rr_cancel_requested r"
    using assms(1) by (auto simp: record_inv_def)
  with assms(2) show ?thesis
    by (cases "rr_status r") (simp_all add: start_process_def transition_def Let_def)
qed

lemma exec_step_inv:
  assumes "exec_step timeout_ms s t" "exec_inv s"
  shows "exec_inv t"
  using assms
proof (induction rule: exec_step.induct)
  case (cancel r p now)
  then have "record_inv (snd (request_cancel now r))" by (simp add: exec_inv_def request_cancel_inv)
  with cancel show ?case
    by (cases "rr_status r")
      (auto simp: exec_inv_def request_cancel_def transition_def Let_def split: exec_phase.splits)
next
  case (queue_closed r now e)
  then show ?case
    by (auto simp: exec_inv_def finalize_run_error_def finish_run_inv intro!: finish_run_terminal)
next
  case (begin_cancelled now r r')
  then have "r' = snd (finish_run now r Cancelled None
      (Some ''Bash run was cancelled before the process started.''))"
    by (auto simp: finish_if_cancelled_before_start_def split: if_splits)
  with begin_cancelled show ?case
    by (auto simp: exec_inv_def finish_run_inv intro!: finish_run_terminal)
next
  case (proceed now r r')
  then have "r' = r"
    by (auto simp: finish_if_cancelled_before_start_def finish_run_def transition_def Let_def
        split: if_splits)
  with proceed show ?case by (simp add: exec_inv_def)
next
  case (launch_failed r now e)
  then show ?case
    by (auto simp: exec_inv_def finalize_run_error_def finish_run_inv intro!: finish_run_terminal)
next
  case (launched now r warning g cancelled r')
  then have "record_inv r'"
    using start_process_inv [of "note_warning r warning" now g] by (simp add: exec_inv_def)
  moreover have "rr_status r' \<in> {Running, Cancelling} \<and> rr_process r' \<noteq> None"
    using launched start_process_state [of "note_warning r warning" now g] by (simp add: exec_inv_def)
  ultimately show ?case by (simp add: exec_inv_def)
next
  case (finished now r d outcome b r')
  then have "r' = snd (finish_process now (note_warning r (collector_warning d)) outcome)" by simp
  with finished(2) show ?case
    using finish_process_inv [of "note_warning r (collector_warning d)" now outcome]
      finish_process_terminal [of "note_warning r (collector_warning d)" now outcome]
    by (auto simp: exec_inv_def)
next
  case (abandoned r p now)
  then have "can_become (rr_status r) Cancelled \<or> is_terminal (rr_status r)"
    by (cases "rr_status r") auto
  with abandoned show ?case
    by (auto simp: exec_inv_def abandon_def finish_run_inv intro!: finish_run_terminal)
qed (auto simp: exec_inv_def collect_chunk_simps)

definition exec_start :: "run_record \<times> exec_phase \<Rightarrow> bool" where
  "exec_start s \<longleftrightarrow> (\<exists>now run_id sq command cwd limit.
     s = (run_queued now run_id sq command cwd limit, Waiting))"

lemma exec_start_inv: "exec_start s \<Longrightarrow> exec_inv s"
  by (auto simp: exec_start_def exec_inv_def record_inv_queued) (simp_all add: run_queued_def)

lemma exec_reachable_inv:
  "(exec_step timeout_ms)\<^sup>*\<^sup>* s t \<Longrightarrow> exec_start s \<Longrightarrow> exec_inv t"
  by (induction rule: rtranclp_induct) (auto intro: exec_start_inv exec_step_inv)

section \<open>Properties\<close>

text \<open>C12. The execution task and the record agree on the end: however launches, exits,
  output, cancels and aborts interleave, the record is terminal exactly when the task is
  done, so no run is left active by a task that ended and none ends under a task that still
  owns a process.\<close>

theorem execution_ends_with_record:
  assumes "(exec_step timeout_ms)\<^sup>*\<^sup>* (run_queued now run_id sq command cwd limit, Waiting) (r, p)"
  shows "(p = Done \<longleftrightarrow> is_terminal (rr_status r)) \<and> (rr_process r \<noteq> None \<longleftrightarrow> p \<notin> {Waiting, Launching, Done})"
proof -
  have "exec_start (run_queued now run_id sq command cwd limit, Waiting)"
    unfolding exec_start_def by blast
  from exec_reachable_inv [OF assms this] show ?thesis
    by (cases p) (auto simp: exec_inv_def record_inv_def)
qed

theorem execution_ends_with_record_witness:
  "let r = abandon 3 (run_queued 1 ''run_1'' 0 ''ls'' ''/w'' 10)
   in is_terminal (rr_status r) \<and> rr_process r = None"
  using execution_ends_with_record [of 1000 1 "''run_1''" 0 "''ls''" "''/w''" 10
      "abandon 3 (run_queued 1 ''run_1'' 0 ''ls'' ''/w'' 10)" Done]
  by (auto simp: Let_def intro: exec_step.abandoned)

text \<open>C10. A cancel request wins over however the process ends: in a reachable execution
  whose run was asked to cancel, an exit (successful or not) and a timeout both end the run
  as cancelled.\<close>

theorem requested_cancel_wins:
  assumes "(exec_step timeout_ms)\<^sup>*\<^sup>* (run_queued now run_id sq command cwd limit, Waiting) (r, Ending outcome)"
    and "rr_cancel_requested r" "outcome = Exited code success \<or> outcome = OutcomeTimedOut ms"
  shows "rr_status (snd (finish_process later r outcome)) = Cancelled"
proof -
  have "exec_start (run_queued now run_id sq command cwd limit, Waiting)"
    unfolding exec_start_def by blast
  from exec_reachable_inv [OF assms(1) this]
  have "rr_status r \<in> {Running, Cancelling}" by (simp add: exec_inv_def)
  then show ?thesis
    using assms(2,3)
    by (auto simp: finish_process_def outcome_result_def finish_run_def transition_def Let_def)
qed

theorem requested_cancel_wins_witness:
  "\<exists>r. rr_cancel_requested r \<and> rr_status (snd (finish_process 9 r (Exited (Some 0) True))) = Cancelled"
proof -
  let ?q = "run_queued 1 ''run_1'' 0 ''ls'' ''/w'' 10" and ?g = "\<lparr>pg_handle = 0, pg_pid = Some 7\<rparr>"
  let ?r = "snd (start_process 2 ?q ?g)"
  let ?c = "snd (request_cancel 3 ?r)"
  have 1: "exec_step 50 (?q, Waiting) (?q, Launching)"
    by (rule exec_step.proceed [of 0])
      (simp add: finish_if_cancelled_before_start_def run_queued_def)
  have 2: "exec_step 50 (?q, Launching) (?r, Executing False)"
    by (rule exec_step.launched [of 2 _ None ?g])
      (simp add: note_warning_def start_process_def run_queued_def transition_def Let_def)
  have 3: "exec_step 50 (?r, Executing False) (?r, Ending (Exited (Some 0) True))"
    using exec_step.ended [of 50 ?r False "ExitObserved (Some 0) True"]
    by (simp add: execute_outcome_def)
  have 4: "exec_step 50 (?r, Ending (Exited (Some 0) True)) (?c, Ending (Exited (Some 0) True))"
    by (rule exec_step.cancel)
  have reach: "(exec_step 50)\<^sup>*\<^sup>* (?q, Waiting) (?c, Ending (Exited (Some 0) True))"
    using 1 2 3 4 by (meson rtranclp.rtrancl_into_rtrancl rtranclp.rtrancl_refl)
  have c: "rr_cancel_requested ?c"
    by (simp add: request_cancel_def start_process_def run_queued_def transition_def Let_def)
  from requested_cancel_wins [OF reach c, of "Some 0" True 0 9] c show ?thesis by blast
qed

end
