(* ===== verification/Paths.thy ===== *)
theory Paths
  imports App_Error
begin

text \<open>
  Workspace-relative paths (\<open>RelPath\<close> and \<open>normalize_path_text\<close> of
  \<open>src/security.rs\<close>), path filters (\<open>src/index/path_filter.rs\<close>) and the parts of
  \<open>std::path\<close> on a Unix host that they use: a path is read as its components, empty
  and inner \<open>.\<close> components dropped.
\<close>

section \<open>Path components\<close>

datatype component = RootDir | CurDir | ParentDir | Normal string

definition component_of :: "string \<Rightarrow> component" where
  "component_of s = (if s = ''..'' then ParentDir else Normal s)"

definition path_is_absolute :: "string \<Rightarrow> bool" where
  "path_is_absolute p = starts_with p ''/''"

definition path_components :: "string \<Rightarrow> component list" where
  "path_components p =
     (let parts = split_on CHR ''/'' p;
          body = map component_of (filter (\<lambda>s. s \<noteq> '''' \<and> s \<noteq> ''.'') parts)
      in if path_is_absolute p then RootDir # body
         else if hd parts = ''.'' then CurDir # body
         else body)"

text \<open>\<open>Path::join\<close>.\<close>

definition path_joined :: "string \<Rightarrow> string \<Rightarrow> string" where
  "path_joined base path =
     (if path_is_absolute path then path
      else if base = [] \<or> ends_with base ''/'' then base @ path else base @ ''/'' @ path)"

definition component_text :: "component \<Rightarrow> string" where
  "component_text c = (case c of
     RootDir \<Rightarrow> '''' | CurDir \<Rightarrow> ''.'' | ParentDir \<Rightarrow> ''..'' | Normal s \<Rightarrow> s)"

text \<open>\<open>Path::file_name\<close>, \<open>Path::parent\<close> and \<open>Path::with_file_name\<close>.\<close>

definition path_file_name :: "string \<Rightarrow> string option" where
  "path_file_name p = (case rev (path_components p) of Normal s # _ \<Rightarrow> Some s | _ \<Rightarrow> None)"

definition path_parent :: "string \<Rightarrow> component list option" where
  "path_parent p = (case rev (path_components p) of
     [] \<Rightarrow> None | RootDir # _ \<Rightarrow> None | _ # rest \<Rightarrow> Some (rev rest))"

definition with_file_name :: "string \<Rightarrow> string \<Rightarrow> component list" where
  "with_file_name p name =
     (case path_file_name p of
        Some _ \<Rightarrow> butlast (path_components p) @ [Normal name]
      | None \<Rightarrow> path_components p @ [Normal name])"

section \<open>Normalized path text\<close>

definition backslash :: char where
  "backslash = CHR 0x5C"

fun trim_dot_slash :: "string \<Rightarrow> string" where
  "trim_dot_slash (c # d # s) =
     (if c = CHR ''.'' \<and> d = CHR ''/'' then trim_dot_slash s else c # d # s)"
| "trim_dot_slash s = s"

definition replace_backslash :: "string \<Rightarrow> string" where
  "replace_backslash p = map (\<lambda>c. if c = backslash then CHR ''/'' else c) p"

definition normalize_path_text :: "string \<Rightarrow> string" where
  "normalize_path_text p =
     (if backslash \<in> set p then trim_dot_slash (replace_backslash p) else trim_dot_slash p)"

lemma trim_dot_slash_idem [simp]: "trim_dot_slash (trim_dot_slash p) = trim_dot_slash p"
  by (induction p rule: trim_dot_slash.induct) auto

lemma trim_dot_slash_set: "set (trim_dot_slash p) \<subseteq> set p"
  by (induction p rule: trim_dot_slash.induct) auto

lemma replace_backslash_set: "backslash \<notin> set (replace_backslash p)"
  by (auto simp: replace_backslash_def backslash_def split: if_splits)

lemma normalize_no_backslash: "backslash \<notin> set (normalize_path_text p)"
  using trim_dot_slash_set [of p] trim_dot_slash_set [of "replace_backslash p"]
    replace_backslash_set [of p]
  by (auto simp: normalize_path_text_def)

lemma normalize_idem [simp]: "normalize_path_text (normalize_path_text p) = normalize_path_text p"
  using normalize_no_backslash [of p] by (auto simp: normalize_path_text_def)

lemma trim_no_prefix: "strip_prefix ''./'' (trim_dot_slash p) = None"
  by (induction p rule: trim_dot_slash.induct) auto

section \<open>Relative paths\<close>

type_synonym rel_path = string

definition rel_path_new :: "string \<Rightarrow> app_error + rel_path" where
  "rel_path_new t =
     (let normalized = normalize_path_text t in
      if path_is_absolute normalized
      then Inl (error_new OutsideRoot ''Absolute paths are not allowed'')
      else if \<exists>c \<in> set (path_components normalized). c = ParentDir \<or> c = RootDir
      then Inl (error_new OutsideRoot ''Path traversal is not allowed'')
      else Inr normalized)"

definition path_ok :: "rel_path \<Rightarrow> bool" where
  "path_ok p \<longleftrightarrow> normalize_path_text p = p
     \<and> set (path_components p) \<inter> {ParentDir, RootDir} = {} \<and> \<not> path_is_absolute p"

lemma rel_path_new_ok: "rel_path_new t = Inr p \<Longrightarrow> path_ok p \<and> p = normalize_path_text t"
  by (auto simp: rel_path_new_def path_ok_def Let_def split: if_splits)

lemma rel_path_new_error: "rel_path_new t = Inl e \<Longrightarrow> ae_code e = OutsideRoot"
  by (auto simp: rel_path_new_def Let_def split: if_splits)

lemma rel_path_new_idem: "path_ok p \<Longrightarrow> rel_path_new p = Inr p"
  by (auto simp: rel_path_new_def path_ok_def Let_def)

text \<open>
  How the operating system walks a path from a directory: a normal component goes down,
  \<open>..\<close> goes up, the root component leaves for the file system root.
\<close>

fun walk :: "string list \<Rightarrow> component list \<Rightarrow> string list" where
  "walk dir [] = dir"
| "walk dir (RootDir # cs) = walk [] cs"
| "walk dir (CurDir # cs) = walk dir cs"
| "walk dir (ParentDir # cs) = walk (butlast dir) cs"
| "walk dir (Normal s # cs) = walk (dir @ [s]) cs"

lemma walk_stays_below:
  "set cs \<inter> {ParentDir, RootDir} = {} \<Longrightarrow> \<exists>below. walk dir cs = dir @ below"
proof (induction dir cs rule: walk.induct)
  case (5 dir s cs)
  then show ?case by fastforce
qed auto

section \<open>Path filters\<close>

definition path_matches_filter :: "string \<Rightarrow> string \<Rightarrow> bool" where
  "path_matches_filter path flt =
     (if ends_with flt ''/'' then starts_with path flt
      else path = flt
         \<or> (case strip_prefix flt path of None \<Rightarrow> False | Some suffix \<Rightarrow> starts_with suffix ''/''))"

definition path_filter_new :: "string list \<Rightarrow> string list" where
  "path_filter_new filters = filter (\<lambda>f. f \<noteq> []) (map normalize_path_text filters)"

definition path_filter_allows :: "string list \<Rightarrow> string \<Rightarrow> bool" where
  "path_filter_allows normalized path \<longleftrightarrow>
     normalized = [] \<or> (\<exists>f \<in> set normalized. path_matches_filter path f)"

section \<open>Properties\<close>

text \<open>C19. A path the boundary accepts is canonical text and cannot leave the workspace:
  normalizing it again changes nothing, and walking its components from any directory,
  the root included, ends below that directory.\<close>

theorem rel_path_confined:
  assumes "rel_path_new t = Inr p"
  shows "rel_path_new p = Inr p \<and> normalize_path_text p = p
    \<and> (\<exists>below. walk root (path_components p) = root @ below)"
proof -
  have ok: "path_ok p" using rel_path_new_ok [OF assms] by blast
  then have "set (path_components p) \<inter> {ParentDir, RootDir} = {}" by (simp add: path_ok_def)
  from walk_stays_below [OF this, of root] rel_path_new_idem [OF ok] ok
  show ?thesis by (simp add: path_ok_def)
qed

theorem rel_path_confined_witness:
  "rel_path_new ''./src/lib.rs'' = Inr ''src/lib.rs''
   \<and> (\<exists>below. walk [''home'', ''w''] (path_components ''src/lib.rs'') = [''home'', ''w''] @ below)"
proof -
  have "rel_path_new ''./src/lib.rs'' = Inr ''src/lib.rs''"
    by (simp add: rel_path_new_def normalize_path_text_def backslash_def path_components_def
        path_is_absolute_def starts_with_def component_of_def Let_def)
  from rel_path_confined [OF this, of "[''home'', ''w'']"] this show ?thesis by blast
qed

text \<open>A filter without a trailing slash matches whole path segments: it admits a path
  exactly when the filter's segments are the path's first segments, so no sibling that
  merely shares a textual prefix is admitted.\<close>

theorem path_filter_matches_segments:
  assumes "\<not> ends_with flt ''/''"
  shows "path_matches_filter path flt \<longleftrightarrow>
     (\<exists>r. split_on CHR ''/'' path = split_on CHR ''/'' flt @ r)"
proof -
  have "(case strip_prefix flt path of None \<Rightarrow> False | Some suffix \<Rightarrow> starts_with suffix ''/'')
      \<longleftrightarrow> (\<exists>ys. path = flt @ CHR ''/'' # ys)"
    by (auto simp: starts_with_iff strip_prefix_iff strip_prefix_None split: option.splits)
  then show ?thesis
    using assms by (auto simp: path_matches_filter_def split_on_prefix_iff)
qed

theorem path_filter_matches_segments_witness:
  "path_matches_filter ''src/main.rs'' ''src'' \<and> \<not> path_matches_filter ''src-old/main.rs'' ''src''"
  using path_filter_matches_segments [of "''src''" "''src/main.rs''"]
    path_filter_matches_segments [of "''src''" "''src-old/main.rs''"]
  by (simp add: ends_with_def)

end
