(* ===== verification/Workspace_Root.thy ===== *)
theory Workspace_Root
  imports Paths
begin

text \<open>
  The workspace root handle (\<open>WorkspaceRoot\<close> in \<open>src/security.rs\<close>) and the edit
  helpers over it (\<open>src/workspace/io_helpers.rs\<close>). The confined directory itself is
  \<open>cap_std::fs::Dir\<close>, a package outside the repository: its operations, the modification
  clock and \<open>Uuid::new_v4\<close> are the fields of \<open>dir_ops\<close>, over an abstract state of the
  disk. What the code relies on of them is the locale \<open>dir_contract\<close>.
\<close>

section \<open>The confined directory, a parameter\<close>

datatype file_kind = RegularFile | Directory | Symlink | OtherKind

record metadata =
  md_kind :: file_kind
  md_len :: nat
  md_modified :: "nat option"

record 'd dir_ops =
  op_symlink_metadata :: "'d \<Rightarrow> rel_path \<Rightarrow> io_error + metadata"
  op_metadata :: "'d \<Rightarrow> rel_path \<Rightarrow> io_error + metadata"
  op_open :: "'d \<Rightarrow> rel_path \<Rightarrow> io_error + (metadata \<times> u8 list)"
  op_read_to_string :: "'d \<Rightarrow> rel_path \<Rightarrow> io_error + string"
  op_read_link :: "'d \<Rightarrow> rel_path \<Rightarrow> io_error + string"
  op_create_dir_all :: "'d \<Rightarrow> component list \<Rightarrow> (io_error + unit) \<times> 'd"
  op_write :: "'d \<Rightarrow> component list \<Rightarrow> string \<Rightarrow> (io_error + unit) \<times> 'd"
  op_rename :: "'d \<Rightarrow> component list \<Rightarrow> component list \<Rightarrow> (io_error + unit) \<times> 'd"
  op_remove_file :: "'d \<Rightarrow> component list \<Rightarrow> (io_error + unit) \<times> 'd"
  op_uuid :: "'d \<Rightarrow> string \<times> 'd"

section \<open>Reading\<close>

record workspace_file =
  wf_bytes :: "u8 list"
  wf_size :: nat
  wf_modified_ns :: nat

definition open_regular ::
    "'d dir_ops \<Rightarrow> 'd \<Rightarrow> rel_path \<Rightarrow> io_error + (metadata \<times> u8 list) option" where
  "open_regular ops d p =
     (case op_symlink_metadata ops d p of
        Inl e \<Rightarrow> if io_kind_of e = IoNotFound then Inr None else Inl e
      | Inr md \<Rightarrow>
          if md_kind md \<noteq> RegularFile then Inr None
          else (case op_open ops d p of
                  Inl e \<Rightarrow> Inl e
                | Inr (md', bytes) \<Rightarrow>
                    if md_kind md' \<noteq> RegularFile then Inr None else Inr (Some (md', bytes))))"

text \<open>The bytes read and whether the file held more; \<open>max_bytes + 1\<close> saturates.\<close>

definition read_bounded :: "u8 list \<Rightarrow> nat \<Rightarrow> u8 list \<times> bool" where
  "read_bounded file max_bytes =
     (let bytes = take (min (max_bytes + 1) usize_max) file
      in (take max_bytes bytes, max_bytes < length bytes))"

definition read_file ::
    "'d dir_ops \<Rightarrow> 'd \<Rightarrow> rel_path \<Rightarrow> nat \<Rightarrow> app_error + workspace_file option" where
  "read_file ops d p max_bytes =
     (case open_regular ops d p of
        Inl e \<Rightarrow> Inl (error_internal (io_message e))
      | Inr None \<Rightarrow> Inr None
      | Inr (Some (md, file)) \<Rightarrow>
          if usize_max < md_len md then Inr None
          else if max_bytes < md_len md then Inr None
          else (case read_bounded file max_bytes of
                  (bytes, truncated) \<Rightarrow>
                    if truncated then Inr None
                    else Inr (Some \<lparr>wf_bytes = bytes, wf_size = md_len md,
                                    wf_modified_ns = (case md_modified md of None \<Rightarrow> 0 | Some ns \<Rightarrow> ns)\<rparr>)))"

definition read_prefix ::
    "'d dir_ops \<Rightarrow> 'd \<Rightarrow> rel_path \<Rightarrow> nat \<Rightarrow> io_error + (u8 list \<times> bool) option" where
  "read_prefix ops d p max_bytes =
     (case open_regular ops d p of
        Inl e \<Rightarrow> Inl e
      | Inr None \<Rightarrow> Inr None
      | Inr (Some (_, file)) \<Rightarrow> Inr (Some (read_bounded file max_bytes)))"

definition read_to_string :: "'d dir_ops \<Rightarrow> 'd \<Rightarrow> rel_path \<Rightarrow> io_error + string option" where
  "read_to_string ops d p =
     (case op_read_to_string ops d p of
        Inr content \<Rightarrow> Inr (Some content)
      | Inl e \<Rightarrow> if io_kind_of e = IoNotFound then Inr None else Inl e)"

definition read_link :: "'d dir_ops \<Rightarrow> 'd \<Rightarrow> rel_path \<Rightarrow> io_error + string option" where
  "read_link ops d p =
     (case op_symlink_metadata ops d p of
        Inr md \<Rightarrow>
          if md_kind md = Symlink
          then (case op_read_link ops d p of Inl e \<Rightarrow> Inl e | Inr t \<Rightarrow> Inr (Some t))
          else Inr None
      | Inl e \<Rightarrow> if io_kind_of e = IoNotFound then Inr None else Inl e)"

definition is_regular_file :: "'d dir_ops \<Rightarrow> 'd \<Rightarrow> rel_path \<Rightarrow> bool" where
  "is_regular_file ops d p =
     (case op_symlink_metadata ops d p of Inr md \<Rightarrow> md_kind md = RegularFile | Inl _ \<Rightarrow> False)"

definition root_modified :: "'d dir_ops \<Rightarrow> 'd \<Rightarrow> rel_path \<Rightarrow> nat option" where
  "root_modified ops d p =
     (case op_metadata ops d p of Inr md \<Rightarrow> md_modified md | Inl _ \<Rightarrow> None)"

definition root_join :: "string \<Rightarrow> rel_path \<Rightarrow> string" where
  "root_join root p = root @ ''/'' @ p"

definition root_directory :: "'d dir_ops \<Rightarrow> 'd \<Rightarrow> string \<Rightarrow> rel_path \<Rightarrow> app_error + string" where
  "root_directory ops d root p =
     (if p = '''' then Inr root
      else (case op_metadata ops d p of
              Inl e \<Rightarrow>
                Inl (case io_kind_of e of
                       IoNotFound \<Rightarrow>
                         error_with_details PathNotFound (io_message e) (JObj [(''path'', JStr p)])
                     | IoPermissionDenied \<Rightarrow>
                         error_with_details OutsideRoot ''Path resolves outside the workspace''
                           (JObj [(''path'', JStr p)])
                     | _ \<Rightarrow> error_internal (io_message e))
            | Inr md \<Rightarrow>
                if md_kind md \<noteq> Directory
                then Inl (error_new InvalidCwd ''Bash cwd is not a directory'')
                else Inr (root_join root p)))"

section \<open>Writing\<close>

text \<open>A write to a sibling temporary file, then a rename over the target.\<close>

definition write_atomic ::
    "'d dir_ops \<Rightarrow> 'd \<Rightarrow> rel_path \<Rightarrow> string \<Rightarrow> string \<Rightarrow> (io_error + unit) \<times> 'd" where
  "write_atomic ops d p content temp_name =
     (case (case path_parent p of
              Some parent \<Rightarrow>
                if parent \<noteq> [] then op_create_dir_all ops d parent else (Inr (), d)
            | None \<Rightarrow> (Inr (), d)) of
        (Inl e, d1) \<Rightarrow> (Inl e, d1)
      | (Inr _, d1) \<Rightarrow>
          let temp = with_file_name p temp_name in
          (case op_write ops d1 temp content of
             (Inl e, d2) \<Rightarrow> (Inl e, snd (op_remove_file ops d2 temp))
           | (Inr _, d2) \<Rightarrow>
               (case op_rename ops d2 temp (path_components p) of
                  (Inl e, d3) \<Rightarrow> (Inl e, snd (op_remove_file ops d3 temp))
                | (Inr _, d3) \<Rightarrow> (Inr (), d3))))"

definition remove_file :: "'d dir_ops \<Rightarrow> 'd \<Rightarrow> rel_path \<Rightarrow> (io_error + unit) \<times> 'd" where
  "remove_file ops d p =
     (case op_remove_file ops d (path_components p) of
        (Inl e, d1) \<Rightarrow> if io_kind_of e = IoNotFound then (Inr (), d1) else (Inl e, d1)
      | (Inr _, d1) \<Rightarrow> (Inr (), d1))"

text \<open>Temporary names carry a marker (\<open>src/workspace/state/ledger.rs\<close>).\<close>

definition temp_file_marker :: string where
  "temp_file_marker = ''.codeweave-''"

definition temp_file_name :: "string \<Rightarrow> string \<Rightarrow> string" where
  "temp_file_name name unique = ''.'' @ name @ temp_file_marker @ unique @ ''.tmp''"

fun contains :: "'a list \<Rightarrow> 'a list \<Rightarrow> bool" where
  "contains [] p = (p = [])"
| "contains (x # xs) p = (starts_with (x # xs) p \<or> contains xs p)"

definition is_temp_key :: "component list \<Rightarrow> bool" where
  "is_temp_key k = (case rev k of Normal s # _ \<Rightarrow> contains s temp_file_marker | _ \<Rightarrow> False)"

definition is_temp_file :: "string \<Rightarrow> bool" where
  "is_temp_file p =
     (case path_file_name p of Some name \<Rightarrow> contains name temp_file_marker | None \<Rightarrow> False)"

definition atomic_write ::
    "'d dir_ops \<Rightarrow> 'd \<Rightarrow> rel_path \<Rightarrow> string \<Rightarrow> (io_error + unit) \<times> 'd" where
  "atomic_write ops d p content =
     (let name = (case path_file_name p of Some n \<Rightarrow> n | None \<Rightarrow> ''file'')
      in case op_uuid ops d of
           (u, d1) \<Rightarrow> write_atomic ops d1 p content (temp_file_name name u))"

lemma is_temp_file_key: "is_temp_file p = is_temp_key (path_components p)"
  by (auto simp: is_temp_file_def is_temp_key_def path_file_name_def split: list.splits component.splits)

lemma contains_iff: "contains xs p \<longleftrightarrow> (\<exists>ys zs. xs = ys @ p @ zs)"
proof (induction xs)
  case (Cons x xs)
  show ?case
  proof
    assume "contains (x # xs) p"
    then show "\<exists>ys zs. x # xs = ys @ p @ zs"
      using Cons.IH by (auto simp: starts_with_iff) (metis append_Cons append_Nil)+
  next
    assume "\<exists>ys zs. x # xs = ys @ p @ zs"
    then obtain ys zs where eq: "x # xs = ys @ p @ zs" by blast
    show "contains (x # xs) p"
    proof (cases ys)
      case Nil
      with eq have "starts_with (x # xs) p" by (auto simp: starts_with_iff)
      then show ?thesis by simp
    next
      case (Cons y ys')
      with eq Cons.IH show ?thesis by auto
    qed
  qed
qed auto

lemma temp_name_marked [simp]: "is_temp_key (with_file_name p (temp_file_name n u))"
proof -
  have "contains (temp_file_name n u) temp_file_marker"
    unfolding contains_iff temp_file_name_def by (metis append.assoc)
  then show ?thesis by (simp add: is_temp_key_def with_file_name_def split: option.splits)
qed

section \<open>The contract of the directory and of the root\<close>

text \<open>
  The documented behaviour of the directory, over a view of the disk that gives each file's
  text: reads agree with the view; a failed write may have changed the file it wrote and
  nothing else; rename is atomic; removing removes; creating directories and drawing a
  UUID change no file. The view covers files reached by one path only (no alias through a
  linked directory).
\<close>

locale dir_contract =
  fixes ops :: "'d dir_ops"
    and view :: "'d \<Rightarrow> component list \<Rightarrow> string option"
  assumes read_ok: "op_read_to_string ops d p = Inr c \<Longrightarrow> view d (path_components p) = Some c"
    and read_missing: "op_read_to_string ops d p = Inl e \<Longrightarrow> io_kind_of e = IoNotFound \<Longrightarrow>
        view d (path_components p) = None"
    and mkdir: "op_create_dir_all ops d k = (r, d') \<Longrightarrow> view d' = view d"
    and uuid: "op_uuid ops d = (u, d') \<Longrightarrow> view d' = view d"
    and write_ok: "op_write ops d k c = (Inr (), d') \<Longrightarrow> view d' = (view d)(k \<mapsto> c)"
    and write_fail: "op_write ops d k c = (Inl e, d') \<Longrightarrow> \<exists>x. view d' = (view d)(k := x)"
    and rename_ok: "op_rename ops d k l = (Inr (), d') \<Longrightarrow> k \<noteq> l \<Longrightarrow>
        view d' = (view d)(l := view d k, k := None)"
    and rename_fail: "op_rename ops d k l = (Inl e, d') \<Longrightarrow> view d' = view d"
    and remove_ok: "op_remove_file ops d k = (Inr (), d') \<Longrightarrow> view d' = (view d)(k := None)"
    and remove_fail: "op_remove_file ops d k = (Inl e, d') \<Longrightarrow> view d' = view d"
    and remove_missing: "op_remove_file ops d k = (Inl e, d') \<Longrightarrow> io_kind_of e = IoNotFound \<Longrightarrow>
        view d k = None"

text \<open>
  What edits rely on of the root: a read tells the file's text; a put either replaces the
  one file or changes no file; a delete likewise. Temporary files are not part of what is
  seen.
\<close>

locale file_store =
  fixes get :: "'d \<Rightarrow> rel_path \<Rightarrow> io_error + string option"
    and put :: "'d \<Rightarrow> rel_path \<Rightarrow> string \<Rightarrow> (io_error + unit) \<times> 'd"
    and del :: "'d \<Rightarrow> rel_path \<Rightarrow> (io_error + unit) \<times> 'd"
    and seen :: "'d \<Rightarrow> component list \<Rightarrow> string option"
  assumes get_seen: "\<not> is_temp_file p \<Longrightarrow> get d p = Inr found \<Longrightarrow> seen d (path_components p) = found"
    and put_ok: "\<not> is_temp_file p \<Longrightarrow> put d p c = (Inr (), d') \<Longrightarrow>
        seen d' = (seen d)(path_components p \<mapsto> c)"
    and put_fail: "\<not> is_temp_file p \<Longrightarrow> put d p c = (Inl e, d') \<Longrightarrow> seen d' = seen d"
    and del_ok: "\<not> is_temp_file p \<Longrightarrow> del d p = (Inr (), d') \<Longrightarrow>
        seen d' = (seen d)(path_components p := None)"
    and del_fail: "\<not> is_temp_file p \<Longrightarrow> del d p = (Inl e, d') \<Longrightarrow> seen d' = seen d"

definition seen_view ::
    "('d \<Rightarrow> component list \<Rightarrow> string option) \<Rightarrow> 'd \<Rightarrow> component list \<Rightarrow> string option" where
  "seen_view view d k = (if is_temp_key k then None else view d k)"

lemma seen_same: "view d' = view d \<Longrightarrow> seen_view view d' = seen_view view d"
  by (auto simp: seen_view_def fun_eq_iff)

lemma seen_temp:
  "view d' = (view d)(k := x) \<Longrightarrow> is_temp_key k \<Longrightarrow> seen_view view d' = seen_view view d"
  by (auto simp: seen_view_def fun_eq_iff)

lemma seen_file:
  "view d' = (view d)(k := x) \<Longrightarrow> \<not> is_temp_key k \<Longrightarrow>
     seen_view view d' = (seen_view view d)(k := x)"
  by (auto simp: seen_view_def fun_eq_iff)

context dir_contract
begin

lemma remove_any_temp:
  assumes "is_temp_key k"
  shows "seen_view view (snd (op_remove_file ops d k)) = seen_view view d"
proof -
  obtain r d' where r: "op_remove_file ops d k = (r, d')" by fastforce
  show ?thesis
  proof (cases r)
    case (Inl e)
    with r have "view d' = view d" using remove_fail by blast
    with r show ?thesis using seen_same by auto
  next
    case (Inr u)
    with r have "view d' = (view d)(k := None)" using remove_ok by simp
    with r show ?thesis using seen_temp [OF _ assms] by auto
  qed
qed

lemma write_atomic_seen:
  assumes p: "\<not> is_temp_key (path_components p)" and t: "is_temp_key (with_file_name p tmp)"
    and w: "write_atomic ops d p c tmp = (r, d')"
  shows "seen_view view d' =
     (case r of Inl _ \<Rightarrow> seen_view view d | Inr _ \<Rightarrow> (seen_view view d)(path_components p \<mapsto> c))"
proof -
  let ?k = "with_file_name p tmp"
  have kp: "?k \<noteq> path_components p" using p t by auto
  obtain r1 d1 where 1: "(case path_parent p of
              Some parent \<Rightarrow>
                if parent \<noteq> [] then op_create_dir_all ops d parent else (Inr (), d)
            | None \<Rightarrow> (Inr (), d)) = (r1, d1)" by fastforce
  then have v1: "view d1 = view d" using mkdir by (auto split: option.splits if_splits)
  obtain r2 d2 where 2: "op_write ops d1 ?k c = (r2, d2)" by fastforce
  obtain r3 d3 where 3: "op_rename ops d2 ?k (path_components p) = (r3, d3)" by fastforce
  note w' = w [unfolded write_atomic_def Let_def 1 prod.case 2 3]
  show ?thesis
  proof (cases r1)
    case (Inl e)
    with w' v1 show ?thesis using seen_same [of view d1 d] by auto
  next
    case r1: (Inr u1)
    show ?thesis
    proof (cases r2)
      case (Inl e)
      with 2 obtain x where "view d2 = (view d)(?k := x)" using write_fail v1 by metis
      then have "seen_view view d2 = seen_view view d" using t by (rule seen_temp)
      with w' r1 Inl remove_any_temp [OF t, of d2] show ?thesis by auto
    next
      case r2: (Inr u2)
      with 2 have v2: "view d2 = (view d)(?k \<mapsto> c)" using write_ok [of d1 ?k c d2] v1 by simp
      show ?thesis
      proof (cases r3)
        case (Inl e)
        with 3 v2 have "view d3 = (view d)(?k \<mapsto> c)" using rename_fail by metis
        then have "seen_view view d3 = seen_view view d" using t by (rule seen_temp)
        with w' r1 r2 Inl remove_any_temp [OF t, of d3] show ?thesis by auto
      next
        case r3: (Inr u3)
        have "view d3 = (view d2)(path_components p := view d2 ?k, ?k := None)"
          using 3 r3 rename_ok [of d2 ?k "path_components p" d3] kp by simp
        then have "view d3 = (view d)(path_components p \<mapsto> c, ?k := None)"
          using v2 kp by (auto simp: fun_eq_iff)
        then have "seen_view view d3 = (seen_view view d)(path_components p \<mapsto> c)"
          using p t by (auto simp: seen_view_def fun_eq_iff)
        with w' r1 r2 r3 show ?thesis by auto
      qed
    qed
  qed
qed

lemma atomic_write_seen:
  assumes "\<not> is_temp_file p" "atomic_write ops d p c = (r, d')"
  shows "seen_view view d' =
     (case r of Inl _ \<Rightarrow> seen_view view d | Inr _ \<Rightarrow> (seen_view view d)(path_components p \<mapsto> c))"
proof -
  obtain u d1 where u: "op_uuid ops d = (u, d1)" by fastforce
  have s: "seen_view view d1 = seen_view view d" using uuid [OF u] by (rule seen_same)
  let ?t = "temp_file_name (case path_file_name p of Some n \<Rightarrow> n | None \<Rightarrow> ''file'') u"
  have "write_atomic ops d1 p c ?t = (r, d')"
    using assms(2) u by (simp add: atomic_write_def Let_def)
  from write_atomic_seen [OF _ temp_name_marked this] assms(1) s
  show ?thesis by (cases r) (simp_all add: is_temp_file_key)
qed

end

text \<open>The root's own operations meet the contract that edits rely on.\<close>

sublocale dir_contract \<subseteq> store: file_store "read_to_string ops" "atomic_write ops" "remove_file ops"
  "seen_view view"
proof unfold_locales
  fix d p d' e
  assume p: "\<not> is_temp_file p"
  then have k: "\<not> is_temp_key (path_components p)" by (simp add: is_temp_file_key)
  show "read_to_string ops d p = Inr c \<Longrightarrow> seen_view view d (path_components p) = c" for c
    using k read_ok read_missing
    by (auto simp: read_to_string_def seen_view_def split: sum.splits if_splits)
  show "atomic_write ops d p c = (Inr (), d') \<Longrightarrow>
      seen_view view d' = (seen_view view d)(path_components p \<mapsto> c)" for c
    using atomic_write_seen [OF p] by fastforce
  show "atomic_write ops d p c = (Inl e, d') \<Longrightarrow> seen_view view d' = seen_view view d" for c e
    using atomic_write_seen [OF p] by fastforce
  obtain r d1 where r: "op_remove_file ops d (path_components p) = (r, d1)" by fastforce
  show "seen_view view d' = (seen_view view d)(path_components p := None)"
    if del: "remove_file ops d p = (Inr (), d')"
  proof (cases r)
    case (Inl e)
    with del r have "d' = d1" "io_kind_of e = IoNotFound"
      by (auto simp: remove_file_def split: if_splits)
    with r Inl have "view d' = (view d)(path_components p := None)"
      using remove_fail remove_missing by (metis fun_upd_triv)
    then show ?thesis using k by (rule seen_file)
  next
    case (Inr u)
    with del r have "view d' = (view d)(path_components p := None)"
      using remove_ok by (auto simp: remove_file_def)
    then show ?thesis using k by (rule seen_file)
  qed
  show "seen_view view d' = seen_view view d" if del: "remove_file ops d p = (Inl e, d')" for e
  proof -
    from del r have "r = Inl e" "d' = d1"
      by (auto simp: remove_file_def split: sum.splits if_splits)
    with r have "view d' = view d" using remove_fail by blast
    then show ?thesis by (rule seen_same)
  qed
qed

section \<open>An in-memory directory with faults\<close>

text \<open>
  A concrete directory that meets the contract: a map of files, and a script that says which
  of the next mutating operations fail. A failed write leaves an empty file behind.
\<close>

record mem_dir =
  mem_files :: "component list \<Rightarrow> string option"
  mem_faults :: "bool list"
  mem_uuids :: nat

definition mem_fault :: "mem_dir \<Rightarrow> bool \<times> mem_dir" where
  "mem_fault d = (case mem_faults d of [] \<Rightarrow> (False, d) | f # fs \<Rightarrow> (f, d\<lparr>mem_faults := fs\<rparr>))"

definition mem_error :: "io_kind \<Rightarrow> io_error" where
  "mem_error k = \<lparr>io_kind_of = k, io_message = ''injected''\<rparr>"

definition mem_metadata :: "mem_dir \<Rightarrow> rel_path \<Rightarrow> io_error + metadata" where
  "mem_metadata d p = (case mem_files d (path_components p) of
     None \<Rightarrow> Inl (mem_error IoNotFound)
   | Some c \<Rightarrow> Inr \<lparr>md_kind = RegularFile, md_len = length c, md_modified = Some 0\<rparr>)"

definition mem_ops :: "mem_dir dir_ops" where
  "mem_ops =
     \<lparr>op_symlink_metadata = mem_metadata,
      op_metadata = mem_metadata,
      op_open = (\<lambda>d p. case mem_metadata d p of
         Inl e \<Rightarrow> Inl e
       | Inr md \<Rightarrow> Inr (md, map (\<lambda>c. of_char c) (the (mem_files d (path_components p))))),
      op_read_to_string = (\<lambda>d p. case mem_files d (path_components p) of
         None \<Rightarrow> Inl (mem_error IoNotFound) | Some c \<Rightarrow> Inr c),
      op_read_link = (\<lambda>d p. Inl (mem_error IoOther)),
      op_create_dir_all = (\<lambda>d k. case mem_fault d of
         (True, d1) \<Rightarrow> (Inl (mem_error IoOther), d1) | (False, d1) \<Rightarrow> (Inr (), d1)),
      op_write = (\<lambda>d k c. case mem_fault d of
         (True, d1) \<Rightarrow> (Inl (mem_error IoOther), d1\<lparr>mem_files := (mem_files d1)(k \<mapsto> [])\<rparr>)
       | (False, d1) \<Rightarrow> (Inr (), d1\<lparr>mem_files := (mem_files d1)(k \<mapsto> c)\<rparr>)),
      op_rename = (\<lambda>d k l. case mem_fault d of
         (True, d1) \<Rightarrow> (Inl (mem_error IoOther), d1)
       | (False, d1) \<Rightarrow>
           (Inr (), d1\<lparr>mem_files := (mem_files d1)(l := mem_files d1 k, k := None)\<rparr>)),
      op_remove_file = (\<lambda>d k. case mem_fault d of
         (True, d1) \<Rightarrow> (Inl (mem_error IoOther), d1)
       | (False, d1) \<Rightarrow>
           if mem_files d1 k = None then (Inl (mem_error IoNotFound), d1)
           else (Inr (), d1\<lparr>mem_files := (mem_files d1)(k := None)\<rparr>)),
      op_uuid = (\<lambda>d. (show_nat (mem_uuids d), d\<lparr>mem_uuids := Suc (mem_uuids d)\<rparr>))\<rparr>"

lemma mem_fault_files: "mem_fault d = (f, d1) \<Longrightarrow> mem_files d1 = mem_files d"
  by (auto simp: mem_fault_def split: list.splits)

lemma mem_fault_upd: "mem_fault d = (f, d1) \<Longrightarrow> \<exists>x. (mem_files d1)(k \<mapsto> c) = (mem_files d)(k := x)"
  using mem_fault_files [of d f d1] by auto

interpretation mem: dir_contract mem_ops mem_files
  by unfold_locales
    (auto simp: mem_ops_def mem_error_def dest: mem_fault_files intro: mem_fault_upd
      split: option.splits prod.splits bool.splits if_splits)

section \<open>Properties\<close>

text \<open>C13. An atomic write replaces the one file it names or changes no file at all: over any
  directory that meets the contract, success leaves exactly the new content at the path, and
  any failure (of the parent creation, the temporary write or the rename) leaves every
  workspace file as it was.\<close>

theorem atomic_write_all_or_nothing:
  assumes "dir_contract ops view" "\<not> is_temp_file p" "atomic_write ops d p content = (r, d')"
  shows "seen_view view d' = (case r of
       Inl _ \<Rightarrow> seen_view view d
     | Inr _ \<Rightarrow> (seen_view view d)(path_components p \<mapsto> content))"
  using dir_contract.atomic_write_seen [OF assms] .

theorem atomic_write_all_or_nothing_witness:
  "seen_view mem_files (snd (atomic_write mem_ops
      \<lparr>mem_files = [[Normal ''a''] \<mapsto> ''old''], mem_faults = [False, True], mem_uuids = 0\<rparr> ''a'' ''new''))
     [Normal ''a''] = Some ''old''"
proof -
  let ?d = "\<lparr>mem_files = [[Normal ''a''] \<mapsto> ''old''], mem_faults = [False, True], mem_uuids = 0\<rparr>"
  have a: "path_components ''a'' = [Normal ''a'']"
    by (simp add: path_components_def path_is_absolute_def starts_with_def component_of_def Let_def)
  have t: "\<not> is_temp_file ''a''"
    by (simp add: is_temp_file_def path_file_name_def a temp_file_marker_def starts_with_def)
  obtain r d' where w: "atomic_write mem_ops ?d ''a'' ''new'' = (r, d')" by fastforce
  moreover have "\<exists>e. r = Inl e"
    using w by (auto simp: atomic_write_def write_atomic_def mem_ops_def mem_fault_def path_parent_def a
        Let_def split: if_splits)
  ultimately show ?thesis
    using atomic_write_all_or_nothing [OF mem.dir_contract_axioms t w]
    by (auto simp: seen_view_def is_temp_key_def temp_file_marker_def starts_with_def)
qed

end
