(* ===== verification/Edit_Text.thy ===== *)
theory Edit_Text
  imports App_Error
begin

text \<open>
  The text operations of edits (\<open>src/workspace/util.rs\<close>, \<open>src/index/lines.rs\<close>) on the
  bytes of a file: line offsets and ranges, line endings, exact matches. \<open>match_indices\<close>,
  \<open>replace\<close>, \<open>replacen\<close> and \<open>lines\<close> are the standard library's; the empty
  pattern matches at every character boundary.
\<close>

definition nl :: char where "nl = CHR 0x0A"

definition cr :: char where "cr = CHR 0x0D"

definition crlf :: string where "crlf = [cr, nl]"

lemma nl_cr [simp]: "nl \<noteq> cr" "cr \<noteq> nl"
  by (simp_all add: nl_def cr_def)

section \<open>Lines\<close>

text \<open>The loop of \<open>line_offset\<close> from byte \<open>index\<close> on, at line \<open>current\<close>.\<close>

fun line_offset_from :: "string \<Rightarrow> nat \<Rightarrow> nat \<Rightarrow> nat \<Rightarrow> nat option" where
  "line_offset_from [] index current line = None"
| "line_offset_from (b # bs) index current line =
     (if b = nl
      then (if Suc current = line then Some (Suc index)
            else line_offset_from bs (Suc index) (Suc current) line)
      else line_offset_from bs (Suc index) current line)"

definition line_offset :: "string \<Rightarrow> nat \<Rightarrow> nat" where
  "line_offset content line =
     (if line \<le> 1 then 0
      else case line_offset_from content 0 1 line of
             Some offset \<Rightarrow> offset
           | None \<Rightarrow> length content)"

definition saturating_add :: "nat \<Rightarrow> nat \<Rightarrow> nat" where
  "saturating_add a b = min (a + b) usize_max"

definition line_range_bytes :: "string \<Rightarrow> nat \<Rightarrow> nat \<Rightarrow> app_error + (nat \<times> nat)" where
  "line_range_bytes content start_line end_line =
     (if end_line < start_line
      then Inl (error_with_details InvalidHandleRange
             ''Handle start_line must be less than or equal to end_line''
             (JObj [(''start_line'', JNum (int start_line)), (''end_line'', JNum (int end_line))]))
      else Inr (min (line_offset content start_line) (length content),
                min (line_offset content (saturating_add end_line 1)) (length content)))"

text \<open>\<open>str::lines\<close>: split after each newline, which is dropped with a preceding \<open>\r\<close>.\<close>

fun split_inclusive :: "string \<Rightarrow> string list" where
  "split_inclusive [] = []"
| "split_inclusive (b # bs) =
     (if b = nl then [b] # split_inclusive bs
      else (case split_inclusive bs of [] \<Rightarrow> [[b]] | l # ls \<Rightarrow> (b # l) # ls))"

definition strip_line_end :: "string \<Rightarrow> string" where
  "strip_line_end l =
     (case rev l of
        b # rest \<Rightarrow>
          if b = nl then (case rest of c # rest' \<Rightarrow> if c = cr then rev rest' else rev rest | [] \<Rightarrow> [])
          else l
      | [] \<Rightarrow> l)"

definition str_lines :: "string \<Rightarrow> string list" where
  "str_lines s = map strip_line_end (split_inclusive s)"

text \<open>\<open>slice_lines\<close> of \<open>src/index/lines.rs\<close>: the loop over numbered lines.\<close>

fun slice_lines_loop :: "nat \<Rightarrow> string list \<Rightarrow> nat \<Rightarrow> nat \<Rightarrow> string \<Rightarrow> string" where
  "slice_lines_loop n [] start end output = output"
| "slice_lines_loop n (l # ls) start end output =
     (if n < start then slice_lines_loop (Suc n) ls start end output
      else if end < n then output
      else slice_lines_loop (Suc n) ls start end
             ((if output \<noteq> [] then output @ [nl] else output) @ l))"

definition slice_lines :: "string \<Rightarrow> nat \<Rightarrow> nat \<Rightarrow> string" where
  "slice_lines content start_line end_line =
     (let start = max start_line 1; end = max end_line start
      in slice_lines_loop 1 (str_lines content) start end [])"

section \<open>Matching and replacing\<close>

definition is_continuation :: "char \<Rightarrow> bool" where
  "is_continuation c = (let n = (of_char c :: nat) in 128 \<le> n \<and> n < 192)"

function match_from :: "nat \<Rightarrow> string \<Rightarrow> string \<Rightarrow> nat list" where
  "match_from pos s pat =
     (case s of
        [] \<Rightarrow> if pat = [] then [pos] else []
      | c # cs \<Rightarrow>
          if pat = []
          then pos # match_from (pos + Suc (length (takeWhile is_continuation cs)))
                       (dropWhile is_continuation cs) pat
          else (case strip_prefix pat s of
                  Some rest \<Rightarrow> pos # match_from (pos + length pat) rest pat
                | None \<Rightarrow> match_from (Suc pos) cs pat))"
  by pat_completeness auto
termination
  by (relation "measure (\<lambda>(pos, s, pat). length s)")
    (auto simp: strip_prefix_iff less_Suc_eq_le length_dropWhile_le)

declare match_from.simps [simp del]

definition match_indices :: "string \<Rightarrow> string \<Rightarrow> nat list" where
  "match_indices s pat = match_from 0 s pat"

function replacen :: "string \<Rightarrow> string \<Rightarrow> string \<Rightarrow> nat \<Rightarrow> string" where
  "replacen s pat rep n =
     (if n = 0 then s
      else case s of
        [] \<Rightarrow> if pat = [] then rep else []
      | c # cs \<Rightarrow>
          if pat = []
          then rep @ c # takeWhile is_continuation cs
                 @ replacen (dropWhile is_continuation cs) pat rep (n - 1)
          else (case strip_prefix pat s of
                  Some rest \<Rightarrow> rep @ replacen rest pat rep (n - 1)
                | None \<Rightarrow> c # replacen cs pat rep n))"
  by pat_completeness auto
termination
  by (relation "measure (\<lambda>(s, pat, rep, n). length s)")
    (auto simp: strip_prefix_iff less_Suc_eq_le length_dropWhile_le)

declare replacen.simps [simp del]

text \<open>\<open>replace\<close> on a non-empty pattern.\<close>

function replace_all :: "string \<Rightarrow> string \<Rightarrow> string \<Rightarrow> string" where
  "replace_all s pat rep =
     (case s of
        [] \<Rightarrow> []
      | c # cs \<Rightarrow>
          (case strip_prefix pat s of
             Some rest \<Rightarrow> if pat = [] then s else rep @ replace_all rest pat rep
           | None \<Rightarrow> c # replace_all cs pat rep))"
  by pat_completeness auto
termination
  by (relation "measure (\<lambda>(s, pat, rep). length s)") (auto simp: strip_prefix_iff)

declare replace_all.simps [simp del]

section \<open>Line endings\<close>

definition line_ending_label :: "string \<Rightarrow> string" where
  "line_ending_label content =
     (let n_crlf = length (match_indices content crlf);
          n_lf = length (filter (\<lambda>b. b = nl) content) - n_crlf;
          n_cr = length (filter (\<lambda>b. b = cr) content) - n_crlf
      in if n_crlf = 0 \<and> n_lf = 0 \<and> n_cr = 0 then ''none''
         else if n_lf = 0 \<and> n_cr = 0 \<and> 0 < n_crlf then ''crlf''
         else if n_crlf = 0 \<and> n_cr = 0 \<and> 0 < n_lf then ''lf''
         else ''mixed'')"

definition normalize_line_endings :: "string \<Rightarrow> string \<Rightarrow> string" where
  "normalize_line_endings t replacement =
     replace_all (replace_all (replace_all t crlf [nl]) [cr] [nl]) [nl] replacement"

definition normalize_line_endings_for_content :: "string \<Rightarrow> string \<Rightarrow> string" where
  "normalize_line_endings_for_content content t =
     (if line_ending_label content = ''crlf'' then normalize_line_endings t crlf
      else if line_ending_label content = ''lf'' then normalize_line_endings t [nl]
      else t)"

definition preserve_terminal_line_ending :: "string \<Rightarrow> string \<Rightarrow> string" where
  "preserve_terminal_line_ending selected replacement =
     (if replacement = [] \<or> ends_with replacement [nl] \<or> \<not> ends_with selected [nl]
      then replacement
      else if ends_with selected crlf then replacement @ crlf
      else replacement @ [nl])"

text \<open>The old text an exact edit matches (as given or with the file's line endings) and how
  often it occurs in the selection.\<close>

definition matching_old_text :: "string \<Rightarrow> string \<Rightarrow> string \<Rightarrow> nat \<Rightarrow> string \<times> nat" where
  "matching_old_text content selected old expected =
     (let normalized = normalize_line_endings_for_content content old;
          normalized_count = length (match_indices selected normalized)
      in if normalized \<noteq> old \<and> normalized_count = expected then (normalized, normalized_count)
         else (old, length (match_indices selected old)))"

section \<open>Lemmas: offsets\<close>

lemma line_offset_from_bounds:
  "line_offset_from s index current line = Some k \<Longrightarrow> index < k \<and> k \<le> index + length s"
  by (induction s index current line rule: line_offset_from.induct) (auto split: if_splits)

lemma line_offset_le [simp]: "line_offset s line \<le> length s"
  using line_offset_from_bounds [of s 0 1 line] by (auto simp: line_offset_def split: option.splits)

lemma line_offset_from_mono:
  "line_offset_from s index current l2 = Some k2 \<Longrightarrow> current < l1 \<Longrightarrow> l1 \<le> l2 \<Longrightarrow>
     \<exists>k1. line_offset_from s index current l1 = Some k1 \<and> k1 \<le> k2"
proof (induction s index current l2 rule: line_offset_from.induct)
  case (2 b bs index current l2)
  show ?case
  proof (cases "b = nl \<and> Suc current = l1")
    case True
    then show ?thesis
      using 2 line_offset_from_bounds [of bs "Suc index" "Suc current" l2 k2]
      by (auto split: if_splits)
  next
    case False
    with 2 show ?thesis by (auto split: if_splits)
  qed
qed simp

lemma line_offset_mono: "l1 \<le> l2 \<Longrightarrow> line_offset s l1 \<le> line_offset s l2"
proof -
  assume le: "l1 \<le> l2"
  show ?thesis
  proof (cases "line_offset_from s 0 1 l2")
    case None
    then have "line_offset s l2 = (if l2 \<le> 1 then 0 else length s)" by (simp add: line_offset_def)
    then show ?thesis using le line_offset_le [of s l1] by (auto simp: line_offset_def)
  next
    case (Some k2)
    then show ?thesis
      using line_offset_from_mono [OF Some _ le] le by (fastforce simp: line_offset_def)
  qed
qed

lemma line_range_bytesD:
  assumes "line_range_bytes content a b = Inr (s, e)" "b < usize_max"
  shows "s = line_offset content a" "e = line_offset content (Suc b)" "s \<le> e" "e \<le> length content"
  using assms line_offset_mono [of a "Suc b" content]
  by (auto simp: line_range_bytes_def saturating_add_def split: if_splits)

text \<open>A line offset is the start of the text or just after a newline.\<close>

lemma line_offset_from_newline:
  "line_offset_from s index current line = Some k \<Longrightarrow> s ! (k - index - 1) = nl"
proof (induction s index current line arbitrary: k rule: line_offset_from.induct)
  case (2 b bs index current line)
  show ?case
  proof (cases "b = nl \<and> Suc current = line")
    case True
    with 2 show ?thesis by auto
  next
    case False
    then obtain cur' where r: "line_offset_from bs (Suc index) cur' line = Some k"
      and ih: "bs ! (k - Suc index - 1) = nl"
      using 2 by (auto split: if_splits)
    then have "Suc index < k" using line_offset_from_bounds by blast
    then have "k - index - 1 = Suc (k - Suc index - 1)" by simp
    with ih show ?thesis by simp
  qed
qed simp

section \<open>Lemmas: replacing\<close>

lemma replace_all_single:
  "replace_all s [x] rep = concat (map (\<lambda>c. if c = x then rep else [c]) s)"
proof (induction s)
  case Nil
  then show ?case by (simp add: replace_all.simps)
next
  case (Cons c s)
  then show ?case by (subst replace_all.simps) auto
qed

lemma replace_all_step:
  "pat \<noteq> [] \<Longrightarrow> replace_all (pat @ rest) pat rep = rep @ replace_all rest pat rep"
  "strip_prefix pat (c # cs) = None \<Longrightarrow> replace_all (c # cs) pat rep = c # replace_all cs pat rep"
  "replace_all [] pat rep = []"
proof -
  show "pat \<noteq> [] \<Longrightarrow> replace_all (pat @ rest) pat rep = rep @ replace_all rest pat rep"
    by (subst replace_all.simps) (cases pat, auto)
  show "strip_prefix pat (c # cs) = None \<Longrightarrow> replace_all (c # cs) pat rep = c # replace_all cs pat rep"
    by (subst replace_all.simps) simp
  show "replace_all [] pat rep = []" by (subst replace_all.simps) simp
qed

text \<open>The matches of a pattern: each is an occurrence inside the text, and an occurrence of a
  non-empty pattern begins inside one of them.\<close>

lemma match_from_step:
  "pat \<noteq> [] \<Longrightarrow> strip_prefix pat (c # cs) = None \<Longrightarrow> match_from pos (c # cs) pat = match_from (Suc pos) cs pat"
  "pat \<noteq> [] \<Longrightarrow> strip_prefix pat (c # cs) = Some rest
     \<Longrightarrow> match_from pos (c # cs) pat = pos # match_from (pos + length pat) rest pat"
  by (subst match_from.simps; simp)+

lemma match_from_hits:
  "pat \<noteq> [] \<Longrightarrow> starts_with (drop k s) pat \<Longrightarrow> \<exists>m \<in> set (match_from pos s pat). m \<le> pos + k \<and> pos + k < m + length pat"
proof (induction pos s pat arbitrary: k rule: match_from.induct)
  case (1 pos s pat)
  obtain c cs where Cons: "s = c # cs" using 1(4,5) by (cases s) (auto simp: starts_with_iff)
  show ?case
  proof (cases "strip_prefix pat s")
    case None
    then obtain k' where k: "k = Suc k'" using 1(5) by (cases k) (auto simp: starts_with_def)
    from 1(2) [OF Cons 1(4) None 1(4), of k'] 1(5) Cons k None 1(4)
    show ?thesis by (simp add: match_from_step)
  next
    case (Some rest)
    then have s: "s = pat @ rest" by (simp add: strip_prefix_iff)
    have m: "match_from pos s pat = pos # match_from (pos + length pat) rest pat"
      using 1(4) Cons Some by (simp add: match_from_step)
    show ?thesis
    proof (cases "k < length pat")
      case True
      then show ?thesis by (simp add: m)
    next
      case False
      define k' where "k' = k - length pat"
      have k: "k = length pat + k'" using False by (simp add: k'_def)
      from 1(3) [OF Cons 1(4) Some 1(4), of k'] 1(5) s k
      obtain q where "q \<in> set (match_from (pos + length pat) rest pat)" "q \<le> pos + k" "pos + k < q + length pat"
        by (auto simp: add.assoc)
      then show ?thesis unfolding m by (intro bexI [of _ q]) simp_all
    qed
  qed
qed

lemma match_from_bounds:
  "q \<in> set (match_from pos s pat) \<Longrightarrow> pos \<le> q \<and> q + length pat \<le> pos + length s \<and> starts_with (drop (q - pos) s) pat"
proof (induction pos s pat rule: match_from.induct)
  case (1 pos s pat)
  show ?case
  proof (cases s)
    case Nil
    then show ?thesis using 1(4) by (auto simp: match_from.simps [of pos "[]"] starts_with_def split: if_splits)
  next
    case (Cons c cs)
    show ?thesis
    proof (cases "pat = []")
      case True
      let ?k = "length (takeWhile is_continuation cs)"
      have "?k + length (dropWhile is_continuation cs) = length cs"
        by (metis length_append takeWhile_dropWhile_id)
      then show ?thesis
        using 1(1) [OF Cons True] 1(4) Cons True
        by (auto simp: match_from.simps [of pos "c # cs"] starts_with_def)
    next
      case pat: False
      show ?thesis
      proof (cases "strip_prefix pat s")
        case None
        with 1(2) [OF Cons pat None] 1(4) Cons pat
        have "Suc pos \<le> q \<and> q + length pat \<le> Suc pos + length cs \<and> starts_with (drop (q - Suc pos) cs) pat"
          by (simp add: match_from_step)
        moreover from this have "Suc pos \<le> q" by blast
        then have "q - pos = Suc (q - Suc pos)" by simp
        ultimately show ?thesis using Cons by simp
      next
        case (Some rest)
        then have s: "s = pat @ rest" by (simp add: strip_prefix_iff)
        show ?thesis
        proof (cases "q = pos")
          case True
          then show ?thesis using s by (simp add: starts_with_iff)
        next
          case False
          with 1(3) [OF Cons pat Some] 1(4) Cons pat Some
          have "pos + length pat \<le> q" "q + length pat \<le> pos + length pat + length rest"
            "starts_with (drop (q - (pos + length pat)) rest) pat" by (auto simp: match_from_step)
          then show ?thesis using s by (auto simp: drop_append)
        qed
      qed
    qed
  qed
qed

lemma starts_with_take: "starts_with s pat \<longleftrightarrow> take (length pat) s = pat"
  unfolding starts_with_iff by (metis append_eq_conv_conj)

lemma match_from_crlf:
  "match_from pos [] crlf = []"
  "match_from pos (cr # nl # s) crlf = pos # match_from (pos + 2) s crlf"
  "c \<noteq> cr \<Longrightarrow> match_from pos (c # s) crlf = match_from (Suc pos) s crlf"
  "match_from pos [cr] crlf = []"
  "d \<noteq> nl \<Longrightarrow> match_from pos (cr # d # s) crlf = match_from (Suc pos) (d # s) crlf"
  by (subst match_from.simps; simp add: crlf_def match_from.simps [of _ "[]"])+

text \<open>The occurrences of \<open>\r\n\<close> are at most the newlines and at most the returns, so the
  subtractions of \<open>line_ending_label\<close> do not go below zero.\<close>

lemma crlf_cases:
  obtains "s = []" | "s = [cr]" | t where "s = cr # nl # t"
  | d t where "s = cr # d # t" "d \<noteq> nl" | c t where "s = c # t" "c \<noteq> cr"
  by (metis list.exhaust)

lemma count_crlf_le:
  "length (match_from pos s crlf) \<le> length (filter (\<lambda>b. b = nl) s)
   \<and> length (match_from pos s crlf) \<le> length (filter (\<lambda>b. b = cr) s)"
proof (induction s arbitrary: pos rule: length_induct)
  case (1 s)
  show ?case
  proof (cases s rule: crlf_cases)
    case (3 t)
    with 1 [rule_format, of t "pos + 2"] show ?thesis by (simp add: match_from_crlf)
  next
    case (4 d t)
    with 1 [rule_format, of "d # t" "Suc pos"] show ?thesis
      by (auto simp: match_from_crlf split: if_splits)
  next
    case (5 c t)
    with 1 [rule_format, of t "Suc pos"] show ?thesis
      by (auto simp: match_from_crlf)
  qed (simp_all add: match_from_crlf)
qed

lemma count_crlf_expanded:
  "cr \<notin> set u \<Longrightarrow>
     length (match_from pos (concat (map (\<lambda>c. if c = nl then crlf else [c]) u)) crlf)
       = length (filter (\<lambda>b. b = nl) u)"
proof (induction u arbitrary: pos)
  case (Cons c u)
  have "match_from pos (crlf @ v) crlf = pos # match_from (pos + 2) v crlf" for v
    using match_from_crlf(2) [of pos v] by (simp add: crlf_def)
  with Cons show ?case by (cases "c = nl") (auto simp: match_from_crlf)
qed (simp add: match_from_crlf)

lemma filter_expanded:
  "cr \<notin> set u \<Longrightarrow> x = nl \<or> x = cr \<Longrightarrow>
     length (filter (\<lambda>b. b = x) (concat (map (\<lambda>c. if c = nl then crlf else [c]) u)))
       = length (filter (\<lambda>b. b = nl) u)"
  by (induction u) (auto simp: crlf_def)

definition unix_text :: "string \<Rightarrow> string" where
  "unix_text t = replace_all (replace_all t crlf [nl]) [cr] [nl]"

lemma unix_text_no_cr: "cr \<notin> set (unix_text t)"
  by (auto simp: unix_text_def replace_all_single split: if_splits)

lemma normalize_line_endings_lf: "normalize_line_endings t [nl] = unix_text t"
proof -
  have "concat (map (\<lambda>c. if c = nl then [nl] else [c]) u) = u" for u
    by (induction u) auto
  then show ?thesis by (simp add: normalize_line_endings_def unix_text_def replace_all_single)
qed

lemma normalize_line_endings_crlf:
  "normalize_line_endings t crlf = concat (map (\<lambda>c. if c = nl then crlf else [c]) (unix_text t))"
  by (simp add: normalize_line_endings_def unix_text_def replace_all_single)

lemma label_lf: "line_ending_label (normalize_line_endings t [nl]) \<in> {''none'', ''lf''}"
proof -
  have "filter (\<lambda>b. b = cr) (unix_text t) = []"
    using unix_text_no_cr [of t] by (auto simp: filter_empty_conv)
  moreover from this have "match_indices (unix_text t) crlf = []"
    using count_crlf_le [of 0 "unix_text t"] by (simp add: match_indices_def)
  ultimately show ?thesis
    by (simp add: normalize_line_endings_lf line_ending_label_def Let_def)
qed

lemma label_crlf: "line_ending_label (normalize_line_endings t crlf) \<in> {''none'', ''crlf''}"
  using count_crlf_expanded [OF unix_text_no_cr, of 0 t] filter_expanded [OF unix_text_no_cr, of nl t]
    filter_expanded [OF unix_text_no_cr, of cr t]
  by (auto simp: normalize_line_endings_crlf line_ending_label_def match_indices_def Let_def)

section \<open>Lemmas: counted replacement\<close>

lemma replacen_length:
  "pat \<noteq> [] \<Longrightarrow> length (match_from pos s pat) = n \<Longrightarrow>
     length (replacen s pat rep n) + n * length pat = length s + n * length rep"
proof (induction pos s pat arbitrary: n rule: match_from.induct)
  case (1 pos s pat)
  show ?case
  proof (cases s)
    case Nil
    with 1(4,5) show ?thesis by (simp add: match_from.simps [of _ "[]"] replacen.simps)
  next
    case (Cons c cs)
    show ?thesis
    proof (cases "strip_prefix pat s")
      case None
      then have m: "match_from pos s pat = match_from (Suc pos) cs pat"
        using Cons 1(4) by (subst match_from.simps) simp
      have "length (replacen cs pat rep n) + n * length pat = length cs + n * length rep"
        using "1.IH"(2) [OF Cons] 1(4,5) None Cons m by simp
      moreover have "replacen s pat rep n = (if n = 0 then s else c # replacen cs pat rep n)"
        using Cons None 1(4) by (subst replacen.simps) simp
      ultimately show ?thesis using Cons by auto
    next
      case (Some rest)
      then have s: "s = pat @ rest" by (simp add: strip_prefix_iff)
      have m: "match_from pos s pat = pos # match_from (pos + length pat) rest pat"
        using Cons 1(4) Some by (subst match_from.simps) simp
      then obtain k where n: "n = Suc k" using 1(5) by (cases n) auto
      have "length (replacen rest pat rep k) + k * length pat = length rest + k * length rep"
        using "1.IH"(3) [OF Cons] 1(4,5) Some Cons m n by simp
      moreover have "replacen s pat rep n = rep @ replacen rest pat rep k"
        using Cons Some 1(4) n by (subst replacen.simps) simp
      ultimately show ?thesis using s n by simp
    qed
  qed
qed

section \<open>Properties\<close>

text \<open>Text inserted into a file takes on the file's line endings: for a file whose
  newlines are uniformly LF or uniformly CRLF, whatever mixture of line endings the client
  sent, the normalized text has no newline of another kind.\<close>

theorem inserted_text_keeps_line_endings:
  assumes "line_ending_label content \<in> {''lf'', ''crlf''}"
  shows "line_ending_label (normalize_line_endings_for_content content t)
      \<in> {''none'', line_ending_label content}"
  using assms label_lf [of t] label_crlf [of t]
  by (auto simp: normalize_line_endings_for_content_def)

theorem inserted_text_keeps_line_endings_witness:
  "line_ending_label [CHR ''a'', cr, nl] = ''crlf''
   \<and> normalize_line_endings_for_content [CHR ''a'', cr, nl] [CHR ''x'', nl, CHR ''y'', cr] =
       [CHR ''x'', cr, nl, CHR ''y'', cr, nl]
   \<and> line_ending_label (normalize_line_endings_for_content [CHR ''a'', cr, nl] [CHR ''x'', nl, CHR ''y'', cr])
      \<in> {''none'', ''crlf''}"
proof -
  have a: "line_ending_label [CHR ''a'', cr, nl] = ''crlf''" by code_simp
  moreover have "normalize_line_endings_for_content [CHR ''a'', cr, nl] [CHR ''x'', nl, CHR ''y'', cr] =
       [CHR ''x'', cr, nl, CHR ''y'', cr, nl]" by code_simp
  ultimately show ?thesis
    using inserted_text_keeps_line_endings [of "[CHR ''a'', cr, nl]" "[CHR ''x'', nl, CHR ''y'', cr]"]
    by simp
qed

text \<open>The byte range of a handle's lines is a proper slice of the file made of whole
  lines: it starts and ends at the beginning of a line or at the end of the file, so slicing
  at it cannot panic.\<close>

theorem handle_range_whole_lines:
  assumes "line_range_bytes content start_line end_line = Inr (s, e)" "end_line < usize_max"
  shows "s \<le> e \<and> e \<le> length content
    \<and> (s = 0 \<or> content ! (s - 1) = nl \<or> s = length content)
    \<and> (e = 0 \<or> content ! (e - 1) = nl \<or> e = length content)"
proof -
  have "line_offset content l = 0 \<or> content ! (line_offset content l - 1) = nl
      \<or> line_offset content l = length content" for l
    using line_offset_from_newline [of content 0 1 l]
    by (auto simp: line_offset_def split: option.splits)
  with line_range_bytesD [OF assms] show ?thesis by simp
qed

theorem handle_range_whole_lines_witness:
  "line_range_bytes [CHR ''a'', nl, CHR ''b'', nl, CHR ''c''] 2 2 = Inr (2, 4)
   \<and> [CHR ''a'', nl, CHR ''b'', nl, CHR ''c''] ! (4 - 1) = nl"
proof -
  have "line_range_bytes [CHR ''a'', nl, CHR ''b'', nl, CHR ''c''] 2 2 = Inr (2, 4)"
    by (simp add: line_range_bytes_def line_offset_def saturating_add_def usize_max_def nl_def)
  with handle_range_whole_lines [OF this] show ?thesis by (simp add: usize_max_def)
qed

end
