(* ===== verification/Code_Index.thy ===== *)
theory Code_Index
  imports Workspace_Root Edit_Text Output_Decoder "HOL-Library.AList" "HOL-Library.List_Lexorder"
    "HOL-Library.Char_ord" "HOL-Library.Product_Lexorder" "HOL-Library.Multiset"
begin

unbundle bit_operations_syntax

text \<open>
  The in-memory index (\<open>src/index/store.rs\<close>, \<open>entry.rs\<close>, \<open>document.rs\<close>, \<open>exclusions.rs\<close>)
  and its refresh from the disk (\<open>refresh_paths\<close> and \<open>read_entry\<close> of
  \<open>src/index/scan.rs\<close>). SHA-256, Tree-sitter's symbols and the gitignore matcher are
  parameters. The files of the index are a list with one entry per path, the symbol postings an
  association list from a name to a sorted list, as the code's \<open>HashMap\<close> of \<open>BTreeSet\<close>s.
\<close>

section \<open>Symbols and entries\<close>

record symbol =
  sy_name :: string
  sy_kind :: string
  sy_start_line :: nat
  sy_end_line :: nat
  sy_signature :: string

text \<open>\<open>Path::extension\<close>: after the last dot, unless the name starts with it.\<close>

definition path_extension :: "string \<Rightarrow> string option" where
  "path_extension p =
     (case path_file_name p of
        None \<Rightarrow> None
      | Some name \<Rightarrow>
          (case rev (split_on CHR ''.'' name) of
             ext # stem \<Rightarrow> if stem = [] \<or> stem = [[]] then None else Some ext
           | [] \<Rightarrow> None))"

definition language_name :: "string \<Rightarrow> string" where
  "language_name p =
     (let ext = ascii_lower (case path_extension p of None \<Rightarrow> [] | Some e \<Rightarrow> e) in
      if ext \<in> {''py'', ''pyi''} then ''python''
      else if ext = ''ts'' then ''typescript''
      else if ext = ''tsx'' then ''tsx''
      else if ext \<in> {''js'', ''mjs'', ''cjs'', ''jsx''} then ''javascript''
      else if ext = ''rs'' then ''rust''
      else if ext = ''go'' then ''go''
      else if ext = ''java'' then ''java''
      else if ext = ''cs'' then ''csharp''
      else if ext \<in> {''c'', ''h''} then ''c''
      else if ext \<in> {''cc'', ''cpp'', ''cxx'', ''hpp'', ''hh''} then ''cpp''
      else if ext = ''json'' then ''json''
      else if ext \<in> {''md'', ''markdown''} then ''markdown''
      else if ext \<in> {''html'', ''htm''} then ''html''
      else if ext \<in> {''yaml'', ''yml''} then ''yaml''
      else if ext = ''toml'' then ''toml''
      else if ext = ''log'' then ''log''
      else ''text'')"

datatype document_type = Source | Test | Instruction | RuntimeEvidence | Artifact | Log

definition test_suffixes :: "string list" where
  "test_suffixes = [''_test.rs'', ''.test.ts'', ''.spec.ts'', ''.test.tsx'', ''.spec.tsx'',
     ''.test.js'', ''.spec.js'', ''.test.jsx'', ''.spec.jsx'']"

definition artifact_suffixes :: "string list" where
  "artifact_suffixes = [''.recording.json'', ''.fixture.json'', ''.fixtures.json'',
     ''.artifact.json'', ''.artifacts.json'']"

definition document_classify :: "string \<Rightarrow> document_type" where
  "document_classify path =
     (let lower = ascii_lower path;
          segments = split_on CHR ''/'' lower;
          basename = last segments
      in if basename = ''agents.md'' \<or> basename = ''claude.md'' then Instruction
         else if list_ex (\<lambda>s. s \<in> {''test'', ''tests'', ''__tests__''}) segments
                 \<or> starts_with basename ''test_''
                 \<or> list_ex (ends_with basename) test_suffixes
         then Test
         else if (''evidence'' \<in> set segments \<or> ''runtime'' \<in> set segments)
                 \<and> (ends_with basename ''.json'' \<or> ends_with basename ''.log'')
         then RuntimeEvidence
         else if list_ex (\<lambda>s. s \<in> {''artifact'', ''artifacts'', ''fixture'', ''fixtures'',
                                   ''recording'', ''recordings''}) segments
                 \<or> list_ex (ends_with basename) artifact_suffixes
         then Artifact
         else if ends_with basename ''.log'' then Log
         else Source)"

record file_entry =
  fe_path :: string
  fe_path_lower :: string
  fe_content :: string
  fe_search_content :: string
  fe_line_count :: nat
  fe_hash :: string
  fe_language :: string
  fe_document_type :: document_type
  fe_symbols :: "symbol list"
  fe_size :: nat
  fe_modified_ns :: nat

definition entry_with_symbols ::
    "string \<Rightarrow> string \<Rightarrow> string \<Rightarrow> symbol list \<Rightarrow> nat \<Rightarrow> nat \<Rightarrow> file_entry" where
  "entry_with_symbols path content hash symbols file_size modified_ns =
     \<lparr>fe_path = path, fe_path_lower = ascii_lower path, fe_content = content,
      fe_search_content = ascii_lower content,
      fe_line_count = max (length (str_lines content)) 1, fe_hash = hash,
      fe_language = language_name path, fe_document_type = document_classify path,
      fe_symbols = symbols, fe_size = file_size, fe_modified_ns = modified_ns\<rparr>"

section \<open>The index\<close>

type_synonym posting = "string \<times> nat"

record code_index =
  ci_files :: "file_entry list"
  ci_symbol_index :: "(string \<times> posting list) list"
  ci_snapshot_acc :: "u8 list"

definition index_default :: code_index where
  "index_default = \<lparr>ci_files = [], ci_symbol_index = [], ci_snapshot_acc = replicate 32 0\<rparr>"

definition xor_into :: "u8 list \<Rightarrow> u8 list \<Rightarrow> u8 list" where
  "xor_into acc contribution = map2 (\<lambda>slot b. slot XOR b) acc contribution"

type_synonym sha256 = "string \<Rightarrow> u8 list"

definition nul :: char where "nul = CHR 0x00"

definition file_digest :: "sha256 \<Rightarrow> file_entry \<Rightarrow> u8 list" where
  "file_digest sha f = sha (fe_path f @ [nul] @ fe_hash f @ [nul])"

definition index_lookup :: "code_index \<Rightarrow> string \<Rightarrow> file_entry option" where
  "index_lookup ci p = find (\<lambda>f. fe_path f = p) (ci_files ci)"

definition index_get :: "code_index \<Rightarrow> string \<Rightarrow> file_entry option" where
  "index_get ci p = index_lookup ci (normalize_path_text p)"

definition postings :: "code_index \<Rightarrow> string \<Rightarrow> posting list" where
  "postings ci name = (case map_of (ci_symbol_index ci) name of None \<Rightarrow> [] | Some ps \<Rightarrow> ps)"

text \<open>Dropping the postings of a removed file, one of its symbol names at a time.\<close>

definition drop_postings ::
    "string \<Rightarrow> (string \<times> posting list) list \<Rightarrow> string \<Rightarrow> (string \<times> posting list) list" where
  "drop_postings path si name =
     (case map_of si name of
        None \<Rightarrow> si
      | Some entries \<Rightarrow>
          let kept = filter (\<lambda>(p, _). p \<noteq> path) entries
          in if kept = [] then AList.delete name si else AList.update name kept si)"

definition index_remove :: "sha256 \<Rightarrow> code_index \<Rightarrow> string \<Rightarrow> file_entry option \<times> code_index" where
  "index_remove sha ci path =
     (case index_lookup ci path of
        None \<Rightarrow> (None, ci)
      | Some removed \<Rightarrow>
          (Some removed,
           \<lparr>ci_files = filter (\<lambda>f. fe_path f \<noteq> path) (ci_files ci),
            ci_symbol_index = foldl (drop_postings (fe_path removed)) (ci_symbol_index ci)
              (remdups (map sy_name (fe_symbols removed))),
            ci_snapshot_acc = xor_into (ci_snapshot_acc ci) (file_digest sha removed)\<rparr>))"

definition add_posting ::
    "string \<Rightarrow> (string \<times> posting list) list \<Rightarrow> nat \<times> symbol \<Rightarrow> (string \<times> posting list) list" where
  "add_posting path si ps =
     (case ps of (position, s) \<Rightarrow>
        AList.update (sy_name s)
          (insort_insert (path, position)
             (case map_of si (sy_name s) of None \<Rightarrow> [] | Some entries \<Rightarrow> entries)) si)"

definition index_insert :: "sha256 \<Rightarrow> code_index \<Rightarrow> file_entry \<Rightarrow> code_index" where
  "index_insert sha ci entry =
     (let ci1 = snd (index_remove sha ci (fe_path entry))
      in \<lparr>ci_files = ci_files ci1 @ [entry],
          ci_symbol_index = foldl (add_posting (fe_path entry)) (ci_symbol_index ci1)
            (enumerate 0 (fe_symbols entry)),
          ci_snapshot_acc = xor_into (ci_snapshot_acc ci1) (file_digest sha entry)\<rparr>)"

definition index_remove_tree :: "sha256 \<Rightarrow> code_index \<Rightarrow> string \<Rightarrow> string list \<times> code_index" where
  "index_remove_tree sha ci path =
     (let removed = filter (\<lambda>c. c = path \<or> starts_with c (path @ ''/'')) (map fe_path (ci_files ci))
      in (removed, foldl (\<lambda>ci p. snd (index_remove sha ci p)) ci removed))"

definition hex_digit :: "nat \<Rightarrow> char" where
  "hex_digit n = (if n < 10 then char_of (48 + n) else char_of (87 + n))"

definition hex :: "u8 list \<Rightarrow> string" where
  "hex bytes = concat (map (\<lambda>b. [hex_digit (unat b div 16), hex_digit (unat b mod 16)]) bytes)"

definition to_le_bytes :: "nat \<Rightarrow> u8 list" where
  "to_le_bytes n = map (\<lambda>i. of_nat (n div 256 ^ i)) [0..<8]"

definition bytes_text :: "u8 list \<Rightarrow> string" where
  "bytes_text bs = map (\<lambda>b. char_of (unat b)) bs"

definition snapshot_domain :: string where
  "snapshot_domain = ''codeweave-index''"

definition index_snapshot_id :: "sha256 \<Rightarrow> code_index \<Rightarrow> string \<Rightarrow> string" where
  "index_snapshot_id sha ci head =
     ''snap_'' @ hex (sha (snapshot_domain @ [nul] @ head @ [nul]
        @ bytes_text (to_le_bytes (length (ci_files ci))) @ bytes_text (ci_snapshot_acc ci)))"

section \<open>Symbol lookup\<close>

text \<open>\<open>rfind('.')\<close> and \<open>rfind("::")\<close>: the last position where the pattern starts.\<close>

definition rfind :: "string \<Rightarrow> string \<Rightarrow> nat option" where
  "rfind pat s =
     (case filter (\<lambda>i. starts_with (drop i s) pat) (rev [0..<Suc (length s)]) of
        [] \<Rightarrow> None | i # _ \<Rightarrow> Some i)"

definition qualified_symbol_parts :: "string \<Rightarrow> (string \<times> string) option" where
  "qualified_symbol_parts name =
     (let dot = map_option (\<lambda>i. (i, 1::nat)) (rfind ''.'' name);
          colon = map_option (\<lambda>i. (i, 2::nat)) (rfind ''::'' name)
      in case (case (dot, colon) of
                 (Some d, Some c) \<Rightarrow> Some (if fst d > fst c then d else c)
               | (Some d, None) \<Rightarrow> Some d
               | (None, Some c) \<Rightarrow> Some c
               | (None, None) \<Rightarrow> None) of
           None \<Rightarrow> None
         | Some (i, width) \<Rightarrow>
             let qualifier = take i name; leaf = drop (i + width) name
             in if qualifier \<noteq> [] \<and> leaf \<noteq> [] then Some (qualifier, leaf) else None)"

definition symbol_matches_qualified_name :: "file_entry \<Rightarrow> symbol \<Rightarrow> string \<Rightarrow> bool" where
  "symbol_matches_qualified_name f s requested =
     (if sy_name s = requested then True
      else case qualified_symbol_parts requested of
             None \<Rightarrow> False
           | Some (qualifier, leaf) \<Rightarrow>
               if sy_name s \<noteq> leaf then False
               else let owner = (case qualified_symbol_parts qualifier of
                                   Some (_, leaf) \<Rightarrow> leaf | None \<Rightarrow> qualifier)
                    in list_ex (\<lambda>candidate. sy_name candidate = owner
                         \<and> sy_start_line candidate \<le> sy_start_line s
                         \<and> sy_end_line s \<le> sy_end_line candidate
                         \<and> (sy_start_line candidate < sy_start_line s
                            \<or> sy_end_line s < sy_end_line candidate)) (fe_symbols f))"

type_synonym symbol_definition = "string \<times> symbol \<times> string"

definition indexed_symbols :: "code_index \<Rightarrow> string \<Rightarrow> (file_entry \<times> symbol) list" where
  "indexed_symbols ci name =
     List.map_filter (\<lambda>(path, position).
       case index_lookup ci path of
         None \<Rightarrow> None
       | Some f \<Rightarrow> if position < length (fe_symbols f) then Some (f, fe_symbols f ! position) else None)
       (postings ci name)"

definition symbol_found :: "file_entry \<times> symbol \<Rightarrow> symbol_definition" where
  "symbol_found fs = (case fs of (f, s) \<Rightarrow> (fe_path f, s, fe_hash f))"

definition find_symbols :: "code_index \<Rightarrow> string option \<Rightarrow> string \<Rightarrow> symbol_definition list" where
  "find_symbols ci path name =
     (let leaf_name = (case qualified_symbol_parts name of Some (_, leaf) \<Rightarrow> leaf | None \<Rightarrow> name)
      in case path of
           Some p \<Rightarrow>
             (case index_get ci p of
                None \<Rightarrow> []
              | Some f \<Rightarrow>
                  map (\<lambda>s. symbol_found (f, s))
                    (filter (\<lambda>s. symbol_matches_qualified_name f s name)
                      (filter (\<lambda>s. sy_name s = leaf_name) (fe_symbols f))))
         | None \<Rightarrow>
             map symbol_found
               (filter (\<lambda>(f, s). symbol_matches_qualified_name f s name)
                 (indexed_symbols ci leaf_name)))"

section \<open>Exclusions\<close>

definition ignored_path_component :: "string \<Rightarrow> bool" where
  "ignored_path_component name \<longleftrightarrow>
     name \<in> {''.git'', ''node_modules'', ''target'', ''dist'', ''build'', ''.next'', ''.venv'',
             ''venv'', ''.codeweave-cache''}
     \<or> starts_with name ''target-'' \<or> starts_with name ''target_''"

definition ignored_workspace_path :: "string \<Rightarrow> bool" where
  "ignored_workspace_path path =
     list_ex ignored_path_component (split_on CHR ''/'' (normalize_path_text path))"

definition excluded_dir :: "string \<Rightarrow> bool" where
  "excluded_dir path =
     (case path_file_name path of Some name \<Rightarrow> ignored_path_component name | None \<Rightarrow> False)"

definition excluded_path :: "string \<Rightarrow> bool" where
  "excluded_path path =
     (if (case path_file_name path of Some name \<Rightarrow> contains name ''.codeweave-'' | None \<Rightarrow> False)
      then True
      else list_ex (\<lambda>c. ignored_path_component (component_text c)) (path_components path))"

text \<open>The matcher compiled from the configured patterns and \<open>Path::canonicalize\<close> are
  parameters.\<close>

record exclusions =
  ex_normalized_root :: string
  ex_matcher :: "string \<Rightarrow> bool \<Rightarrow> bool"
  ex_canonicalize :: "string \<Rightarrow> string option"

definition trim_start_char :: "char \<Rightarrow> string \<Rightarrow> string" where
  "trim_start_char c s = dropWhile (\<lambda>x. x = c) s"

definition trim_end_char :: "char \<Rightarrow> string \<Rightarrow> string" where
  "trim_end_char c s = rev (dropWhile (\<lambda>x. x = c) (rev s))"

definition normalized_absolute_path :: "string \<Rightarrow> string" where
  "normalized_absolute_path path =
     (let normalized = normalize_path_text path
      in trim_end_char CHR ''/''
           (case strip_prefix ''//?/'' normalized of Some rest \<Rightarrow> rest | None \<Rightarrow> normalized))"

text \<open>\<open>normalized.get(root_len..)\<close> is \<open>None\<close> off a character boundary.\<close>

definition relative_from_normalized :: "exclusions \<Rightarrow> string \<Rightarrow> string option" where
  "relative_from_normalized ex normalized =
     (let root_len = length (ex_normalized_root ex) in
      if length normalized < root_len
         \<or> ascii_lower (take root_len normalized) \<noteq> ascii_lower (ex_normalized_root ex)
      then None
      else let suffix = drop root_len normalized in
           if suffix \<noteq> [] \<and> is_continuation (hd suffix) then None
           else if suffix \<noteq> [] \<and> \<not> starts_with suffix ''/'' then None
           else Some (trim_start_char CHR ''/'' suffix))"

definition exclusion_relative_path :: "exclusions \<Rightarrow> string \<Rightarrow> string option" where
  "exclusion_relative_path ex path =
     (if \<not> path_is_absolute path then Some (normalize_path_text path)
      else case relative_from_normalized ex (normalized_absolute_path path) of
             Some relative \<Rightarrow> Some relative
           | None \<Rightarrow>
               (case ex_canonicalize ex path of
                  None \<Rightarrow> None
                | Some canonical \<Rightarrow>
                    relative_from_normalized ex (normalized_absolute_path canonical)))"

definition is_ignored :: "exclusions \<Rightarrow> string \<Rightarrow> bool \<Rightarrow> bool" where
  "is_ignored ex path is_dir =
     (case exclusion_relative_path ex path of
        None \<Rightarrow> False
      | Some relative \<Rightarrow> ignored_workspace_path relative \<or> ex_matcher ex relative is_dir)"

section \<open>The invariant of the index\<close>

text \<open>The digest of the files, and the postings they call for.\<close>

definition acc_of :: "sha256 \<Rightarrow> file_entry list \<Rightarrow> u8 list" where
  "acc_of sha fs = foldl xor_into (replicate 32 0) (map (file_digest sha) fs)"

definition posting_spec :: "file_entry list \<Rightarrow> string \<Rightarrow> posting set" where
  "posting_spec fs name =
     {(p, i). \<exists>f \<in> set fs. fe_path f = p \<and> i < length (fe_symbols f) \<and> sy_name (fe_symbols f ! i) = name}"

definition index_inv :: "sha256 \<Rightarrow> code_index \<Rightarrow> bool" where
  "index_inv sha ci \<longleftrightarrow>
     distinct (map fe_path (ci_files ci))
     \<and> (\<forall>name. set (postings ci name) = posting_spec (ci_files ci) name)
     \<and> (\<forall>name. sorted (postings ci name) \<and> distinct (postings ci name))
     \<and> (\<forall>name. map_of (ci_symbol_index ci) name \<noteq> Some [])
     \<and> ci_snapshot_acc ci = acc_of sha (ci_files ci)"

lemma index_lookup_Some: "index_lookup ci p = Some f \<Longrightarrow> f \<in> set (ci_files ci) \<and> fe_path f = p"
  by (auto simp: index_lookup_def find_Some_iff)

lemma index_lookup_None: "index_lookup ci p = None \<longleftrightarrow> p \<notin> fe_path ` set (ci_files ci)"
  by (auto simp: index_lookup_def find_None_iff)

lemma find_distinct:
  "distinct (map fe_path fs) \<Longrightarrow> f \<in> set fs \<Longrightarrow> find (\<lambda>g. fe_path g = fe_path f) fs = Some f"
  by (induction fs) auto

subsection \<open>The digest\<close>

lemma length_xor_into [simp]: "length (xor_into a b) = min (length a) (length b)"
  by (simp add: xor_into_def)

lemma xor_into_nth: "i < length a \<Longrightarrow> i < length b \<Longrightarrow> xor_into a b ! i = a ! i XOR b ! i"
  by (simp add: xor_into_def)

lemma xor_into_commute: "xor_into (xor_into a x) y = xor_into (xor_into a y) x"
  by (rule nth_equalityI) (auto simp: xor_into_nth xor.assoc xor.commute xor.left_commute)

lemma xor_into_cancel: "length a \<le> length x \<Longrightarrow> xor_into (xor_into a x) x = a"
  by (rule nth_equalityI) (auto simp: xor_into_nth xor.assoc)

lemma foldl_xor_out: "foldl xor_into (xor_into a x) xs = xor_into (foldl xor_into a xs) x"
  by (induction xs arbitrary: a) (simp_all add: xor_into_commute)

lemma length_foldl_xor: "\<forall>x \<in> set xs. length x = n \<Longrightarrow> length a = n \<Longrightarrow> length (foldl xor_into a xs) = n"
  by (induction xs arbitrary: a) auto

text \<open>Every SHA-256 digest has 32 bytes.\<close>

definition sha_len :: "sha256 \<Rightarrow> bool" where
  "sha_len sha \<longleftrightarrow> (\<forall>m. length (sha m) = 32)"

lemma length_acc_of: "sha_len sha \<Longrightarrow> length (acc_of sha fs) = 32"
  unfolding acc_of_def by (rule length_foldl_xor) (auto simp: sha_len_def file_digest_def)

lemma acc_of_append1: "acc_of sha (fs @ [f]) = xor_into (acc_of sha fs) (file_digest sha f)"
  by (simp add: acc_of_def)

lemma acc_of_middle: "acc_of sha (xs @ f # ys) = xor_into (acc_of sha (xs @ ys)) (file_digest sha f)"
  by (simp add: acc_of_def foldl_xor_out)

lemma filter_path_split:
  "distinct (map fe_path (xs @ f # ys)) \<Longrightarrow> filter (\<lambda>g. fe_path g \<noteq> fe_path f) (xs @ f # ys) = xs @ ys"
proof -
  assume "distinct (map fe_path (xs @ f # ys))"
  then have "\<forall>g \<in> set xs \<union> set ys. fe_path g \<noteq> fe_path f"
    by (metis (no_types, lifting) Un_iff distinct.simps(2) distinct_append distinct_map image_eqI
        list.simps(9) map_append disjoint_iff list.set_intros(1) list.set_map)
  then show ?thesis by simp
qed

lemma acc_of_remove:
  assumes "sha_len sha" "distinct (map fe_path fs)" "f \<in> set fs"
  shows "xor_into (acc_of sha fs) (file_digest sha f) = acc_of sha (filter (\<lambda>g. fe_path g \<noteq> fe_path f) fs)"
proof -
  from split_list [OF assms(3)] obtain xs ys where fs: "fs = xs @ f # ys" by blast
  then have "filter (\<lambda>g. fe_path g \<noteq> fe_path f) fs = xs @ ys"
    using filter_path_split assms(2) by simp
  moreover have "length (acc_of sha (xs @ ys)) \<le> length (file_digest sha f)"
    using assms(1) by (simp add: length_acc_of) (simp add: sha_len_def file_digest_def)
  ultimately show ?thesis using fs by (simp add: acc_of_middle xor_into_cancel)
qed

text \<open>The digest is that of the multiset of digests: the order of the files is irrelevant.\<close>

lemma foldl_xor_mset: "mset xs = mset ys \<Longrightarrow> foldl xor_into a xs = foldl xor_into a ys"
proof (induction xs arbitrary: a ys)
  case (Cons x xs)
  then have "x \<in> set ys" by (metis list.set_intros(1) mset_eq_setD)
  then obtain us vs where ys: "ys = us @ x # vs" by (meson split_list)
  then have "mset xs = mset (us @ vs)" using Cons.prems by simp
  then have "foldl xor_into (xor_into a x) xs = foldl xor_into (xor_into a x) (us @ vs)"
    by (rule Cons.IH)
  then show ?case by (simp add: ys foldl_xor_out)
qed simp

subsection \<open>Removing\<close>

lemma map_of_drop_postings:
  "map_of (drop_postings path si n) m =
     (if m = n then Option.bind (map_of si n)
        (\<lambda>es. let k = filter (\<lambda>(p, _). p \<noteq> path) es in if k = [] then None else Some k)
      else map_of si m)"
  by (auto simp: drop_postings_def Let_def AList.delete_conv' AList.update_conv' split: option.splits)

lemma map_of_drop_all:
  "distinct names \<Longrightarrow> map_of (foldl (drop_postings path) si names) m =
     (if m \<in> set names then Option.bind (map_of si m)
        (\<lambda>es. let k = filter (\<lambda>(p, _). p \<noteq> path) es in if k = [] then None else Some k)
      else map_of si m)"
proof (induction names arbitrary: si)
  case (Cons n names)
  then show ?case by (cases "m = n") (auto simp: map_of_drop_postings)
qed simp

definition postings_in :: "(string \<times> posting list) list \<Rightarrow> string \<Rightarrow> posting list" where
  "postings_in si name = (case map_of si name of None \<Rightarrow> [] | Some ps \<Rightarrow> ps)"

lemma postings_postings_in: "postings ci = postings_in (ci_symbol_index ci)"
  by (rule ext) (simp add: postings_def postings_in_def)

lemma postings_drop_all:
  "distinct names \<Longrightarrow> postings_in (foldl (drop_postings path) si names) m =
     (if m \<in> set names then filter (\<lambda>(p, _). p \<noteq> path) (postings_in si m) else postings_in si m)"
  by (auto simp: postings_in_def map_of_drop_all Let_def split: option.splits)

lemma index_remove_files:
  "ci_files (snd (index_remove sha ci p)) = filter (\<lambda>f. fe_path f \<noteq> p) (ci_files ci)"
  by (auto simp: index_remove_def index_lookup_None split: option.splits
      intro!: filter_True [symmetric])

lemma index_remove_inv:
  assumes sha: "sha_len sha" and inv: "index_inv sha ci"
  shows "index_inv sha (snd (index_remove sha ci p))"
proof (cases "index_lookup ci p")
  case None
  then show ?thesis using inv by (simp add: index_remove_def)
next
  case (Some f)
  then have f: "f \<in> set (ci_files ci)" "fe_path f = p" using index_lookup_Some by auto
  let ?ci = "snd (index_remove sha ci p)"
  let ?names = "remdups (map sy_name (fe_symbols f))"
  have si: "ci_symbol_index ?ci = foldl (drop_postings p) (ci_symbol_index ci) ?names"
    using Some f by (simp add: index_remove_def)
  have fs: "ci_files ?ci = filter (\<lambda>g. fe_path g \<noteq> p) (ci_files ci)" by (rule index_remove_files)
  have post: "postings ?ci name =
      (if name \<in> set ?names then filter (\<lambda>(q, _). q \<noteq> p) (postings ci name) else postings ci name)" for name
    unfolding postings_postings_in si by (rule postings_drop_all) simp
  have inv': "set (postings ci name) = posting_spec (ci_files ci) name" for name
    using inv by (simp add: index_inv_def)
  have "set (postings ?ci name) = posting_spec (ci_files ?ci) name" for name
  proof -
    have "(p, i) \<in> posting_spec (ci_files ci) name \<Longrightarrow> name \<in> set ?names" for i
    proof -
      assume "(p, i) \<in> posting_spec (ci_files ci) name"
      then obtain g where g: "g \<in> set (ci_files ci)" "fe_path g = p" "i < length (fe_symbols g)"
        "sy_name (fe_symbols g ! i) = name" by (auto simp: posting_spec_def)
      have "g = f" using inv f g by (auto simp: index_inv_def dest: inj_onD [OF iffD1 [OF distinct_map, THEN conjunct2]])
      with g show ?thesis by auto
    qed
    then show ?thesis unfolding post fs
      by (auto simp: inv' posting_spec_def; fastforce)
  qed
  moreover have "sorted (postings ?ci name) \<and> distinct (postings ?ci name)" for name
    using inv by (auto simp: post index_inv_def sorted_wrt_filter)
  moreover have "map_of (ci_symbol_index ?ci) name \<noteq> Some []" for name
    using inv by (auto simp: si map_of_drop_all index_inv_def Let_def split: if_splits bind_splits)
  moreover have "ci_snapshot_acc ?ci = acc_of sha (ci_files ?ci)"
    using acc_of_remove [OF sha _ f(1)] inv f(2) Some fs by (simp add: index_remove_def index_inv_def)
  moreover have "distinct (map fe_path (ci_files ?ci))"
    using inv by (simp add: fs index_inv_def distinct_map_filter)
  ultimately show ?thesis by (simp add: index_inv_def)
qed

subsection \<open>Inserting\<close>

lemma map_of_add_posting:
  "map_of (add_posting path si (i, s)) m =
     (if m = sy_name s then Some (insort_insert (path, i) (postings_in si m)) else map_of si m)"
  by (auto simp: add_posting_def postings_in_def AList.update_conv')

lemma map_of_add_not_Nil:
  "\<forall>m. map_of si m \<noteq> Some [] \<Longrightarrow> map_of (foldl (add_posting path) si ps) m \<noteq> Some []"
proof (induction ps arbitrary: si)
  case (Cons x ps)
  have "\<forall>m. map_of (add_posting path si x) m \<noteq> Some []"
    using Cons.prems set_insort_insert [of "(path, fst x)"] by (cases x) (auto simp: map_of_add_posting; metis insert_not_empty list.set(1))
  then show ?case using Cons.IH by simp
qed simp

lemma postings_add_all:
  "set (postings_in (foldl (add_posting path) si ps) m) =
     set (postings_in si m) \<union> {(path, i) | i s. (i, s) \<in> set ps \<and> sy_name s = m}"
proof (induction ps arbitrary: si)
  case (Cons x ps)
  have "set (postings_in (add_posting path si x) m) =
     set (postings_in si m) \<union> (if sy_name (snd x) = m then {(path, fst x)} else {})"
    by (cases x) (auto simp: postings_in_def map_of_add_posting set_insort_insert split: option.splits)
  with Cons show ?case by (cases x) auto
qed simp

lemma sorted_add_all:
  "sorted (postings_in si m) \<and> distinct (postings_in si m) \<Longrightarrow>
     sorted (postings_in (foldl (add_posting path) si ps) m)
     \<and> distinct (postings_in (foldl (add_posting path) si ps) m)"
proof (induction ps arbitrary: si)
  case (Cons x ps)
  have "sorted (postings_in (add_posting path si x) m) \<and> distinct (postings_in (add_posting path si x) m)"
    using Cons.prems
    by (cases x) (auto simp: postings_in_def map_of_add_posting sorted_insort_insert distinct_insort_insert
        split: option.splits)
  then show ?case using Cons.IH by simp
qed simp

lemma index_insert_files:
  "ci_files (index_insert sha ci e) = filter (\<lambda>f. fe_path f \<noteq> fe_path e) (ci_files ci) @ [e]"
  by (simp add: index_insert_def Let_def index_remove_files)

lemma index_insert_inv:
  assumes sha: "sha_len sha" and inv: "index_inv sha ci"
  shows "index_inv sha (index_insert sha ci e)"
proof -
  let ?ci1 = "snd (index_remove sha ci (fe_path e))" and ?ci = "index_insert sha ci e"
  have i1: "index_inv sha ?ci1" by (rule index_remove_inv [OF sha inv])
  have nop: "fe_path e \<notin> fe_path ` set (ci_files ?ci1)" by (auto simp: index_remove_files)
  have fs: "ci_files ?ci = ci_files ?ci1 @ [e]"
    and si: "ci_symbol_index ?ci = foldl (add_posting (fe_path e)) (ci_symbol_index ?ci1)
       (enumerate 0 (fe_symbols e))"
    and acc: "ci_snapshot_acc ?ci = xor_into (ci_snapshot_acc ?ci1) (file_digest sha e)"
    by (simp_all add: index_insert_def Let_def)
  have "set (postings ?ci name) = posting_spec (ci_files ?ci) name" for name
  proof -
    have "set (postings ?ci name) = set (postings ?ci1 name)
        \<union> {(fe_path e, i) | i s. (i, s) \<in> set (enumerate 0 (fe_symbols e)) \<and> sy_name s = name}"
      unfolding postings_postings_in si by (rule postings_add_all)
    also have "set (postings ?ci1 name) = posting_spec (ci_files ?ci1) name"
      using i1 by (simp add: index_inv_def)
    finally show ?thesis
      by (auto simp: fs posting_spec_def in_set_enumerate_eq)
  qed
  moreover have "sorted (postings ?ci name) \<and> distinct (postings ?ci name)" for name
    unfolding postings_postings_in si
    by (rule sorted_add_all) (use i1 in \<open>simp add: index_inv_def postings_postings_in\<close>)
  moreover have "map_of (ci_symbol_index ?ci) name \<noteq> Some []" for name
    unfolding si by (rule map_of_add_not_Nil) (use i1 in \<open>simp add: index_inv_def\<close>)
  moreover have "ci_snapshot_acc ?ci = acc_of sha (ci_files ?ci)"
    using i1 by (simp add: acc fs index_inv_def acc_of_append1)
  moreover have "distinct (map fe_path (ci_files ?ci))"
    using i1 nop by (simp add: fs index_inv_def)
  ultimately show ?thesis by (simp add: index_inv_def)
qed

lemma index_default_inv: "index_inv sha index_default"
  by (simp add: index_inv_def index_default_def postings_def posting_spec_def acc_of_def)

lemma index_remove_tree_inv:
  "sha_len sha \<Longrightarrow> index_inv sha ci \<Longrightarrow> index_inv sha (snd (index_remove_tree sha ci p))"
proof -
  assume sha: "sha_len sha" and "index_inv sha ci"
  then have "index_inv sha (foldl (\<lambda>ci p. snd (index_remove sha ci p)) ci ps)" for ps
    by (induction ps arbitrary: ci) (simp_all add: index_remove_inv)
  then show ?thesis by (simp add: index_remove_tree_def Let_def)
qed

text \<open>The index as a sequence of its updates leaves it.\<close>

datatype index_op = IInsert file_entry | IRemove string | IRemoveTree string

fun index_apply :: "sha256 \<Rightarrow> code_index \<Rightarrow> index_op \<Rightarrow> code_index" where
  "index_apply sha ci (IInsert e) = index_insert sha ci e"
| "index_apply sha ci (IRemove p) = snd (index_remove sha ci p)"
| "index_apply sha ci (IRemoveTree p) = snd (index_remove_tree sha ci p)"

definition index_run :: "sha256 \<Rightarrow> index_op list \<Rightarrow> code_index" where
  "index_run sha ops = foldl (index_apply sha) index_default ops"

lemma index_run_inv: "sha_len sha \<Longrightarrow> index_inv sha (index_run sha ops)"
proof -
  assume sha: "sha_len sha"
  have "index_inv sha ci \<Longrightarrow> index_inv sha (foldl (index_apply sha) ci ops)" for ci
  proof (induction ops arbitrary: ci)
    case (Cons x ops)
    then show ?case
      by (cases x) (simp_all add: sha index_insert_inv index_remove_inv index_remove_tree_inv)
  qed simp
  then show ?thesis by (simp add: index_run_def index_default_inv)
qed

subsection \<open>Lookup\<close>

definition has_symbol :: "code_index \<Rightarrow> string \<Rightarrow> symbol_definition \<Rightarrow> bool" where
  "has_symbol ci name d \<longleftrightarrow>
     list_ex (\<lambda>f. list_ex (\<lambda>s. d = symbol_found (f, s) \<and> symbol_matches_qualified_name f s name
        \<and> sy_name s = (case qualified_symbol_parts name of Some (_, leaf) \<Rightarrow> leaf | None \<Rightarrow> name))
       (fe_symbols f)) (ci_files ci)"

lemma set_indexed_symbols:
  assumes "index_inv sha ci"
  shows "set (indexed_symbols ci name) =
     {(f, s). f \<in> set (ci_files ci) \<and> s \<in> set (fe_symbols f) \<and> sy_name s = name}" (is "?l = ?r")
proof
  have p: "set (postings ci name) = posting_spec (ci_files ci) name"
    and d: "distinct (map fe_path (ci_files ci))"
    using assms by (auto simp: index_inv_def)
  have look: "f \<in> set (ci_files ci) \<Longrightarrow> index_lookup ci (fe_path f) = Some f" for f
    using d by (simp add: index_lookup_def find_distinct)
  show "?l \<subseteq> ?r"
  proof
    fix x
    assume "x \<in> ?l"
    then obtain q i f where q: "(q, i) \<in> posting_spec (ci_files ci) name"
      and l: "index_lookup ci q = Some f" "i < length (fe_symbols f)" "x = (f, fe_symbols f ! i)"
      by (auto simp: indexed_symbols_def map_filter_def p split: option.splits if_splits)
    from q obtain g where g: "g \<in> set (ci_files ci)" "fe_path g = q" "sy_name (fe_symbols g ! i) = name"
      by (auto simp: posting_spec_def)
    with look [OF g(1)] l show "x \<in> ?r" by auto
  qed
  show "?r \<subseteq> ?l"
  proof
    fix x
    assume "x \<in> ?r"
    then obtain f i where f: "f \<in> set (ci_files ci)" "i < length (fe_symbols f)"
      "sy_name (fe_symbols f ! i) = name" "x = (f, fe_symbols f ! i)"
      by (auto simp: in_set_conv_nth)
    then have "(fe_path f, i) \<in> set (postings ci name)" by (auto simp: p posting_spec_def)
    then show "x \<in> ?l" using f look [OF f(1)]
      by (auto simp: indexed_symbols_def map_filter_def intro!: image_eqI [of _ _ "(fe_path f, i)"])
  qed
qed

lemma find_symbols_all:
  assumes "index_inv sha ci"
  shows "d \<in> set (find_symbols ci None name) \<longleftrightarrow> has_symbol ci name d"
  by (auto simp: find_symbols_def has_symbol_def set_indexed_symbols [OF assms] list_ex_iff Let_def image_iff)

lemma find_symbols_path:
  assumes "index_inv sha ci" "normalize_path_text p = p"
  shows "d \<in> set (find_symbols ci (Some p) name) \<longleftrightarrow> has_symbol ci name d \<and> fst d = p"
proof -
  have d: "distinct (map fe_path (ci_files ci))" using assms by (auto simp: index_inv_def)
  have look: "f \<in> set (ci_files ci) \<Longrightarrow> index_lookup ci (fe_path f) = Some f" for f
    using d by (simp add: index_lookup_def find_distinct)
  show ?thesis
  proof (cases "index_lookup ci p")
    case None
    then have "\<forall>f \<in> set (ci_files ci). fe_path f \<noteq> p" by (auto simp: index_lookup_None)
    then show ?thesis using None assms(2)
      by (auto simp: find_symbols_def index_get_def has_symbol_def list_ex_iff symbol_found_def)
  next
    case (Some f)
    with index_lookup_Some have f: "f \<in> set (ci_files ci)" "fe_path f = p" by auto
    have one: "g \<in> set (ci_files ci) \<Longrightarrow> fe_path g = p \<Longrightarrow> g = f" for g
      using look [of g] Some by simp
    define Q where "Q g = list_ex (\<lambda>s. d = symbol_found (g, s) \<and> symbol_matches_qualified_name g s name
        \<and> sy_name s = (case qualified_symbol_parts name of Some (_, leaf) \<Rightarrow> leaf | None \<Rightarrow> name))
       (fe_symbols g)" for g
    have "Q g \<Longrightarrow> fst d = fe_path g" for g by (auto simp: Q_def list_ex_iff symbol_found_def)
    moreover have "has_symbol ci name d \<longleftrightarrow> (\<exists>g \<in> set (ci_files ci). Q g)"
      by (simp add: has_symbol_def Q_def list_ex_iff)
    ultimately have "has_symbol ci name d \<and> fst d = p \<longleftrightarrow> Q f"
      using f one by metis
    moreover have "d \<in> set (find_symbols ci (Some p) name) \<longleftrightarrow> Q f"
      using Some assms(2) unfolding Q_def
      by (simp add: find_symbols_def index_get_def list_ex_iff Let_def image_iff) blast
    ultimately show ?thesis by simp
  qed
qed

section \<open>Refreshing from the disk\<close>

text \<open>\<open>Path::strip_prefix\<close> by components, keeping the text of what remains.\<close>

definition skip_part :: "string \<Rightarrow> bool" where
  "skip_part p \<longleftrightarrow> p = [] \<or> p = ''.''"

fun drop_parts :: "nat \<Rightarrow> string list \<Rightarrow> string list" where
  "drop_parts 0 ps = dropWhile skip_part ps"
| "drop_parts (Suc n) [] = []"
| "drop_parts (Suc n) (p # ps) = (if skip_part p then drop_parts (Suc n) ps else drop_parts n ps)"

definition strip_path_prefix :: "string \<Rightarrow> string \<Rightarrow> string option" where
  "strip_path_prefix root path =
     (let rc = path_components root; pc = path_components path in
      if take (length rc) pc = rc
      then Some (join_with ''/'' (rev (dropWhile skip_part (rev
             (drop_parts (length (filter (\<lambda>c. c \<noteq> RootDir) rc)) (split_on CHR ''/'' path))))))
      else None)"

definition relative_string :: "string \<Rightarrow> string \<Rightarrow> string" where
  "relative_string root path =
     normalize_path_text (case strip_path_prefix root path of Some r \<Rightarrow> r | None \<Rightarrow> path)"

definition content_hash :: "sha256 \<Rightarrow> string \<Rightarrow> string" where
  "content_hash sha content = hex (sha content)"

text \<open>What a refresh reads: the root and its directory operations, and the parameters.\<close>

record 'd scan_env =
  sc_root :: string
  sc_ops :: "'d dir_ops"
  sc_exclusions :: exclusions
  sc_max_file_bytes :: nat
  sc_sha :: sha256
  sc_extract :: "string \<Rightarrow> string \<Rightarrow> symbol list"

type_synonym symbol_cache = "string \<Rightarrow> string \<Rightarrow> symbol list option"

definition read_entry ::
    "'d scan_env \<Rightarrow> symbol_cache \<Rightarrow> 'd \<Rightarrow> string \<Rightarrow> app_error + file_entry option" where
  "read_entry env cache d path =
     (case rel_path_new (relative_string (sc_root env) path) of
        Inl _ \<Rightarrow> Inr None
      | Inr relative \<Rightarrow>
          (case read_file (sc_ops env) d relative (sc_max_file_bytes env) of
             Inl e \<Rightarrow> Inl e
           | Inr None \<Rightarrow> Inr None
           | Inr (Some file) \<Rightarrow>
               if list_ex (\<lambda>b. b = 0) (take 8192 (wf_bytes file)) then Inr None
               else (case from_utf8 (wf_bytes file) of
                       Inl _ \<Rightarrow> Inr None
                     | Inr _ \<Rightarrow>
                         let content = bytes_text (wf_bytes file);
                             hash = content_hash (sc_sha env) content;
                             symbols = (case cache relative hash of
                                          Some symbols \<Rightarrow> symbols
                                        | None \<Rightarrow> sc_extract env path content)
                         in Inr (Some (entry_with_symbols relative content hash symbols
                                   (wf_size file) (wf_modified_ns file))))))"

text \<open>One path of \<open>refresh_paths\<close>: the error or the paths changed, and the index.\<close>

definition refresh_path ::
    "'d scan_env \<Rightarrow> 'd \<Rightarrow> code_index \<Rightarrow> string \<Rightarrow> (app_error + string list) \<times> code_index" where
  "refresh_path env d ci absolute =
     (let relative = relative_string (sc_root env) absolute in
      if relative = [] \<or> relative = ''.'' then (Inr [], ci)
      else case rel_path_new relative of
             Inl _ \<Rightarrow> (Inr [], ci)
           | Inr file \<Rightarrow>
               if \<not> is_regular_file (sc_ops env) d file
               then (case index_remove_tree (sc_sha env) ci relative of
                       (removed, ci') \<Rightarrow> (Inr removed, ci'))
               else if is_ignored (sc_exclusions env) absolute False \<or> excluded_path absolute
               then (Inr [], ci)
               else (case read_entry env (\<lambda>_ _. None) d absolute of
                       Inl e \<Rightarrow> (Inl e, ci)
                     | Inr None \<Rightarrow> (Inr [], ci)
                     | Inr (Some entry) \<Rightarrow>
                         let is_changed = (case index_get ci (fe_path entry) of
                                             None \<Rightarrow> True
                                           | Some old \<Rightarrow> fe_hash old \<noteq> fe_hash entry)
                         in (Inr (if is_changed then [fe_path entry] else []),
                             index_insert (sc_sha env) ci entry)))"

text \<open>The loop stops at the first error and leaves the index as far as it got.\<close>

fun refresh_loop ::
    "'d scan_env \<Rightarrow> 'd \<Rightarrow> code_index \<Rightarrow> string list \<Rightarrow> string list
     \<Rightarrow> (app_error + string list) \<times> code_index" where
  "refresh_loop env d ci [] changed = (Inr changed, ci)"
| "refresh_loop env d ci (p # ps) changed =
     (case refresh_path env d ci p of
        (Inl e, ci') \<Rightarrow> (Inl e, ci')
      | (Inr cs, ci') \<Rightarrow> refresh_loop env d ci' ps (changed @ cs))"

definition refresh_paths ::
    "'d scan_env \<Rightarrow> 'd \<Rightarrow> code_index \<Rightarrow> string list \<Rightarrow> (app_error + string list) \<times> code_index" where
  "refresh_paths env d ci paths = refresh_loop env d ci paths []"

lemma refresh_path_inv:
  assumes "sha_len (sc_sha env)" "index_inv (sc_sha env) ci"
  shows "index_inv (sc_sha env) (snd (refresh_path env d ci p))"
  using assms index_remove_tree_inv [OF assms]
  by (auto simp: refresh_path_def Let_def index_insert_inv split: sum.splits option.splits prod.splits)
    (metis snd_conv)+

lemma refresh_paths_inv:
  assumes "sha_len (sc_sha env)"
  shows "index_inv (sc_sha env) ci \<Longrightarrow> index_inv (sc_sha env) (snd (refresh_paths env d ci ps))"
proof -
  have "index_inv (sc_sha env) ci \<Longrightarrow> index_inv (sc_sha env) (snd (refresh_loop env d ci ps changed))" for changed
  proof (induction ps arbitrary: ci changed)
    case (Cons p ps)
    have "index_inv (sc_sha env) (snd (refresh_path env d ci p))"
      by (rule refresh_path_inv [OF assms Cons.prems])
    then show ?case using Cons.IH by (auto split: prod.splits sum.splits)
  qed simp
  then show "index_inv (sc_sha env) ci \<Longrightarrow> index_inv (sc_sha env) (snd (refresh_paths env d ci ps))"
    by (simp add: refresh_paths_def)
qed

subsection \<open>What a refresh changes\<close>

lemma find_append: "find P (xs @ ys) = (case find P xs of Some x \<Rightarrow> Some x | None \<Rightarrow> find P ys)"
  by (induction xs) auto

lemma find_filter: "find P (filter Q xs) = find (\<lambda>x. Q x \<and> P x) xs"
  by (induction xs) auto

lemma find_False: "find (\<lambda>_. False) xs = None"
  by (induction xs) auto

lemma find_other:
  "find (\<lambda>x. fe_path x \<noteq> p \<and> fe_path x = q) xs = (if q = p then None else find (\<lambda>x. fe_path x = q) xs)"
proof (cases "q = p")
  case True
  then show ?thesis by (simp add: find_None_iff)
next
  case False
  then show ?thesis by (auto intro: find_cong)
qed

lemma lookup_insert:
  "index_lookup (index_insert sha ci e) q = (if q = fe_path e then Some e else index_lookup ci q)"
  by (simp add: index_lookup_def index_insert_files find_append find_filter find_other split: option.splits)

lemma lookup_remove:
  "index_lookup (snd (index_remove sha ci p)) q = (if q = p then None else index_lookup ci q)"
  by (simp add: index_lookup_def index_remove_files find_filter find_other)

lemma lookup_remove_list:
  "index_lookup (foldl (\<lambda>ci p. snd (index_remove sha ci p)) ci ps) q
     = (if q \<in> set ps then None else index_lookup ci q)"
  by (induction ps arbitrary: ci) (auto simp: lookup_remove)

definition below :: "string \<Rightarrow> string \<Rightarrow> bool" where
  "below dir q \<longleftrightarrow> q = dir \<or> starts_with q (dir @ ''/'')"

lemma lookup_remove_tree:
  "index_lookup (snd (index_remove_tree sha ci p)) q = (if below p q then None else index_lookup ci q)"
proof -
  have "index_lookup ci q = None" if "q \<notin> fe_path ` set (ci_files ci)"
    using that by (simp add: index_lookup_None)
  then show ?thesis
    by (auto simp: index_remove_tree_def Let_def lookup_remove_list below_def)
qed

lemma removed_by_tree:
  "q \<in> set (fst (index_remove_tree sha ci p)) \<longleftrightarrow> below p q \<and> index_lookup ci q \<noteq> None"
  by (auto simp: index_remove_tree_def Let_def below_def index_lookup_None)

definition indexed_hash :: "code_index \<Rightarrow> string \<Rightarrow> string option" where
  "indexed_hash ci q = map_option fe_hash (index_lookup ci q)"

lemma read_entry_path: "read_entry env cache d p = Inr (Some e) \<Longrightarrow> normalize_path_text (fe_path e) = fe_path e"
proof -
  assume r: "read_entry env cache d p = Inr (Some e)"
  then obtain q where q: "rel_path_new (relative_string (sc_root env) p) = Inr q"
    by (auto simp: read_entry_def split: sum.splits)
  have "fe_path e = q"
    using r q by (auto simp: read_entry_def Let_def entry_with_symbols_def split: sum.splits option.splits if_splits)
  moreover have "normalize_path_text q = q" using rel_path_new_ok [OF q] by simp
  ultimately show ?thesis by simp
qed

lemma refresh_path_changed:
  assumes "refresh_path env d ci p = (Inr cs, ci')"
  shows "q \<in> set cs \<longleftrightarrow> indexed_hash ci' q \<noteq> indexed_hash ci q"
proof -
  let ?r = "relative_string (sc_root env) p"
  have same: "cs = [] \<Longrightarrow> ci' = ci \<Longrightarrow> ?thesis" by simp
  show ?thesis
  proof (cases "?r = [] \<or> ?r = ''.'' \<or> (\<exists>e. rel_path_new ?r = Inl e)")
    case True
    then have "refresh_path env d ci p = (Inr [], ci)"
      by (auto simp: refresh_path_def Let_def)
    with assms show ?thesis by (simp add: same)
  next
    case False
    then obtain rel where rel: "rel_path_new ?r = Inr rel" by (cases "rel_path_new ?r") auto
    note a = assms [unfolded refresh_path_def Let_def rel sum.case]
    show ?thesis
    proof (cases "is_regular_file (sc_ops env) d rel")
      case reg: False
      then have "(cs, ci') = index_remove_tree (sc_sha env) ci ?r"
        using a False by (auto split: prod.splits)
      then have "cs = fst (index_remove_tree (sc_sha env) ci ?r)"
        "ci' = snd (index_remove_tree (sc_sha env) ci ?r)" by (metis fst_conv, metis snd_conv)
      then show ?thesis
        by (auto simp: removed_by_tree indexed_hash_def lookup_remove_tree)
    next
      case reg: True
      show ?thesis
      proof (cases "(is_ignored (sc_exclusions env) p False \<or> excluded_path p)
          \<or> read_entry env (\<lambda>_ _. None) d p = Inr None")
        case True
        then have "cs = []" "ci' = ci" using a False reg by (auto split: if_splits)
        then show ?thesis by (rule same)
      next
        case no: False
        then obtain e where e: "read_entry env (\<lambda>_ _. None) d p = Inr (Some e)"
          using a False reg by (auto split: sum.splits option.splits)
        have "index_get ci (fe_path e) = index_lookup ci (fe_path e)"
          using read_entry_path [OF e] by (simp add: index_get_def)
        moreover have "ci' = index_insert (sc_sha env) ci e"
          using a False reg no e by auto
        moreover have "cs = (if (case index_get ci (fe_path e) of
              None \<Rightarrow> True | Some old \<Rightarrow> fe_hash old \<noteq> fe_hash e) then [fe_path e] else [])"
          using a False reg no e by auto
        ultimately show ?thesis
          by (auto simp: indexed_hash_def lookup_insert split: option.splits)
      qed
    qed
  qed
qed

lemma refresh_loop_changed:
  "refresh_loop env d ci ps changed = (Inr cs, ci') \<Longrightarrow>
     set changed \<subseteq> set cs \<and> (\<forall>q. indexed_hash ci' q \<noteq> indexed_hash ci q \<longrightarrow> q \<in> set cs)"
proof (induction ps arbitrary: ci changed)
  case (Cons p ps)
  then obtain cs1 ci1 where 1: "refresh_path env d ci p = (Inr cs1, ci1)"
    "refresh_loop env d ci1 ps (changed @ cs1) = (Inr cs, ci')"
    by (auto split: prod.splits sum.splits)
  have "set (changed @ cs1) \<subseteq> set cs \<and> (\<forall>q. indexed_hash ci' q \<noteq> indexed_hash ci1 q \<longrightarrow> q \<in> set cs)"
    by (rule Cons.IH [OF 1(2)])
  then show ?case using refresh_path_changed [OF 1(1)] by (auto simp: subset_iff) metis
qed simp

lemma same_files_same_snapshot:
  assumes inv: "index_inv sha a" "index_inv sha b"
    and same: "(\<lambda>f. (fe_path f, fe_hash f)) ` set (ci_files a) = (\<lambda>f. (fe_path f, fe_hash f)) ` set (ci_files b)"
  shows "index_snapshot_id sha a head = index_snapshot_id sha b head"
proof -
  let ?key = "\<lambda>f. (fe_path f, fe_hash f)"
  let ?dig = "\<lambda>(p, h). sha (p @ [nul] @ h @ [nul])"
  have dist: "distinct (map ?key (ci_files ci))" if "index_inv sha ci" for ci
  proof -
    have "distinct (map fe_path fs) \<Longrightarrow> distinct (map ?key fs)" for fs :: "file_entry list"
      by (induction fs) auto
    then show ?thesis using that by (simp add: index_inv_def)
  qed
  have m: "mset (map ?key (ci_files a)) = mset (map ?key (ci_files b))"
    using same unfolding set_eq_iff_mset_eq_distinct [OF dist [OF inv(1)] dist [OF inv(2)], symmetric]
    by simp
  then have len: "length (ci_files a) = length (ci_files b)" by (metis length_map size_mset)
  have d: "map (file_digest sha) fs = map ?dig (map ?key fs)" for fs
    by (simp add: file_digest_def)
  have "mset (map (file_digest sha) (ci_files a)) = mset (map (file_digest sha) (ci_files b))"
    unfolding d mset_map [of ?dig] m ..
  then have "acc_of sha (ci_files a) = acc_of sha (ci_files b)"
    unfolding acc_of_def by (rule foldl_xor_mset)
  then show ?thesis using inv len by (simp add: index_inv_def index_snapshot_id_def)
qed

section \<open>Properties\<close>

text \<open>C15. A snapshot identifier names a set of files, not a history: two indexes built by any
  two sequences of inserts, removals and tree removals that leave the same paths with the same
  content hashes have the same snapshot identifier at the same repository head.\<close>

theorem snapshot_id_history_independent:
  assumes "\<forall>m. length (sha m) = 32"
    and "(\<lambda>f. (fe_path f, fe_hash f)) ` set (ci_files (index_run sha ops1))
       = (\<lambda>f. (fe_path f, fe_hash f)) ` set (ci_files (index_run sha ops2))"
  shows "index_snapshot_id sha (index_run sha ops1) head = index_snapshot_id sha (index_run sha ops2) head"
  using index_run_inv assms by (intro same_files_same_snapshot) (simp_all add: sha_len_def)

definition sample_entry :: "string \<Rightarrow> string \<Rightarrow> symbol list \<Rightarrow> file_entry" where
  "sample_entry p h symbols = entry_with_symbols p [] h symbols 0 0"

theorem snapshot_id_history_independent_witness:
  "\<exists>ops1 ops2. ops1 \<noteq> ops2 \<and> length (ci_files (index_run (\<lambda>m. replicate 32 (of_nat (length m))) ops1)) = 2
    \<and> index_snapshot_id (\<lambda>m. replicate 32 (of_nat (length m))) (index_run (\<lambda>m. replicate 32 (of_nat (length m))) ops1) ''h''
     = index_snapshot_id (\<lambda>m. replicate 32 (of_nat (length m))) (index_run (\<lambda>m. replicate 32 (of_nat (length m))) ops2) ''h''"
proof -
  let ?sha = "\<lambda>m :: string. replicate 32 (of_nat (length m)) :: u8 list"
  let ?a = "sample_entry ''a'' ''1'' []" and ?b = "sample_entry ''b'' ''2'' []" and ?c = "sample_entry ''c'' ''3'' []"
  let ?ops1 = "[IInsert ?a, IInsert ?b]" and ?ops2 = "[IInsert ?b, IInsert ?c, IInsert ?a, IRemove ''c'']"
  have f: "ci_files (index_run ?sha ?ops1) = [?a, ?b]" "ci_files (index_run ?sha ?ops2) = [?b, ?a]"
    by (simp_all add: index_run_def index_insert_files index_remove_files index_default_def sample_entry_def
        entry_with_symbols_def)
  have "\<forall>m. length (?sha m) = 32" by simp
  moreover have "(\<lambda>f. (fe_path f, fe_hash f)) ` set (ci_files (index_run ?sha ?ops1))
       = (\<lambda>f. (fe_path f, fe_hash f)) ` set (ci_files (index_run ?sha ?ops2))"
    unfolding f by auto
  ultimately have "index_snapshot_id ?sha (index_run ?sha ?ops1) ''h'' = index_snapshot_id ?sha (index_run ?sha ?ops2) ''h''"
    by (rule snapshot_id_history_independent)
  then show ?thesis using f by (intro exI [of _ ?ops1] exI [of _ ?ops2]) simp
qed

text \<open>Symbol lookup by name through the postings is exact after any sequence of index
  updates: it returns the declarations of that name in all indexed files, and no stale one,
  and restricting it to a path returns those of that file.\<close>

theorem symbol_lookup_exact:
  assumes "\<forall>m. length (sha m) = 32"
  shows "(d \<in> set (find_symbols (index_run sha ops) None name) \<longleftrightarrow> has_symbol (index_run sha ops) name d)
    \<and> (d \<in> set (find_symbols (index_run sha ops) (Some (normalize_path_text p)) name)
         \<longleftrightarrow> has_symbol (index_run sha ops) name d \<and> fst d = normalize_path_text p)"
  using find_symbols_all find_symbols_path index_run_inv assms normalize_idem by (metis sha_len_def)

theorem symbol_lookup_exact_witness:
  "(''a'', \<lparr>sy_name = ''f'', sy_kind = ''fn'', sy_start_line = 1, sy_end_line = 1, sy_signature = ''f''\<rparr>, ''1'')
     \<in> set (find_symbols (index_run (\<lambda>m. replicate 32 0)
          [IInsert (sample_entry ''a'' ''1''
             [\<lparr>sy_name = ''f'', sy_kind = ''fn'', sy_start_line = 1, sy_end_line = 1, sy_signature = ''f''\<rparr>])])
        None ''f'')"
proof -
  let ?s = "\<lparr>sy_name = ''f'', sy_kind = ''fn'', sy_start_line = 1, sy_end_line = 1, sy_signature = ''f''\<rparr>"
  let ?e = "sample_entry ''a'' ''1'' [?s]" and ?sha = "\<lambda>m :: string. replicate 32 0 :: u8 list"
  have q: "qualified_symbol_parts ''f'' = None"
    by (simp add: qualified_symbol_parts_def rfind_def starts_with_def)
  have f: "ci_files (index_run ?sha [IInsert ?e]) = [?e]"
    by (simp add: index_run_def index_insert_files index_default_def)
  have "has_symbol (index_run ?sha [IInsert ?e]) ''f'' (''a'', ?s, ''1'')"
    unfolding has_symbol_def f
    by (simp add: symbol_found_def sample_entry_def entry_with_symbols_def
        symbol_matches_qualified_name_def q)
  then show ?thesis using symbol_lookup_exact [of ?sha] by simp
qed

text \<open>A refresh reports every change it makes: when re-reading any list of paths
  succeeds, each path whose indexed content hash differs afterwards (new, changed or removed)
  is in the list of changed paths it returns.\<close>

theorem refresh_reports_all_changes:
  assumes "refresh_paths env d ci paths = (Inr changed, ci')"
    and "indexed_hash ci' q \<noteq> indexed_hash ci q"
  shows "q \<in> set changed"
  using refresh_loop_changed [OF assms(1) [unfolded refresh_paths_def]] assms(2) by blast

definition sample_scan :: "mem_dir scan_env" where
  "sample_scan = \<lparr>sc_root = ''/w'', sc_ops = mem_ops,
     sc_exclusions = \<lparr>ex_normalized_root = ''/w'', ex_matcher = (\<lambda>_ _. False), ex_canonicalize = Some\<rparr>,
     sc_max_file_bytes = 100, sc_sha = (\<lambda>m. replicate 32 0), sc_extract = (\<lambda>_ _. [])\<rparr>"

lemma sample_relative: "relative_string ''/w'' ''/w/a'' = ''a''" by code_simp

lemma sample_components: "path_components ''a'' = [Normal ''a'']" by code_simp

lemma sample_rel_path: "rel_path_new ''a'' = Inr ''a''"
  by (rule rel_path_new_idem) code_simp

theorem refresh_reports_all_changes_witness:
  "\<exists>ci'. refresh_paths sample_scan \<lparr>mem_files = Map.empty, mem_faults = [], mem_uuids = 0\<rparr>
       (index_insert (sc_sha sample_scan) index_default (sample_entry ''a'' ''1'' [])) [''/w/a'']
     = (Inr [''a''], ci') \<and> indexed_hash ci' ''a'' = None \<and> ''a'' \<in> set [''a'']"
proof -
  let ?ci = "index_insert (sc_sha sample_scan) index_default (sample_entry ''a'' ''1'' [])"
  let ?d = "\<lparr>mem_files = Map.empty, mem_faults = [], mem_uuids = 0\<rparr>"
  let ?ci' = "snd (index_remove_tree (sc_sha sample_scan) ?ci ''a'')"
  have n: "\<not> is_regular_file mem_ops ?d ''a''"
    by (simp add: is_regular_file_def mem_ops_def mem_metadata_def mem_error_def)
  have s: "sc_root sample_scan = ''/w''" "sc_ops sample_scan = mem_ops" by (simp_all add: sample_scan_def)
  have rm: "fst (index_remove_tree (sc_sha sample_scan) ?ci ''a'') = [''a'']"
    by (simp add: index_remove_tree_def Let_def index_insert_files index_default_def sample_entry_def
        entry_with_symbols_def)
  have r: "refresh_paths sample_scan ?d ?ci [''/w/a''] = (Inr [''a''], ?ci')"
    using rm by (simp add: refresh_paths_def refresh_path_def Let_def case_prod_beta s sample_relative sample_rel_path n)
  have h: "indexed_hash ?ci' ''a'' = None" "indexed_hash ?ci ''a'' = Some ''1''"
    by (simp_all add: indexed_hash_def lookup_remove_tree below_def lookup_insert sample_entry_def
        entry_with_symbols_def)
  then show ?thesis using refresh_reports_all_changes [OF r, of "''a''"] r by auto
qed

text \<open>A file that stops being readable as text stays in the index with its old content: a
  refresh of a regular file that now holds a NUL byte succeeds, reports no change and leaves
  the entry that a fresh scan would not contain.\<close>

theorem binary_file_stays_indexed:
  "\<exists>d ci old. is_regular_file (sc_ops sample_scan) d ''a''
     \<and> read_entry sample_scan (\<lambda>_ _. None) d ''/w/a'' = Inr None
     \<and> index_get ci ''a'' = Some old
     \<and> refresh_paths sample_scan d ci [''/w/a''] = (Inr [], ci)"
proof -
  let ?d = "\<lparr>mem_files = [[Normal ''a''] \<mapsto> [CHR 0x00]], mem_faults = [], mem_uuids = 0\<rparr>"
  let ?e = "sample_entry ''a'' ''1'' []"
  let ?ci = "index_insert (sc_sha sample_scan) index_default ?e"
  have s: "sc_root sample_scan = ''/w''" "sc_ops sample_scan = mem_ops" "sc_max_file_bytes sample_scan = 100"
    by (simp_all add: sample_scan_def)
  have reg: "is_regular_file mem_ops ?d ''a''"
    by (simp add: is_regular_file_def mem_ops_def mem_metadata_def sample_components)
  have rf: "read_file mem_ops ?d ''a'' 100 = Inr (Some \<lparr>wf_bytes = [0], wf_size = 1, wf_modified_ns = 0\<rparr>)"
    by (simp add: read_file_def open_regular_def mem_ops_def mem_metadata_def sample_components
        read_bounded_def usize_max_def)
  have re: "read_entry sample_scan (\<lambda>_ _. None) ?d ''/w/a'' = Inr None"
    by (simp add: read_entry_def s sample_relative sample_rel_path rf)
  have get: "index_get ?ci ''a'' = Some ?e"
    by (simp add: index_get_def lookup_insert sample_entry_def entry_with_symbols_def
        rel_path_new_ok [OF sample_rel_path, THEN conjunct2, symmetric])
  have "refresh_paths sample_scan ?d ?ci [''/w/a''] = (Inr [], ?ci)"
    by (simp add: refresh_paths_def refresh_path_def Let_def s sample_relative sample_rel_path reg re)
  with reg re get s show ?thesis by metis
qed

end
