(* ===== verification/Edit_Plan.thy ===== *)
theory Edit_Plan
  imports Code_Index
begin

text \<open>
  Planning an edit: the typed changes (\<open>src/requests/edit.rs\<close>), range handles
  (\<open>src/index/handle.rs\<close>) and the planner of \<open>src/workspace/edit.rs\<close>. Parameters of the
  model, collected in \<open>edit_env\<close>, are the SHA-256 hash, the base64/JSON decoding of a handle's
  payload, and what Tree-sitter reports of a text (its symbols, and whether it has a syntax
  error); the index is the map from a path to its indexed content. The plan is the list of its
  files, one per path.
\<close>

section \<open>Changes\<close>

datatype insert_position = InsertBefore | InsertAfter | InsideStart | InsideEnd

datatype change =
    Create string string bool "string option"
  | Replace string string string nat "string option" "string option"
  | ReplaceRange string string string
  | Insert string string string insert_position "string option"
  | Delete string "string option"
  | Rename string string "string option"

fun change_kind :: "change \<Rightarrow> string" where
  "change_kind (Create _ _ _ _) = ''create''"
| "change_kind (Replace _ _ _ _ _ _) = ''replace''"
| "change_kind (ReplaceRange _ _ _) = ''replace_range''"
| "change_kind (Insert _ _ _ _ _) = ''insert''"
| "change_kind (Delete _ _) = ''delete''"
| "change_kind (Rename _ _ _) = ''rename''"

fun change_path :: "change \<Rightarrow> string" where
  "change_path (Create path _ _ _) = path"
| "change_path (Replace path _ _ _ _ _) = path"
| "change_path (ReplaceRange path _ _) = path"
| "change_path (Insert path _ _ _ _) = path"
| "change_path (Delete path _) = path"
| "change_path (Rename path _ _) = path"

fun change_expected_hash :: "change \<Rightarrow> string option" where
  "change_expected_hash (Create _ _ _ h) = h"
| "change_expected_hash (Replace _ _ _ _ h _) = h"
| "change_expected_hash (Insert _ _ _ _ h) = h"
| "change_expected_hash (Delete _ h) = h"
| "change_expected_hash (Rename _ _ h) = h"
| "change_expected_hash (ReplaceRange _ _ _) = None"

fun change_handle :: "change \<Rightarrow> string option" where
  "change_handle (Replace _ _ _ _ _ h) = h"
| "change_handle (ReplaceRange _ h _) = Some h"
| "change_handle _ = None"

text \<open>\<open>str::trim().is_empty()\<close>: only characters of Unicode's \<open>White_Space\<close>, here
  their UTF-8 bytes.\<close>

fun blank_bytes :: "nat list \<Rightarrow> bool" where
  "blank_bytes [] = True"
| "blank_bytes (a # as) =
     (if a = 32 \<or> (9 \<le> a \<and> a \<le> 13) then blank_bytes as
      else (case as of
              b # bs \<Rightarrow>
                if a = 0xC2 \<and> (b = 0x85 \<or> b = 0xA0) then blank_bytes bs
                else (case bs of
                        c # cs \<Rightarrow>
                          if (a = 0xE1 \<and> b = 0x9A \<and> c = 0x80)
                             \<or> (a = 0xE2 \<and> b = 0x80 \<and> ((0x80 \<le> c \<and> c \<le> 0x8A) \<or> c = 0xA8 \<or> c = 0xA9 \<or> c = 0xAF))
                             \<or> (a = 0xE2 \<and> b = 0x81 \<and> c = 0x9F)
                             \<or> (a = 0xE3 \<and> b = 0x80 \<and> c = 0x80)
                          then blank_bytes cs else False
                      | [] \<Rightarrow> False)
            | [] \<Rightarrow> False))"

definition is_blank :: "string \<Rightarrow> bool" where
  "is_blank s = blank_bytes (map of_char s)"

definition change_validate :: "change \<Rightarrow> app_error + unit" where
  "change_validate c =
     (let required = (''path'', change_path c) #
            (case c of ReplaceRange _ h _ \<Rightarrow> [(''handle'', h)] | _ \<Rightarrow> [])
      in case find (\<lambda>(_, v). is_blank v) required of
           Some (field, _) \<Rightarrow>
             Inl (error_with_details InvalidChangeField
                    (''change field ' '' @ field @ '' ' must be a non-empty string'')
                    (JObj [(''field'', JStr field)]))
         | None \<Rightarrow> Inr ())"

section \<open>Range handles\<close>

record range_handle =
  rh_workspace_id :: string
  rh_path :: string
  rh_start_line :: nat
  rh_end_line :: nat
  rh_content_hash :: string

definition handle_try_from :: "range_handle \<Rightarrow> string + range_handle" where
  "handle_try_from wire =
     (if rh_end_line wire < rh_start_line wire
      then Inl (''range handle start line '' @ show_nat (rh_start_line wire)
                @ '' is after end line '' @ show_nat (rh_end_line wire))
      else if rh_path wire = [] \<or> (case rel_path_new (rh_path wire) of Inl _ \<Rightarrow> True | Inr _ \<Rightarrow> False)
      then Inl ''range handle path must be a workspace-relative path''
      else Inr wire)"

definition encode_handle :: "(range_handle \<Rightarrow> string) \<Rightarrow> range_handle \<Rightarrow> string" where
  "encode_handle payload_encode h = ''range:'' @ payload_encode h"

definition decode_handle ::
    "(string \<Rightarrow> string + range_handle) \<Rightarrow> string \<Rightarrow> app_error + range_handle" where
  "decode_handle payload_decode input =
     (case strip_prefix ''range:'' input of
        None \<Rightarrow> Inl (error_new InvalidHandle ''Unsupported range handle'')
      | Some payload \<Rightarrow>
          (case payload_decode payload of
             Inl m \<Rightarrow> Inl (error_new InvalidHandle m)
           | Inr wire \<Rightarrow>
               (case handle_try_from wire of
                  Inl m \<Rightarrow> Inl (error_new InvalidHandle m)
                | Inr h \<Rightarrow> Inr h)))"

section \<open>The planner\<close>



record edit_env =
  ev_id :: string
  ev_hash :: "string \<Rightarrow> string"
  ev_decode :: "string \<Rightarrow> string + range_handle"
  ev_symbols :: "rel_path \<Rightarrow> string \<Rightarrow> symbol list"
  ev_parse_has_error :: "rel_path \<Rightarrow> string \<Rightarrow> bool option"

text \<open>What the planner reads of the index: the content indexed at a path.\<close>

type_synonym indexed_text = "rel_path \<Rightarrow> string option"

record planned_file =
  pf_path :: rel_path
  pf_before :: "string option"
  pf_before_hash :: "string option"
  pf_after :: "string option"

definition planned_new ::
    "edit_env \<Rightarrow> rel_path \<Rightarrow> string option \<Rightarrow> string option \<Rightarrow> planned_file" where
  "planned_new env path before after =
     \<lparr>pf_path = path, pf_before = before, pf_before_hash = map_option (ev_hash env) before,
      pf_after = after\<rparr>"

definition plan_get :: "planned_file list \<Rightarrow> rel_path \<Rightarrow> planned_file option" where
  "plan_get plan path = find (\<lambda>f. pf_path f = path) plan"

definition put_plan ::
    "edit_env \<Rightarrow> planned_file list \<Rightarrow> rel_path \<Rightarrow> string option \<Rightarrow> string option \<Rightarrow> planned_file list" where
  "put_plan env plan path before after =
     (case plan_get plan path of
        Some _ \<Rightarrow> map (\<lambda>f. if pf_path f = path then f\<lparr>pf_after := after\<rparr> else f) plan
      | None \<Rightarrow> plan @ [planned_new env path before after])"

definition path_error_with ::
    "error_code \<Rightarrow> string \<Rightarrow> string \<Rightarrow> (string \<times> json) list \<Rightarrow> app_error" where
  "path_error_with c m path extra = error_with_details c m (JObj ((''path'', JStr path) # extra))"

definition path_error :: "error_code \<Rightarrow> string \<Rightarrow> string \<Rightarrow> app_error" where
  "path_error c m path = path_error_with c m path []"

definition json_opt_str :: "string option \<Rightarrow> json" where
  "json_opt_str s = (case s of None \<Rightarrow> JNull | Some s \<Rightarrow> JStr s)"

definition count_error ::
    "string \<Rightarrow> string \<Rightarrow> nat \<Rightarrow> (string \<times> json) list \<Rightarrow> nat \<Rightarrow> app_error" where
  "count_error m path expected extra actual =
     path_error_with ExactMatchCount m path
       ([(''expected'', JNum (int expected)), (''actual'', JNum (int actual))] @ extra)"

text \<open>\<open>change.handle().map(decode_handle).transpose()\<close>\<close>

definition edit_handle :: "edit_env \<Rightarrow> change \<Rightarrow> app_error + range_handle option" where
  "edit_handle env c =
     (case change_handle c of
        None \<Rightarrow> Inr None
      | Some t \<Rightarrow> (case decode_handle (ev_decode env) t of Inl e \<Rightarrow> Inl e | Inr h \<Rightarrow> Inr (Some h)))"

definition handle_matches :: "edit_env \<Rightarrow> string \<Rightarrow> range_handle option \<Rightarrow> bool" where
  "handle_matches env path h =
     (case h of None \<Rightarrow> True
      | Some h \<Rightarrow> rh_workspace_id h = ev_id env \<and> rh_path h = path)"

definition handle_mismatch :: app_error where
  "handle_mismatch = error_new InvalidHandle ''Edit handle does not match workspace/path''"

subsection \<open>Overlap preflight\<close>

definition ambiguous_handle_paths :: "change list \<Rightarrow> string list" where
  "ambiguous_handle_paths changes =
     (let paths = map (\<lambda>c. normalize_path_text (change_path c)) changes
      in filter (\<lambda>p. 1 < count_list paths p)
           (map (\<lambda>c. normalize_path_text (change_path c)) (filter (\<lambda>c. change_handle c \<noteq> None) changes)))"

type_synonym byte_range = "nat \<times> nat"

definition ranges_overlap :: "byte_range \<Rightarrow> byte_range \<Rightarrow> bool" where
  "ranges_overlap a b \<longleftrightarrow> fst a < snd b \<and> fst b < snd a"

definition add_ranges :: "string \<Rightarrow> byte_range list \<Rightarrow> byte_range list \<Rightarrow> app_error + byte_range list" where
  "add_ranges path existing found =
     fold_res (\<lambda>ex r. if \<exists>o1 \<in> set ex. ranges_overlap r o1
                      then Inl (path_error OverlappingEdits ''Two exact edits overlap'' path)
                      else Inr (ex @ [r])) existing found"

text \<open>The byte ranges one change replaces in the indexed content.\<close>

definition change_ranges ::
    "edit_env \<Rightarrow> indexed_text \<Rightarrow> change \<Rightarrow> app_error + byte_range list" where
  "change_ranges env index c =
     (let path = normalize_path_text (change_path c);
          exact = (case c of Replace _ old _ expected _ _ \<Rightarrow> Some (old, expected) | _ \<Rightarrow> None)
      in case index path of
           None \<Rightarrow> Inl (path_error PathNotIndexed ''Replace path is not indexed'' path)
         | Some content \<Rightarrow>
             (case edit_handle env c of
                Inl e \<Rightarrow> Inl e
              | Inr h \<Rightarrow>
                  if \<not> handle_matches env path h then Inl handle_mismatch
                  else (case (case h of
                                None \<Rightarrow> Inr (0, length content)
                              | Some h \<Rightarrow> line_range_bytes content (rh_start_line h) (rh_end_line h)) of
                          Inl e \<Rightarrow> Inl e
                        | Inr (base, stop) \<Rightarrow>
                            let selected = take (stop - base) (drop base content)
                            in (case exact of
                                  None \<Rightarrow> Inr [(base, base + length selected)]
                                | Some (old, expected) \<Rightarrow>
                                    (case matching_old_text content selected old expected of
                                       (old', actual) \<Rightarrow>
                                         if actual \<noteq> expected
                                         then Inl (count_error ''Exact replacement count did not match''
                                                     path expected [] actual)
                                         else Inr (map (\<lambda>s. (base + s, base + s + length old'))
                                                     (match_indices selected old')))))))"

definition preflight_change ::
    "edit_env \<Rightarrow> indexed_text \<Rightarrow> (string \<Rightarrow> byte_range list) \<Rightarrow> change
     \<Rightarrow> app_error + (string \<Rightarrow> byte_range list)" where
  "preflight_change env index ranges c =
     (let path = normalize_path_text (change_path c) in
      if (case c of Replace _ _ _ _ _ _ \<Rightarrow> True | ReplaceRange _ _ _ \<Rightarrow> True | _ \<Rightarrow> False)
      then (case change_ranges env index c of
              Inl e \<Rightarrow> Inl e
            | Inr found \<Rightarrow>
                (case add_ranges path (ranges path) found of
                   Inl e \<Rightarrow> Inl e
                 | Inr all \<Rightarrow> Inr (ranges(path := all))))
      else Inr ranges)"

definition preflight_ranges ::
    "edit_env \<Rightarrow> indexed_text \<Rightarrow> change list \<Rightarrow> app_error + (string \<Rightarrow> byte_range list)" where
  "preflight_ranges env index changes =
     (case ambiguous_handle_paths changes of
        path # _ \<Rightarrow>
          Inl (path_error_with AmbiguousHandleEditOrder
                 ''A handle-based edit must be the only change for its file in one transaction'' path
                 [(''guidance'', JStr ''Use one replace_range for the complete fetched range, or use exact replacements without handles.'')])
      | [] \<Rightarrow> fold_res (preflight_change env index) (\<lambda>_. []) changes)"

definition preflight_overlaps :: "edit_env \<Rightarrow> indexed_text \<Rightarrow> change list \<Rightarrow> app_error + unit" where
  "preflight_overlaps env index changes = map_sum id (\<lambda>_. ()) (preflight_ranges env index changes)"

subsection \<open>Planning one change\<close>

definition replace_between :: "string \<Rightarrow> nat \<Rightarrow> nat \<Rightarrow> string \<Rightarrow> string" where
  "replace_between s a b r = take a s @ r @ drop b s"

definition insert_line :: "insert_position \<Rightarrow> symbol \<Rightarrow> nat" where
  "insert_line position sm = (case position of
     InsertBefore \<Rightarrow> sy_start_line sm
   | InsertAfter \<Rightarrow> sy_end_line sm + 1
   | InsideStart \<Rightarrow> sy_start_line sm + 1
   | InsideEnd \<Rightarrow> sy_end_line sm)"

text \<open>The new content of a replacement within \<open>start..stop\<close> of the current content;
  \<open>mismatch\<close> builds the error from the number of matches found.\<close>

definition replace_exact ::
    "(nat \<Rightarrow> app_error) \<Rightarrow> string \<Rightarrow> string \<Rightarrow> string \<Rightarrow> nat \<Rightarrow> nat \<Rightarrow> nat \<Rightarrow> app_error + string" where
  "replace_exact mismatch current old new expected start stop =
     (let selected = take (stop - start) (drop start current) in
      case matching_old_text current selected old expected of
        (old', actual) \<Rightarrow>
          if actual \<noteq> expected
          then Inl (mismatch actual)
          else Inr (replace_between current start stop
                 (replacen selected old' (preserve_terminal_line_ending old' new) expected)))"

definition plan_body ::
    "edit_env \<Rightarrow> planned_file list \<Rightarrow> indexed_text \<Rightarrow> rel_path \<Rightarrow> string option \<Rightarrow> range_handle option
     \<Rightarrow> change \<Rightarrow> app_error + planned_file list" where
  "plan_body env plan index path before h c =
     (case c of
        Replace _ old new_input expected _ _ \<Rightarrow>
          (case before of
             None \<Rightarrow> Inl (path_error PathNotFound ''Replace path does not exist'' path)
           | Some current \<Rightarrow>
               let new = normalize_line_endings_for_content current new_input in
               (case (case h of
                        Some h \<Rightarrow>
                          (case line_range_bytes current (rh_start_line h) (rh_end_line h) of
                             Inl e \<Rightarrow> Inl e
                           | Inr (start, stop) \<Rightarrow>
                               replace_exact
                                 (count_error ''Exact replacement count did not match the provenance range''
                                    path expected [(''start_line'', JNum (int (rh_start_line h))),
                                                   (''end_line'', JNum (int (rh_end_line h)))])
                                 current old new expected start stop)
                      | None \<Rightarrow>
                          replace_exact
                            (count_error ''Exact replacement count did not match current planned content''
                               path expected [])
                            current old new expected 0 (length current)) of
                  Inl e \<Rightarrow> Inl e
                | Inr after \<Rightarrow> Inr (put_plan env plan path (Some current) (Some after))))
      | ReplaceRange _ _ new_input \<Rightarrow>
          (case h of
             None \<Rightarrow> Inl (error_new MissingHandle
                       ''replace_range requires a fresh code_retrieve range handle'')
           | Some h \<Rightarrow>
               (case before of
                  None \<Rightarrow> Inl (path_error PathNotFound ''Replace path does not exist'' path)
                | Some current \<Rightarrow>
                    let new = normalize_line_endings_for_content current new_input in
                    (case line_range_bytes current (rh_start_line h) (rh_end_line h) of
                       Inl e \<Rightarrow> Inl e
                     | Inr (start, stop) \<Rightarrow>
                         let selected = take (stop - start) (drop start current);
                             after = replace_between current start stop
                                       (preserve_terminal_line_ending selected new)
                         in Inr (put_plan env plan path (Some current) (Some after)))))
      | Insert _ insert_input symbol_name position _ \<Rightarrow>
          (case before of
             None \<Rightarrow> Inl (error_new PathNotFound ''Insert path does not exist'')
           | Some current \<Rightarrow>
               let ins = normalize_line_endings_for_content current insert_input in
               (case find (\<lambda>s. sy_name s = symbol_name) (ev_symbols env path current) of
                  None \<Rightarrow>
                    Inl (path_error_with SymbolNotFound
                           ''Anchor symbol not found in current planned content'' path
                           [(''symbol'', JStr symbol_name)])
                | Some sm \<Rightarrow>
                    let offset = line_offset current (insert_line position sm)
                    in Inr (put_plan env plan path (Some current)
                              (Some (replace_between current offset offset ins)))))
      | Create _ content overwrite _ \<Rightarrow>
          if before \<noteq> None \<and> \<not> overwrite
          then Inl (path_error PathExists ''Create target already exists'' path)
          else let new = (case before of
                            Some current \<Rightarrow> normalize_line_endings_for_content current content
                          | None \<Rightarrow> content)
               in Inr (put_plan env plan path before (Some new))
      | Delete _ _ \<Rightarrow>
          (case before of
             None \<Rightarrow> Inl (error_new PathNotFound ''Delete target does not exist'')
           | Some current \<Rightarrow> Inr (put_plan env plan path (Some current) None))
      | Rename _ to _ \<Rightarrow>
          (case rel_path_new to of
             Inl e \<Rightarrow> Inl e
           | Inr target \<Rightarrow>
               (case before of
                  None \<Rightarrow> Inl (error_new PathNotFound ''Rename source does not exist'')
                | Some current \<Rightarrow>
                    if Option.bind (plan_get plan target) pf_after \<noteq> None \<or> index target \<noteq> None
                    then Inl (path_error PathExists ''Rename target already exists'' target)
                    else Inr (put_plan env (put_plan env plan path (Some current) None)
                                target None (Some current)))))"

definition plan_before :: "planned_file list \<Rightarrow> indexed_text \<Rightarrow> rel_path \<Rightarrow> string option" where
  "plan_before plan index path =
     (case plan_get plan path of Some f \<Rightarrow> pf_after f | None \<Rightarrow> index path)"

definition plan_original_hash :: "edit_env \<Rightarrow> planned_file list \<Rightarrow> indexed_text \<Rightarrow> rel_path \<Rightarrow> string option" where
  "plan_original_hash env plan index path =
     (case Option.bind (plan_get plan path) pf_before_hash of
        Some h \<Rightarrow> Some h
      | None \<Rightarrow> map_option (ev_hash env) (plan_before plan index path))"

text \<open>\<open>expected_hash.or(handle_hash)\<close>\<close>

definition guard_hash :: "change \<Rightarrow> range_handle option \<Rightarrow> string option" where
  "guard_hash c h =
     (case change_expected_hash c of
        Some e \<Rightarrow> Some e
      | None \<Rightarrow> map_option rh_content_hash h)"

definition is_create :: "change \<Rightarrow> bool" where
  "is_create c = (case c of Create _ _ _ _ \<Rightarrow> True | _ \<Rightarrow> False)"

definition plan_change ::
    "edit_env \<Rightarrow> bool \<Rightarrow> indexed_text \<Rightarrow> planned_file list \<Rightarrow> change \<Rightarrow> app_error + planned_file list" where
  "plan_change env has_snapshot index plan c =
     (case rel_path_new (change_path c) of
        Inl e \<Rightarrow> Inl e
      | Inr path \<Rightarrow>
          (case edit_handle env c of
             Inl e \<Rightarrow> Inl e
           | Inr h \<Rightarrow>
               if \<not> handle_matches env path h then Inl handle_mismatch
               else
                 let before = plan_before plan index path;
                     original_hash = plan_original_hash env plan index path;
                     edits_existing_file = (\<not> is_create c \<or> before \<noteq> None)
                 in if edits_existing_file \<and> \<not> has_snapshot \<and> guard_hash c h = None
                    then Inl (path_error MissingPrecondition
                           ''Existing-file edits require snapshot_id, expected_hash, or handle'' path)
                    else if guard_hash c h \<noteq> None \<and> original_hash \<noteq> guard_hash c h
                    then Inl (path_error_with StaleFile ''File hash precondition failed'' path
                                [(''expected_hash'', json_opt_str (guard_hash c h)),
                                 (''actual_hash'', json_opt_str original_hash)])
                    else plan_body env plan index path before h c))"

definition plan_changes ::
    "edit_env \<Rightarrow> bool \<Rightarrow> indexed_text \<Rightarrow> change list \<Rightarrow> app_error + planned_file list" where
  "plan_changes env has_snapshot index changes = fold_res (plan_change env has_snapshot index) [] changes"

section \<open>Lemmas\<close>

lemma plan_get_Some: "plan_get plan p = Some f \<Longrightarrow> f \<in> set plan \<and> pf_path f = p"
  by (auto simp: plan_get_def find_Some_iff)

lemma plan_get_None: "plan_get plan p = None \<longleftrightarrow> p \<notin> pf_path ` set plan"
  by (auto simp: plan_get_def find_None_iff)

lemma plan_get_mem: "distinct (map pf_path plan) \<Longrightarrow> f \<in> set plan \<Longrightarrow> plan_get plan (pf_path f) = Some f"
proof (induction plan)
  case (Cons g plan)
  then show ?case by (auto simp: plan_get_def)
qed simp

lemma put_plan_paths:
  "map pf_path (put_plan env plan p before after)
     = (if plan_get plan p = None then map pf_path plan @ [p] else map pf_path plan)"
  by (auto simp: put_plan_def planned_new_def split: option.splits)

text \<open>An entry of the plan keeps what the index held when the path was first planned.\<close>

definition plan_ok :: "edit_env \<Rightarrow> indexed_text \<Rightarrow> planned_file list \<Rightarrow> bool" where
  "plan_ok env index plan \<longleftrightarrow>
     distinct (map pf_path plan)
     \<and> (\<forall>f \<in> set plan. pf_before f = index (pf_path f)
          \<and> pf_before_hash f = map_option (ev_hash env) (pf_before f))"

lemma put_plan_ok:
  assumes "plan_ok env index plan" "plan_get plan p = None \<Longrightarrow> before = index p"
  shows "plan_ok env index (put_plan env plan p before after)"
proof (cases "plan_get plan p")
  case None
  then have "p \<notin> pf_path ` set plan" by (simp add: plan_get_None)
  with None assms show ?thesis by (auto simp: plan_ok_def put_plan_def planned_new_def)
next
  case (Some f)
  have "distinct (map pf_path (put_plan env plan p before after))"
    using assms Some by (auto simp: put_plan_paths plan_ok_def)
  then show ?thesis using assms Some by (auto simp: plan_ok_def put_plan_def)
qed

lemma plan_before_index: "plan_get plan p = None \<Longrightarrow> plan_before plan index p = index p"
  by (simp add: plan_before_def)

text \<open>What one change does to the plan: one entry, or two for a rename.\<close>

lemma plan_body_shape:
  assumes "plan_body env plan index p before h c = Inr plan'"
  shows "(\<exists>b a. plan' = put_plan env plan p b a \<and> b = before)
    \<or> (\<exists>q cur. plan' = put_plan env (put_plan env plan p (Some cur) None) q None (Some cur)
        \<and> before = Some cur \<and> index q = None \<and> Option.bind (plan_get plan q) pf_after = None)"
  using assms
  by (cases c; cases before; simp add: plan_body_def Let_def
      split: option.splits sum.splits if_splits prod.splits; fastforce)

lemma plan_body_ok:
  assumes "plan_body env plan index p (plan_before plan index p) h c = Inr plan'" "plan_ok env index plan"
  shows "plan_ok env index plan'"
  using plan_body_shape [OF assms(1)]
proof (elim disjE exE conjE)
  fix b a
  assume "plan' = put_plan env plan p b a" "b = plan_before plan index p"
  then show ?thesis using put_plan_ok [OF assms(2), of p b a] plan_before_index by simp
next
  fix q cur
  assume 1: "plan' = put_plan env (put_plan env plan p (Some cur) None) q None (Some cur)"
    "plan_before plan index p = Some cur" "index q = None"
  have "plan_ok env index (put_plan env plan p (Some cur) None)"
    using put_plan_ok [OF assms(2), of p "Some cur" None] 1(2) plan_before_index [of plan p index] by simp
  then show ?thesis using put_plan_ok [of env index _ q None "Some cur"] 1 by simp
qed

lemma plan_changeD:
  assumes "plan_change env has_snapshot index plan c = Inr plan'"
  obtains path h where "rel_path_new (change_path c) = Inr path" "edit_handle env c = Inr h"
    "handle_matches env path h"
    "(\<not> is_create c \<or> plan_before plan index path \<noteq> None) \<Longrightarrow> \<not> has_snapshot \<Longrightarrow> guard_hash c h \<noteq> None"
    "guard_hash c h = None \<or> plan_original_hash env plan index path = guard_hash c h"
    "plan_body env plan index path (plan_before plan index path) h c = Inr plan'"
proof -
  obtain path where p: "rel_path_new (change_path c) = Inr path"
    using assms by (auto simp: plan_change_def split: sum.splits)
  obtain h where h: "edit_handle env c = Inr h"
    using assms p by (auto simp: plan_change_def split: sum.splits)
  note a = assms [unfolded plan_change_def p h sum.case Let_def]
  show thesis
    by (rule that [OF p h]) (use a in \<open>auto split: if_splits\<close>)
qed

lemma plan_change_ok:
  "plan_change env has_snapshot index plan c = Inr plan' \<Longrightarrow> plan_ok env index plan \<Longrightarrow>
     plan_ok env index plan'"
  by (erule plan_changeD) (rule plan_body_ok)

lemma plan_changes_ok: "plan_changes env has_snapshot index changes = Inr plan \<Longrightarrow> plan_ok env index plan"
  unfolding plan_changes_def
proof (erule fold_res_inv)
  show "plan_ok env index []" by (simp add: plan_ok_def)
qed (rule plan_change_ok)

text \<open>The guard of the first change that touches an existing file survives planning.\<close>

definition guarded :: "edit_env \<Rightarrow> change list \<Rightarrow> planned_file \<Rightarrow> bool" where
  "guarded env changes f \<longleftrightarrow>
     (case pf_before f of
        None \<Rightarrow> True
      | Some content \<Rightarrow>
          list_ex (\<lambda>c. rel_path_new (change_path c) = Inr (pf_path f)
             \<and> (case edit_handle env c of
                  Inl _ \<Rightarrow> False
                | Inr h \<Rightarrow> guard_hash c h = Some (ev_hash env content))) changes)"

lemma guarded_mono: "guarded env cs f \<Longrightarrow> guarded env (cs @ ds) f"
  by (auto simp: guarded_def split: option.splits)

lemma guarded_cong: "pf_path f = pf_path g \<Longrightarrow> pf_before f = pf_before g \<Longrightarrow> guarded env cs f = guarded env cs g"
  by (cases "pf_before g") (simp_all add: guarded_def)

lemma put_plan_guarded:
  assumes "\<forall>f \<in> set plan. guarded env cs f"
    and "plan_get plan p = None \<Longrightarrow> guarded env cs (planned_new env p before after)"
  shows "\<forall>f \<in> set (put_plan env plan p before after). guarded env cs f"
proof (cases "plan_get plan p")
  case None
  with assms show ?thesis by (simp add: put_plan_def)
next
  case (Some f)
  have "guarded env cs (g\<lparr>pf_after := after\<rparr>) = guarded env cs g" for g
    by (rule guarded_cong) simp_all
  with assms(1) Some show ?thesis by (auto simp: put_plan_def)
qed

lemma plan_original_hash_fresh:
  "plan_get plan p = None \<Longrightarrow> plan_original_hash env plan index p = map_option (ev_hash env) (index p)"
  by (simp add: plan_original_hash_def plan_before_def)

lemma plan_change_guarded:
  assumes pc: "plan_change env False index plan c = Inr plan'"
    and all: "\<forall>f \<in> set plan. guarded env cs f"
  shows "\<forall>f \<in> set plan'. guarded env (cs @ [c]) f"
proof -
  from pc obtain path h where r: "rel_path_new (change_path c) = Inr path"
    and h: "edit_handle env c = Inr h"
    and g: "(\<not> is_create c \<or> plan_before plan index path \<noteq> None) \<Longrightarrow> \<not> False \<Longrightarrow> guard_hash c h \<noteq> None"
    and e: "guard_hash c h = None \<or> plan_original_hash env plan index path = guard_hash c h"
    and b: "plan_body env plan index path (plan_before plan index path) h c = Inr plan'"
    by (elim plan_changeD) blast
  have all': "\<forall>f \<in> set plan. guarded env (cs @ [c]) f" using all guarded_mono by blast
  have new: "guarded env (cs @ [c]) (planned_new env path (plan_before plan index path) after)"
    if "plan_get plan path = None" for after
  proof (cases "index path")
    case None
    then show ?thesis using that by (simp add: guarded_def planned_new_def plan_before_def)
  next
    case (Some content)
    then have "guard_hash c h = Some (ev_hash env content)"
      using g e that by (auto simp: plan_original_hash_fresh plan_before_def)
    then show ?thesis using that Some r h by (simp add: guarded_def planned_new_def plan_before_def)
  qed
  from plan_body_shape [OF b] show ?thesis
  proof (elim disjE exE conjE)
    fix b' a
    assume "plan' = put_plan env plan path b' a" "b' = plan_before plan index path"
    then show ?thesis using put_plan_guarded [OF all' new] by simp
  next
    fix q cur
    assume 1: "plan' = put_plan env (put_plan env plan path (Some cur) None) q None (Some cur)"
      "plan_before plan index path = Some cur"
    have "\<forall>f \<in> set (put_plan env plan path (Some cur) None). guarded env (cs @ [c]) f"
      using put_plan_guarded [OF all' new] 1(2) by simp
    then show ?thesis unfolding 1 by (rule put_plan_guarded) (simp add: guarded_def planned_new_def)
  qed
qed

lemma plan_changes_guarded:
  "fold_res (plan_change env False index) [] changes = Inr plan \<Longrightarrow> \<forall>f \<in> set plan. guarded env changes f"
proof (induction changes arbitrary: plan rule: rev_induct)
  case (snoc c cs)
  then obtain plan1 where 1: "fold_res (plan_change env False index) [] cs = Inr plan1"
    "plan_change env False index plan1 c = Inr plan"
    by (auto simp: fold_res_append split: sum.splits)
  show ?case by (rule plan_change_guarded [OF 1(2) snoc.IH [OF 1(1)]])
qed simp

text \<open>Accepted ranges of a file are pairwise disjoint.\<close>

definition disjoint_ranges :: "byte_range list \<Rightarrow> bool" where
  "disjoint_ranges rs \<longleftrightarrow> sorted_wrt (\<lambda>a b. \<not> ranges_overlap a b) rs"

lemma ranges_overlap_commute: "ranges_overlap a b \<longleftrightarrow> ranges_overlap b a"
  by (auto simp: ranges_overlap_def)

lemma add_ranges_disjoint:
  "add_ranges path existing found = Inr all \<Longrightarrow> disjoint_ranges existing \<Longrightarrow> disjoint_ranges all"
  unfolding add_ranges_def
  by (erule fold_res_inv [where P = disjoint_ranges])
    (auto simp: disjoint_ranges_def sorted_wrt_append ranges_overlap_commute split: if_splits)

lemma preflight_change_disjoint:
  "preflight_change env index ranges c = Inr ranges' \<Longrightarrow> \<forall>p. disjoint_ranges (ranges p) \<Longrightarrow>
     \<forall>p. disjoint_ranges (ranges' p)"
  using add_ranges_disjoint
  by (auto simp: preflight_change_def Let_def split: if_splits sum.splits)

lemma preflight_ranges_disjoint:
  "preflight_ranges env index changes = Inr ranges \<Longrightarrow> \<forall>p. disjoint_ranges (ranges p)"
proof -
  assume "preflight_ranges env index changes = Inr ranges"
  then have "fold_res (preflight_change env index) (\<lambda>_. []) changes = Inr ranges"
    by (auto simp: preflight_ranges_def split: list.splits)
  then show ?thesis
  proof (rule fold_res_inv)
    show "\<forall>p. disjoint_ranges []" by (simp add: disjoint_ranges_def)
  qed (rule preflight_change_disjoint)
qed

text \<open>What the ranges recorded for a change are to be, read from the content and the change.\<close>

definition is_exact :: "change \<Rightarrow> bool" where
  "is_exact c \<longleftrightarrow> (case c of Replace _ _ _ _ _ _ \<Rightarrow> True | ReplaceRange _ _ _ \<Rightarrow> True | _ \<Rightarrow> False)"

text \<open>The ranges of the matches of \<open>old\<close> between two offsets: each spells \<open>old\<close>, and an occurrence of a
  non-empty \<open>old\<close> that is none of them begins inside one of them.\<close>

definition all_matches :: "string \<Rightarrow> nat \<Rightarrow> nat \<Rightarrow> string \<Rightarrow> byte_range list \<Rightarrow> bool" where
  "all_matches content base stop old rs \<longleftrightarrow>
     (\<forall>(a, b) \<in> set rs. base \<le> a \<and> b = a + length old \<and> b \<le> stop \<and> starts_with (drop a content) old)
   \<and> (old \<noteq> [] \<longrightarrow> (\<forall>k. base \<le> k \<and> k + length old \<le> stop \<and> starts_with (drop k content) old \<longrightarrow>
        (\<exists>(a, b) \<in> set rs. a \<le> k \<and> k < b)))"

text \<open>The region of a change: the lines of its handle, or the whole content.\<close>

definition change_region :: "edit_env \<Rightarrow> change \<Rightarrow> string \<Rightarrow> (nat \<times> nat) option" where
  "change_region env c content =
     (case edit_handle env c of
        Inr None \<Rightarrow> Some (0, length content)
      | Inr (Some h) \<Rightarrow>
          (case line_range_bytes content (rh_start_line h) (rh_end_line h) of Inr (s, e) \<Rightarrow> Some (s, max s e) | Inl _ \<Rightarrow> None)
      | Inl _ \<Rightarrow> None)"

definition touches_exactly :: "edit_env \<Rightarrow> indexed_text \<Rightarrow> change \<Rightarrow> byte_range list \<Rightarrow> bool" where
  "touches_exactly env index c rs \<longleftrightarrow>
     (case index (normalize_path_text (change_path c)) of
        None \<Rightarrow> False
      | Some content \<Rightarrow>
          (case change_region env c content of
             None \<Rightarrow> False
           | Some (base, stop) \<Rightarrow>
               (case c of
                  Replace _ old _ expected _ _ \<Rightarrow>
                    length rs = expected
                    \<and> (all_matches content base stop old rs
                       \<or> all_matches content base stop (normalize_line_endings_for_content content old) rs)
                | _ \<Rightarrow> rs = [(base, stop)])))"

lemma all_matches_indices:
  assumes "base \<le> stop" "stop \<le> length content"
  shows "all_matches content base stop old
     (map (\<lambda>s. (base + s, base + s + length old)) (match_indices (take (stop - base) (drop base content)) old))"
proof -
  let ?sel = "take (stop - base) (drop base content)"
  have len: "length ?sel = stop - base" using assms by simp
  have at: "starts_with (drop k ?sel) old \<longleftrightarrow> k + length old \<le> stop - base \<and> starts_with (drop (base + k) content) old"
    if "k \<le> stop - base" for k
  proof -
    have "take (length old) (drop k ?sel) = take (length old) (drop (base + k) content)"
      if "k + length old \<le> stop - base"
      using that by (simp add: drop_take min_def add.commute)
    moreover have "k + length old \<le> stop - base" if "take (length old) (drop k ?sel) = old"
      using arg_cong [OF that, of length] len \<open>k \<le> stop - base\<close> by simp
    ultimately show ?thesis by (auto simp: starts_with_take)
  qed
  show ?thesis
    unfolding all_matches_def
  proof (intro conjI ballI impI allI)
    fix x assume "x \<in> set (map (\<lambda>s. (base + s, base + s + length old)) (match_indices ?sel old))"
    then obtain q where x: "x = (base + q, base + q + length old)" and q: "q \<in> set (match_indices ?sel old)" by auto
    from match_from_bounds [OF q [unfolded match_indices_def]] len
    have "q + length old \<le> stop - base" "starts_with (drop q ?sel) old" by auto
    with at [of q] assms show "case x of (a, b) \<Rightarrow> base \<le> a \<and> b = a + length old \<and> b \<le> stop \<and> starts_with (drop a content) old"
      by (simp add: x)
  next
    fix k assume old: "old \<noteq> []" and k: "base \<le> k \<and> k + length old \<le> stop \<and> starts_with (drop k content) old"
    then have "k - base \<le> stop - base" "k - base + length old \<le> stop - base" "base + (k - base) = k" by auto
    with k have "starts_with (drop (k - base) ?sel) old" using at [of "k - base"] by simp
    from match_from_hits [OF old this, of 0] obtain q where
      "q \<in> set (match_indices ?sel old)" "q \<le> k - base" "k - base < q + length old" by (auto simp: match_indices_def)
    with k show "\<exists>(a, b) \<in> set (map (\<lambda>s. (base + s, base + s + length old)) (match_indices ?sel old)). a \<le> k \<and> k < b"
      by (intro bexI [of _ "(base + q, base + q + length old)"]) auto
  qed
qed

lemma change_ranges_exact:
  assumes "change_ranges env index c = Inr rs" "is_exact c"
  shows "touches_exactly env index c rs"
proof -
  from assms(1) obtain content h where i: "index (normalize_path_text (change_path c)) = Some content"
    and h: "edit_handle env c = Inr h"
    by (auto simp: change_ranges_def Let_def split: option.splits sum.splits)
  define found where "found = (case h of None \<Rightarrow> Inr (0, length content)
      | Some h \<Rightarrow> line_range_bytes content (rh_start_line h) (rh_end_line h))"
  from assms(1) i h obtain base stop where f: "found = Inr (base, stop)"
    by (auto simp: change_ranges_def Let_def found_def split: sum.splits if_splits)
  let ?sel = "take (stop - base) (drop base content)"
  have b: "base \<le> length content" "stop \<le> length content"
    using f by (auto simp: found_def line_range_bytes_def split: option.splits if_splits)
  have r: "change_region env c content = Some (base, max base stop)"
    using f h by (auto simp: change_region_def found_def split: option.splits)
  have sel: "?sel = take (max base stop - base) (drop base content)" "base + length ?sel = max base stop"
    using b by (auto simp: max_def)
  have m: "all_matches content base (max base stop) old
      (map (\<lambda>s. (base + s, base + s + length old)) (match_indices ?sel old))" for old
    unfolding sel(1) by (rule all_matches_indices) (use b in auto)
  show ?thesis
  proof (cases c)
    case (Replace path old new expected hash handle)
    let ?old = "fst (matching_old_text content ?sel old expected)"
    have o: "?old = old \<or> ?old = normalize_line_endings_for_content content old"
      "snd (matching_old_text content ?sel old expected) = length (match_indices ?sel ?old)"
      by (auto simp: matching_old_text_def Let_def)
    from assms(1) i h f Replace have "rs = map (\<lambda>s. (base + s, base + s + length ?old)) (match_indices ?sel ?old)"
      "snd (matching_old_text content ?sel old expected) = expected"
      by (auto simp: change_ranges_def Let_def found_def [symmetric] split: if_splits prod.splits)
    with m [of ?old] o show ?thesis using i r Replace by (auto simp: touches_exactly_def)
  next
    case (ReplaceRange path handle new)
    from assms(1) i h f ReplaceRange have "rs = [(base, base + length ?sel)]"
      by (auto simp: change_ranges_def Let_def found_def [symmetric] split: if_splits)
    then show ?thesis using i r ReplaceRange sel by (simp add: touches_exactly_def)
  qed (use assms(2) in \<open>simp_all add: is_exact_def\<close>)
qed

text \<open>The ranges recorded for a path are those of the exact edits to it, in order.\<close>

definition exact_at :: "string \<Rightarrow> change \<Rightarrow> bool" where
  "exact_at path c \<longleftrightarrow> is_exact c \<and> normalize_path_text (change_path c) = path"

lemma add_ranges_append: "add_ranges path existing found = Inr all \<Longrightarrow> all = existing @ found"
  unfolding add_ranges_def
proof (induction found arbitrary: existing)
  case (Cons r found)
  from Cons.prems Cons.IH [of "existing @ [r]"] show ?case by (simp split: if_splits)
qed simp

lemma preflight_change_ranges:
  assumes "preflight_change env index ranges c = Inr ranges'"
  shows "\<exists>rs. (is_exact c \<longrightarrow> change_ranges env index c = Inr rs)
     \<and> (\<forall>path. ranges' path = ranges path @ (if exact_at path c then rs else []))"
  using assms
  by (auto simp: preflight_change_def exact_at_def is_exact_def Let_def dest: add_ranges_append split: sum.splits change.splits if_splits)

lemma preflight_fold_ranges:
  "fold_res (preflight_change env index) ranges changes = Inr ranges' \<Longrightarrow>
     \<exists>rss. list_all2 (\<lambda>c rs. is_exact c \<longrightarrow> touches_exactly env index c rs) changes rss
       \<and> (\<forall>path. ranges' path = ranges path
            @ concat (map snd (filter (\<lambda>(c, rs). exact_at path c) (zip changes rss))))"
proof (induction changes arbitrary: ranges)
  case (Cons c changes)
  then obtain ranges1 where 1: "preflight_change env index ranges c = Inr ranges1"
    "fold_res (preflight_change env index) ranges1 changes = Inr ranges'"
    by (auto split: sum.splits)
  obtain rs where rs: "is_exact c \<longrightarrow> change_ranges env index c = Inr rs"
    "\<forall>path. ranges1 path = ranges path @ (if exact_at path c then rs else [])"
    using preflight_change_ranges [OF 1(1)] by blast
  obtain rss where "list_all2 (\<lambda>c rs. is_exact c \<longrightarrow> touches_exactly env index c rs) changes rss"
    "\<forall>path. ranges' path = ranges1 path @ concat (map snd (filter (\<lambda>(c, rs). exact_at path c) (zip changes rss)))"
    using Cons.IH [OF 1(2)] by blast
  with rs change_ranges_exact show ?case by (intro exI [of _ "rs # rss"]) auto
qed simp

lemma preflight_ranges_exact:
  assumes "preflight_ranges env index changes = Inr ranges"
  shows "\<exists>rss. list_all2 (\<lambda>c rs. is_exact c \<longrightarrow> touches_exactly env index c rs) changes rss
     \<and> (\<forall>path. ranges path = concat (map snd (filter (\<lambda>(c, rs). exact_at path c) (zip changes rss))))"
  using preflight_fold_ranges [of env index "\<lambda>_. []" changes ranges] assms
  by (auto simp: preflight_ranges_def split: list.splits)

text \<open>Replacing \<open>n\<close> matches keeps the text around them.\<close>

lemma replacen_parts:
  "n \<le> length (match_from pos s pat) \<Longrightarrow>
     \<exists>parts. length parts = Suc n \<and> s = join_with pat parts \<and> replacen s pat rep n = join_with rep parts"
proof (induction s pat rep n arbitrary: pos rule: replacen.induct)
  case (1 s pat rep n)
  have cons_part: "\<exists>parts. length parts = Suc k \<and> c # cs = join_with p parts \<and> c # ds = join_with r parts"
    if "\<exists>parts. length parts = Suc k \<and> cs = join_with p parts \<and> ds = join_with r parts"
    for c :: char and cs ds k p r
  proof -
    from that obtain q qs where "length qs = k" "cs = join_with p (q # qs)" "ds = join_with r (q # qs)"
      by (metis length_Suc_conv)
    then show ?thesis by (intro exI [of _ "(c # q) # qs"]) (cases qs; simp)
  qed
  show ?case
  proof (cases "n = 0")
    case True
    then show ?thesis by (intro exI [of _ "[s]"]) (simp add: replacen.simps)
  next
    case n: False
    show ?thesis
    proof (cases s)
      case Nil
      with 1 n show ?thesis
        by (intro exI [of _ "[[], []]"]) (auto simp: replacen.simps match_from.simps split: if_splits)
    next
      case (Cons c cs)
      show ?thesis
      proof (cases "pat = []")
        case True
        let ?p = "c # takeWhile is_continuation cs" and ?r = "dropWhile is_continuation cs"
        have "n - 1 \<le> length (match_from (pos + Suc (length (takeWhile is_continuation cs))) ?r pat)"
          using "1.prems" n Cons True by (simp add: match_from.simps [of pos])
        from "1.IH"(1) [OF n Cons True this] obtain q qs
          where q: "length (q # qs) = Suc (n - 1)" "?r = join_with pat (q # qs)"
            "replacen ?r pat rep (n - 1) = join_with rep (q # qs)"
          by (metis length_Suc_conv)
        let ?parts = "[] # (?p @ q) # qs"
        have j: "join_with x ?parts = x @ ?p @ join_with x (q # qs)" for x
          by (cases qs) simp_all
        show ?thesis
          using q n Cons True j [of pat] j [of rep] takeWhile_dropWhile_id [of is_continuation cs]
          by (intro exI [of _ ?parts]) (simp add: replacen.simps [of "c # cs"])
      next
        case pat: False
        show ?thesis
        proof (cases "strip_prefix pat s")
          case None
          then have "n \<le> length (match_from (Suc pos) cs pat)"
            using "1.prems" Cons pat by (simp add: match_from.simps [of pos])
          from cons_part [OF "1.IH"(2) [OF n Cons pat None this], of c] show ?thesis
            using n Cons pat None by (simp add: replacen.simps [of "c # cs"])
        next
          case (Some rest)
          then have "n - 1 \<le> length (match_from (pos + length pat) rest pat)"
            using "1.prems" Cons pat by (simp add: match_from.simps [of pos])
          from "1.IH"(3) [OF n Cons pat Some this] obtain q qs
            where q: "length (q # qs) = Suc (n - 1)" "rest = join_with pat (q # qs)"
              "replacen rest pat rep (n - 1) = join_with rep (q # qs)"
            by (metis length_Suc_conv)
          have "replacen s pat rep n = rep @ join_with rep (q # qs)"
            using q(3) n Cons pat Some by (simp add: replacen.simps [of "c # cs" pat rep n])
          moreover have "s = pat @ join_with pat (q # qs)"
            using q(2) Some by (simp add: strip_prefix_iff)
          ultimately show ?thesis using q(1) n by (intro exI [of _ "[] # q # qs"]) simp
        qed
      qed
    qed
  qed
qed

lemma replace_exactD:
  assumes "replace_exact mismatch current old new expected start stop = Inr after"
  obtains old' where "fst (matching_old_text current (take (stop - start) (drop start current)) old expected) = old'"
    "length (match_indices (take (stop - start) (drop start current)) old') = expected"
    "after = replace_between current start stop
       (replacen (take (stop - start) (drop start current)) old'
          (preserve_terminal_line_ending old' new) expected)"
  using assms
  by (auto simp: replace_exact_def matching_old_text_def Let_def split: if_splits)

section \<open>Properties\<close>

text \<open>C17. An exact replacement rewrites precisely the occurrences it was asked for: when it
  succeeds, the selected range is its old text cut at exactly \<open>expected\<close> occurrences, the
  result is the same pieces joined by the new text, and everything outside the range is
  untouched.\<close>

theorem exact_replacement_touches_matches_only:
  assumes "replace_exact mismatch current old new expected start stop = Inr after"
    and "start \<le> stop" "stop \<le> length current"
  shows "\<exists>old' parts.
      fst (matching_old_text current (take (stop - start) (drop start current)) old expected) = old'
    \<and> length (match_indices (take (stop - start) (drop start current)) old') = expected
    \<and> length parts = Suc expected
    \<and> current = take start current @ join_with old' parts @ drop stop current
    \<and> after = take start current
        @ join_with (preserve_terminal_line_ending old' new) parts @ drop stop current"
proof -
  let ?sel = "take (stop - start) (drop start current)"
  from assms(1) obtain old' where o': "fst (matching_old_text current ?sel old expected) = old'"
    and n: "length (match_indices ?sel old') = expected"
    and a: "after = replace_between current start stop
       (replacen ?sel old' (preserve_terminal_line_ending old' new) expected)"
    by (rule replace_exactD)
  obtain parts where "length parts = Suc expected" "?sel = join_with old' parts"
    "replacen ?sel old' (preserve_terminal_line_ending old' new) expected
       = join_with (preserve_terminal_line_ending old' new) parts"
    using replacen_parts [of expected 0 ?sel old'] n unfolding match_indices_def by blast
  moreover have "current = take start current @ ?sel @ drop stop current"
    using assms(2) by (metis append_take_drop_id drop_drop le_add_diff_inverse2)
  ultimately show ?thesis using o' n a by (auto simp: replace_between_def)
qed

theorem exact_replacement_touches_matches_only_witness:
  "replace_exact (\<lambda>n. error_invalid (show_nat n)) ''a-b-c'' ''-'' ''+'' 2 0 5 = Inr ''a+b+c''
   \<and> (\<exists>parts. length parts = Suc 2 \<and> ''a-b-c'' = join_with ''-'' parts)"
proof -
  have m: "match_indices ''a-b-c'' ''-'' = [1, 3]"
    by (simp add: match_indices_def match_from.simps)
  have l: "line_ending_label ''a-b-c'' = ''none''"
    by (simp add: line_ending_label_def match_indices_def match_from.simps crlf_def nl_def cr_def)
  have k: "matching_old_text ''a-b-c'' ''a-b-c'' ''-'' 2 = (''-'', 2)"
    by (simp add: matching_old_text_def normalize_line_endings_for_content_def l m)
  have p: "preserve_terminal_line_ending ''-'' ''+'' = ''+''"
    by (simp add: preserve_terminal_line_ending_def ends_with_def nl_def)
  have r: "replace_exact (\<lambda>n. error_invalid (show_nat n)) ''a-b-c'' ''-'' ''+'' 2 0 5 = Inr ''a+b+c''"
    by (simp add: replace_exact_def k p replace_between_def replacen.simps)
  from exact_replacement_touches_matches_only [OF r] k r show ?thesis by (auto simp: eval_nat_numeral)
qed

text \<open>C5. No edit overwrites a file blindly: when the request's snapshot does not vouch for
  the files, every planned file that already exists is guarded by one of the changes to it,
  whose expected hash or range handle carries exactly the hash of the file's current
  content.\<close>

theorem no_blind_overwrite:
  assumes "plan_changes env False index changes = Inr plan" "f \<in> set plan" "pf_before f = Some content"
  shows "index (pf_path f) = Some content
    \<and> (\<exists>c \<in> set changes. \<exists>h. rel_path_new (change_path c) = Inr (pf_path f)
         \<and> edit_handle env c = Inr h \<and> guard_hash c h = Some (ev_hash env content))"
proof -
  have "index (pf_path f) = Some content"
    using plan_changes_ok [OF assms(1)] assms(2,3) by (simp add: plan_ok_def)
  moreover have "guarded env changes f"
    using plan_changes_guarded [OF assms(1) [unfolded plan_changes_def]] assms(2) by blast
  then obtain c where c: "c \<in> set changes" "rel_path_new (change_path c) = Inr (pf_path f)"
    and g: "case edit_handle env c of Inl _ \<Rightarrow> False | Inr h \<Rightarrow> guard_hash c h = Some (ev_hash env content)"
    using assms(3) by (auto simp: guarded_def list_ex_iff)
  ultimately show ?thesis by (cases "edit_handle env c") auto
qed

definition sample_env :: edit_env where
  "sample_env = \<lparr>ev_id = ''ws'', ev_hash = (\<lambda>s. CHR ''h'' # s), ev_decode = (\<lambda>_. Inl ''bad''),
     ev_symbols = (\<lambda>_ _. []), ev_parse_has_error = (\<lambda>_ _. None)\<rparr>"

theorem no_blind_overwrite_witness:
  "plan_changes sample_env False [''f'' \<mapsto> ''x''] [Delete ''f'' (Some ''hx'')]
     = Inr [\<lparr>pf_path = ''f'', pf_before = Some ''x'', pf_before_hash = Some ''hx'', pf_after = None\<rparr>]
   \<and> guard_hash (Delete ''f'' (Some ''hx'')) None = Some ''hx''"
proof -
  have r: "rel_path_new ''f'' = Inr ''f''" by (rule rel_path_new_idem) code_simp
  have p: "plan_changes sample_env False [''f'' \<mapsto> ''x''] [Delete ''f'' (Some ''hx'')]
     = Inr [\<lparr>pf_path = ''f'', pf_before = Some ''x'', pf_before_hash = Some ''hx'', pf_after = None\<rparr>]"
    by (simp add: plan_changes_def plan_change_def r edit_handle_def handle_matches_def plan_before_def
        plan_get_def plan_original_hash_def guard_hash_def is_create_def plan_body_def put_plan_def
        planned_new_def sample_env_def Let_def)
  from no_blind_overwrite [OF p, of "\<lparr>pf_path = ''f'', pf_before = Some ''x'', pf_before_hash = Some ''hx'',
      pf_after = None\<rparr>" "''x''"] p
  show ?thesis by (auto simp: guard_hash_def sample_env_def)
qed

text \<open>C18. The preflight accepts a request only if no two of its exact edits touch the same bytes. For
  every exact replacement it records as many ranges as the request expects matches, each a match of the
  old text (as given, or with the line endings of the file) in the selected lines and together all of
  them, and for a replacement of a range the range of its handle; the ranges recorded for a path are
  those of all the exact edits to it, in the order of the request, and any two of them are disjoint.\<close>

theorem preflight_accepts_disjoint_edits:
  assumes "preflight_ranges env index changes = Inr ranges"
  shows "(\<exists>rss. list_all2 (\<lambda>c rs. is_exact c \<longrightarrow> touches_exactly env index c rs) changes rss
      \<and> (\<forall>path. ranges path = concat (map snd (filter (\<lambda>(c, rs). exact_at path c) (zip changes rss)))))
    \<and> (\<forall>path i j. i < j \<longrightarrow> j < length (ranges path) \<longrightarrow> \<not> ranges_overlap (ranges path ! i) (ranges path ! j))"
  using preflight_ranges_exact [OF assms] preflight_ranges_disjoint [OF assms]
  by (simp add: disjoint_ranges_def sorted_wrt_iff_nth_less)

theorem preflight_accepts_disjoint_edits_witness:
  "\<exists>ranges. preflight_ranges sample_env [''f'' \<mapsto> ''aba'']
      [Replace ''f'' ''a'' ''1'' 2 None None, Replace ''f'' ''b'' ''2'' 1 None None] = Inr ranges
     \<and> ranges ''f'' = [(0, 1), (2, 3), (1, 2)] \<and> \<not> ranges_overlap (ranges ''f'' ! 0) (ranges ''f'' ! 2)"
proof -
  have n: "normalize_path_text ''f'' = ''f''" by code_simp
  have l: "line_ending_label ''aba'' = ''none''"
    by (simp add: line_ending_label_def match_indices_def match_from.simps crlf_def nl_def cr_def)
  have m: "match_indices ''aba'' ''a'' = [0, 2]" "match_indices ''aba'' ''b'' = [1]"
    by (simp_all add: match_indices_def match_from.simps)
  have r: "preflight_ranges sample_env [''f'' \<mapsto> ''aba'']
      [Replace ''f'' ''a'' ''1'' 2 None None, Replace ''f'' ''b'' ''2'' 1 None None]
      = Inr ((\<lambda>_. [])(''f'' := [(0, 1), (2, 3), (1, 2)]))"
    by (simp add: preflight_ranges_def ambiguous_handle_paths_def preflight_change_def change_ranges_def
        n l m edit_handle_def handle_matches_def matching_old_text_def
        normalize_line_endings_for_content_def add_ranges_def ranges_overlap_def Let_def eval_nat_numeral)
  have "(0::nat) < 2" "2 < length (((\<lambda>_. [])(''f'' := [(0, 1), (2, 3), (1, 2)] :: byte_range list)) ''f'')" by simp_all
  with preflight_accepts_disjoint_edits [OF r, THEN conjunct2] have
    "\<not> ranges_overlap (((\<lambda>_. [])(''f'' := [(0, 1), (2, 3), (1, 2)])) ''f'' ! 0)
       (((\<lambda>_. [])(''f'' := [(0, 1), (2, 3), (1, 2)])) ''f'' ! 2)" by blast
  with r show ?thesis by auto
qed

end
