(* ===== verification/Change_Ledger.thy ===== *)
theory Change_Ledger
  imports Bounded_Tail Code_Index
begin

text \<open>
  The change ledger (\<open>src/workspace/state/ledger.rs\<close>) and the mutation records
  (\<open>src/workspace/events.rs\<close>): the paths waiting for a reconcile, the markers of CodeWeave's
  own writes, the bounded log and the attribution of changes to a Bash run. Hash sets are lists
  without repetition, times are nanoseconds, and \<open>Path::is_dir\<close> is a parameter. The log meets
  the bounded tail interface.
\<close>

section \<open>Mutation records\<close>

datatype mutation_source = McpEdit | External

fun mutation_source_as_str :: "mutation_source \<Rightarrow> string" where
  "mutation_source_as_str McpEdit = ''mcp_edit''"
| "mutation_source_as_str External = ''external''"

record mutation_record =
  mu_id :: string
  mu_path :: string
  mu_before_hash :: "string option"
  mu_after_hash :: "string option"
  mu_source :: mutation_source
  mu_request_id :: string
  mu_timestamp :: nat
  mu_generation :: nat

section \<open>The ledger\<close>

definition internal_write_ttl :: nat where
  "internal_write_ttl = 30 * 10 ^ 9"

definition max_mutation_events :: nat where
  "max_mutation_events = 2000"

record ledger_env =
  le_root :: string
  le_exclusions :: exclusions
  le_is_dir :: "string \<Rightarrow> bool"

record ledger =
  lg_pending :: "string list"
  lg_needs_reconcile :: bool
  lg_internal :: "(string \<times> nat) list"
  lg_events :: "mutation_record list"
  lg_external_changed :: "string list"

definition ledger_new :: ledger where
  "ledger_new = \<lparr>lg_pending = [], lg_needs_reconcile = False, lg_internal = [], lg_events = [],
     lg_external_changed = []\<rparr>"

definition path_starts_with :: "string \<Rightarrow> string \<Rightarrow> bool" where
  "path_starts_with p root =
     (take (length (path_components root)) (path_components p) = path_components root)"

text \<open>\<open>PendingHandle::observe\<close>, one path and all of them.\<close>

definition observe_path :: "ledger_env \<Rightarrow> ledger \<Rightarrow> string \<Rightarrow> ledger" where
  "observe_path env lg p =
     (if \<not> path_starts_with p (le_root env) then lg
      else if relative_string (le_root env) p = []
           \<or> is_ignored (le_exclusions env) p (le_is_dir env p)
           \<or> is_temp_file p
      then lg
      else lg\<lparr>lg_pending := List.insert p (lg_pending lg), lg_needs_reconcile := True\<rparr>)"

definition observe :: "ledger_env \<Rightarrow> ledger \<Rightarrow> string list \<Rightarrow> ledger" where
  "observe env lg paths = foldl (observe_path env) lg paths"

definition mark_pending :: "ledger \<Rightarrow> string list \<Rightarrow> ledger" where
  "mark_pending lg paths =
     lg\<lparr>lg_pending := foldl (\<lambda>ps p. List.insert p ps) (lg_pending lg) paths, lg_needs_reconcile := True\<rparr>"

definition clear_pending :: "ledger \<Rightarrow> ledger" where
  "clear_pending lg = lg\<lparr>lg_pending := [], lg_needs_reconcile := False\<rparr>"

text \<open>Markers of CodeWeave's own writes.\<close>

definition record_internal :: "ledger \<Rightarrow> string \<Rightarrow> nat \<Rightarrow> ledger" where
  "record_internal lg p now =
     lg\<lparr>lg_internal := AList.update p now
          (filter (\<lambda>(_, written). now - written < internal_write_ttl) (lg_internal lg))\<rparr>"

definition forget_internal :: "ledger \<Rightarrow> string \<Rightarrow> ledger" where
  "forget_internal lg p = lg\<lparr>lg_internal := AList.delete p (lg_internal lg)\<rparr>"

definition consume_internal :: "ledger \<Rightarrow> string \<Rightarrow> nat \<Rightarrow> bool \<times> ledger" where
  "consume_internal lg p now =
     ((case map_of (lg_internal lg) p of
         None \<Rightarrow> False
       | Some written \<Rightarrow> now - written < internal_write_ttl),
      forget_internal lg p)"

record pending_drain =
  dr_git_event :: bool
  dr_paths :: "string list"
  dr_external :: "string list"

definition is_git_path :: "string \<Rightarrow> bool" where
  "is_git_path relative \<longleftrightarrow> relative = ''.git'' \<or> starts_with relative ''.git/''"

definition drain_skips :: "ledger_env \<Rightarrow> string \<Rightarrow> bool" where
  "drain_skips env p \<longleftrightarrow>
     (let relative = relative_string (le_root env) p in
      relative = [] \<or> relative = ''.''
      \<or> is_ignored (le_exclusions env) p (le_is_dir env p)
      \<or> is_temp_file p
      \<or> le_is_dir env p)"

definition drain_path ::
    "ledger_env \<Rightarrow> nat \<Rightarrow> pending_drain \<times> ledger \<Rightarrow> string \<Rightarrow> pending_drain \<times> ledger" where
  "drain_path env now s p =
     (case s of (drain, lg) \<Rightarrow>
        let relative = relative_string (le_root env) p in
        if is_git_path relative then (drain\<lparr>dr_git_event := True\<rparr>, lg)
        else if drain_skips env p then (drain, lg)
        else (case consume_internal lg p now of
                (internal, lg') \<Rightarrow>
                  (drain\<lparr>dr_external := (if internal then dr_external drain
                                         else List.insert relative (dr_external drain)),
                         dr_paths := List.insert p (dr_paths drain)\<rparr>, lg')))"

definition drain_pending :: "ledger_env \<Rightarrow> nat \<Rightarrow> ledger \<Rightarrow> pending_drain option \<times> ledger" where
  "drain_pending env now lg =
     (if \<not> lg_needs_reconcile lg then (None, lg)
      else case foldl (drain_path env now)
                  (\<lparr>dr_git_event = False, dr_paths = [], dr_external = []\<rparr>,
                   lg\<lparr>lg_needs_reconcile := False, lg_pending := []\<rparr>)
                  (lg_pending lg) of
             (drain, lg') \<Rightarrow> (Some drain, lg'))"

text \<open>The bounded log; \<open>pop_to\<close> is the loop of \<open>pop_front\<close>.\<close>

fun pop_to :: "nat \<Rightarrow> 'a list \<Rightarrow> 'a list" where
  "pop_to n [] = []"
| "pop_to n (x # xs) = (if n < length (x # xs) then pop_to n xs else x # xs)"

definition ledger_record :: "ledger \<Rightarrow> mutation_record list \<Rightarrow> ledger" where
  "ledger_record lg records =
     lg\<lparr>lg_events := pop_to max_mutation_events (lg_events lg @ records)\<rparr>"

definition record_external :: "ledger \<Rightarrow> mutation_record list \<Rightarrow> ledger" where
  "record_external lg records =
     ledger_record
       (lg\<lparr>lg_external_changed :=
             foldl (\<lambda>ps p. List.insert p ps) (lg_external_changed lg) (map mu_path records)\<rparr>) records"

definition records_since ::
    "ledger \<Rightarrow> nat \<Rightarrow> string option \<Rightarrow> nat \<Rightarrow> mutation_record list" where
  "records_since lg since source limit =
     take limit (filter (\<lambda>r. case source of None \<Rightarrow> True
                            | Some v \<Rightarrow> mutation_source_as_str (mu_source r) = v)
       (filter (\<lambda>r. since < mu_generation r) (rev (lg_events lg))))"

definition edited_paths_within :: "ledger \<Rightarrow> string list \<Rightarrow> string list" where
  "edited_paths_within lg dirty =
     remdups (map mu_path (filter (\<lambda>r. mu_source r = McpEdit \<and> mu_path r \<in> set dirty) (lg_events lg)))"

definition external_paths_within :: "ledger \<Rightarrow> string list \<Rightarrow> string list" where
  "external_paths_within lg dirty = filter (\<lambda>p. p \<in> set dirty) (lg_external_changed lg)"

section \<open>Attribution to a Bash run\<close>

record run_window =
  rw_start_generation :: nat
  rw_end_generation :: nat
  rw_ended_at :: "nat option"
  rw_baseline_dirty :: "string list"
  rw_current_dirty :: "string list"

definition modified_by_end :: "'d dir_ops \<Rightarrow> 'd \<Rightarrow> string \<Rightarrow> nat \<Rightarrow> bool" where
  "modified_by_end ops d path ended =
     (case rel_path_new path of
        Inl _ \<Rightarrow> False
      | Inr p \<Rightarrow> (case root_modified ops d p of None \<Rightarrow> False | Some modified \<Rightarrow> modified \<le> ended))"

definition attribute_since ::
    "ledger_env \<Rightarrow> 'd dir_ops \<Rightarrow> 'd \<Rightarrow> ledger \<Rightarrow> run_window \<Rightarrow> string list" where
  "attribute_since env ops d lg w =
     (let candidates = map (\<lambda>m. (mu_path m, mu_timestamp m))
            (filter (\<lambda>m. rw_start_generation w < mu_generation m
                         \<and> mu_generation m \<le> rw_end_generation w) (lg_events lg));
          by_end = (\<lambda>path. case rw_ended_at w of None \<Rightarrow> True | Some ended \<Rightarrow> modified_by_end ops d path ended);
          mutation_paths = remdups (map fst
            (filter (\<lambda>(path, timestamp).
               (case rw_ended_at w of None \<Rightarrow> True | Some ended \<Rightarrow> timestamp \<le> ended \<or> by_end path))
               candidates));
          flipped = filter (\<lambda>p. p \<notin> set (rw_baseline_dirty w)) (rw_current_dirty w)
                    @ filter (\<lambda>p. p \<notin> set (rw_current_dirty w)) (rw_baseline_dirty w);
          paths = filter (\<lambda>p. p \<in> set mutation_paths \<or> by_end p) flipped
      in filter (\<lambda>p. \<not> is_ignored (le_exclusions env) p False) (remdups (paths @ mutation_paths)))"

section \<open>The log is a bounded tail\<close>

lemma pop_to_take_last: "pop_to n xs = take_last n xs"
  by (induction xs) (auto simp: take_last_def Suc_diff_le)

lemma ledger_record_simps [simp]:
  "lg_events (ledger_record lg rs) = take_last max_mutation_events (lg_events lg @ rs)"
  "lg_pending (ledger_record lg rs) = lg_pending lg"
  "lg_needs_reconcile (ledger_record lg rs) = lg_needs_reconcile lg"
  "lg_internal (ledger_record lg rs) = lg_internal lg"
  "lg_external_changed (ledger_record lg rs) = lg_external_changed lg"
  by (simp_all add: ledger_record_def pop_to_take_last)

interpretation mutation_log: bounded_tail "\<lambda>lg rs. Some (ledger_record lg rs)" lg_events
  "\<lambda>_. max_mutation_events" "\<lambda>lg. length (lg_events lg) \<le> max_mutation_events"
  by unfold_locales auto

lemma record_all_is_fold:
  "fold_opt (\<lambda>lg rs. Some (ledger_record lg rs)) lg batches = Some (foldl ledger_record lg batches)"
  by (induction batches arbitrary: lg) simp_all

lemma log_after_batches:
  "length (lg_events lg) \<le> max_mutation_events \<Longrightarrow>
     lg_events (foldl ledger_record lg batches) = take_last max_mutation_events (lg_events lg @ concat batches)"
  using mutation_log.push_all_kept [OF _ record_all_is_fold] by simp

section \<open>Draining\<close>

definition live_marker :: "ledger \<Rightarrow> string \<Rightarrow> nat \<Rightarrow> bool" where
  "live_marker lg p now \<longleftrightarrow>
     (case map_of (lg_internal lg) p of None \<Rightarrow> False | Some written \<Rightarrow> now - written < internal_write_ttl)"

definition drained :: "ledger_env \<Rightarrow> string \<Rightarrow> bool" where
  "drained env p \<longleftrightarrow> \<not> is_git_path (relative_string (le_root env) p) \<and> \<not> drain_skips env p"

lemma consume_internal_live: "consume_internal lg p now = (live_marker lg p now, forget_internal lg p)"
  by (simp add: consume_internal_def live_marker_def)

lemma live_marker_forget: "q \<noteq> p \<Longrightarrow> live_marker (forget_internal lg p) q now = live_marker lg q now"
  by (simp add: live_marker_def forget_internal_def AList.delete_conv')

lemma drain_fold:
  "distinct ps \<Longrightarrow> foldl (drain_path env now) (drain, lg) ps = (drain', lg') \<Longrightarrow>
     set (dr_paths drain') = set (dr_paths drain) \<union> {p \<in> set ps. drained env p}
     \<and> set (dr_external drain') = set (dr_external drain)
         \<union> relative_string (le_root env) ` {p \<in> set ps. drained env p \<and> \<not> live_marker lg p now}
     \<and> (dr_git_event drain' \<longleftrightarrow> dr_git_event drain
         \<or> (\<exists>p \<in> set ps. is_git_path (relative_string (le_root env) p)))
     \<and> lg_pending lg' = lg_pending lg \<and> lg_needs_reconcile lg' = lg_needs_reconcile lg
     \<and> lg_events lg' = lg_events lg"
proof (induction ps arbitrary: drain lg)
  case (Cons p ps)
  obtain d1 lg1 where s: "drain_path env now (drain, lg) p = (d1, lg1)" by fastforce
  have ih: "set (dr_paths drain') = set (dr_paths d1) \<union> {p \<in> set ps. drained env p}"
    "set (dr_external drain') = set (dr_external d1)
         \<union> relative_string (le_root env) ` {p \<in> set ps. drained env p \<and> \<not> live_marker lg1 p now}"
    "dr_git_event drain' \<longleftrightarrow> dr_git_event d1 \<or> (\<exists>p \<in> set ps. is_git_path (relative_string (le_root env) p))"
    "lg_pending lg' = lg_pending lg1" "lg_needs_reconcile lg' = lg_needs_reconcile lg1"
    "lg_events lg' = lg_events lg1"
    using Cons.IH [of d1 lg1] Cons.prems s by auto
  have live: "q \<in> set ps \<Longrightarrow> live_marker lg1 q now = live_marker lg q now" for q
    using s Cons.prems(1) live_marker_forget [of q p lg now]
    by (auto simp: drain_path_def consume_internal_live Let_def split: if_splits)
  show ?case
  proof (cases "is_git_path (relative_string (le_root env) p)")
    case True
    with s have "d1 = drain\<lparr>dr_git_event := True\<rparr>" "lg1 = lg" by (auto simp: drain_path_def)
    with ih True show ?thesis by (auto simp: drained_def)
  next
    case git: False
    show ?thesis
    proof (cases "drain_skips env p")
      case True
      with s git have "d1 = drain" "lg1 = lg" by (auto simp: drain_path_def)
      with ih True git show ?thesis by (auto simp: drained_def)
    next
      case skip: False
      with s git have d1: "d1 = drain\<lparr>dr_external := (if live_marker lg p now then dr_external drain
           else List.insert (relative_string (le_root env) p) (dr_external drain)),
             dr_paths := List.insert p (dr_paths drain)\<rparr>" and lg1: "lg1 = forget_internal lg p"
        by (auto simp: drain_path_def consume_internal_live Let_def)
      have dp: "drained env p" using git skip by (simp add: drained_def)
      have "{q \<in> set ps. drained env q \<and> \<not> live_marker lg1 q now}
          = {q \<in> set ps. drained env q \<and> \<not> live_marker lg q now}" using live by auto
      moreover have "lg_pending lg1 = lg_pending lg" "lg_needs_reconcile lg1 = lg_needs_reconcile lg"
        "lg_events lg1 = lg_events lg" by (simp_all add: lg1 forget_internal_def)
      ultimately show ?thesis using ih dp git by (auto simp: d1)
    qed
  qed
qed simp

lemma observe_distinct: "distinct (lg_pending lg) \<Longrightarrow> distinct (lg_pending (observe env lg ps))"
  unfolding observe_def
proof (induction ps arbitrary: lg)
  case (Cons p ps)
  have "distinct (lg_pending (observe_path env lg p))" using Cons.prems by (simp add: observe_path_def)
  then show ?case using Cons.IH by simp
qed simp

lemma normalize_clean: "backslash \<notin> set p \<Longrightarrow> normalize_path_text p = trim_dot_slash p"
proof -
  assume "backslash \<notin> set p"
  then have "replace_backslash p = p" by (auto simp: replace_backslash_def intro: map_idI)
  then show ?thesis by (simp add: normalize_path_text_def)
qed

lemma git_path_ignored:
  assumes "ex_normalized_root ex = CHR ''/'' # c # r" "c \<noteq> CHR ''/''"
    and "backslash \<notin> set (c # r)" "backslash \<notin> set rest" "rest \<noteq> []" "last rest \<noteq> CHR ''/''"
  shows "is_ignored ex ((CHR ''/'' # c # r) @ ''/.git/'' @ rest) b"
proof -
  let ?p = "(CHR ''/'' # c # r) @ ''/.git/'' @ rest"
  have slash: "backslash \<noteq> CHR ''/''" "backslash \<noteq> CHR ''.''" "backslash \<notin> set ''/.git/''"
    by (simp_all add: backslash_def)
  have n: "normalize_path_text ?p = ?p"
    using assms(3,4) slash by (subst normalize_clean) auto
  have t: "trim_end_char CHR ''/'' ?p = ?p"
    using assms(5,6) by (cases rest rule: rev_cases) (auto simp: trim_end_char_def)
  have abs: "normalized_absolute_path ?p = ?p"
    unfolding normalized_absolute_path_def n using t assms(2) by simp
  have rel: "relative_from_normalized ex ?p = Some (''.git/'' @ rest)"
    by (simp add: relative_from_normalized_def assms(1) is_continuation_def starts_with_def
        trim_start_char_def)
  have "exclusion_relative_path ex ?p = Some (''.git/'' @ rest)"
    unfolding exclusion_relative_path_def abs rel by (simp add: path_is_absolute_def starts_with_def)
  moreover have "ignored_workspace_path (''.git/'' @ rest)"
  proof -
    have "normalize_path_text (''.git/'' @ rest) = ''.git/'' @ rest"
      using assms(4) slash by (subst normalize_clean) auto
    moreover have "split_on CHR ''/'' (''.git/'' @ rest) = ''.git'' # split_on CHR ''/'' rest"
      using split_on_append [of "CHR ''/''" "''.git''" rest] by simp
    ultimately show ?thesis by (simp add: ignored_workspace_path_def ignored_path_component_def)
  qed
  ultimately show ?thesis by (simp add: is_ignored_def)
qed

section \<open>Properties\<close>

text \<open>C19. The mutation log is a bounded history: after any batches of records, a query returns
  the newest records first, exactly those among the last \<open>MAX_MUTATION_EVENTS\<close> recorded that
  are newer than the generation asked for and of the source asked for, up to the limit.\<close>

theorem mutation_log_bounded_history:
  "records_since (foldl ledger_record ledger_new batches) since source limit
     = take limit (filter (\<lambda>r. source = None \<or> source = Some (mutation_source_as_str (mu_source r)))
         (filter (\<lambda>r. since < mu_generation r) (rev (take_last max_mutation_events (concat batches)))))"
proof -
  have "lg_events (foldl ledger_record ledger_new batches) = take_last max_mutation_events (concat batches)"
    using log_after_batches [of ledger_new batches] by (simp add: ledger_new_def)
  moreover have "(\<lambda>r :: mutation_record. case source of None \<Rightarrow> True
        | Some v \<Rightarrow> mutation_source_as_str (mu_source r) = v)
      = (\<lambda>r. source = None \<or> source = Some (mutation_source_as_str (mu_source r)))"
    by (cases source) auto
  ultimately show ?thesis unfolding records_since_def by simp
qed

text \<open>A reconcile tells CodeWeave's own writes from external changes: of the drained
  paths, exactly those without a live marker (written within the last 30 seconds) are reported
  external, Git's files only raise the Git flag, and the queue is empty afterwards.\<close>

theorem drain_separates_own_writes:
  assumes "drain_pending env now lg = (Some drain, lg')" "distinct (lg_pending lg)"
  shows "set (dr_paths drain) = {p \<in> set (lg_pending lg). drained env p}
    \<and> set (dr_external drain)
        = relative_string (le_root env) ` {p \<in> set (dr_paths drain). \<not> live_marker lg p now}
    \<and> (dr_git_event drain \<longleftrightarrow> (\<exists>p \<in> set (lg_pending lg). is_git_path (relative_string (le_root env) p)))
    \<and> lg_pending lg' = [] \<and> \<not> lg_needs_reconcile lg'"
proof -
  have f: "foldl (drain_path env now) (\<lparr>dr_git_event = False, dr_paths = [], dr_external = []\<rparr>,
      lg\<lparr>lg_needs_reconcile := False, lg_pending := []\<rparr>) (lg_pending lg) = (drain, lg')"
    using assms(1) by (auto simp: drain_pending_def split: if_splits prod.splits)
  have "live_marker (lg\<lparr>lg_needs_reconcile := False, lg_pending := []\<rparr>) p now = live_marker lg p now" for p
    by (simp add: live_marker_def)
  with drain_fold [OF assms(2) f] show ?thesis by auto
qed

definition sample_ledger_env :: ledger_env where
  "sample_ledger_env = \<lparr>le_root = ''/w'',
     le_exclusions = \<lparr>ex_normalized_root = ''/w'', ex_matcher = (\<lambda>_ _. False), ex_canonicalize = Some\<rparr>,
     le_is_dir = (\<lambda>_. False)\<rparr>"

theorem drain_separates_own_writes_witness:
  "\<exists>drain lg'. drain_pending sample_ledger_env 5
      (record_internal (observe sample_ledger_env ledger_new [''/w/a'', ''/w/b'']) ''/w/a'' 2) = (Some drain, lg')
    \<and> set (dr_paths drain) = {''/w/a'', ''/w/b''} \<and> set (dr_external drain) = {''b''}"
proof -
  let ?lg = "record_internal (observe sample_ledger_env ledger_new [''/w/a'', ''/w/b'']) ''/w/a'' 2"
  have lg: "?lg = \<lparr>lg_pending = [''/w/b'', ''/w/a''], lg_needs_reconcile = True, lg_internal = [(''/w/a'', 2)],
      lg_events = [], lg_external_changed = []\<rparr>"
  proof -
    have "observe sample_ledger_env ledger_new [''/w/a'', ''/w/b''] = \<lparr>lg_pending = [''/w/b'', ''/w/a''],
        lg_needs_reconcile = True, lg_internal = [], lg_events = [], lg_external_changed = []\<rparr>"
      by code_simp
    then show ?thesis by (simp add: record_internal_def)
  qed
  have d: "drained sample_ledger_env ''/w/a''" "drained sample_ledger_env ''/w/b''" by code_simp+
  have r: "relative_string ''/w'' ''/w/b'' = ''b''" by code_simp
  have live: "live_marker ?lg ''/w/a'' 5" "\<not> live_marker ?lg ''/w/b'' 5"
    unfolding lg by (simp_all add: live_marker_def internal_write_ttl_def)
  obtain drain lg' where dr: "drain_pending sample_ledger_env 5 ?lg = (Some drain, lg')"
    unfolding lg by (simp add: drain_pending_def case_prod_beta)
  have dist: "distinct (lg_pending ?lg)" unfolding lg by simp
  have paths: "set (dr_paths drain) = {''/w/a'', ''/w/b''}"
    using drain_separates_own_writes [OF dr dist] d by (auto simp: lg)
  then have "set (dr_external drain) = relative_string ''/w'' ` {p \<in> {''/w/a'', ''/w/b''}. \<not> live_marker ?lg p 5}"
    using drain_separates_own_writes [OF dr dist] by (simp add: sample_ledger_env_def)
  also have "{p \<in> {''/w/a'', ''/w/b''}. \<not> live_marker ?lg p 5} = {''/w/b''}" using live by auto
  finally show ?thesis using dr paths r by auto
qed

text \<open>The watcher never reports a change inside \<open>.git\<close>: an event for any path below
  \<open>.git\<close> of the root is dropped before it is queued, because the built-in exclusions contain
  \<open>.git\<close>. So the Git flag of a drain, which asks for a fresh repository status, is never
  raised by an event: an external commit or checkout that changes no indexed file is not
  noticed.\<close>

theorem git_events_are_dropped:
  assumes "ex_normalized_root (le_exclusions env) = CHR ''/'' # c # r" "c \<noteq> CHR ''/''"
    and "backslash \<notin> set (c # r)" "backslash \<notin> set rest" "rest \<noteq> []" "last rest \<noteq> CHR ''/''"
  shows "observe env lg [(CHR ''/'' # c # r) @ ''/.git/'' @ rest] = lg"
  using git_path_ignored [OF assms] by (simp add: observe_def observe_path_def)

theorem git_events_are_dropped_witness:
  "observe sample_ledger_env ledger_new [''/w/.git/HEAD''] = ledger_new
   \<and> lg_pending (observe sample_ledger_env ledger_new [''/w/HEAD'']) = [''/w/HEAD'']"
proof -
  have "observe sample_ledger_env ledger_new [(CHR ''/'' # CHR ''w'' # []) @ ''/.git/'' @ ''HEAD''] = ledger_new"
    by (rule git_events_are_dropped) (simp_all add: sample_ledger_env_def backslash_def)
  moreover have "lg_pending (observe sample_ledger_env ledger_new [''/w/HEAD'']) = [''/w/HEAD'']"
    by code_simp
  ultimately show ?thesis by simp
qed

end
