(* ===== verification/Workspace_State.thy ===== *)
theory Workspace_State
  imports Change_Ledger
begin

text \<open>
  The reconciled state of a workspace (\<open>src/workspace/state/mod.rs\<close>) and its reconcile
  (\<open>src/workspace/reconcile.rs\<close>): the index, the cached repository status with its stale flag,
  the generation and the snapshot identifier. What \<open>git status\<close> answers, the clock and the
  identifiers of mutation records are parameters. An update runs under the writer, so it is a
  function from state to state.
\<close>

section \<open>The reconciled state\<close>

record repo_status =
  rs_is_git :: bool
  rs_head :: string
  rs_branch :: string
  rs_dirty_files :: "string list"
  rs_staged_files :: "string list"
  rs_unstaged_files :: "string list"
  rs_untracked_files :: "string list"
  rs_partially_staged_files :: "string list"

definition repo_status_default :: repo_status where
  "repo_status_default = \<lparr>rs_is_git = False, rs_head = [], rs_branch = [], rs_dirty_files = [],
     rs_staged_files = [], rs_unstaged_files = [], rs_untracked_files = [],
     rs_partially_staged_files = []\<rparr>"

record stamp =
  st_generation :: nat
  st_snapshot_id :: string

record reconciled =
  rc_index :: code_index
  rc_repo_status :: repo_status
  rc_repo_status_stale :: bool
  rc_generation :: nat
  rc_snapshot_id :: string

definition recompute_snapshot :: "sha256 \<Rightarrow> reconciled \<Rightarrow> reconciled" where
  "recompute_snapshot sha rc =
     rc\<lparr>rc_snapshot_id := index_snapshot_id sha (rc_index rc) (rs_head (rc_repo_status rc))\<rparr>"

definition reconciled_new :: "sha256 \<Rightarrow> code_index \<Rightarrow> app_error + repo_status \<Rightarrow> reconciled" where
  "reconciled_new sha ci status =
     (case (case status of Inr s \<Rightarrow> (s, False) | Inl _ \<Rightarrow> (repo_status_default, True)) of
        (s, stale) \<Rightarrow>
          recompute_snapshot sha
            \<lparr>rc_index = ci, rc_repo_status = s, rc_repo_status_stale = stale, rc_generation = 1,
             rc_snapshot_id = []\<rparr>)"

record repo_status_change =
  rsc_changed :: bool
  rsc_head_changed :: bool

definition no_status_change :: repo_status_change where
  "no_status_change = \<lparr>rsc_changed = False, rsc_head_changed = False\<rparr>"

definition apply_repo_status ::
    "reconciled \<Rightarrow> app_error + repo_status \<Rightarrow> (app_error + repo_status_change) \<times> reconciled" where
  "apply_repo_status rc result =
     (case result of
        Inr status \<Rightarrow>
          (Inr \<lparr>rsc_changed = (status \<noteq> rc_repo_status rc),
                rsc_head_changed = (rs_head status \<noteq> rs_head (rc_repo_status rc))\<rparr>,
           rc\<lparr>rc_repo_status := status, rc_repo_status_stale := False\<rparr>)
      | Inl e \<Rightarrow> (Inl e, rc\<lparr>rc_repo_status_stale := True\<rparr>))"

definition bump_generation :: "reconciled \<Rightarrow> reconciled" where
  "bump_generation rc = rc\<lparr>rc_generation := rc_generation rc + 1\<rparr>"

definition read_stamp :: "reconciled \<Rightarrow> stamp" where
  "read_stamp rc = \<lparr>st_generation = rc_generation rc, st_snapshot_id = rc_snapshot_id rc\<rparr>"

section \<open>Reconciling\<close>

text \<open>The workspace: its disk, ledger and reconciled state, and the identifiers drawn so far.\<close>

record 'd workspace_state =
  ws_disk :: 'd
  ws_ledger :: ledger
  ws_rc :: reconciled
  ws_uuids :: nat

record 'd workspace_env =
  we_scan :: "'d scan_env"
  we_is_dir :: "string \<Rightarrow> bool"
  we_git_status :: "'d \<Rightarrow> app_error + repo_status"
  we_uuid :: "nat \<Rightarrow> string"

definition we_ledger :: "'d workspace_env \<Rightarrow> ledger_env" where
  "we_ledger env = \<lparr>le_root = sc_root (we_scan env), le_exclusions = sc_exclusions (we_scan env),
     le_is_dir = we_is_dir env\<rparr>"

definition new_mutation_id :: "'d workspace_env \<Rightarrow> nat \<Rightarrow> string" where
  "new_mutation_id env n = ''mut_'' @ we_uuid env n"

definition refresh_repo_status ::
    "'d workspace_env \<Rightarrow> 'd workspace_state \<Rightarrow> (app_error + unit) \<times> 'd workspace_state" where
  "refresh_repo_status env ws =
     (case apply_repo_status (ws_rc ws) (we_git_status env (ws_disk ws)) of
        (applied, rc) \<Rightarrow>
          (map_sum id (\<lambda>_. ()) applied,
           ws\<lparr>ws_rc := recompute_snapshot (sc_sha (we_scan env)) rc\<rparr>))"

definition external_records ::
    "'d workspace_env \<Rightarrow> nat \<Rightarrow> nat \<Rightarrow> reconciled \<Rightarrow> string list \<Rightarrow> mutation_record list" where
  "external_records env now uuids rc paths =
     map (\<lambda>(i, p). \<lparr>mu_id = new_mutation_id env (uuids + i), mu_path = p, mu_before_hash = None,
            mu_after_hash = map_option fe_hash (index_get (rc_index rc) p), mu_source = External,
            mu_request_id = ''watcher'', mu_timestamp = now, mu_generation = rc_generation rc\<rparr>)
       (enumerate 0 paths)"

text \<open>The closure given to the writer: the changed paths and the external records.\<close>

definition reconcile_update ::
    "'d workspace_env \<Rightarrow> nat \<Rightarrow> nat \<Rightarrow> 'd \<Rightarrow> pending_drain \<Rightarrow> reconciled
     \<Rightarrow> (app_error + string list \<times> mutation_record list) \<times> reconciled" where
  "reconcile_update env now uuids d drain rc =
     (case (if dr_paths drain = [] then (Inr [], rc_index rc)
            else refresh_paths (we_scan env) d (rc_index rc) (dr_paths drain)) of
        (Inl e, ci) \<Rightarrow> (Inl e, rc\<lparr>rc_index := ci\<rparr>)
      | (Inr changed, ci) \<Rightarrow>
          let rc1 = rc\<lparr>rc_index := ci\<rparr>;
              (repo, rc2) =
                (if dr_git_event drain \<or> changed \<noteq> []
                 then (case apply_repo_status rc1 (we_git_status env d) of
                         (Inr c, rc2) \<Rightarrow> (c, rc2)
                       | (Inl _, rc2) \<Rightarrow> (no_status_change, rc2))
                 else (no_status_change, rc1))
          in if changed = [] \<and> \<not> rsc_changed repo then (Inr (changed, []), rc2)
             else let rc3 = bump_generation rc2;
                      rc4 = (if changed \<noteq> [] \<or> rsc_head_changed repo
                             then recompute_snapshot (sc_sha (we_scan env)) rc3 else rc3)
                  in (Inr (changed,
                        external_records env now uuids rc4
                          (filter (\<lambda>p. p \<in> set changed) (dr_external drain))), rc4))"

definition reconcile_with ::
    "'d workspace_env \<Rightarrow> nat \<Rightarrow> 'd workspace_state
     \<Rightarrow> (app_error + string list) \<times> 'd workspace_state" where
  "reconcile_with env now ws =
     (case drain_pending (we_ledger env) now (ws_ledger ws) of
        (None, lg) \<Rightarrow> (Inr [], ws\<lparr>ws_ledger := lg\<rparr>)
      | (Some drain, lg) \<Rightarrow>
          (case reconcile_update env now (ws_uuids ws) (ws_disk ws) drain (ws_rc ws) of
             (Inl e, rc) \<Rightarrow> (Inl e, ws\<lparr>ws_ledger := lg, ws_rc := rc\<rparr>)
           | (Inr (changed, external), rc) \<Rightarrow>
               (Inr changed,
                ws\<lparr>ws_rc := rc, ws_uuids := ws_uuids ws + length external,
                   ws_ledger := (if external \<noteq> [] then record_external lg external else lg)\<rparr>)))"

definition reconcile_pending ::
    "'d workspace_env \<Rightarrow> nat \<Rightarrow> 'd workspace_state
     \<Rightarrow> (app_error + string list) \<times> 'd workspace_state" where
  "reconcile_pending env now ws =
     (if \<not> lg_needs_reconcile (ws_ledger ws) then (Inr [], ws) else reconcile_with env now ws)"

text \<open>The debounce of run polls; \<open>POLL_RECONCILE_DEBOUNCE\<close> is two seconds.\<close>

definition poll_reconcile_debounce :: nat where
  "poll_reconcile_debounce = 2 * 10 ^ 9"

definition reconcile_after_poll ::
    "'d workspace_env \<Rightarrow> nat \<Rightarrow> nat \<Rightarrow> bool \<Rightarrow> 'd workspace_state
     \<Rightarrow> (app_error + string list) \<times> 'd workspace_state" where
  "reconcile_after_poll env now last_reconcile terminal ws =
     (if \<not> lg_needs_reconcile (ws_ledger ws) then (Inr [], ws)
      else if \<not> terminal \<and> now - last_reconcile < poll_reconcile_debounce then (Inr [], ws)
      else reconcile_pending env now ws)"

section \<open>Lemmas\<close>

text \<open>The stamp is current when the snapshot identifier is that of the index and the head.\<close>

definition stamp_current :: "sha256 \<Rightarrow> reconciled \<Rightarrow> bool" where
  "stamp_current sha rc \<longleftrightarrow>
     rc_snapshot_id rc = index_snapshot_id sha (rc_index rc) (rs_head (rc_repo_status rc))"

lemma recompute_current [simp]: "stamp_current sha (recompute_snapshot sha rc)"
  by (simp add: stamp_current_def recompute_snapshot_def)

lemma recompute_simps [simp]:
  "rc_index (recompute_snapshot sha rc) = rc_index rc"
  "rc_generation (recompute_snapshot sha rc) = rc_generation rc"
  "rc_repo_status (recompute_snapshot sha rc) = rc_repo_status rc"
  by (simp_all add: recompute_snapshot_def)

lemma bump_simps [simp]:
  "rc_index (bump_generation rc) = rc_index rc"
  "rc_generation (bump_generation rc) = Suc (rc_generation rc)"
  "rc_repo_status (bump_generation rc) = rc_repo_status rc"
  "rc_snapshot_id (bump_generation rc) = rc_snapshot_id rc"
  by (simp_all add: bump_generation_def)

lemma apply_repo_status_simps [simp]:
  "rc_index (snd (apply_repo_status rc s)) = rc_index rc"
  "rc_generation (snd (apply_repo_status rc s)) = rc_generation rc"
  "rc_snapshot_id (snd (apply_repo_status rc s)) = rc_snapshot_id rc"
  by (auto simp: apply_repo_status_def split: sum.splits)

lemma indexed_hash_keys:
  assumes "distinct (map fe_path (ci_files ci))"
  shows "(\<lambda>f. (fe_path f, fe_hash f)) ` set (ci_files ci) = {(p, h). indexed_hash ci p = Some h}"
proof -
  have look: "index_lookup ci p = Some f \<longleftrightarrow> f \<in> set (ci_files ci) \<and> fe_path f = p" for p f
  proof
    show "index_lookup ci p = Some f \<Longrightarrow> f \<in> set (ci_files ci) \<and> fe_path f = p"
      by (rule index_lookup_Some)
    show "f \<in> set (ci_files ci) \<and> fe_path f = p \<Longrightarrow> index_lookup ci p = Some f"
      using find_distinct [OF assms, of f] by (auto simp: index_lookup_def)
  qed
  show ?thesis
    by (auto simp: indexed_hash_def look)
qed

lemma same_hashes_same_snapshot:
  assumes "sha_len sha" "index_inv sha a" "index_inv sha b" "indexed_hash a = indexed_hash b"
  shows "index_snapshot_id sha a head = index_snapshot_id sha b head"
proof -
  have "(\<lambda>f. (fe_path f, fe_hash f)) ` set (ci_files a) = (\<lambda>f. (fe_path f, fe_hash f)) ` set (ci_files b)"
    using assms by (simp add: indexed_hash_keys index_inv_def)
  then show ?thesis using same_files_same_snapshot [OF assms(2,3)] by simp
qed

lemma refresh_drain:
  assumes "(if dr_paths drain = [] then (Inr [], ci) else refresh_paths scan d ci (dr_paths drain)) = (r, ci')"
    and "sha_len (sc_sha scan)" "index_inv (sc_sha scan) ci"
  shows "index_inv (sc_sha scan) ci'"
    and "r = Inr changed \<Longrightarrow> q \<notin> set changed \<Longrightarrow> indexed_hash ci' q = indexed_hash ci q"
proof -
  show "index_inv (sc_sha scan) ci'"
    using assms refresh_paths_inv [OF assms(2,3), of d "dr_paths drain"] by (auto split: if_splits)
  assume "r = Inr changed" "q \<notin> set changed"
  then show "indexed_hash ci' q = indexed_hash ci q"
    using assms(1) refresh_loop_changed [of scan d ci "dr_paths drain" "[]" changed ci']
    by (auto simp: refresh_paths_def split: if_splits)
qed

text \<open>What a status refresh leaves of the head.\<close>

lemma apply_status_head:
  assumes "apply_repo_status rc s = (r, rc')"
  shows "rc_index rc' = rc_index rc" "rc_generation rc' = rc_generation rc" "rc_snapshot_id rc' = rc_snapshot_id rc"
    and "r = Inr c \<Longrightarrow> \<not> rsc_head_changed c \<Longrightarrow> rs_head (rc_repo_status rc') = rs_head (rc_repo_status rc)"
    and "r = Inr c \<Longrightarrow> \<not> rsc_changed c \<Longrightarrow> rc_repo_status rc' = rc_repo_status rc"
    and "r = Inl e \<Longrightarrow> rc_repo_status rc' = rc_repo_status rc"
  using assms by (auto simp: apply_repo_status_def split: sum.splits)

definition status_step ::
    "'d workspace_env \<Rightarrow> 'd \<Rightarrow> bool \<Rightarrow> reconciled \<Rightarrow> repo_status_change \<times> reconciled" where
  "status_step env d due rc1 =
     (if due
      then (case apply_repo_status rc1 (we_git_status env d) of
              (Inr c, rc2) \<Rightarrow> (c, rc2)
            | (Inl _, rc2) \<Rightarrow> (no_status_change, rc2))
      else (no_status_change, rc1))"

lemma status_stepD:
  assumes "status_step env d due rc1 = (c, rc2)"
  shows "rc_index rc2 = rc_index rc1 \<and> rc_generation rc2 = rc_generation rc1
    \<and> rc_snapshot_id rc2 = rc_snapshot_id rc1
    \<and> (rsc_head_changed c \<longleftrightarrow> rs_head (rc_repo_status rc2) \<noteq> rs_head (rc_repo_status rc1))
    \<and> (\<not> rsc_changed c \<longrightarrow> rc_repo_status rc2 = rc_repo_status rc1)"
  using assms
  by (auto simp: status_step_def no_status_change_def apply_repo_status_def split: if_splits sum.splits prod.splits)

lemma reconcile_update_cases:
  assumes "reconcile_update env now uuids d drain rc = (Inr (changed, external), rc')"
  obtains ci c rc2 where
    "(if dr_paths drain = [] then (Inr [], rc_index rc)
      else refresh_paths (we_scan env) d (rc_index rc) (dr_paths drain)) = (Inr changed, ci)"
    "status_step env d (dr_git_event drain \<or> changed \<noteq> []) (rc\<lparr>rc_index := ci\<rparr>) = (c, rc2)"
    "changed = [] \<and> \<not> rsc_changed c \<and> rc' = rc2 \<and> external = []
     \<or> (changed \<noteq> [] \<or> rsc_changed c)
       \<and> rc' = (if changed \<noteq> [] \<or> rsc_head_changed c
               then recompute_snapshot (sc_sha (we_scan env)) (bump_generation rc2) else bump_generation rc2)
       \<and> external = external_records env now uuids rc' (filter (\<lambda>p. p \<in> set changed) (dr_external drain))"
proof -
  obtain r ci where r: "(if dr_paths drain = [] then (Inr [], rc_index rc)
      else refresh_paths (we_scan env) d (rc_index rc) (dr_paths drain)) = (r, ci)" by fastforce
  from assms obtain cs where cs: "r = Inr cs"
    unfolding reconcile_update_def r by (auto split: sum.splits)
  obtain c rc2 where s: "status_step env d (dr_git_event drain \<or> cs \<noteq> []) (rc\<lparr>rc_index := ci\<rparr>) = (c, rc2)"
    by fastforce
  note a = assms [unfolded reconcile_update_def r cs, simplified prod.case sum.case Let_def,
      folded status_step_def, unfolded s prod.case]
  have "changed = cs" using a by (auto simp: Let_def split: if_splits)
  with a r cs s show thesis by (intro that [of ci c rc2]) (auto simp: Let_def split: if_splits)
qed

lemma reconcile_update_current:
  assumes upd: "reconcile_update env now uuids d drain rc = (Inr (changed, external), rc')"
    and sha: "sha_len (sc_sha (we_scan env))"
    and inv: "index_inv (sc_sha (we_scan env)) (rc_index rc)"
  shows "index_inv (sc_sha (we_scan env)) (rc_index rc')
    \<and> (stamp_current (sc_sha (we_scan env)) rc' \<longleftrightarrow>
         stamp_current (sc_sha (we_scan env)) rc \<or> changed \<noteq> []
         \<or> rs_head (rc_repo_status rc') \<noteq> rs_head (rc_repo_status rc))
    \<and> (rc_generation rc' = rc_generation rc
         \<and> indexed_hash (rc_index rc') = indexed_hash (rc_index rc)
         \<and> rc_snapshot_id rc' = rc_snapshot_id rc \<and> rc_repo_status rc' = rc_repo_status rc
       \<or> rc_generation rc' = Suc (rc_generation rc))"
proof -
  let ?sha = "sc_sha (we_scan env)"
  from upd obtain ci c rc2 where
    f: "(if dr_paths drain = [] then (Inr [], rc_index rc)
        else refresh_paths (we_scan env) d (rc_index rc) (dr_paths drain)) = (Inr changed, ci)"
    and s: "status_step env d (dr_git_event drain \<or> changed \<noteq> []) (rc\<lparr>rc_index := ci\<rparr>) = (c, rc2)"
    and o': "changed = [] \<and> \<not> rsc_changed c \<and> rc' = rc2 \<and> external = []
     \<or> (changed \<noteq> [] \<or> rsc_changed c)
       \<and> rc' = (if changed \<noteq> [] \<or> rsc_head_changed c
               then recompute_snapshot ?sha (bump_generation rc2) else bump_generation rc2)
       \<and> external = external_records env now uuids rc' (filter (\<lambda>p. p \<in> set changed) (dr_external drain))"
    by (rule reconcile_update_cases)
  have ci: "index_inv ?sha ci" by (rule refresh_drain(1) [OF f sha inv])
  have same: "changed = [] \<Longrightarrow> indexed_hash ci = indexed_hash (rc_index rc)"
    using refresh_drain(2) [OF f sha inv] by (intro ext) simp
  then have snap: "changed = [] \<Longrightarrow> index_snapshot_id ?sha ci h = index_snapshot_id ?sha (rc_index rc) h" for h
    by (rule same_hashes_same_snapshot [OF sha ci inv])
  have s': "rc_index rc2 = ci" "rc_generation rc2 = rc_generation rc" "rc_snapshot_id rc2 = rc_snapshot_id rc"
    "rsc_head_changed c \<longleftrightarrow> rs_head (rc_repo_status rc2) \<noteq> rs_head (rc_repo_status rc)"
    "\<not> rsc_changed c \<Longrightarrow> rc_repo_status rc2 = rc_repo_status rc"
    using status_stepD [OF s] by simp_all
  have keep: "changed = [] \<Longrightarrow> rs_head (rc_repo_status rc2) = rs_head (rc_repo_status rc) \<Longrightarrow>
      stamp_current ?sha (rc2\<lparr>rc_generation := g\<rparr>) \<longleftrightarrow> stamp_current ?sha rc" for g
    using snap s' by (simp add: stamp_current_def)
  from keep [of "rc_generation rc2"] have keep0: "changed = [] \<Longrightarrow> rs_head (rc_repo_status rc2) = rs_head (rc_repo_status rc) \<Longrightarrow>
      stamp_current ?sha rc2 \<longleftrightarrow> stamp_current ?sha rc" by simp
  from o' show ?thesis
  proof
    assume "changed = [] \<and> \<not> rsc_changed c \<and> rc' = rc2 \<and> external = []"
    then show ?thesis using keep0 ci s' same by simp
  next
    assume "(changed \<noteq> [] \<or> rsc_changed c)
       \<and> rc' = (if changed \<noteq> [] \<or> rsc_head_changed c
               then recompute_snapshot ?sha (bump_generation rc2) else bump_generation rc2)
       \<and> external = external_records env now uuids rc' (filter (\<lambda>p. p \<in> set changed) (dr_external drain))"
    then have r: "rc' = (if changed \<noteq> [] \<or> rsc_head_changed c
               then recompute_snapshot ?sha (bump_generation rc2) else bump_generation rc2)" by blast
    have "stamp_current ?sha rc' \<longleftrightarrow> stamp_current ?sha rc \<or> changed \<noteq> []
        \<or> rs_head (rc_repo_status rc') \<noteq> rs_head (rc_repo_status rc)"
    proof (cases "changed \<noteq> [] \<or> rsc_head_changed c")
      case True
      then show ?thesis using s'(4) by (auto simp: r)
    next
      case False
      with keep s'(4) have "stamp_current ?sha (bump_generation rc2) \<longleftrightarrow> stamp_current ?sha rc"
        by (simp add: bump_generation_def)
      with False s'(4) show ?thesis by (simp add: r)
    qed
    then show ?thesis using ci s' by (simp add: r)
  qed
qed

section \<open>Properties\<close>

text \<open>C14. The stamp names the state. After a successful reconcile, from any state whose index
  keeps its invariant (every operation of the index keeps it), the snapshot
  identifier is the one of the reconciled index and repository head exactly if it was so before, or the
  reconcile changed an indexed file, or it moved the head: a current stamp stays current although
  the code recomputes the identifier only then, and an identifier that was left behind (by a reconcile
  that failed half-way) is put right by the next one that changes something, but not by an idle one.
  The generation is the old one only if no indexed hash, no repository status and no identifier
  changed, and the index keeps its invariant.\<close>

theorem reconcile_keeps_stamp_current:
  assumes "\<forall>m. length (sc_sha (we_scan env) m) = 32"
    and "index_inv (sc_sha (we_scan env)) (rc_index (ws_rc ws))"
    and "reconcile_with env now ws = (Inr changed, ws')"
  shows "index_inv (sc_sha (we_scan env)) (rc_index (ws_rc ws'))
    \<and> (stamp_current (sc_sha (we_scan env)) (ws_rc ws') \<longleftrightarrow>
         stamp_current (sc_sha (we_scan env)) (ws_rc ws) \<or> changed \<noteq> []
         \<or> rs_head (rc_repo_status (ws_rc ws')) \<noteq> rs_head (rc_repo_status (ws_rc ws)))
    \<and> (rc_generation (ws_rc ws') = rc_generation (ws_rc ws)
         \<and> indexed_hash (rc_index (ws_rc ws')) = indexed_hash (rc_index (ws_rc ws))
         \<and> rc_snapshot_id (ws_rc ws') = rc_snapshot_id (ws_rc ws)
         \<and> rc_repo_status (ws_rc ws') = rc_repo_status (ws_rc ws)
       \<or> rc_generation (ws_rc ws') = Suc (rc_generation (ws_rc ws)))"
proof (cases "fst (drain_pending (we_ledger env) now (ws_ledger ws))")
  case None
  then have "ws_rc ws' = ws_rc ws" "changed = []"
    using assms(3) by (auto simp: reconcile_with_def split: prod.splits)
  then show ?thesis using assms(2) by simp
next
  case (Some drain)
  then obtain lg where dr: "drain_pending (we_ledger env) now (ws_ledger ws) = (Some drain, lg)"
    by (metis prod.collapse)
  obtain external rc' where
    "reconcile_update env now (ws_uuids ws) (ws_disk ws) drain (ws_rc ws) = (Inr (changed, external), rc')"
    "ws_rc ws' = rc'"
    using assms(3) by (auto simp: reconcile_with_def dr split: prod.splits sum.splits)
  with reconcile_update_current [OF this(1) _ assms(2)] assms(1) show ?thesis
    by (simp add: sha_len_def)
qed

definition sample_env_of :: "mem_dir dir_ops \<Rightarrow> mem_dir workspace_env" where
  "sample_env_of ops = \<lparr>we_scan = sample_scan\<lparr>sc_ops := ops\<rparr>, we_is_dir = (\<lambda>_. False),
     we_git_status = (\<lambda>_. Inr repo_status_default), we_uuid = show_nat\<rparr>"

definition sample_ws :: "mem_dir \<Rightarrow> mem_dir workspace_state" where
  "sample_ws d = \<lparr>ws_disk = d, ws_ledger = mark_pending ledger_new [''/w/a''],
     ws_rc = reconciled_new (sc_sha sample_scan)
       (index_insert (sc_sha sample_scan) index_default (sample_entry ''a'' ''1'' [])) (Inr repo_status_default),
     ws_uuids = 0\<rparr>"

lemma sample_drained: "drained (we_ledger (sample_env_of ops)) ''/w/a''"
  unfolding we_ledger_def sample_env_of_def sample_scan_def by code_simp

lemma sample_drain:
  "drain_pending (we_ledger (sample_env_of ops)) 5 (mark_pending ledger_new [''/w/a''])
     = (Some \<lparr>dr_git_event = False, dr_paths = [''/w/a''], dr_external = [''a'']\<rparr>, ledger_new)"
  using sample_drained [of ops]
  by (simp add: drain_pending_def mark_pending_def ledger_new_def drain_path_def drained_def Let_def
      consume_internal_def forget_internal_def we_ledger_def sample_env_of_def sample_scan_def sample_relative)

theorem reconcile_keeps_stamp_current_witness:
  "\<exists>ws'. reconcile_with (sample_env_of mem_ops) 5
       (sample_ws \<lparr>mem_files = Map.empty, mem_faults = [], mem_uuids = 0\<rparr>) = (Inr [''a''], ws')
     \<and> rc_generation (ws_rc ws') = 2 \<and> index_get (rc_index (ws_rc ws')) ''a'' = None
     \<and> stamp_current (sc_sha sample_scan) (ws_rc ws')"
proof -
  let ?env = "sample_env_of mem_ops" and ?d = "\<lparr>mem_files = Map.empty, mem_faults = [], mem_uuids = 0\<rparr>"
  let ?ci = "index_insert (sc_sha sample_scan) index_default (sample_entry ''a'' ''1'' [])"
  let ?ci' = "snd (index_remove_tree (sc_sha sample_scan) ?ci ''a'')"
  have sha: "\<forall>m. length (sc_sha (we_scan ?env) m) = 32" and sc: "we_scan ?env = sample_scan"
    by (simp_all add: sample_env_of_def sample_scan_def)
  have n: "\<not> is_regular_file mem_ops ?d ''a''"
    by (simp add: is_regular_file_def mem_ops_def mem_metadata_def mem_error_def)
  have s: "sc_root sample_scan = ''/w''" "sc_ops sample_scan = mem_ops" by (simp_all add: sample_scan_def)
  have rm: "fst (index_remove_tree (sc_sha sample_scan) ?ci ''a'') = [''a'']"
    by (simp add: index_remove_tree_def Let_def index_insert_files index_default_def sample_entry_def
        entry_with_symbols_def)
  have r: "refresh_paths sample_scan ?d ?ci [''/w/a''] = (Inr [''a''], ?ci')"
    using rm by (simp add: refresh_paths_def refresh_path_def Let_def case_prod_beta s sample_relative sample_rel_path n)
  have inv: "index_inv (sc_sha (we_scan ?env)) (rc_index (ws_rc (sample_ws ?d)))"
    using index_insert_inv [OF _ index_default_inv] sha
    by (simp add: sample_ws_def reconciled_new_def sc sha_len_def)
  have idx: "rc_index (ws_rc (sample_ws ?d)) = ?ci" "ws_disk (sample_ws ?d) = ?d"
    "ws_ledger (sample_ws ?d) = mark_pending ledger_new [''/w/a'']" "ws_uuids (sample_ws ?d) = 0"
    "rc_generation (ws_rc (sample_ws ?d)) = 1"
    by (simp_all add: sample_ws_def reconciled_new_def)
  let ?drain = "\<lparr>dr_git_event = False, dr_paths = [''/w/a''], dr_external = [''a'']\<rparr>"
  have st: "we_git_status ?env ?d = Inr repo_status_default" by (simp add: sample_env_of_def)
  obtain external rc' where u: "reconcile_update ?env 5 0 ?d ?drain (ws_rc (sample_ws ?d)) = (Inr ([''a''], external), rc')"
    and g': "rc_generation rc' = 2" and i': "rc_index rc' = ?ci'"
    by (simp add: reconcile_update_def sc idx r st apply_repo_status_def Let_def)
  obtain ws' where w: "reconcile_with ?env 5 (sample_ws ?d) = (Inr [''a''], ws')" and "ws_rc ws' = rc'"
    by (simp add: reconcile_with_def idx sample_drain u)
  with g' i' have g: "rc_generation (ws_rc ws') = 2" and i: "rc_index (ws_rc ws') = ?ci'" by simp_all
  have "normalize_path_text ''a'' = ''a''" by code_simp
  then have "index_get ?ci' ''a'' = None" by (simp add: index_get_def lookup_remove_tree below_def)
  with reconcile_keeps_stamp_current [OF sha inv w] w g i sc show ?thesis by auto
qed

lemma drain_empties: "drain_pending env now lg = (Some drain, lg') \<Longrightarrow> lg_pending lg' = [] \<and> \<not> lg_needs_reconcile lg'"
proof -
  have fold: "lg_pending (snd (foldl (drain_path env now) s ps)) = lg_pending (snd s)
      \<and> lg_needs_reconcile (snd (foldl (drain_path env now) s ps)) = lg_needs_reconcile (snd s)" for s ps
  proof (induction ps arbitrary: s)
    case (Cons p ps)
    have "lg_pending (snd (drain_path env now s p)) = lg_pending (snd s)
      \<and> lg_needs_reconcile (snd (drain_path env now s p)) = lg_needs_reconcile (snd s)"
      by (cases s) (simp add: drain_path_def consume_internal_def forget_internal_def Let_def)
    then show ?case using Cons.IH [of "drain_path env now s p"] by simp
  qed simp
  assume "drain_pending env now lg = (Some drain, lg')"
  then have "lg' = snd (foldl (drain_path env now) (\<lparr>dr_git_event = False, dr_paths = [], dr_external = []\<rparr>,
      lg\<lparr>lg_needs_reconcile := False, lg_pending := []\<rparr>) (lg_pending lg))"
    by (auto simp: drain_pending_def case_prod_beta split: if_splits)
  then show ?thesis using fold by simp
qed

text \<open>A reconcile that fails forgets the changes it had drained: when re-reading one of the
  queued paths fails, the queue is already empty and no reconcile is requested, the generation
  and the snapshot identifier stay what they were, and every later reconcile does nothing and
  reports no change, although the changes were never applied (or only in part).\<close>

theorem failed_reconcile_forgets_changes:
  assumes "reconcile_with env now ws = (Inl e, ws')"
  shows "lg_pending (ws_ledger ws') = [] \<and> \<not> lg_needs_reconcile (ws_ledger ws')
    \<and> rc_generation (ws_rc ws') = rc_generation (ws_rc ws)
    \<and> rc_snapshot_id (ws_rc ws') = rc_snapshot_id (ws_rc ws)
    \<and> reconcile_pending env later ws' = (Inr [], ws')"
proof -
  obtain dr lg where d: "drain_pending (we_ledger env) now (ws_ledger ws) = (dr, lg)" by fastforce
  with assms obtain drain rc where "dr = Some drain" and ws': "ws' = ws\<lparr>ws_ledger := lg, ws_rc := rc\<rparr>"
    and u: "reconcile_update env now (ws_uuids ws) (ws_disk ws) drain (ws_rc ws) = (Inl e, rc)"
    by (auto simp: reconcile_with_def split: option.splits sum.splits prod.splits)
  with d have "lg_pending lg = [] \<and> \<not> lg_needs_reconcile lg" using drain_empties by blast
  moreover have "rc_generation rc = rc_generation (ws_rc ws) \<and> rc_snapshot_id rc = rc_snapshot_id (ws_rc ws)"
    using u by (auto simp: reconcile_update_def Let_def split: sum.splits prod.splits if_splits)
  ultimately show ?thesis by (simp add: ws' reconcile_pending_def)
qed

theorem failed_reconcile_forgets_changes_witness:
  "\<exists>e ws'. reconcile_with (sample_env_of (mem_ops\<lparr>op_open := \<lambda>_ _. Inl (mem_error IoPermissionDenied)\<rparr>)) 5
       (sample_ws \<lparr>mem_files = [[Normal ''a''] \<mapsto> ''new''], mem_faults = [], mem_uuids = 0\<rparr>) = (Inl e, ws')
     \<and> \<not> lg_needs_reconcile (ws_ledger ws') \<and> rc_generation (ws_rc ws') = 1
     \<and> map_option fe_hash (index_get (rc_index (ws_rc ws')) ''a'') = Some ''1''"
proof -
  let ?ops = "mem_ops\<lparr>op_open := \<lambda>_ _. Inl (mem_error IoPermissionDenied)\<rparr>"
  let ?env = "sample_env_of ?ops" and ?d = "\<lparr>mem_files = [[Normal ''a''] \<mapsto> ''new''], mem_faults = [], mem_uuids = 0\<rparr>"
  let ?ci = "index_insert (sc_sha sample_scan) index_default (sample_entry ''a'' ''1'' [])"
  have sc: "we_scan ?env = sample_scan\<lparr>sc_ops := ?ops\<rparr>" by (simp add: sample_env_of_def)
  have reg: "is_regular_file ?ops ?d ''a''"
    by (simp add: is_regular_file_def mem_ops_def mem_metadata_def sample_components)
  have rf: "read_file ?ops ?d ''a'' 100 = Inl (error_internal ''injected'')"
    by (simp add: read_file_def open_regular_def mem_ops_def mem_metadata_def sample_components mem_error_def)
  have ig: "\<not> is_ignored (sc_exclusions sample_scan) ''/w/a'' False"
    unfolding sample_scan_def by code_simp
  have ex: "\<not> excluded_path ''/w/a''" by code_simp
  have s: "sc_root sample_scan = ''/w''" "sc_max_file_bytes sample_scan = 100" by (simp_all add: sample_scan_def)
  have re: "read_entry (sample_scan\<lparr>sc_ops := ?ops\<rparr>) (\<lambda>_ _. None) ?d ''/w/a'' = Inl (error_internal ''injected'')"
    by (simp add: read_entry_def s sample_relative sample_rel_path rf)
  have rp: "refresh_paths (sample_scan\<lparr>sc_ops := ?ops\<rparr>) ?d ?ci [''/w/a''] = (Inl (error_internal ''injected''), ?ci)"
    by (simp add: refresh_paths_def refresh_path_def Let_def s sample_relative sample_rel_path reg ig ex re)
  have idx: "rc_index (ws_rc (sample_ws ?d)) = ?ci" "ws_disk (sample_ws ?d) = ?d"
    "ws_ledger (sample_ws ?d) = mark_pending ledger_new [''/w/a'']" "ws_uuids (sample_ws ?d) = 0"
    "rc_generation (ws_rc (sample_ws ?d)) = 1"
    by (simp_all add: sample_ws_def reconciled_new_def)
  let ?drain = "\<lparr>dr_git_event = False, dr_paths = [''/w/a''], dr_external = [''a'']\<rparr>"
  obtain rc' where u: "reconcile_update ?env 5 0 ?d ?drain (ws_rc (sample_ws ?d)) = (Inl (error_internal ''injected''), rc')"
    and i': "rc_index rc' = ?ci"
    by (simp add: reconcile_update_def sc idx rp)
  obtain ws' where w: "reconcile_with ?env 5 (sample_ws ?d) = (Inl (error_internal ''injected''), ws')"
    and "ws_rc ws' = rc'"
    by (simp add: reconcile_with_def idx sample_drain u)
  moreover have "normalize_path_text ''a'' = ''a''" by code_simp
  then have "map_option fe_hash (index_get ?ci ''a'') = Some ''1''"
    by (simp add: index_get_def lookup_insert sample_entry_def entry_with_symbols_def)
  ultimately show ?thesis using failed_reconcile_forgets_changes [OF w] i' idx by auto
qed

end
