(* ===== verification/Edit_Commit.thy ===== *)
theory Edit_Commit
  imports Edit_Plan Workspace_State
begin

text \<open>
  Preparing and committing an edit (\<open>prepare_edit\<close> and \<open>recheck_preconditions\<close> of
  \<open>src/workspace/edit.rs\<close>, \<open>src/workspace/commit.rs\<close>, \<open>restore_one\<close> of
  \<open>src/workspace/io_helpers.rs\<close>): the checks, the writes file by file, and the compensation
  that puts the files back when one of them fails. The disk is the parameter of
  \<open>Workspace_Root\<close>; the clock is read once per commit, and the unified diff is a parameter.
\<close>

section \<open>Preconditions\<close>

text \<open>A stale snapshot (\<open>src/workspace/util.rs\<close>).\<close>

definition stale_snapshot_for_paths :: "string \<Rightarrow> string \<Rightarrow> string list \<Rightarrow> app_error" where
  "stale_snapshot_for_paths expected actual paths =
     error_with_details StaleSnapshot ''Workspace changed after the requested snapshot''
       (JObj [(''expected_snapshot'', JStr expected), (''actual_snapshot'', JStr actual),
              (''paths_requiring_refetch'', JArr (map JStr paths)), (''retryable'', JBool True),
              (''suggested_action'', JStr ''Fetch only the affected handles/files again; edits with current expected_hash or handle preconditions can be retried without reopening the workspace.'')])"

definition changes_without_independent_preconditions :: "change list \<Rightarrow> string list" where
  "changes_without_independent_preconditions changes =
     List.map_filter (\<lambda>c.
       let new_create = (case c of Create _ _ overwrite _ \<Rightarrow> \<not> overwrite | _ \<Rightarrow> False);
           has_precondition = (change_expected_hash c \<noteq> None \<or> change_handle c \<noteq> None)
       in if \<not> new_create \<and> \<not> has_precondition then Some (change_path c) else None) changes"

fun recheck_preconditions ::
    "(string \<Rightarrow> string) \<Rightarrow> 'd dir_ops \<Rightarrow> 'd \<Rightarrow> planned_file list \<Rightarrow> app_error + unit" where
  "recheck_preconditions hash ops d [] = Inr ()"
| "recheck_preconditions hash ops d (item # plan) =
     (case read_to_string ops d (pf_path item) of
        Inl e \<Rightarrow> Inl (path_error ReadFailed (io_message e) (pf_path item))
      | Inr actual \<Rightarrow>
          let actual_hash = map_option hash actual in
          if actual_hash \<noteq> pf_before_hash item
          then Inl (path_error_with StaleFile ''File changed after planning and before commit'' (pf_path item)
                 [(''expected_hash'', json_opt_str (pf_before_hash item)),
                  (''actual_hash'', json_opt_str actual_hash)])
          else recheck_preconditions hash ops d plan)"

section \<open>Compensation\<close>

definition restore_one :: "'d dir_ops \<Rightarrow> 'd \<Rightarrow> planned_file \<Rightarrow> (io_error + unit) \<times> 'd" where
  "restore_one ops d item =
     (case pf_before item of
        Some content \<Rightarrow> atomic_write ops d (pf_path item) content
      | None \<Rightarrow> remove_file ops d (pf_path item))"

record compensation_report =
  cr_restored_paths :: "string list"
  cr_failures :: "(string \<times> string) list"
  cr_refresh_error :: "app_error option"

definition report_default :: compensation_report where
  "report_default = \<lparr>cr_restored_paths = [], cr_failures = [], cr_refresh_error = None\<rparr>"

definition manual_recovery_required :: "compensation_report \<Rightarrow> bool" where
  "manual_recovery_required report \<longleftrightarrow> cr_failures report \<noteq> []"

text \<open>The loop over the completed files, newest first.\<close>

fun restore_all ::
    "'d dir_ops \<Rightarrow> 'd \<Rightarrow> planned_file list \<Rightarrow> compensation_report \<Rightarrow> compensation_report \<times> 'd" where
  "restore_all ops d [] report = (report, d)"
| "restore_all ops d (item # items) report =
     (case restore_one ops d item of
        (Inr _, d') \<Rightarrow>
          restore_all ops d' items
            (report\<lparr>cr_restored_paths := cr_restored_paths report @ [pf_path item]\<rparr>)
      | (Inl e, d') \<Rightarrow>
          restore_all ops d' items
            (report\<lparr>cr_failures := cr_failures report @ [(pf_path item, io_message e)]\<rparr>))"

definition planned_absolute :: "'d workspace_env \<Rightarrow> planned_file \<Rightarrow> string" where
  "planned_absolute env item = root_join (sc_root (we_scan env)) (pf_path item)"

definition compensate ::
    "'d workspace_env \<Rightarrow> nat \<Rightarrow> 'd workspace_state \<Rightarrow> planned_file list \<Rightarrow> bool
     \<Rightarrow> compensation_report \<times> 'd workspace_state" where
  "compensate env now ws completed refresh_index =
     (if completed = [] then (report_default, ws)
      else
        let lg = foldl (\<lambda>lg item. record_internal lg (planned_absolute env item) now)
                   (ws_ledger ws) completed
        in case restore_all (sc_ops (we_scan env)) (ws_disk ws) (rev completed) report_default of
             (report, d) \<Rightarrow>
               if \<not> refresh_index then (report, ws\<lparr>ws_ledger := lg, ws_disk := d\<rparr>)
               else
                 let paths = map (planned_absolute env) completed in
                 (case refresh_paths (we_scan env) d (rc_index (ws_rc ws)) paths of
                    (Inl e, ci) \<Rightarrow>
                      (report\<lparr>cr_refresh_error := Some e\<rparr>,
                       ws\<lparr>ws_ledger := mark_pending lg paths, ws_disk := d,
                          ws_rc := (ws_rc ws)\<lparr>rc_index := ci\<rparr>\<rparr>)
                  | (Inr _, ci) \<Rightarrow>
                      (report, ws\<lparr>ws_ledger := lg, ws_disk := d, ws_rc := (ws_rc ws)\<lparr>rc_index := ci\<rparr>\<rparr>)))"

section \<open>Commit\<close>

text \<open>The serialized error (\<open>src/error.rs\<close>): details only when there are some.\<close>

definition app_error_json :: "app_error \<Rightarrow> json" where
  "app_error_json e =
     JObj ([(''code'', JStr (error_code_as_str (ae_code e))), (''message'', JStr (ae_message e))]
           @ (case ae_details e of None \<Rightarrow> [] | Some d \<Rightarrow> [(''details'', d)]))"

definition failure_json :: "string \<times> string \<Rightarrow> json" where
  "failure_json f = JObj [(''path'', JStr (fst f)), (''error'', JStr (snd f))]"

definition write_failed ::
    "planned_file \<Rightarrow> planned_file list \<Rightarrow> compensation_report \<Rightarrow> string \<Rightarrow> app_error" where
  "write_failed item completed report message =
     error_with_details (if manual_recovery_required report then PartialCommit else AtomicWriteFailed) message
       (JObj [(''failed_path'', JStr (pf_path item)),
              (''completed_before_failure'', JArr (map (\<lambda>f. JStr (pf_path f)) completed)),
              (''restored_paths'', JArr (map JStr (cr_restored_paths report))),
              (''compensation_failures'', JArr (map failure_json (cr_failures report))),
              (''manual_recovery_required'', JBool (manual_recovery_required report))])"

text \<open>One file of the plan: the marker of the coming write, the write or the removal.\<close>

definition apply_one ::
    "'d workspace_env \<Rightarrow> nat \<Rightarrow> 'd workspace_state \<Rightarrow> planned_file
     \<Rightarrow> (io_error + unit) \<times> 'd workspace_state" where
  "apply_one env now ws item =
     (let absolute = planned_absolute env item;
          lg = record_internal (ws_ledger ws) absolute now
      in case (case pf_after item of
                 Some content \<Rightarrow> atomic_write (sc_ops (we_scan env)) (ws_disk ws) (pf_path item) content
               | None \<Rightarrow> remove_file (sc_ops (we_scan env)) (ws_disk ws) (pf_path item)) of
           (Inl e, d) \<Rightarrow> (Inl e, ws\<lparr>ws_disk := d, ws_ledger := forget_internal lg absolute\<rparr>)
         | (Inr _, d) \<Rightarrow> (Inr (), ws\<lparr>ws_disk := d, ws_ledger := lg\<rparr>))"

fun apply_plan ::
    "'d workspace_env \<Rightarrow> nat \<Rightarrow> planned_file list \<Rightarrow> 'd workspace_state \<Rightarrow> planned_file list
     \<Rightarrow> (app_error + unit) \<times> 'd workspace_state" where
  "apply_plan env now completed ws [] = (Inr (), ws)"
| "apply_plan env now completed ws (item # items) =
     (case apply_one env now ws item of
        (Inl e, ws1) \<Rightarrow>
          (case compensate env now ws1 completed False of
             (report, ws2) \<Rightarrow> (Inl (write_failed item completed report (io_message e)), ws2))
      | (Inr _, ws1) \<Rightarrow> apply_plan env now (completed @ [item]) ws1 items)"

definition failed_after_apply ::
    "'d workspace_env \<Rightarrow> nat \<Rightarrow> 'd workspace_state \<Rightarrow> planned_file list \<Rightarrow> error_code \<Rightarrow> string
     \<Rightarrow> app_error \<times> 'd workspace_state" where
  "failed_after_apply env now ws completed failure_code message =
     (case compensate env now ws completed True of
        (report, ws') \<Rightarrow>
          (error_with_details (if manual_recovery_required report then PartialCommit else failure_code) message
             (JObj [(''completed_before_failure'', JArr (map (\<lambda>f. JStr (pf_path f)) completed)),
                    (''restored_paths'', JArr (map JStr (cr_restored_paths report))),
                    (''compensation_failures'', JArr (map failure_json (cr_failures report))),
                    (''manual_recovery_required'', JBool (manual_recovery_required report)),
                    (''compensation_refresh_error'',
                      case cr_refresh_error report of None \<Rightarrow> JNull | Some e \<Rightarrow> app_error_json e)]),
           ws'))"

definition edit_records ::
    "'d workspace_env \<Rightarrow> nat \<Rightarrow> 'd workspace_state \<Rightarrow> planned_file list \<Rightarrow> string \<Rightarrow> mutation_record list" where
  "edit_records env now ws plan request_id =
     map (\<lambda>(i, item). \<lparr>mu_id = new_mutation_id env (ws_uuids ws + i), mu_path = pf_path item,
            mu_before_hash = pf_before_hash item,
            mu_after_hash = map_option (content_hash (sc_sha (we_scan env))) (pf_after item),
            mu_source = McpEdit, mu_request_id = request_id, mu_timestamp = now,
            mu_generation = rc_generation (ws_rc ws) + 1\<rparr>) (enumerate 0 plan)"

text \<open>The update after all files are written: the index, the status, the stamp.\<close>

definition publish_edit ::
    "'d workspace_env \<Rightarrow> 'd workspace_state \<Rightarrow> string list \<Rightarrow> (app_error + unit) \<times> reconciled" where
  "publish_edit env ws paths =
     (let rc = ws_rc ws; status = we_git_status env (ws_disk ws) in
      case refresh_paths (we_scan env) (ws_disk ws) (rc_index rc) paths of
        (Inl e, ci) \<Rightarrow> (Inl e, rc\<lparr>rc_index := ci\<rparr>)
      | (Inr _, ci) \<Rightarrow>
          let rc2 = snd (apply_repo_status (rc\<lparr>rc_index := ci\<rparr>) status)
          in (Inr (), recompute_snapshot (sc_sha (we_scan env)) (bump_generation rc2)))"

definition commit_plan ::
    "'d workspace_env \<Rightarrow> nat \<Rightarrow> 'd workspace_state \<Rightarrow> planned_file list \<Rightarrow> string
     \<Rightarrow> (app_error + mutation_record list) \<times> 'd workspace_state" where
  "commit_plan env now ws plan request_id =
     (let records = edit_records env now ws plan request_id;
          ws0 = ws\<lparr>ws_uuids := ws_uuids ws + length plan\<rparr>
      in case apply_plan env now [] ws0 plan of
           (Inl e, ws1) \<Rightarrow> (Inl e, ws1)
         | (Inr _, ws1) \<Rightarrow>
             (case publish_edit env ws1 (map (planned_absolute env) plan) of
                (Inl e, rc) \<Rightarrow>
                  (case failed_after_apply env now (ws1\<lparr>ws_rc := rc\<rparr>) plan IndexRefreshFailed (error_display e) of
                     (err, ws2) \<Rightarrow> (Inl err, ws2))
              | (Inr _, rc) \<Rightarrow>
                  (Inr records, ws1\<lparr>ws_rc := rc, ws_ledger := ledger_record (ws_ledger ws1) records\<rparr>)))"

section \<open>Preparing an edit\<close>

record edit_request =
  er_changes :: "change list"
  er_snapshot_id :: "string option"
  er_preview :: bool

record edit_params =
  ep_id :: string
  ep_decode :: "string \<Rightarrow> string + range_handle"
  ep_symbols :: "rel_path \<Rightarrow> string \<Rightarrow> symbol list"
  ep_parse_has_error :: "rel_path \<Rightarrow> string \<Rightarrow> bool option"
  ep_render_diff :: "planned_file list \<Rightarrow> string"

definition edit_env_of :: "'d workspace_env \<Rightarrow> edit_params \<Rightarrow> edit_env" where
  "edit_env_of env ep = \<lparr>ev_id = ep_id ep, ev_hash = content_hash (sc_sha (we_scan env)),
     ev_decode = ep_decode ep, ev_symbols = ep_symbols ep, ev_parse_has_error = ep_parse_has_error ep\<rparr>"

definition indexed_content :: "code_index \<Rightarrow> indexed_text" where
  "indexed_content ci p = map_option fe_content (index_get ci p)"

text \<open>The syntax preflight: per written file its path and whether it was checked.\<close>

fun syntax_checks :: "edit_env \<Rightarrow> planned_file list \<Rightarrow> app_error + (string \<times> string) list" where
  "syntax_checks env [] = Inr []"
| "syntax_checks env (item # items) =
     (case pf_after item of
        None \<Rightarrow> syntax_checks env items
      | Some after \<Rightarrow>
          (case ev_parse_has_error env (pf_path item) after of
             Some True \<Rightarrow>
               Inl (path_error SyntaxError ''Tree-sitter found syntax errors in planned content'' (pf_path item))
           | Some False \<Rightarrow> map_sum id ((#) (pf_path item, ''checked'')) (syntax_checks env items)
           | None \<Rightarrow> map_sum id ((#) (pf_path item, ''skipped'')) (syntax_checks env items)))"

datatype prepared_edit =
    Preview stamp "string option" string "(string \<times> string) list" "string list"
  | Applied "planned_file list" "mutation_record list" string "string option" "(string \<times> string) list"

text \<open>The checks and the plan, from the reconciled state.\<close>

definition plan_edit ::
    "'d workspace_env \<Rightarrow> edit_params \<Rightarrow> reconciled \<Rightarrow> edit_request \<Rightarrow> app_error + planned_file list" where
  "plan_edit env ep rc request =
     (let current_snapshot = rc_snapshot_id rc;
          changes = er_changes request;
          ev = edit_env_of env ep;
          index = indexed_content (rc_index rc)
      in if changes = [] then Inl (error_invalid ''changes cannot be empty'')
         else
           let snapshot_matches = (case er_snapshot_id request of
                                     None \<Rightarrow> True | Some expected \<Rightarrow> expected = current_snapshot);
               unsafe_paths = changes_without_independent_preconditions changes
           in if \<not> snapshot_matches \<and> unsafe_paths \<noteq> []
              then Inl (stale_snapshot_for_paths
                     (case er_snapshot_id request of None \<Rightarrow> [] | Some s \<Rightarrow> s) current_snapshot unsafe_paths)
              else case preflight_overlaps ev index changes of
                     Inl e \<Rightarrow> Inl e
                   | Inr _ \<Rightarrow>
                       map_sum id (sort_key pf_path)
                         (plan_changes ev (er_snapshot_id request \<noteq> None \<and> snapshot_matches) index changes))"

definition prepare_edit ::
    "'d workspace_env \<Rightarrow> edit_params \<Rightarrow> nat \<Rightarrow> 'd workspace_state \<Rightarrow> edit_request
     \<Rightarrow> (app_error + prepared_edit) \<times> 'd workspace_state" where
  "prepare_edit env ep now ws request =
     (case reconcile_with env now ws of
        (Inl e, ws1) \<Rightarrow> (Inl e, ws1)
      | (Inr _, ws1) \<Rightarrow>
          (case plan_edit env ep (ws_rc ws1) request of
             Inl e \<Rightarrow> (Inl e, ws1)
           | Inr planned \<Rightarrow>
               (case syntax_checks (edit_env_of env ep) planned of
                  Inl e \<Rightarrow> (Inl e, ws1)
                | Inr checks \<Rightarrow>
                    let diff = ep_render_diff ep planned;
                        rebased_from = (case er_snapshot_id request of
                          None \<Rightarrow> None
                        | Some s \<Rightarrow> if s = rc_snapshot_id (ws_rc ws1) then None else Some s)
                    in if er_preview request
                       then (Inr (Preview (read_stamp (ws_rc ws1)) rebased_from diff checks (map pf_path planned)), ws1)
                       else (case recheck_preconditions (content_hash (sc_sha (we_scan env)))
                                    (sc_ops (we_scan env)) (ws_disk ws1) planned of
                               Inl e \<Rightarrow> (Inl e, ws1)
                             | Inr _ \<Rightarrow>
                                 let request_id = ''req_'' @ we_uuid env (ws_uuids ws1);
                                     ws2 = ws1\<lparr>ws_uuids := Suc (ws_uuids ws1)\<rparr>
                                 in (case commit_plan env now ws2 planned request_id of
                                       (Inl e, ws3) \<Rightarrow> (Inl e, ws3)
                                     | (Inr records, ws3) \<Rightarrow>
                                         (Inr (Applied planned records diff rebased_from checks), ws3))))))"

section \<open>What the writes leave\<close>

abbreviation file_key :: "planned_file \<Rightarrow> component list" where
  "file_key f \<equiv> path_components (pf_path f)"

definition written :: "(component list \<Rightarrow> string option) \<Rightarrow> planned_file list \<Rightarrow> component list \<Rightarrow> string option" where
  "written m plan = foldl (\<lambda>m f. m(file_key f := pf_after f)) m plan"

lemma written_Cons [simp]: "written m (f # fs) = written (m(file_key f := pf_after f)) fs"
  by (simp add: written_def)

lemma written_Nil [simp]: "written m [] = m"
  by (simp add: written_def)



text \<open>After a failed commit: every file agrees with \<open>m\<close>, the files before the edit, except
  those that the report names as not restored.\<close>

definition restored_except ::
    "(component list \<Rightarrow> string option) \<Rightarrow> (string \<times> string) list \<Rightarrow> planned_file list
     \<Rightarrow> (component list \<Rightarrow> string option) \<Rightarrow> bool" where
  "restored_except m failures plan s \<longleftrightarrow>
     (\<forall>x. (\<forall>f \<in> set plan. file_key f = x \<longrightarrow> pf_path f \<notin> fst ` set failures) \<longrightarrow> s x = m x)"

definition error_failures :: "app_error \<Rightarrow> (string \<times> string) list \<Rightarrow> bool" where
  "error_failures e failures \<longleftrightarrow>
     (\<exists>d. ae_details e = Some d
        \<and> json_get d ''compensation_failures'' = Some (JArr (map failure_json failures))
        \<and> json_get d ''manual_recovery_required'' = Some (JBool (failures \<noteq> []))
        \<and> (ae_code e = PartialCommit \<longleftrightarrow> failures \<noteq> []))"

context dir_contract
begin

abbreviation seen :: "'d \<Rightarrow> component list \<Rightarrow> string option" where
  "seen \<equiv> seen_view view"

lemma apply_one_seen:
  assumes "sc_ops (we_scan env) = ops" "\<not> is_temp_file (pf_path f)" "apply_one env now ws f = (r, ws')"
  shows "seen (ws_disk ws') = (case r of Inl _ \<Rightarrow> seen (ws_disk ws)
      | Inr _ \<Rightarrow> (seen (ws_disk ws))(file_key f := pf_after f))"
    and "ws_rc ws' = ws_rc ws \<and> ws_uuids ws' = ws_uuids ws \<and> lg_events (ws_ledger ws') = lg_events (ws_ledger ws)"
proof -
  obtain q d where q: "(case pf_after f of Some content \<Rightarrow> atomic_write ops (ws_disk ws) (pf_path f) content
      | None \<Rightarrow> remove_file ops (ws_disk ws) (pf_path f)) = (q, d)" by fastforce
  have "seen d = (case q of Inl _ \<Rightarrow> seen (ws_disk ws) | Inr _ \<Rightarrow> (seen (ws_disk ws))(file_key f := pf_after f))"
  proof (cases "pf_after f")
    case None
    with q assms(2) store.del_ok store.del_fail show ?thesis by (cases q) auto
  next
    case (Some content)
    with q assms(2) store.put_ok store.put_fail show ?thesis by (cases q) auto
  qed
  then show "seen (ws_disk ws') = (case r of Inl _ \<Rightarrow> seen (ws_disk ws)
      | Inr _ \<Rightarrow> (seen (ws_disk ws))(file_key f := pf_after f))"
    "ws_rc ws' = ws_rc ws \<and> ws_uuids ws' = ws_uuids ws \<and> lg_events (ws_ledger ws') = lg_events (ws_ledger ws)"
    using assms(1,3) q
    by (auto simp: apply_one_def Let_def record_internal_def forget_internal_def split: sum.splits)
qed

lemma restore_one_seen:
  assumes "\<not> is_temp_file (pf_path f)" "restore_one ops d f = (r, d')"
  shows "seen d' = (case r of Inl _ \<Rightarrow> seen d | Inr _ \<Rightarrow> (seen d)(file_key f := pf_before f))"
proof (cases "pf_before f")
  case None
  with assms store.del_ok store.del_fail show ?thesis by (cases r) (auto simp: restore_one_def)
next
  case (Some content)
  with assms store.put_ok store.put_fail show ?thesis by (cases r) (auto simp: restore_one_def)
qed

lemma restore_all_seen:
  assumes "restore_all ops d items report = (report', d')"
    and "\<forall>f \<in> set items. \<not> is_temp_file (pf_path f) \<and> m (file_key f) = pf_before f"
  shows "(\<forall>x. seen d x = m x \<longrightarrow> seen d' x = m x)
    \<and> (\<forall>f \<in> set items. pf_path f \<notin> fst ` set (cr_failures report') \<longrightarrow> seen d' (file_key f) = m (file_key f))
    \<and> set (cr_failures report) \<subseteq> set (cr_failures report')"
  using assms
proof (induction items arbitrary: d report)
  case (Cons f items)
  obtain r d1 where r: "restore_one ops d f = (r, d1)" by fastforce
  have s: "seen d1 = (case r of Inl _ \<Rightarrow> seen d | Inr _ \<Rightarrow> (seen d)(file_key f := pf_before f))"
    using restore_one_seen [OF _ r] Cons.prems(2) by simp
  define report1 where "report1 = (case r of
      Inr _ \<Rightarrow> report\<lparr>cr_restored_paths := cr_restored_paths report @ [pf_path f]\<rparr>
    | Inl e \<Rightarrow> report\<lparr>cr_failures := cr_failures report @ [(pf_path f, io_message e)]\<rparr>)"
  have "restore_all ops d1 items report1 = (report', d')"
    using Cons.prems(1) r by (auto simp: report1_def split: sum.splits)
  with Cons have ih: "\<forall>x. seen d1 x = m x \<longrightarrow> seen d' x = m x"
    "\<forall>f \<in> set items. pf_path f \<notin> fst ` set (cr_failures report') \<longrightarrow> seen d' (file_key f) = m (file_key f)"
    "set (cr_failures report1) \<subseteq> set (cr_failures report')" by auto
  have mf: "m (file_key f) = pf_before f" using Cons.prems(2) by simp
  show ?case
  proof (cases r)
    case (Inl e)
    then have "set (cr_failures report1) = insert (pf_path f, io_message e) (set (cr_failures report))"
      by (simp add: report1_def)
    with ih s Inl show ?thesis by (auto simp: image_iff)
  next
    case (Inr u)
    then have "cr_failures report1 = cr_failures report" by (simp add: report1_def)
    with ih s Inr mf show ?thesis by auto
  qed
qed simp

lemma compensate_seen:
  assumes "sc_ops (we_scan env) = ops" "compensate env now ws completed b = (report, ws')"
    and "\<forall>f \<in> set completed. \<not> is_temp_file (pf_path f) \<and> m (file_key f) = pf_before f"
    and "\<forall>x. seen (ws_disk ws) x = m x \<or> x \<in> file_key ` set completed"
    and "set completed \<subseteq> set plan"
  shows "restored_except m (cr_failures report) plan (seen (ws_disk ws'))"
proof (cases "completed = []")
  case True
  then show ?thesis using assms by (simp add: compensate_def restored_except_def)
next
  case False
  obtain report0 d where r: "restore_all ops (ws_disk ws) (rev completed) report_default = (report0, d)"
    by fastforce
  have "cr_failures report = cr_failures report0" "ws_disk ws' = d"
    using assms(1,2) False r
    by (auto simp: compensate_def Let_def split: if_splits prod.splits sum.splits)
  moreover have "restored_except m (cr_failures report0) plan (seen d)"
    unfolding restored_except_def
  proof (intro allI impI)
    fix x
    assume x: "\<forall>f \<in> set plan. file_key f = x \<longrightarrow> pf_path f \<notin> fst ` set (cr_failures report0)"
    have all: "(\<forall>x. seen (ws_disk ws) x = m x \<longrightarrow> seen d x = m x)
      \<and> (\<forall>f \<in> set completed. pf_path f \<notin> fst ` set (cr_failures report0) \<longrightarrow> seen d (file_key f) = m (file_key f))"
      using restore_all_seen [OF r, of m] assms(3) by simp
    show "seen d x = m x"
    proof (cases "seen (ws_disk ws) x = m x")
      case False
      then obtain f where "f \<in> set completed" "file_key f = x" using assms(4) by fastforce
      with all x assms(5) show ?thesis by blast
    qed (use all in blast)
  qed
  ultimately show ?thesis by simp
qed

lemma error_failures_json:
  "error_failures (error_with_details (if manual_recovery_required report then PartialCommit else c) msg
     (JObj (pre @ [(''compensation_failures'', JArr (map failure_json (cr_failures report))),
                   (''manual_recovery_required'', JBool (manual_recovery_required report))] @ post)))
     (cr_failures report)"
  if "c \<noteq> PartialCommit" "request_policy_of c = None" "request_policy_of PartialCommit = None"
    "''compensation_failures'' \<notin> fst ` set pre" "''manual_recovery_required'' \<notin> fst ` set pre"
proof -
  have "(m ++ map_of pre) k = m k" if "k \<notin> fst ` set pre" for m :: "string \<rightharpoonup> json" and k
    using that by (simp add: map_add_dom_app_simps dom_map_of_conv_image_fst)
  with that show ?thesis
    by (auto simp: error_failures_def error_with_details_def error_build_def json_get_def
        manual_recovery_required_def)
qed

lemma apply_plan_seen:
  assumes "sc_ops (we_scan env) = ops" "apply_plan env now completed ws items = (r, ws')"
    and "\<forall>f \<in> set plan. \<not> is_temp_file (pf_path f) \<and> m (file_key f) = pf_before f"
    and "set completed \<subseteq> set plan" "set items \<subseteq> set plan"
    and "\<forall>x. seen (ws_disk ws) x = m x \<or> x \<in> file_key ` set completed"
  shows "case r of
      Inr _ \<Rightarrow> seen (ws_disk ws') = written (seen (ws_disk ws)) items \<and> ws_rc ws' = ws_rc ws
        \<and> ws_uuids ws' = ws_uuids ws \<and> lg_events (ws_ledger ws') = lg_events (ws_ledger ws)
        \<and> (\<forall>x. seen (ws_disk ws') x = m x \<or> x \<in> file_key ` (set completed \<union> set items))
    | Inl e \<Rightarrow> \<exists>failures. error_failures e failures \<and> restored_except m failures plan (seen (ws_disk ws'))"
  using assms
proof (induction items arbitrary: completed ws)
  case Nil
  then show ?case by auto
next
  case (Cons f items)
  obtain q ws1 where q: "apply_one env now ws f = (q, ws1)" by fastforce
  have f: "\<not> is_temp_file (pf_path f)" using Cons.prems by auto
  note s = apply_one_seen [OF Cons.prems(1) f q]
  show ?case
  proof (cases q)
    case (Inl e)
    obtain report ws2 where c: "compensate env now ws1 completed False = (report, ws2)" by fastforce
    have r: "r = Inl (write_failed f completed report (io_message e))" "ws' = ws2"
      using Cons.prems(2) q Inl c by auto
    have "restored_except m (cr_failures report) plan (seen (ws_disk ws2))"
      by (rule compensate_seen [OF Cons.prems(1) c]) (use s Inl Cons.prems in auto)
    moreover have "error_failures (write_failed f completed report (io_message e)) (cr_failures report)"
      using error_failures_json [of AtomicWriteFailed "[(''failed_path'', JStr (pf_path f)),
          (''completed_before_failure'', JArr (map (\<lambda>f. JStr (pf_path f)) completed)),
          (''restored_paths'', JArr (map JStr (cr_restored_paths report)))]" report "io_message e" "[]"]
      by (simp add: write_failed_def request_policy_of_def)
    ultimately show ?thesis using r by auto
  next
    case (Inr u)
    have a: "apply_plan env now (completed @ [f]) ws1 items = (r, ws')"
      using Cons.prems(2) q Inr by simp
    have s1: "seen (ws_disk ws1) = (seen (ws_disk ws))(file_key f := pf_after f)" using s(1) Inr by simp
    have "case r of
      Inr _ \<Rightarrow> seen (ws_disk ws') = written (seen (ws_disk ws1)) items \<and> ws_rc ws' = ws_rc ws1
        \<and> ws_uuids ws' = ws_uuids ws1 \<and> lg_events (ws_ledger ws') = lg_events (ws_ledger ws1)
        \<and> (\<forall>x. seen (ws_disk ws') x = m x \<or> x \<in> file_key ` (set (completed @ [f]) \<union> set items))
    | Inl e \<Rightarrow> \<exists>failures. error_failures e failures \<and> restored_except m failures plan (seen (ws_disk ws'))"
      by (rule Cons.IH [OF Cons.prems(1) a Cons.prems(3)]) (use Cons.prems s1 in auto)
    then show ?thesis using s(2) s1 by (cases r) auto
  qed
qed

lemma commit_plan_seen:
  assumes env: "sc_ops (we_scan env) = ops" and c: "commit_plan env now ws plan request_id = (r, ws')"
    and plan: "\<forall>f \<in> set plan. \<not> is_temp_file (pf_path f) \<and> seen (ws_disk ws) (file_key f) = pf_before f"
  shows "case r of
      Inr records \<Rightarrow> seen (ws_disk ws') = written (seen (ws_disk ws)) plan
        \<and> records = edit_records env now ws plan request_id
        \<and> rc_generation (ws_rc ws') = Suc (rc_generation (ws_rc ws))
        \<and> stamp_current (sc_sha (we_scan env)) (ws_rc ws')
        \<and> lg_events (ws_ledger ws') = take_last max_mutation_events (lg_events (ws_ledger ws) @ records)
    | Inl e \<Rightarrow> \<exists>failures. error_failures e failures
        \<and> restored_except (seen (ws_disk ws)) failures plan (seen (ws_disk ws'))"
proof -
  let ?ws0 = "ws\<lparr>ws_uuids := ws_uuids ws + length plan\<rparr>" and ?m = "seen (ws_disk ws)"
  obtain q ws1 where a: "apply_plan env now [] ?ws0 plan = (q, ws1)" by fastforce
  have s: "case q of
      Inr _ \<Rightarrow> seen (ws_disk ws1) = written (seen (ws_disk ?ws0)) plan \<and> ws_rc ws1 = ws_rc ?ws0
        \<and> ws_uuids ws1 = ws_uuids ?ws0 \<and> lg_events (ws_ledger ws1) = lg_events (ws_ledger ?ws0)
        \<and> (\<forall>x. seen (ws_disk ws1) x = ?m x \<or> x \<in> file_key ` (set [] \<union> set plan))
    | Inl e \<Rightarrow> \<exists>failures. error_failures e failures \<and> restored_except ?m failures plan (seen (ws_disk ws1))"
    by (rule apply_plan_seen [OF env a plan]) auto
  show ?thesis
  proof (cases q)
    case (Inl e)
    with c a s show ?thesis by (auto simp: commit_plan_def Let_def)
  next
    case (Inr u)
    note s = s [unfolded Inr sum.case]
    let ?paths = "map (planned_absolute env) plan"
    obtain p rc where p: "publish_edit env ws1 ?paths = (p, rc)" by fastforce
    show ?thesis
    proof (cases p)
      case p': (Inl e)
      obtain report ws2 where k: "compensate env now (ws1\<lparr>ws_rc := rc\<rparr>) plan True = (report, ws2)" by fastforce
      have "restored_except ?m (cr_failures report) plan (seen (ws_disk ws2))"
        by (rule compensate_seen [OF env k]) (use plan s in auto)
      moreover obtain x where x: "x = (case cr_refresh_error report of None \<Rightarrow> JNull | Some e \<Rightarrow> app_error_json e)"
        by simp
      obtain err where err: "failed_after_apply env now (ws1\<lparr>ws_rc := rc\<rparr>) plan IndexRefreshFailed (error_display e)
          = (err, ws2)"
        by (simp add: failed_after_apply_def k)
      then have "error_failures err (cr_failures report)"
        using error_failures_json [of IndexRefreshFailed "[(''completed_before_failure'', JArr (map (\<lambda>f. JStr (pf_path f)) plan)),
            (''restored_paths'', JArr (map JStr (cr_restored_paths report)))]" report "error_display e"
            "[(''compensation_refresh_error'', x)]"]
        by (auto simp: failed_after_apply_def k x request_policy_of_def)
      ultimately show ?thesis using c a Inr p p' err
        by (auto simp: commit_plan_def Let_def)
    next
      case p': (Inr v)
      have "rc_generation rc = Suc (rc_generation (ws_rc ws1)) \<and> stamp_current (sc_sha (we_scan env)) rc"
        using p p' by (auto simp: publish_edit_def Let_def split: sum.splits prod.splits)
      with c a Inr p p' s show ?thesis by (auto simp: commit_plan_def Let_def)
    qed
  qed
qed

end

section \<open>Preparation lemmas\<close>

lemma recheck_ok:
  "recheck_preconditions hash ops d plan = Inr () \<Longrightarrow> f \<in> set plan \<Longrightarrow>
     \<exists>found. read_to_string ops d (pf_path f) = Inr found \<and> map_option hash found = pf_before_hash f"
  by (induction plan) (auto simp: Let_def split: sum.splits if_splits)

lemma syntax_checks_ok:
  "syntax_checks env plan = Inr checks \<Longrightarrow> f \<in> set plan \<Longrightarrow> pf_after f = Some after \<Longrightarrow>
     ev_parse_has_error env (pf_path f) after \<noteq> Some True"
proof (induction plan arbitrary: checks)
  case (Cons g plan)
  have "map_sum id h x = Inr y \<Longrightarrow> \<exists>z. x = Inr z" for h :: "(string \<times> string) list \<Rightarrow> (string \<times> string) list"
    and x :: "app_error + (string \<times> string) list" and y
    by (cases x) auto
  with Cons show ?case by (auto split: option.splits bool.splits)
qed simp

lemma reconcile_disk: "reconcile_with env now ws = (r, ws1) \<Longrightarrow> ws_disk ws1 = ws_disk ws"
  by (auto simp: reconcile_with_def split: prod.splits option.splits sum.splits)

lemma plan_edit_ok:
  assumes "plan_edit env ep rc request = Inr planned"
  shows "sorted (map pf_path planned) \<and> distinct (map pf_path planned)
    \<and> (\<forall>f \<in> set planned. pf_before f = indexed_content (rc_index rc) (pf_path f)
         \<and> pf_before_hash f = map_option (content_hash (sc_sha (we_scan env))) (pf_before f))"
proof -
  obtain b plan where p: "plan_changes (edit_env_of env ep) b (indexed_content (rc_index rc)) (er_changes request) = Inr plan"
    and s: "planned = sort_key pf_path plan"
    using assms
    by (auto simp: plan_edit_def Let_def map_sum_def split: if_splits sum.splits)
  have ok: "plan_ok (edit_env_of env ep) (indexed_content (rc_index rc)) plan"
    using plan_changes_ok [OF p] .
  have "mset (map pf_path planned) = mset (map pf_path plan)" by (simp add: s)
  then have "distinct (map pf_path planned)"
    using ok by (metis mset_eq_imp_distinct_iff plan_ok_def)
  then show ?thesis using ok by (simp add: s plan_ok_def edit_env_of_def)
qed

text \<open>The steps of a preparation that did not fail.\<close>

lemma prepare_editE:
  assumes "prepare_edit env ep now ws request = (Inr p, ws')"
  obtains changed ws1 planned checks where
    "reconcile_with env now ws = (Inr changed, ws1)"
    "plan_edit env ep (ws_rc ws1) request = Inr planned"
    "syntax_checks (edit_env_of env ep) planned = Inr checks"
    "er_preview request \<Longrightarrow> ws' = ws1"
    "\<not> er_preview request \<Longrightarrow>
       recheck_preconditions (content_hash (sc_sha (we_scan env))) (sc_ops (we_scan env)) (ws_disk ws1) planned = Inr ()
       \<and> (\<exists>records d s. commit_plan env now (ws1\<lparr>ws_uuids := Suc (ws_uuids ws1)\<rparr>) planned
            (''req_'' @ we_uuid env (ws_uuids ws1)) = (Inr records, ws') \<and> p = Applied planned records d s checks)"
    "er_preview request \<longleftrightarrow> (\<exists>a b c d e. p = Preview a b c d e)"
proof -
  obtain changed ws1 where 1: "reconcile_with env now ws = (Inr changed, ws1)"
    using assms by (auto simp: prepare_edit_def split: prod.splits sum.splits)
  obtain planned where 2: "plan_edit env ep (ws_rc ws1) request = Inr planned"
    using assms 1 by (auto simp: prepare_edit_def split: sum.splits)
  obtain checks where 3: "syntax_checks (edit_env_of env ep) planned = Inr checks"
    using assms 1 2 by (auto simp: prepare_edit_def split: sum.splits)
  note a = assms [unfolded prepare_edit_def 1 prod.case sum.case 2 3 Let_def]
  show thesis
  proof (rule that [OF 1 2 3])
    show "er_preview request \<Longrightarrow> ws' = ws1" using a by simp
    show "\<not> er_preview request \<Longrightarrow>
       recheck_preconditions (content_hash (sc_sha (we_scan env))) (sc_ops (we_scan env)) (ws_disk ws1) planned = Inr ()
       \<and> (\<exists>records d s. commit_plan env now (ws1\<lparr>ws_uuids := Suc (ws_uuids ws1)\<rparr>) planned
            (''req_'' @ we_uuid env (ws_uuids ws1)) = (Inr records, ws') \<and> p = Applied planned records d s checks)"
      using a by (auto split: sum.splits prod.splits)
    show "er_preview request \<longleftrightarrow> (\<exists>a b c d e. p = Preview a b c d e)"
      using a by (auto split: if_splits sum.splits prod.splits)
  qed
qed

section \<open>Properties\<close>

text \<open>C1. A failed commit is truthful: whichever write, removal or index refresh fails, every
  file is back to its content before the edit, except those that the error itself lists under
  \<open>compensation_failures\<close>; the error is \<open>PARTIAL_COMMIT\<close> and asks for manual recovery exactly
  when that list is not empty, so any other error means that no file changed.\<close>

theorem failed_commit_is_truthful:
  assumes "dir_contract (sc_ops (we_scan env)) view"
    and "\<forall>f \<in> set plan. \<not> is_temp_file (pf_path f)
      \<and> seen_view view (ws_disk ws) (path_components (pf_path f)) = pf_before f"
    and "commit_plan env now ws plan request_id = (Inl e, ws')"
  shows "\<exists>failures. error_failures e failures
    \<and> restored_except (seen_view view (ws_disk ws)) failures plan (seen_view view (ws_disk ws'))
    \<and> (ae_code e \<noteq> PartialCommit \<longrightarrow> seen_view view (ws_disk ws') = seen_view view (ws_disk ws))"
proof -
  from dir_contract.commit_plan_seen [OF assms(1) refl assms(3,2)]
  obtain failures where f: "error_failures e failures"
    "restored_except (seen_view view (ws_disk ws)) failures plan (seen_view view (ws_disk ws'))" by auto
  moreover have "seen_view view (ws_disk ws') = seen_view view (ws_disk ws)" if "ae_code e \<noteq> PartialCommit"
    using f that by (auto simp: error_failures_def restored_except_def)
  ultimately show ?thesis by blast
qed


definition sample_disk :: "bool list \<Rightarrow> mem_dir" where
  "sample_disk faults = \<lparr>mem_files = [[Normal ''a''] \<mapsto> ''1'', [Normal ''b''] \<mapsto> ''2''], mem_faults = faults, mem_uuids = 0\<rparr>"

definition sample_plan :: "planned_file list" where
  "sample_plan =
     [\<lparr>pf_path = ''a'', pf_before = Some ''1'', pf_before_hash = None, pf_after = Some ''x''\<rparr>,
      \<lparr>pf_path = ''b'', pf_before = Some ''2'', pf_before_hash = None, pf_after = None\<rparr>]"

lemma sample_paths:
  "path_components ''a'' = [Normal ''a'']" "path_components ''b'' = [Normal ''b'']"
  "path_file_name ''a'' = Some ''a''" "path_file_name ''b'' = Some ''b''"
  "path_parent ''a'' = Some []" "path_parent ''b'' = Some []"
  "\<not> is_temp_file ''a''" "\<not> is_temp_file ''b''" "\<not> is_temp_key [Normal ''a'']" "\<not> is_temp_key [Normal ''b'']"
  by code_simp+

lemma sample_plan_fits:
  "\<forall>f \<in> set sample_plan. \<not> is_temp_file (pf_path f)
     \<and> seen_view mem_files (sample_disk faults) (path_components (pf_path f)) = pf_before f"
  by (simp add: sample_plan_def sample_disk_def sample_paths seen_view_def)

lemma sample_contract: "dir_contract (sc_ops (we_scan (sample_env_of mem_ops))) mem_files"
  using mem.dir_contract_axioms by (simp add: sample_env_of_def)

text \<open>The second file's removal fails after the first file was written.\<close>

theorem failed_commit_is_truthful_witness:
  "\<exists>e ws'. commit_plan (sample_env_of mem_ops) 5 (sample_ws (sample_disk [False, False, True])) sample_plan ''req''
        = (Inl e, ws')
     \<and> mem_files (ws_disk ws') [Normal ''a''] = Some ''1'' \<and> mem_files (ws_disk ws') [Normal ''b''] = Some ''2''"
proof -
  let ?env = "sample_env_of mem_ops" and ?ws = "sample_ws (sample_disk [False, False, True])"
  obtain d1 where a: "atomic_write mem_ops (sample_disk [False, False, True]) ''a'' ''x'' = (Inr (), d1)"
    "mem_faults d1 = [True]"
    by (simp add: atomic_write_def write_atomic_def sample_disk_def mem_ops_def sample_paths mem_fault_def)
  obtain err d2 where b: "remove_file mem_ops d1 ''b'' = (Inl err, d2)" "mem_faults d2 = []"
    using a(2) by (simp add: remove_file_def mem_ops_def sample_paths mem_fault_def mem_error_def)
  obtain d3 where c: "restore_one mem_ops d2 (hd sample_plan) = (Inr (), d3)"
    using b(2) by (simp add: restore_one_def sample_plan_def atomic_write_def write_atomic_def mem_ops_def
        sample_paths mem_fault_def)
  have ops: "sc_ops (we_scan ?env) = mem_ops" and disk: "ws_disk ?ws = sample_disk [False, False, True]"
    by (simp_all add: sample_env_of_def sample_ws_def)
  obtain e ws' where w: "commit_plan ?env 5 ?ws sample_plan ''req'' = (Inl e, ws')"
    and code: "ae_code e = AtomicWriteFailed"
    using a b c
    by (simp add: commit_plan_def sample_plan_def apply_one_def ops disk Let_def compensate_def
        write_failed_def manual_recovery_required_def report_default_def)
  have "seen_view mem_files (ws_disk ws') = seen_view mem_files (ws_disk ?ws)"
    using failed_commit_is_truthful [OF sample_contract _ w] sample_plan_fits disk code by auto
  then have "seen_view mem_files (ws_disk ws') [Normal ''a''] = Some ''1''"
    "seen_view mem_files (ws_disk ws') [Normal ''b''] = Some ''2''"
    unfolding disk by (simp_all add: seen_view_def sample_disk_def sample_paths)
  then show ?thesis using w by (auto simp: seen_view_def sample_paths)
qed


text \<open>C3. An edit is applied only onto the files it was planned from: when preparing a request
  applies it, it was no preview, the plan is sorted with one entry per path, each entry's old
  content is the one the reconciled index holds, the bytes on disk were read again just before
  the commit and hash to the same value, and no planned content has a syntax error that
  Tree-sitter reports.\<close>

theorem edit_applies_to_rechecked_files:
  assumes "prepare_edit env ep now ws request = (Inr (Applied planned records diff rebased checks), ws')"
  shows "\<not> er_preview request \<and> sorted (map pf_path planned) \<and> distinct (map pf_path planned)
    \<and> (\<forall>f \<in> set planned.
         pf_before f = indexed_content (rc_index (ws_rc (snd (reconcile_with env now ws)))) (pf_path f)
         \<and> (\<exists>found. read_to_string (sc_ops (we_scan env)) (ws_disk ws) (pf_path f) = Inr found
              \<and> map_option (content_hash (sc_sha (we_scan env))) found
                = map_option (content_hash (sc_sha (we_scan env))) (pf_before f))
         \<and> (\<forall>after. pf_after f = Some after \<longrightarrow> ep_parse_has_error ep (pf_path f) after \<noteq> Some True))"
proof -
  from assms obtain changed ws1 planned' checks' where
    r: "reconcile_with env now ws = (Inr changed, ws1)"
    and p: "plan_edit env ep (ws_rc ws1) request = Inr planned'"
    and s: "syntax_checks (edit_env_of env ep) planned' = Inr checks'"
    and q: "\<not> er_preview request \<Longrightarrow>
       recheck_preconditions (content_hash (sc_sha (we_scan env))) (sc_ops (we_scan env)) (ws_disk ws1) planned' = Inr ()
       \<and> (\<exists>records' d s. commit_plan env now (ws1\<lparr>ws_uuids := Suc (ws_uuids ws1)\<rparr>) planned'
            (''req_'' @ we_uuid env (ws_uuids ws1)) = (Inr records', ws')
          \<and> Applied planned records diff rebased checks = Applied planned' records' d s checks')"
    and v: "er_preview request \<longleftrightarrow>
       (\<exists>a b c d e. Applied planned records diff rebased checks = Preview a b c d e)"
    by (rule prepare_editE) blast
  have np: "\<not> er_preview request" using v by simp
  with q have eq: "planned' = planned"
    and rc: "recheck_preconditions (content_hash (sc_sha (we_scan env))) (sc_ops (we_scan env)) (ws_disk ws1) planned = Inr ()"
    by auto
  have "ev_parse_has_error (edit_env_of env ep) = ep_parse_has_error ep" by (simp add: edit_env_of_def)
  with recheck_ok [OF rc] syntax_checks_ok [OF s [unfolded eq]] plan_edit_ok [OF p [unfolded eq]]
    np reconcile_disk [OF r] r
  show ?thesis by (auto simp del: fst_conv)
qed

text \<open>Only a commit writes: a preview, and every failure before the commit starts, leaves
  the disk exactly as it was.\<close>

theorem preview_never_writes:
  assumes "er_preview request" "prepare_edit env ep now ws request = (r, ws')"
  shows "ws_disk ws' = ws_disk ws"
proof -
  obtain q ws1 where q: "reconcile_with env now ws = (q, ws1)" by fastforce
  have "ws' = ws1"
    using assms by (auto simp: prepare_edit_def q Let_def split: sum.splits)
  then show ?thesis using reconcile_disk [OF q] by simp
qed

definition sample_params :: edit_params where
  "sample_params = \<lparr>ep_id = ''ws'', ep_decode = (\<lambda>_. Inl ''bad''), ep_symbols = (\<lambda>_ _. []),
     ep_parse_has_error = (\<lambda>_ _. None), ep_render_diff = (\<lambda>_. ''diff'')\<rparr>"

theorem preview_never_writes_witness:
  "ws_disk (snd (prepare_edit (sample_env_of mem_ops) sample_params 5 (sample_ws (sample_disk []))
     \<lparr>er_changes = [Delete ''a'' None], er_snapshot_id = None, er_preview = True\<rparr>)) = sample_disk []"
proof -
  let ?r = "\<lparr>er_changes = [Delete ''a'' None], er_snapshot_id = None, er_preview = True\<rparr>"
  obtain r ws' where p: "prepare_edit (sample_env_of mem_ops) sample_params 5 (sample_ws (sample_disk [])) ?r = (r, ws')"
    by fastforce
  have "er_preview ?r" by simp
  from preview_never_writes [OF this p] p show ?thesis by (simp add: sample_ws_def)
qed

text \<open>A create of a file that does not exist, applied.\<close>

definition idle_ws :: "mem_dir \<Rightarrow> mem_dir workspace_state" where
  "idle_ws d = \<lparr>ws_disk = d, ws_ledger = ledger_new,
     ws_rc = reconciled_new (sc_sha sample_scan) index_default (Inr repo_status_default), ws_uuids = 0\<rparr>"

lemma sample_edit_prepares:
  "\<exists>f records ws'. prepare_edit (sample_env_of mem_ops) sample_params 5
       (idle_ws \<lparr>mem_files = Map.empty, mem_faults = [], mem_uuids = 0\<rparr>)
       \<lparr>er_changes = [Create ''a'' ''x'' False None], er_snapshot_id = None, er_preview = False\<rparr>
     = (Inr (Applied [f] records ''diff'' None [(''a'', ''skipped'')]), ws') \<and> \<not> lg_needs_reconcile (ws_ledger ws')"
proof -
  let ?d = "\<lparr>mem_files = Map.empty, mem_faults = [], mem_uuids = 0\<rparr>"
  let ?env = "sample_env_of mem_ops" and ?ws = "idle_ws ?d"
  let ?c = "Create ''a'' ''x'' False None"
  let ?req = "\<lparr>er_changes = [?c], er_snapshot_id = None, er_preview = False\<rparr>"
  let ?f = "\<lparr>pf_path = ''a'', pf_before = None, pf_before_hash = None, pf_after = Some ''x''\<rparr>"
  have n: "normalize_path_text ''a'' = ''a''" by code_simp
  have rec: "reconcile_with ?env 5 ?ws = (Inr [], ?ws)"
    by (simp add: reconcile_with_def drain_pending_def idle_ws_def ledger_new_def)
  have idx: "indexed_content (rc_index (ws_rc ?ws)) = Map.empty"
    by (auto simp: idle_ws_def reconciled_new_def indexed_content_def index_get_def index_lookup_def
        index_default_def fun_eq_iff)
  have plan: "plan_edit ?env sample_params (ws_rc ?ws) ?req = Inr [?f]"
    by (simp add: plan_edit_def idx preflight_overlaps_def preflight_ranges_def ambiguous_handle_paths_def
        preflight_change_def plan_changes_def plan_change_def sample_rel_path edit_handle_def handle_matches_def
        plan_before_def plan_get_def plan_original_hash_def guard_hash_def is_create_def plan_body_def
        put_plan_def planned_new_def Let_def changes_without_independent_preconditions_def)
  have syn: "syntax_checks (edit_env_of ?env sample_params) [?f] = Inr [(''a'', ''skipped'')]"
    by (simp add: edit_env_of_def sample_params_def)
  have ops: "sc_ops (we_scan ?env) = mem_ops" and sc: "we_scan ?env = sample_scan" and disk: "ws_disk ?ws = ?d"
    by (simp_all add: sample_env_of_def sample_scan_def idle_ws_def)
  have re: "recheck_preconditions h mem_ops ?d [?f] = Inr ()" for h
    by (simp add: read_to_string_def mem_ops_def mem_error_def)
  obtain d1 where a: "atomic_write mem_ops ?d ''a'' ''x'' = (Inr (), d1)" "mem_files d1 = [[Normal ''a''] \<mapsto> ''x'']"
    by (auto simp: atomic_write_def write_atomic_def mem_ops_def sample_paths mem_fault_def
        with_file_name_def temp_file_name_def temp_file_marker_def fun_eq_iff)
  have s: "sc_root sample_scan = ''/w''" "sc_max_file_bytes sample_scan = 100" "sc_ops sample_scan = mem_ops"
    by (simp_all add: sample_scan_def)
  have reg: "is_regular_file mem_ops d1 ''a''"
    by (simp add: is_regular_file_def mem_ops_def mem_metadata_def sample_paths a)
  have "\<exists>o'. read_entry sample_scan (\<lambda>_ _. None) d1 ''/w/a'' = Inr o'"
    by (simp add: read_entry_def s sample_relative sample_rel_path read_file_def open_regular_def mem_ops_def
        mem_metadata_def sample_paths a read_bounded_def usize_max_def Let_def split: sum.splits)
  then have refresh: "\<exists>cs ci. refresh_paths (we_scan ?env) d1 ci0 [''/w/a''] = (Inr cs, ci)" for ci0
    by (auto simp: refresh_paths_def refresh_path_def Let_def sc s sample_relative sample_rel_path reg
        split: option.splits prod.splits)
  let ?wsb = "?ws\<lparr>ws_uuids := Suc (ws_uuids ?ws)\<rparr>"
  obtain ws1 where ap: "apply_plan ?env 5 [] (?wsb\<lparr>ws_uuids := ws_uuids ?wsb + length [?f]\<rparr>) [?f] = (Inr (), ws1)"
    and d: "ws_disk ws1 = d1" and nr: "\<not> lg_needs_reconcile (ws_ledger ws1)"
    using a(1) by (simp add: apply_one_def ops disk Let_def record_internal_def idle_ws_def ledger_new_def)
  have abs: "map (planned_absolute ?env) [?f] = [''/w/a'']"
    by (simp add: planned_absolute_def sc s root_join_def)
  obtain cs ci where rf: "refresh_paths (we_scan ?env) d1 (rc_index (ws_rc ws1)) [''/w/a''] = (Inr cs, ci)"
    using refresh by blast
  obtain rc where pub: "publish_edit ?env ws1 (map (planned_absolute ?env) [?f]) = (Inr (), rc)"
    unfolding abs by (simp add: publish_edit_def d rf Let_def)
  obtain records ws' where w: "commit_plan ?env 5 ?wsb [?f] (''req_'' @ we_uuid ?env (ws_uuids ?ws)) = (Inr records, ws')"
    and nr': "\<not> lg_needs_reconcile (ws_ledger ws')"
    using nr unfolding commit_plan_def Let_def ap prod.case sum.case pub by (simp add: ledger_record_def)
  have p: "prepare_edit ?env sample_params 5 ?ws ?req
      = (Inr (Applied [?f] records ''diff'' None [(''a'', ''skipped'')]), ws')"
    using w unfolding prepare_edit_def rec prod.case sum.case plan syn Let_def ops disk re
    by (simp add: sample_params_def)
  then show ?thesis using nr' by blast
qed

theorem edit_applies_to_rechecked_files_witness:
  "\<exists>planned records ws'. prepare_edit (sample_env_of mem_ops) sample_params 5
       (idle_ws \<lparr>mem_files = Map.empty, mem_faults = [], mem_uuids = 0\<rparr>)
       \<lparr>er_changes = [Create ''a'' ''x'' False None], er_snapshot_id = None, er_preview = False\<rparr>
     = (Inr (Applied planned records ''diff'' None [(''a'', ''skipped'')]), ws') \<and> distinct (map pf_path planned)
     \<and> length planned = 1"
proof -
  obtain f records ws' where p: "prepare_edit (sample_env_of mem_ops) sample_params 5
       (idle_ws \<lparr>mem_files = Map.empty, mem_faults = [], mem_uuids = 0\<rparr>)
       \<lparr>er_changes = [Create ''a'' ''x'' False None], er_snapshot_id = None, er_preview = False\<rparr>
     = (Inr (Applied [f] records ''diff'' None [(''a'', ''skipped'')]), ws')"
    using sample_edit_prepares by blast
  from edit_applies_to_rechecked_files [OF p] p show ?thesis
    by (intro exI [of _ "[f]"] exI [of _ records] exI [of _ ws']) simp
qed

end
