(* ===== verification/Search_Windows.thy ===== *)
theory Search_Windows
  imports Edit_Text
begin

text \<open>
  Windowed, per-file-capped, interleaved search results (\<open>src/index/windows.rs\<close>): hits of one
  file widen by context lines into windows and adjacent windows merge; files then take turns.
\<close>

section \<open>Windows\<close>

record 'h window =
  wi_line :: nat
  wi_start_line :: nat
  wi_end_line :: nat
  wi_hits :: "'h list"

record 'h window_builder =
  wb_context_lines :: nat
  wb_line_count :: nat
  wb_max_hits :: nat
  wb_windows :: "'h window list"

definition builder_new :: "nat \<Rightarrow> nat \<Rightarrow> nat \<Rightarrow> 'h window_builder" where
  "builder_new context_lines line_count max_hits_per_window =
     \<lparr>wb_context_lines = context_lines, wb_line_count = line_count, wb_max_hits = max_hits_per_window,
      wb_windows = []\<rparr>"

definition builder_push :: "'h window_builder \<Rightarrow> nat \<Rightarrow> nat \<Rightarrow> 'h \<Rightarrow> 'h window_builder" where
  "builder_push b start_line end_line hit =
     (let first = max (start_line - wb_context_lines b) 1;
          last_line = min (saturating_add end_line (wb_context_lines b)) (wb_line_count b);
          fresh = b\<lparr>wb_windows := wb_windows b @
             [\<lparr>wi_line = start_line, wi_start_line = first, wi_end_line = last_line, wi_hits = [hit]\<rparr>]\<rparr>
      in case rev (wb_windows b) of
           [] \<Rightarrow> fresh
         | previous # earlier \<Rightarrow>
             if first \<le> saturating_add (wi_end_line previous) 1
                \<and> length (wi_hits previous) < wb_max_hits b
             then b\<lparr>wb_windows := rev earlier @
                    [previous\<lparr>wi_end_line := max (wi_end_line previous) last_line,
                              wi_hits := wi_hits previous @ [hit]\<rparr>]\<rparr>
             else fresh)"

definition builder_finish :: "'h window_builder \<Rightarrow> 'h window list" where
  "builder_finish b = wb_windows b"

text \<open>The hits of a file, pushed in order.\<close>

definition build_windows :: "nat \<Rightarrow> nat \<Rightarrow> nat \<Rightarrow> (nat \<times> nat \<times> 'h) list \<Rightarrow> 'h window list" where
  "build_windows context_lines line_count max_hits hits =
     builder_finish (foldl (\<lambda>b (s, e, h). builder_push b s e h)
       (builder_new context_lines line_count max_hits) hits)"

section \<open>Groups of files\<close>

record 'r file_groups =
  fg_groups :: "'r list list"
  fg_total_windows :: nat

definition groups_new :: "'r file_groups" where
  "groups_new = \<lparr>fg_groups = [], fg_total_windows = 0\<rparr>"

definition push_extra :: "'r file_groups \<Rightarrow> 'r \<Rightarrow> 'r file_groups" where
  "push_extra g r = g\<lparr>fg_groups := fg_groups g @ [[r]]\<rparr>"

fun render_all :: "('w \<Rightarrow> app_error + 'r) \<Rightarrow> 'w list \<Rightarrow> app_error + 'r list" where
  "render_all render [] = Inr []"
| "render_all render (w # ws) =
     (case render w of
        Inl e \<Rightarrow> Inl e
      | Inr r \<Rightarrow> (case render_all render ws of Inl e \<Rightarrow> Inl e | Inr rs \<Rightarrow> Inr (r # rs)))"

text \<open>The windows are counted before they are rendered, so also when rendering fails.\<close>

definition push_file ::
    "'r file_groups \<Rightarrow> 'w list \<Rightarrow> nat \<Rightarrow> ('w \<Rightarrow> app_error + 'r) \<Rightarrow> (app_error + unit) \<times> 'r file_groups" where
  "push_file g windows per_file_limit render =
     (let g1 = g\<lparr>fg_total_windows := fg_total_windows g + length windows\<rparr>
      in case render_all render (take per_file_limit windows) of
           Inl e \<Rightarrow> (Inl e, g1)
         | Inr batch \<Rightarrow>
             (Inr (), if batch \<noteq> [] then g1\<lparr>fg_groups := fg_groups g1 @ [batch]\<rparr> else g1))"

text \<open>\<open>sort_by_key\<close> is stable and compares \<open>Option\<close> keys, \<open>None\<close> first.\<close>

definition first_key :: "('r \<Rightarrow> 'k::linorder) \<Rightarrow> 'r list \<Rightarrow> 'k list" where
  "first_key key b = (case b of [] \<Rightarrow> [] | r # _ \<Rightarrow> [key r])"

fun insert_group :: "('r \<Rightarrow> 'k::linorder) \<Rightarrow> 'r list \<Rightarrow> 'r list list \<Rightarrow> 'r list list" where
  "insert_group key g [] = [g]"
| "insert_group key g (h # hs) =
     (if (case (first_key key g, first_key key h) of
            ([], _) \<Rightarrow> True | (_ # _, []) \<Rightarrow> False | (a # _, b # _) \<Rightarrow> a \<le> b)
      then g # h # hs else h # insert_group key g hs)"

definition sort_by_first :: "('r \<Rightarrow> 'k::linorder) \<Rightarrow> 'r file_groups \<Rightarrow> 'r file_groups" where
  "sort_by_first key g = g\<lparr>fg_groups := foldr (insert_group key) (fg_groups g) []\<rparr>"

text \<open>One round over the groups: the remaining groups, the results, whether one was added.\<close>

fun take_turn ::
    "nat \<Rightarrow> 'r list list \<Rightarrow> 'r list \<Rightarrow> bool \<Rightarrow> 'r list list \<times> 'r list \<times> bool" where
  "take_turn limit [] results added = ([], results, added)"
| "take_turn limit (g # gs) results added =
     (if limit \<le> length results then (g # gs, results, added)
      else case g of
        [] \<Rightarrow> (case take_turn limit gs results added of (gs', rs, a) \<Rightarrow> ([] # gs', rs, a))
      | r # rest \<Rightarrow>
          (case take_turn limit gs (results @ [r]) True of (gs', rs, a) \<Rightarrow> (rest # gs', rs, a)))"

text \<open>One full turn takes the heads and leaves the tails.\<close>

definition heads :: "'r list list \<Rightarrow> 'r list" where
  "heads gs = concat (map (take 1) gs)"

lemma heads_simps [simp]:
  "heads [] = []" "heads ([] # gs) = heads gs" "heads ((r # g) # gs) = r # heads gs"
  by (simp_all add: heads_def)

lemma heads_Nil: "heads gs = [] \<Longrightarrow> map tl gs = gs \<and> concat gs = []"
proof (induction gs)
  case (Cons g gs)
  then show ?case by (cases g) auto
qed simp

lemma take_turn_eq:
  assumes "length results \<le> limit"
  shows "take_turn limit gs results added =
     (fst (take_turn limit gs results added),
      results @ take (limit - length results) (heads gs),
      added \<or> heads gs \<noteq> [] \<and> length results < limit)"
  using assms
proof (induction limit gs results added rule: take_turn.induct)
  case (2 limit g gs results added)
  then show ?case
    by (cases g) (auto split: prod.splits simp: take_Cons' Suc_diff_Suc)
qed simp

lemma take_turn_full:
  "length results + length (heads gs) \<le> limit \<Longrightarrow> fst (take_turn limit gs results added) = map tl gs"
proof (induction limit gs results added rule: take_turn.induct)
  case (2 limit g gs results added)
  show ?case
  proof (cases "limit \<le> length results")
    case True
    with 2 have "length (heads (g # gs)) = 0" by linarith
    then have "heads (g # gs) = []" by simp
    then show ?thesis using True heads_Nil [of "g # gs"] by simp
  next
    case False
    with 2 show ?thesis by (cases g) (auto simp: case_prod_beta)
  qed
qed simp

lemma take_turn_progress:
  assumes "take_turn limit gs results False = (gs', results', True)" "length results < limit"
  shows "length results < length results'"
  using take_turn_eq [of results limit gs False] assms by auto

function interleave_loop :: "nat \<Rightarrow> 'r list list \<Rightarrow> 'r list \<Rightarrow> 'r list" where
  "interleave_loop limit groups results =
     (if length results < limit
      then (case take_turn limit groups results False of
              (groups', results', added) \<Rightarrow>
                if added then interleave_loop limit groups' results' else results')
      else results)"
  by pat_completeness auto
termination
  by (relation "measure (\<lambda>(limit, groups, results). limit - length results)")
    (auto dest!: take_turn_progress [OF sym])

declare interleave_loop.simps [simp del]

record 'r interleaved =
  il_results :: "'r list"
  il_truncated :: bool

definition interleave :: "'r file_groups \<Rightarrow> nat \<Rightarrow> 'r interleaved" where
  "interleave g limit =
     (let results = interleave_loop limit (fg_groups g) []
      in \<lparr>il_results = results, il_truncated = (length results < fg_total_windows g)\<rparr>)"

section \<open>Interleaving: the reading by columns\<close>

definition tails :: "'r list list \<Rightarrow> 'r list list" where
  "tails gs = [t. (h # t) \<leftarrow> gs]"

lemma columns_heads: "[h. (h # t) \<leftarrow> gs] = heads gs"
  by (induction gs) (auto split: list.splits)

lemma columns_nonempty:
  "[h. (h # t) \<leftarrow> filter (\<lambda>g. g \<noteq> []) gs] = [h. (h # t) \<leftarrow> gs]"
  "[t. (h # t) \<leftarrow> filter (\<lambda>g. g \<noteq> []) gs] = [t. (h # t) \<leftarrow> gs]"
  by (induction gs) (auto split: list.splits)

lemma transpose_nonempty: "transpose (filter (\<lambda>g. g \<noteq> []) gs) = transpose gs"
  by (induction gs rule: transpose.induct) (simp_all add: columns_nonempty)

lemma filter_tails: "filter (\<lambda>g. g \<noteq> []) (tails gs) = filter (\<lambda>g. g \<noteq> []) (map tl gs)"
  by (induction gs) (auto simp: tails_def split: list.splits)

lemma transpose_tails: "transpose (tails gs) = transpose (map tl gs)"
  by (metis filter_tails transpose_nonempty)

lemma transpose_heads: "concat (transpose gs) = heads gs @ concat (transpose (map tl gs))"
proof (induction gs rule: transpose.induct)
  case (2 gs)
  then show ?case by simp
next
  case (3 x xs gs)
  have "transpose (xs # [t. (h # t) \<leftarrow> gs]) = transpose (tails ((x # xs) # gs))"
    by (simp add: tails_def)
  then show ?case by (simp add: columns_heads transpose_tails)
qed simp

lemma no_heads_columns: "heads gs = [] \<Longrightarrow> transpose gs = []"
  by (induction gs rule: transpose.induct) auto

lemma interleave_loop_eq:
  "length results \<le> limit \<Longrightarrow>
     interleave_loop limit gs results = results @ take (limit - length results) (concat (transpose gs))"
proof (induction limit gs results rule: interleave_loop.induct)
  case (1 limit gs results)
  define turn where "turn = take_turn limit gs results False"
  show ?case
  proof (cases "length results < limit \<and> heads gs \<noteq> []")
    case False
    then show ?thesis
      using take_turn_eq [of results limit gs False] 1(2) no_heads_columns [of gs]
      by (cases "length results < limit")
        (auto simp: interleave_loop.simps [of limit gs results] split: prod.splits)
  next
    case True
    let ?rs = "results @ take (limit - length results) (heads gs)"
    have turn: "take_turn limit gs results False = (fst turn, ?rs, True)"
      using take_turn_eq [of results limit gs False] True by (simp add: turn_def)
    have loop: "interleave_loop limit gs results = interleave_loop limit (fst turn) ?rs"
      using True turn by (simp add: interleave_loop.simps [of limit gs results])
    have ih: "interleave_loop limit (fst turn) ?rs = ?rs @ take (limit - length ?rs) (concat (transpose (fst turn)))"
      using True by (intro 1(1) [OF _ turn [symmetric] refl]) auto
    show ?thesis
    proof (cases "length results + length (heads gs) \<le> limit")
      case True
      then have "fst turn = map tl gs" by (simp add: turn_def take_turn_full)
      with True show ?thesis using loop ih by (simp add: transpose_heads [of gs])
    next
      case False
      then show ?thesis using loop ih by (simp add: transpose_heads [of gs])
    qed
  qed
qed

text \<open>C27. Interleaving is round robin over the files, cut at the limit: the results are the prefix
  of length \<open>limit\<close> of the groups read column by column (the first result of every group, then
  the second of every group that has one, and so on), and \<open>truncated\<close> compares their number with
  the number of windows pushed.\<close>

theorem interleave_reads_columns:
  "interleave g limit =
     (let results = take limit (concat (transpose (fg_groups g)))
      in \<lparr>il_results = results, il_truncated = (length results < fg_total_windows g)\<rparr>)"
  by (simp add: interleave_def interleave_loop_eq)

text \<open>A result added ahead of the matches takes a place without being counted: with a limit of
  one the only window of the only file is left out and the page still says nothing was truncated.\<close>

theorem extra_result_hides_truncation:
  assumes "render w = Inr r" "0 < per_file"
  shows "fst (push_file (push_extra groups_new e) [w] per_file render) = Inr ()
    \<and> interleave (snd (push_file (push_extra groups_new e) [w] per_file render)) 1 =
        \<lparr>il_results = [e], il_truncated = False\<rparr>"
  using assms
  by (cases per_file)
    (simp_all add: interleave_def interleave_loop_eq push_file_def push_extra_def groups_new_def)

theorem extra_result_hides_truncation_witness:
  "fst (push_file (push_extra groups_new (''decl'')) [5::nat] 2 (\<lambda>w. Inr ''match'')) = Inr ()
    \<and> interleave (snd (push_file (push_extra groups_new ''decl'') [5::nat] 2 (\<lambda>w. Inr ''match''))) 1 =
        \<lparr>il_results = [''decl''], il_truncated = False\<rparr>"
  by (rule extra_result_hides_truncation) simp_all

section \<open>Windows hold every hit once\<close>

definition window_ok :: "nat \<Rightarrow> nat \<Rightarrow> nat \<Rightarrow> (nat \<times> nat) window \<Rightarrow> bool" where
  "window_ok c n m w \<longleftrightarrow>
     wi_hits w \<noteq> [] \<and> length (wi_hits w) \<le> max m 1 \<and> wi_line w = fst (hd (wi_hits w))
     \<and> wi_start_line w = max (wi_line w - c) 1 \<and> wi_end_line w \<le> n
     \<and> (\<forall>h \<in> set (wi_hits w).
          wi_start_line w \<le> max (fst h - c) 1 \<and> min (saturating_add (snd h) c) n \<le> wi_end_line w)"

definition builder_ok :: "nat \<Rightarrow> nat \<Rightarrow> nat \<Rightarrow> (nat \<times> nat) list \<Rightarrow> (nat \<times> nat) window_builder \<Rightarrow> bool" where
  "builder_ok c n m hits b \<longleftrightarrow>
     wb_context_lines b = c \<and> wb_line_count b = n \<and> wb_max_hits b = m
     \<and> concat (map wi_hits (wb_windows b)) = hits \<and> (\<forall>w \<in> set (wb_windows b). window_ok c n m w)"

lemma fresh_window_ok:
  "window_ok c n m \<lparr>wi_line = s, wi_start_line = max (s - c) 1,
     wi_end_line = min (saturating_add e c) n, wi_hits = [(s, e)]\<rparr>"
  by (simp add: window_ok_def)

lemma joined_window_ok:
  assumes "window_ok c n m w" "wi_line w \<le> s" "length (wi_hits w) < m"
  shows "window_ok c n m (w\<lparr>wi_end_line := max (wi_end_line w) (min (saturating_add e c) n),
                            wi_hits := wi_hits w @ [(s, e)]\<rparr>)"
  using assms by (force simp: window_ok_def)

lemma builder_push_ok:
  assumes "builder_ok c n m hits b" "\<forall>h \<in> set hits. fst h \<le> s"
  shows "builder_ok c n m (hits @ [(s, e)]) (builder_push b s e (s, e))"
proof (cases "wb_windows b" rule: rev_exhaust)
  case Nil
  with assms show ?thesis
    using fresh_window_ok [of c n m s e] by (simp add: builder_ok_def builder_push_def Let_def)
next
  case (snoc earlier previous)
  have "window_ok c n m previous" using assms snoc by (simp add: builder_ok_def)
  moreover have "wi_line previous \<le> s"
    using assms snoc hd_in_set [of "wi_hits previous"] by (auto simp: builder_ok_def window_ok_def)
  ultimately show ?thesis
    using assms snoc fresh_window_ok [of c n m s e] joined_window_ok [of c n m previous s e]
    by (auto simp: builder_ok_def builder_push_def Let_def)
qed

lemma builder_fold_ok:
  "sorted (map fst (hits @ ranges)) \<Longrightarrow> builder_ok c n m hits b \<Longrightarrow>
     builder_ok c n m (hits @ ranges)
       (foldl (\<lambda>b (s, e, h). builder_push b s e h) b (map (\<lambda>(s, e). (s, e, (s, e))) ranges))"
proof (induction ranges arbitrary: hits b)
  case (Cons r ranges)
  obtain s e where r: "r = (s, e)" by force
  have "builder_ok c n m (hits @ [(s, e)]) (builder_push b s e (s, e))"
    using Cons.prems r by (intro builder_push_ok) (auto simp: sorted_append)
  then show ?case using Cons.IH [of "hits @ [(s, e)]"] Cons.prems(1) r by simp
qed simp

text \<open>C24. For hits in line order, the windows of a file hold every hit exactly once and in order, at
  most the maximal number per window; a window starts at its first hit less the context, ends
  within the file and covers every one of its hits with its context.\<close>

theorem windows_partition_hits:
  assumes "sorted (map fst ranges)"
  shows "let ws = build_windows c n m (map (\<lambda>(s, e). (s, e, (s, e))) ranges) in
    concat (map wi_hits ws) = ranges \<and> (\<forall>w \<in> set ws. window_ok c n m w)"
  using builder_fold_ok [of "[]" ranges c n m "builder_new c n m"] assms
  by (simp add: build_windows_def builder_finish_def builder_ok_def builder_new_def)

theorem windows_partition_hits_witness:
  "let ws = build_windows 1 20 2 (map (\<lambda>(s, e). (s, e, (s, e))) [(3, 3), (4, 4), (5, 5), (12, 12)]) in
    concat (map wi_hits ws) = [(3, 3), (4, 4), (5, 5), (12, 12)] \<and> (\<forall>w \<in> set ws. window_ok 1 20 2 w)"
  by (rule windows_partition_hits) simp

end
