(* ===== verification/Text_Util.thy ===== *)
theory Text_Util
  imports Output_Decoder Edit_Text
begin

text \<open>
  Operations of the standard library on text that several components share: Unicode
  white space and \<open>str::trim\<close>, the characters of a byte string and back, and
  \<open>to_string_lossy\<close>.
\<close>

section \<open>White space\<close>

text \<open>The UTF-8 encodings of the characters with the property \<open>White_Space\<close>.\<close>

definition white_encodings :: "string list" where
  "white_encodings =
     map (map char_of)
       ([[9::nat], [10], [11], [12], [13], [32], [0xC2, 0x85], [0xC2, 0xA0], [0xE1, 0x9A, 0x80]]
        @ map (\<lambda>c. [0xE2, 0x80, c]) ([0x80..<0x8B] @ [0xA8, 0xA9, 0xAF])
        @ [[0xE2, 0x81, 0x9F], [0xE3, 0x80, 0x80]])"

fun strip_any :: "'a list list \<Rightarrow> 'a list \<Rightarrow> 'a list option" where
  "strip_any [] s = None"
| "strip_any (p # ps) s =
     (case strip_prefix p s of
        Some rest \<Rightarrow> if p = [] then strip_any ps s else Some rest
      | None \<Rightarrow> strip_any ps s)"

lemma strip_any_shorter: "strip_any ps s = Some rest \<Longrightarrow> length rest < length s"
  by (induction ps s rule: strip_any.induct)
    (auto simp: strip_prefix_iff split: option.splits if_splits)

function trim_with :: "'a list list \<Rightarrow> 'a list \<Rightarrow> 'a list" where
  "trim_with ps s = (case strip_any ps s of None \<Rightarrow> s | Some rest \<Rightarrow> trim_with ps rest)"
  by pat_completeness auto
termination
  by (relation "measure (\<lambda>(ps, s). length s)") (auto dest: strip_any_shorter)

declare trim_with.simps [simp del]

definition trim_start :: "string \<Rightarrow> string" where
  "trim_start s = trim_with white_encodings s"

definition trim_end :: "string \<Rightarrow> string" where
  "trim_end s = rev (trim_with (map rev white_encodings) (rev s))"

definition trim :: "string \<Rightarrow> string" where
  "trim s = trim_end (trim_start s)"

lemma trim_with_suffix: "\<exists>p. s = p @ trim_with ps s"
proof (induction ps s rule: trim_with.induct)
  case (1 ps s)
  have "strip_any ps s = Some rest \<Longrightarrow> \<exists>p. s = p @ rest" for rest
    by (induction ps) (auto simp: strip_prefix_iff split: option.splits if_splits)
  with 1 show ?case
    by (simp add: trim_with.simps [of ps s] split: option.split) (metis append_assoc)
qed

lemma trim_with_done: "strip_any ps (trim_with ps s) = None"
  by (induction ps s rule: trim_with.induct)
    (simp add: trim_with.simps split: option.split)

lemma trim_with_idem [simp]: "trim_with ps (trim_with ps s) = trim_with ps s"
  using trim_with_done [of ps s] by (simp add: trim_with.simps [of ps "trim_with ps s"])

text \<open>ASCII text without white space at its ends is trimmed to itself.\<close>

lemma strip_prefix_hd: "p \<noteq> [] \<Longrightarrow> hd p \<noteq> c \<Longrightarrow> strip_prefix p (c # s) = None"
  by (cases p) simp_all

lemma strip_any_none: "\<forall>p \<in> set ps. p \<noteq> [] \<and> hd p \<noteq> c \<Longrightarrow> strip_any ps (c # s) = None"
  by (induction ps) (simp_all add: strip_prefix_hd)

lemma strip_any_single:
  "[c] \<in> set ps \<Longrightarrow> \<forall>p \<in> set ps. p \<noteq> [] \<and> (hd p = c \<longrightarrow> p = [c]) \<Longrightarrow> strip_any ps (c # s) = Some s"
proof (induction ps)
  case (Cons p ps)
  show ?case
  proof (cases "hd p = c")
    case True
    with Cons.prems(2) have "p = [c]" by simp
    then show ?thesis by simp
  next
    case False
    with Cons show ?thesis by (auto simp: strip_prefix_hd)
  qed
qed simp

lemma trim_with_stop: "\<forall>p \<in> set ps. p \<noteq> [] \<and> hd p \<noteq> c \<Longrightarrow> trim_with ps (c # s) = c # s"
  by (subst trim_with.simps) (simp only: strip_any_none option.case)

lemma trim_with_drop:
  "[c] \<in> set ps \<Longrightarrow> \<forall>p \<in> set ps. p \<noteq> [] \<and> (hd p = c \<longrightarrow> p = [c]) \<Longrightarrow> trim_with ps (c # s) = trim_with ps s"
  by (subst trim_with.simps) (simp only: strip_any_single option.case)

definition printable :: "char \<Rightarrow> bool" where
  "printable c \<longleftrightarrow> 33 \<le> (of_char c :: nat) \<and> (of_char c :: nat) < 127"

lemma white_heads:
  "p \<in> set white_encodings \<or> p \<in> set (map rev white_encodings) \<Longrightarrow>
     p \<noteq> [] \<and> (of_char (hd p) < (33 :: nat) \<longrightarrow> p = [hd p]) \<and> \<not> printable (hd p)"
proof -
  have "list_all (\<lambda>p. p \<noteq> [] \<and> (of_char (hd p) < (33 :: nat) \<longrightarrow> p = [hd p]) \<and> \<not> printable (hd p))
      (white_encodings @ map rev white_encodings)"
    by (simp add: white_encodings_def printable_def of_char_of)
  then show "p \<in> set white_encodings \<or> p \<in> set (map rev white_encodings) \<Longrightarrow> ?thesis"
    by (auto simp: list_all_iff)
qed

lemma trim_start_printable: "printable c \<Longrightarrow> trim_start (c # s) = c # s"
  unfolding trim_start_def by (rule trim_with_stop) (use white_heads in blast)

lemma trim_end_printable: "printable c \<Longrightarrow> trim_end (s @ [c]) = s @ [c]"
proof -
  assume c: "printable c"
  have "trim_with (map rev white_encodings) (c # rev s) = c # rev s"
    by (rule trim_with_stop) (use c white_heads in blast)
  then show ?thesis by (simp add: trim_end_def)
qed

lemma ascii_white: "c \<in> {CHR '' '', cr, nl} \<Longrightarrow> [c] \<in> set white_encodings \<and> of_char c < (33 :: nat)"
proof -
  have w: "[char_of n :: char] \<in> set white_encodings \<and> (of_char (char_of n :: char) :: nat) < 33"
    if "n \<in> {32, 13, 10 :: nat}" for n
    using that by (auto simp: white_encodings_def of_char_of)
  have "CHR '' '' = char_of (32 :: nat)" "cr = char_of (13 :: nat)" "nl = char_of (10 :: nat)"
    by (simp_all add: cr_def nl_def char_of_def bit_Suc_0_iff)
  with w [of 32] w [of 13] w [of 10] show "c \<in> {CHR '' '', cr, nl} \<Longrightarrow> ?thesis" by (elim insertE emptyE) simp_all
qed

lemma trim_start_white: "c \<in> {CHR '' '', cr, nl} \<Longrightarrow> trim_start (c # s) = trim_start s"
  unfolding trim_start_def using ascii_white [of c] white_heads
  by (intro trim_with_drop) (auto simp del: insert_iff)

lemma trim_end_white: "c \<in> {CHR '' '', cr, nl} \<Longrightarrow> trim_end (s @ [c]) = trim_end s"
proof -
  assume c: "c \<in> {CHR '' '', cr, nl}"
  have "[c] \<in> set (map rev white_encodings)" using ascii_white [OF c] by force
  then have "trim_with (map rev white_encodings) (c # rev s) = trim_with (map rev white_encodings) (rev s)"
    by (rule trim_with_drop) (use white_heads ascii_white [OF c] in blast)
  then show ?thesis by (simp add: trim_end_def)
qed

lemma trim_ends_id:
  "s \<noteq> [] \<Longrightarrow> printable (hd s) \<Longrightarrow> trim_start s = s"
  "s \<noteq> [] \<Longrightarrow> printable (last s) \<Longrightarrow> trim_end s = s"
  using trim_start_printable [of "hd s" "tl s"] trim_end_printable [of "last s" "butlast s"] by simp_all

lemma trim_printable_ends:
  assumes "s \<noteq> []" "printable (hd s)" "printable (last s)"
  shows "trim s = s"
  using assms by (simp add: trim_def trim_ends_id)

section \<open>Characters and bytes\<close>

definition text_bytes :: "string \<Rightarrow> u8 list" where
  "text_bytes s = map of_char s"

text \<open>\<open>s.chars()\<close>: a Rust string is valid UTF-8.\<close>

definition str_chars :: "string \<Rightarrow> ustr" where
  "str_chars s = from_utf8_lossy (text_bytes s)"

definition encode_char :: "uchar \<Rightarrow> string" where
  "encode_char c = map char_of
     (if c < 0x80 then [c]
      else if c < 0x800 then [0xC0 + c div 64, 0x80 + c mod 64]
      else if c < 0x10000 then [0xE0 + c div 4096, 0x80 + c div 64 mod 64, 0x80 + c mod 64]
      else [0xF0 + c div 262144, 0x80 + c div 4096 mod 64, 0x80 + c div 64 mod 64, 0x80 + c mod 64])"

definition chars_str :: "ustr \<Rightarrow> string" where
  "chars_str cs = concat (map encode_char cs)"

lemma chars_str_simps [simp]:
  "chars_str [] = []" "chars_str (c # cs) = encode_char c @ chars_str cs"
  "chars_str (cs @ ds) = chars_str cs @ chars_str ds"
  by (simp_all add: chars_str_def)

lemma length_encode_char [simp]: "length (encode_char c) = len_utf8 c"
  by (simp add: encode_char_def len_utf8_def)

lemma length_chars_str [simp]: "length (chars_str cs) = utf8_len cs"
  by (induction cs) simp_all

text \<open>\<open>floor_char_boundary\<close>\<close>

fun floor_boundary :: "string \<Rightarrow> nat \<Rightarrow> nat" where
  "floor_boundary s 0 = 0"
| "floor_boundary s (Suc n) = (if is_continuation (s ! Suc n) then floor_boundary s n else Suc n)"

definition floor_char_boundary :: "string \<Rightarrow> nat \<Rightarrow> nat" where
  "floor_char_boundary s n = (if length s \<le> n then length s else floor_boundary s n)"

lemma floor_boundary_le: "floor_boundary s n \<le> n"
  by (induction s n rule: floor_boundary.induct) auto

lemma floor_char_boundary_le: "floor_char_boundary s n \<le> min n (length s)"
  using floor_boundary_le [of s n] by (auto simp: floor_char_boundary_def)

end
