(* ===== verification/Index_Search.thy ===== *)
theory Index_Search
  imports Edit_Plan Search_Windows Text_Util
begin

text \<open>
  Searching the index (\<open>src/index/search.rs\<close>, \<open>src/index/query.rs\<close>): text, file names,
  symbols, the outline of a file and the map of directories. The regular expressions (package
  \<open>regex\<close>) and the encoding of a handle's payload are the fields of \<open>search_env\<close>. A result
  is the record of the fields the response carries. The index iterates its files in the order of
  its list where the code iterates a hash map; every search orders its results by itself.
\<close>

section \<open>Queries\<close>

record search_scope =
  ss_workspace_id :: string
  ss_snapshot_id :: string
  ss_paths :: "string list"
  ss_max_results :: nat

definition scope_limit :: "search_scope \<Rightarrow> nat" where
  "scope_limit s = max (ss_max_results s) 1"

datatype text_syntax = Literal | Regex

definition text_syntax_as_str :: "text_syntax \<Rightarrow> string" where
  "text_syntax_as_str s = (case s of Literal \<Rightarrow> ''literal'' | Regex \<Rightarrow> ''regex'')"

definition text_syntax_parse :: "string \<Rightarrow> text_syntax option" where
  "text_syntax_parse v = find (\<lambda>s. text_syntax_as_str s = v) [Literal, Regex]"

record text_query =
  tq_pattern :: string
  tq_syntax :: text_syntax
  tq_case_sensitive :: bool
  tq_context_lines :: nat

record search_env =
  se_payload :: "range_handle \<Rightarrow> string"
  se_regex :: "string \<Rightarrow> bool \<Rightarrow> string + (string \<Rightarrow> bool)"
  se_regex_escape :: "string \<Rightarrow> string"

section \<open>Text\<close>

datatype line_matcher = ExactLine string | FoldedLine string | RegexLine "string \<Rightarrow> bool"

definition line_matcher_new :: "search_env \<Rightarrow> text_query \<Rightarrow> app_error + line_matcher" where
  "line_matcher_new env q =
     (case tq_syntax q of
        Literal \<Rightarrow>
          if tq_case_sensitive q then Inr (ExactLine (tq_pattern q))
          else Inr (FoldedLine (ascii_lower (tq_pattern q)))
      | Regex \<Rightarrow>
          (case se_regex env (tq_pattern q) (\<not> tq_case_sensitive q) of
             Inl m \<Rightarrow> Inl (error_with_details InvalidRegex m
                        (JObj [(''query_length'', JNum (int (length (tq_pattern q))))]))
           | Inr is_match \<Rightarrow> Inr (RegexLine is_match)))"

fun matcher_haystack :: "line_matcher \<Rightarrow> file_entry \<Rightarrow> string" where
  "matcher_haystack (FoldedLine _) f = fe_search_content f"
| "matcher_haystack (ExactLine _) f = fe_content f"
| "matcher_haystack (RegexLine _) f = fe_content f"

fun matcher_may_match :: "line_matcher \<Rightarrow> file_entry \<Rightarrow> bool" where
  "matcher_may_match (ExactLine needle) f = contains (matcher_haystack (ExactLine needle) f) needle"
| "matcher_may_match (FoldedLine needle) f = contains (matcher_haystack (FoldedLine needle) f) needle"
| "matcher_may_match (RegexLine _) f = True"

fun matcher_matches :: "line_matcher \<Rightarrow> string \<Rightarrow> bool" where
  "matcher_matches (ExactLine needle) line = contains line needle"
| "matcher_matches (FoldedLine needle) line = contains line needle"
| "matcher_matches (RegexLine is_match) line = is_match line"

record text_match =
  tm_path :: string
  tm_line :: nat
  tm_start_line :: nat
  tm_end_line :: nat
  tm_preview :: string
  tm_handle :: string
  tm_match_type :: string
  tm_reason_code :: string

record text_results =
  tr_mode :: string
  tr_snapshot_id :: string
  tr_truncated :: bool
  tr_results :: "text_match list"

definition text_windows_per_file :: nat where
  "text_windows_per_file = 8"

text \<open>The windows of the matching lines of one file.\<close>

definition file_windows :: "line_matcher \<Rightarrow> nat \<Rightarrow> file_entry \<Rightarrow> unit window list" where
  "file_windows m context_lines f =
     builder_finish
       (foldl (\<lambda>b (i, line). if matcher_matches m line then builder_push b (i + 1) (i + 1) () else b)
          (builder_new context_lines (fe_line_count f) usize_max)
          (enumerate 0 (str_lines (matcher_haystack m f))))"

definition match_types :: "text_syntax \<Rightarrow> string \<times> string" where
  "match_types s = (case s of Literal \<Rightarrow> (''literal'', ''literal_match'') | Regex \<Rightarrow> (''regex'', ''regex_match''))"

definition render_match ::
    "search_env \<Rightarrow> search_scope \<Rightarrow> text_syntax \<Rightarrow> file_entry \<Rightarrow> unit window \<Rightarrow> app_error + text_match" where
  "render_match env scope s f w =
     Inr \<lparr>tm_path = fe_path f, tm_line = wi_line w, tm_start_line = wi_start_line w,
          tm_end_line = wi_end_line w,
          tm_preview = slice_lines (fe_content f) (wi_start_line w) (wi_end_line w),
          tm_handle = encode_handle (se_payload env)
            \<lparr>rh_workspace_id = ss_workspace_id scope, rh_path = fe_path f,
             rh_start_line = wi_start_line w, rh_end_line = wi_end_line w, rh_content_hash = fe_hash f\<rparr>,
          tm_match_type = fst (match_types s), tm_reason_code = snd (match_types s)\<rparr>"

definition files_by_path :: "file_entry list \<Rightarrow> file_entry list" where
  "files_by_path fs = sort_key fe_path fs"

text \<open>The loop over the files: each one's windows are rendered into a group.\<close>

definition text_groups ::
    "search_env \<Rightarrow> search_scope \<Rightarrow> text_query \<Rightarrow> line_matcher \<Rightarrow> nat \<Rightarrow> file_entry list
     \<Rightarrow> app_error + text_match file_groups" where
  "text_groups env scope q m per_file_limit fs =
     fold_res (\<lambda>groups f.
         case push_file groups (file_windows m (tq_context_lines q) f) per_file_limit
                (render_match env scope (tq_syntax q) f) of
           (Inl e, _) \<Rightarrow> Inl e | (Inr _, groups') \<Rightarrow> Inr groups')
       groups_new fs"

definition search_text ::
    "search_env \<Rightarrow> code_index \<Rightarrow> search_scope \<Rightarrow> text_query \<Rightarrow> app_error + text_results" where
  "search_text env ci scope q =
     (if tq_pattern q = [] then Inl (error_invalid ''query is required for text search'')
      else case line_matcher_new env q of
        Inl e \<Rightarrow> Inl e
      | Inr m \<Rightarrow>
          let filters = path_filter_new (ss_paths scope);
              fs = files_by_path (filter (matcher_may_match m)
                     (filter (\<lambda>f. path_filter_allows filters (fe_path f)) (ci_files ci)));
              limit = scope_limit scope;
              per_file_limit = (if length filters = 1 then limit else min limit text_windows_per_file)
          in (case text_groups env scope q m per_file_limit fs of
                Inl e \<Rightarrow> Inl e
              | Inr groups \<Rightarrow>
                  let il = interleave groups limit
                  in Inr \<lparr>tr_mode = fst (match_types (tq_syntax q)), tr_snapshot_id = ss_snapshot_id scope,
                          tr_truncated = il_truncated il, tr_results = il_results il\<rparr>))"

section \<open>File names\<close>

datatype filename_matcher = Substring string bool | Glob "string \<Rightarrow> bool"

definition has_glob_wildcards :: "string \<Rightarrow> bool" where
  "has_glob_wildcards query \<longleftrightarrow> CHR ''*'' \<in> set query \<or> CHR 0x3F \<in> set query"

definition glob_pattern_to_regex :: "search_env \<Rightarrow> string \<Rightarrow> string" where
  "glob_pattern_to_regex env pattern =
     ''^'' @ concat (map (\<lambda>c. if c = 42 then ''.*'' else if c = 63 then ''.''
                              else se_regex_escape env (encode_char c)) (str_chars pattern)) @ ''$''"

definition filename_matcher_new :: "search_env \<Rightarrow> string \<Rightarrow> bool \<Rightarrow> app_error + filename_matcher" where
  "filename_matcher_new env query case_sensitive =
     (if has_glob_wildcards query
      then (case se_regex env (glob_pattern_to_regex env query) (\<not> case_sensitive) of
              Inl m \<Rightarrow> Inl (error_internal m)
            | Inr is_match \<Rightarrow> Inr (Glob is_match))
      else Inr (Substring (if case_sensitive then query else ascii_lower query) case_sensitive))"

fun filename_matches :: "filename_matcher \<Rightarrow> file_entry \<Rightarrow> bool" where
  "filename_matches (Substring needle case_sensitive) f =
     contains (if case_sensitive then fe_path f else fe_path_lower f) needle"
| "filename_matches (Glob is_match) f = is_match (fe_path f)"

fun filename_semantics :: "filename_matcher \<Rightarrow> string" where
  "filename_semantics (Substring _ _) = ''substring''"
| "filename_semantics (Glob _) = ''glob''"

record filename_results =
  fr_match_semantics :: string
  fr_snapshot_id :: string
  fr_truncated :: bool
  fr_paths :: "string list"

definition search_filenames ::
    "search_env \<Rightarrow> code_index \<Rightarrow> search_scope \<Rightarrow> string \<Rightarrow> bool \<Rightarrow> app_error + filename_results" where
  "search_filenames env ci scope name case_sensitive =
     (case filename_matcher_new env name case_sensitive of
        Inl e \<Rightarrow> Inl e
      | Inr m \<Rightarrow>
          let filters = path_filter_new (ss_paths scope);
              matched = sort (map fe_path (filter (filename_matches m)
                          (filter (\<lambda>f. path_filter_allows filters (fe_path f)) (ci_files ci))));
              paths = take (scope_limit scope) matched
          in Inr \<lparr>fr_match_semantics = filename_semantics m, fr_snapshot_id = ss_snapshot_id scope,
                  fr_truncated = (length paths < length matched), fr_paths = paths\<rparr>)"

section \<open>Symbols\<close>

datatype symbol_rank = RankExact | RankPrefix | RankContains

fun symbol_rank_order :: "symbol_rank \<Rightarrow> nat" where
  "symbol_rank_order RankExact = 0"
| "symbol_rank_order RankPrefix = 1"
| "symbol_rank_order RankContains = 2"

fun symbol_rank_match_type :: "symbol_rank \<Rightarrow> string" where
  "symbol_rank_match_type RankExact = ''exact_symbol''"
| "symbol_rank_match_type RankPrefix = ''prefix_symbol''"
| "symbol_rank_match_type RankContains = ''contains_symbol''"

fun symbol_rank_reason_code :: "symbol_rank \<Rightarrow> string" where
  "symbol_rank_reason_code RankExact = ''exact_symbol''"
| "symbol_rank_reason_code _ = ''symbol_match''"

definition symbol_rank_of :: "string \<Rightarrow> string \<Rightarrow> symbol_rank option" where
  "symbol_rank_of needle name =
     (let normalized_name = ascii_lower name
      in if \<not> contains normalized_name needle then None
         else if normalized_name = needle then Some RankExact
         else if starts_with normalized_name needle then Some RankPrefix
         else Some RankContains)"

record symbol_match =
  sm_rank :: symbol_rank
  sm_path :: string
  sm_symbol :: symbol
  sm_handle :: string

definition symbol_match_of ::
    "search_env \<Rightarrow> search_scope \<Rightarrow> symbol_rank \<Rightarrow> file_entry \<times> symbol \<Rightarrow> symbol_match" where
  "symbol_match_of env scope rank fs = (case fs of (f, s) \<Rightarrow>
     \<lparr>sm_rank = rank, sm_path = fe_path f, sm_symbol = s,
      sm_handle = encode_handle (se_payload env)
        \<lparr>rh_workspace_id = ss_workspace_id scope, rh_path = fe_path f, rh_start_line = sy_start_line s,
         rh_end_line = sy_end_line s, rh_content_hash = fe_hash f\<rparr>\<rparr>)"

definition symbol_matches :: "search_env \<Rightarrow> code_index \<Rightarrow> search_scope \<Rightarrow> string \<Rightarrow> symbol_match list" where
  "symbol_matches env ci scope query =
     (let filters = path_filter_new (ss_paths scope); needle = ascii_lower query
      in concat (map (\<lambda>name. case symbol_rank_of needle name of
            None \<Rightarrow> []
          | Some rank \<Rightarrow>
              map (symbol_match_of env scope rank)
                (filter (\<lambda>(f, _). path_filter_allows filters (fe_path f)) (indexed_symbols ci name)))
          (map fst (ci_symbol_index ci))))"

definition search_symbols :: "search_env \<Rightarrow> code_index \<Rightarrow> search_scope \<Rightarrow> string \<Rightarrow> symbol_match list" where
  "search_symbols env ci scope query =
     take (scope_limit scope)
       (sort_key (\<lambda>m. (symbol_rank_order (sm_rank m), sm_path m, sy_start_line (sm_symbol m)))
          (symbol_matches env ci scope query))"

section \<open>Outline and directories\<close>

record outline_result =
  ol_path :: string
  ol_hash :: string
  ol_symbols :: "symbol list"

definition outline :: "code_index \<Rightarrow> string \<Rightarrow> app_error + outline_result" where
  "outline ci path =
     (case index_get ci path of
        None \<Rightarrow> Inl (error_with_details PathNotIndexed ''Outline path is not indexed''
                   (JObj [(''path'', JStr path)]))
      | Some f \<Rightarrow> Inr \<lparr>ol_path = fe_path f, ol_hash = fe_hash f, ol_symbols = fe_symbols f\<rparr>)"

definition parent_directory :: "string \<Rightarrow> string" where
  "parent_directory path = (case rfind ''/'' path of None \<Rightarrow> ''.'' | Some i \<Rightarrow> take i path)"

record directory_entry =
  de_path :: string
  de_files :: nat
  de_languages :: "string list"

record repo_map_result =
  rm_snapshot_id :: string
  rm_directories :: "directory_entry list"
  rm_file_count :: nat
  rm_total_file_count :: nat
  rm_scope_applied :: bool

definition directory_entries :: "file_entry list \<Rightarrow> directory_entry list" where
  "directory_entries fs =
     map (\<lambda>d. let below = filter (\<lambda>f. parent_directory (fe_path f) = d) fs
              in \<lparr>de_path = d, de_files = length below,
                  de_languages = sort (remdups (map fe_language below))\<rparr>)
       (sort (remdups (map (\<lambda>f. parent_directory (fe_path f)) fs)))"

definition repo_map :: "code_index \<Rightarrow> search_scope \<Rightarrow> repo_map_result" where
  "repo_map ci scope =
     (let filters = path_filter_new (ss_paths scope);
          scoped = filter (\<lambda>f. path_filter_allows filters (fe_path f)) (ci_files ci)
      in \<lparr>rm_snapshot_id = ss_snapshot_id scope,
          rm_directories = take (scope_limit scope) (directory_entries scoped),
          rm_file_count = length scoped, rm_total_file_count = length (ci_files ci),
          rm_scope_applied = (0 < length filters)\<rparr>)"

section \<open>Lemmas\<close>

lemma split_inclusive_concat [simp]: "concat (split_inclusive s) = s"
  by (induction s) (auto split: list.splits)

lemma strip_line_end_prefix: "\<exists>e. l = strip_line_end l @ e"
proof (cases "rev l")
  case (Cons b rest)
  then have l: "l = rev rest @ [b]" by (metis rev.simps(2) rev_rev_ident)
  show ?thesis
    by (auto simp: strip_line_end_def l split: list.splits)
qed (simp add: strip_line_end_def)

lemma contains_trans: "contains s t \<Longrightarrow> contains t p \<Longrightarrow> contains s p"
  unfolding contains_iff by (metis append.assoc)

lemma str_lines_contained:
  assumes "line \<in> set (str_lines s)"
  shows "contains s line"
proof -
  obtain l where l: "l \<in> set (split_inclusive s)" "line = strip_line_end l"
    using assms by (auto simp: str_lines_def)
  then obtain xs ys where "split_inclusive s = xs @ l # ys" by (meson split_list)
  then have "s = concat xs @ l @ concat ys" by (metis concat.simps(2) concat_append split_inclusive_concat)
  moreover obtain e where "l = line @ e" using strip_line_end_prefix [of l] l(2) by auto
  ultimately show ?thesis unfolding contains_iff by (metis append.assoc)
qed

lemma matches_in_haystack:
  "\<not> matcher_may_match m f \<Longrightarrow> line \<in> set (str_lines (matcher_haystack m f)) \<Longrightarrow> \<not> matcher_matches m line"
  by (cases m) (auto dest: str_lines_contained contains_trans)

lemma file_windows_none:
  assumes "\<forall>line \<in> set (str_lines (matcher_haystack m f)). \<not> matcher_matches m line"
  shows "file_windows m context_lines f = []"
proof -
  let ?step = "\<lambda>b (i, line). if matcher_matches m line then builder_push b (i + 1) (i + 1) () else b"
  have "foldl ?step b xs = b" if "\<forall>x \<in> set xs. \<not> matcher_matches m (snd x)" for b xs
    using that by (induction xs) auto
  moreover have "\<forall>x \<in> set (enumerate 0 (str_lines (matcher_haystack m f))). \<not> matcher_matches m (snd x)"
    using assms by (auto simp: in_set_enumerate_eq)
  ultimately have "foldl ?step b (enumerate 0 (str_lines (matcher_haystack m f))) = b" for b by blast
  then show ?thesis by (simp add: file_windows_def builder_new_def builder_finish_def)
qed

lemma push_file_nothing [simp]: "push_file g [] n render = (Inr (), g)"
  by (simp add: push_file_def)

lemma text_groups_skip:
  assumes "\<And>f. f \<in> set fs \<Longrightarrow> \<not> P f \<Longrightarrow> file_windows m (tq_context_lines q) f = []"
  shows "text_groups env scope q m n (filter P fs) = text_groups env scope q m n fs"
proof -
  let ?step = "\<lambda>groups f. case push_file groups (file_windows m (tq_context_lines q) f) n
                (render_match env scope (tq_syntax q) f) of
           (Inl e, _) \<Rightarrow> Inl e | (Inr _, groups') \<Rightarrow> Inr groups'"
  have "fold_res ?step g (filter P fs) = fold_res ?step g fs" for g
    using assms by (induction fs arbitrary: g) (auto split: sum.splits prod.splits)
  then show ?thesis by (simp only: text_groups_def)
qed

definition search_text_unfiltered ::
    "search_env \<Rightarrow> code_index \<Rightarrow> search_scope \<Rightarrow> text_query \<Rightarrow> app_error + text_results" where
  "search_text_unfiltered env ci scope q =
     (if tq_pattern q = [] then Inl (error_invalid ''query is required for text search'')
      else case line_matcher_new env q of
        Inl e \<Rightarrow> Inl e
      | Inr m \<Rightarrow>
          let filters = path_filter_new (ss_paths scope);
              fs = files_by_path (filter (\<lambda>f. path_filter_allows filters (fe_path f)) (ci_files ci));
              limit = scope_limit scope;
              per_file_limit = (if length filters = 1 then limit else min limit text_windows_per_file)
          in (case text_groups env scope q m per_file_limit fs of
                Inl e \<Rightarrow> Inl e
              | Inr groups \<Rightarrow>
                  let il = interleave groups limit
                  in Inr \<lparr>tr_mode = fst (match_types (tq_syntax q)), tr_snapshot_id = ss_snapshot_id scope,
                          tr_truncated = il_truncated il, tr_results = il_results il\<rparr>))"

section \<open>The index as a map\<close>

text \<open>The abstract index: a finite map from a path to the entry indexed last at it.\<close>

fun spec_apply :: "(string \<Rightarrow> file_entry option) \<Rightarrow> index_op \<Rightarrow> (string \<Rightarrow> file_entry option)" where
  "spec_apply m (IInsert e) = m(fe_path e \<mapsto> e)"
| "spec_apply m (IRemove p) = m(p := None)"
| "spec_apply m (IRemoveTree p) = (\<lambda>q. if q = p \<or> starts_with q (p @ ''/'') then None else m q)"

lemma index_apply_refines:
  "index_lookup (index_apply sha ci x) = spec_apply (index_lookup ci) x"
  by (cases x) (auto simp: fun_eq_iff lookup_insert lookup_remove lookup_remove_tree below_def)

lemma index_run_refines: "index_lookup (index_run sha ops) = foldl spec_apply Map.empty ops"
proof -
  have "index_lookup (foldl (index_apply sha) ci ops) = foldl spec_apply (index_lookup ci) ops" for ci
    by (induction ops arbitrary: ci) (simp_all add: index_apply_refines)
  moreover have "index_lookup index_default = Map.empty"
    by (rule ext) (simp add: index_lookup_def index_default_def)
  ultimately show ?thesis by (simp add: index_run_def)
qed

text \<open>What the entries of the abstract index call for: the postings of a name, and the digest, taken
  over the entries in the order of their paths.\<close>

definition spec_postings :: "(string \<Rightarrow> file_entry option) \<Rightarrow> string \<Rightarrow> posting set" where
  "spec_postings m name =
     {(p, i). \<exists>e. m p = Some e \<and> i < length (fe_symbols e) \<and> sy_name (fe_symbols e ! i) = name}"

definition spec_digest :: "sha256 \<Rightarrow> (string \<Rightarrow> file_entry option) \<Rightarrow> u8 list" where
  "spec_digest sha m =
     foldl xor_into (replicate 32 0) (map (\<lambda>p. file_digest sha (the (m p))) (sorted_list_of_set (dom m)))"

lemma index_inv_lookup:
  assumes "index_inv sha ci"
  shows "index_lookup ci p = Some e \<longleftrightarrow> e \<in> set (ci_files ci) \<and> fe_path e = p"
  using index_lookup_Some [of ci p e] find_distinct [of "ci_files ci" e] assms
  by (auto simp: index_lookup_def index_inv_def)

lemma index_inv_postings:
  "index_inv sha ci \<Longrightarrow> set (postings ci name) = spec_postings (index_lookup ci) name"
  by (auto simp: index_inv_lookup spec_postings_def) (auto simp: index_inv_def posting_spec_def)

lemma index_inv_digest:
  assumes "index_inv sha ci"
  shows "ci_snapshot_acc ci = spec_digest sha (index_lookup ci)"
proof -
  let ?fs = "ci_files ci"
  have d: "dom (index_lookup ci) = set (map fe_path ?fs)"
    using index_inv_lookup [OF assms] by force
  have "mset (map fe_path ?fs) = mset (sorted_list_of_set (dom (index_lookup ci)))"
    unfolding d using assms
    by (subst set_eq_iff_mset_eq_distinct [symmetric]) (auto simp: index_inv_def)
  then have "mset (map (\<lambda>p. file_digest sha (the (index_lookup ci p))) (map fe_path ?fs))
      = mset (map (\<lambda>p. file_digest sha (the (index_lookup ci p))) (sorted_list_of_set (dom (index_lookup ci))))"
    by (simp only: mset_map)
  moreover have "map (\<lambda>p. file_digest sha (the (index_lookup ci p))) (map fe_path ?fs) = map (file_digest sha) ?fs"
    using index_inv_lookup [OF assms] by (auto simp: map_eq_conv) (metis option.sel)
  moreover have "ci_snapshot_acc ci = foldl xor_into (replicate 32 0) (map (file_digest sha) ?fs)"
    using assms by (simp add: index_inv_def acc_of_def)
  ultimately show ?thesis unfolding spec_digest_def by (metis foldl_xor_mset)
qed

section \<open>Properties\<close>

text \<open>C22. Skipping the files whose content does not contain the literal loses nothing: a text search
  answers the same (results, order, truncation and errors) as one that scans every file in scope.\<close>

theorem prefilter_loses_nothing:
  "search_text env ci scope q = search_text_unfiltered env ci scope q"
proof -
  have "text_groups env scope q m n (files_by_path (filter (matcher_may_match m) fs))
      = text_groups env scope q m n (files_by_path fs)" for m n fs
  proof -
    have "files_by_path (filter (matcher_may_match m) fs) = filter (matcher_may_match m) (files_by_path fs)"
      by (simp add: files_by_path_def filter_sort)
    then show ?thesis
      using text_groups_skip matches_in_haystack file_windows_none by metis
  qed
  then show ?thesis by (simp only: search_text_def search_text_unfiltered_def Let_def)
qed

text \<open>C23. The index with its postings and digest implements a finite map. After any sequence of
  inserts, removals and removals of whole trees, looking a path up gives the entry the map holds
  there; the postings of a name are, without repetition and in order, exactly the places where the
  entries of the map declare it; and the digest is that of the entries of the map, each taken once.
  The digests of the hash are taken to have 32 bytes, as those of SHA-256 have.\<close>

theorem index_refines_map:
  assumes "\<forall>m. length (sha m) = 32"
  shows "index_lookup (index_run sha ops) = foldl spec_apply Map.empty ops
    \<and> set (postings (index_run sha ops) name) = spec_postings (foldl spec_apply Map.empty ops) name
    \<and> distinct (postings (index_run sha ops) name) \<and> sorted (postings (index_run sha ops) name)
    \<and> ci_snapshot_acc (index_run sha ops) = spec_digest sha (foldl spec_apply Map.empty ops)"
proof -
  have "index_inv sha (index_run sha ops)" using assms by (simp add: index_run_inv sha_len_def)
  from index_inv_postings [OF this] index_inv_digest [OF this] this show ?thesis
    by (simp add: index_run_refines index_inv_def)
qed

theorem index_refines_map_witness:
  "let sha = (\<lambda>m. replicate 32 (of_nat (length m)));
       s = \<lparr>sy_name = ''f'', sy_kind = ''fn'', sy_start_line = 1, sy_end_line = 1, sy_signature = ''f''\<rparr>;
       ci = index_run sha [IInsert (sample_entry ''a'' ''1'' [s]), IInsert (sample_entry ''b'' ''2'' [s, s]), IRemove ''a'']
   in set (postings ci ''f'') = {(''b'', 0), (''b'', 1)}
     \<and> ci_snapshot_acc ci = xor_into (replicate 32 0) (file_digest sha (sample_entry ''b'' ''2'' [s, s]))"
proof -
  let ?sha = "\<lambda>m :: string. replicate 32 (of_nat (length m)) :: u8 list"
  let ?s = "\<lparr>sy_name = ''f'', sy_kind = ''fn'', sy_start_line = 1, sy_end_line = 1, sy_signature = ''f''\<rparr>"
  let ?a = "sample_entry ''a'' ''1'' [?s]" and ?b = "sample_entry ''b'' ''2'' [?s, ?s]"
  let ?ops = "[IInsert ?a, IInsert ?b, IRemove ''a'']"
  have sha: "\<forall>m. length (?sha m) = 32" by simp
  have m: "foldl spec_apply Map.empty ?ops = [''b'' \<mapsto> ?b]"
    by (auto simp: fun_eq_iff sample_entry_def entry_with_symbols_def)
  have "spec_postings [''b'' \<mapsto> ?b] ''f'' = {(''b'', 0), (''b'', 1)}"
    by (auto simp: spec_postings_def sample_entry_def entry_with_symbols_def less_Suc_eq split: if_splits)
  moreover have "spec_digest ?sha [''b'' \<mapsto> ?b] = xor_into (replicate 32 0) (file_digest ?sha ?b)"
    by (simp add: spec_digest_def)
  ultimately show ?thesis
    using index_refines_map [OF sha, of ?ops "''f''"] unfolding m Let_def by simp
qed

end
