(* ===== verification/Bash_Supervisor.thy ===== *)
theory Bash_Supervisor
  imports Run_Execution Workspace_Root Text_Util "HOL-Library.AList" "HOL-Library.List_Lexorder"
    "HOL-Library.Char_ord" "HOL-Library.Product_Lexorder" "HOL-Library.Multiset"
begin

text \<open>
  The Bash supervisor (\<open>src/bash.rs\<close>) with the requests it serves
  (\<open>src/requests/bash.rs\<close>) and the resolution of the executable
  (\<open>src/bash/readiness.rs\<close>): the table of retained runs, the admission of a run, and the
  views of its record. The probe of an executable, the list of further candidates, the
  clock, the fresh run id and what became of the awaited task are arguments.
\<close>

section \<open>The policy and the resolved executable\<close>

record bash_config =
  bc_executable :: string
  bc_default_timeout_ms :: nat
  bc_foreground_budget_ms :: nat
  bc_max_timeout_ms :: nat
  bc_max_output_chars :: nat

definition validate_policy :: "bash_config \<Rightarrow> app_error + unit" where
  "validate_policy c =
     (if trim (bc_executable c) = []
      then Inl (error_with_details InvalidPolicy ''policy.bash.executable must not be empty'' (JObj []))
      else if bc_max_output_chars c = 0
      then Inl (error_with_details InvalidPolicy
             ''policy.bash.maxOutputChars must be greater than zero''
             (JObj [(''max_output_chars'', JNum (int (bc_max_output_chars c)))]))
      else if bc_default_timeout_ms c = 0 \<or> bc_max_timeout_ms c = 0
      then Inl (error_with_details InvalidPolicy
             ''policy.bash timeout values must be greater than zero''
             (JObj [(''default_timeout_ms'', JNum (int (bc_default_timeout_ms c))),
                    (''max_timeout_ms'', JNum (int (bc_max_timeout_ms c)))]))
      else if bc_max_timeout_ms c < bc_default_timeout_ms c
      then Inl (error_with_details InvalidPolicy
             ''policy.bash.defaultTimeoutMs must be less than or equal to maxTimeoutMs''
             (JObj [(''default_timeout_ms'', JNum (int (bc_default_timeout_ms c))),
                    (''max_timeout_ms'', JNum (int (bc_max_timeout_ms c)))]))
      else Inr ())"

datatype readiness = Ready | Unavailable

record bash_readiness =
  br_configured :: bool
  br_configured_executable :: string
  br_resolved_executable :: "string option"
  br_shell_type :: string
  br_readiness :: readiness
  br_failure_reason :: "string option"

definition readiness_is_ready :: "bash_readiness \<Rightarrow> bool" where
  "readiness_is_ready r \<longleftrightarrow> br_readiness r = Ready \<and> br_resolved_executable r \<noteq> None"

definition bash_readiness_of ::
    "string \<Rightarrow> readiness \<Rightarrow> string option \<Rightarrow> string option \<Rightarrow> bash_readiness" where
  "bash_readiness_of configured readiness executable failure_reason =
     \<lparr>br_configured = True, br_configured_executable = configured,
      br_resolved_executable = executable, br_shell_type = ''bash'', br_readiness = readiness,
      br_failure_reason = failure_reason\<rparr>"

definition is_default_bash_name :: "string \<Rightarrow> bool" where
  "is_default_bash_name configured \<longleftrightarrow>
     ascii_lower (trim configured) \<in> {''bash'', ''bash.exe''}"

text \<open>\<open>probe\<close> runs the executable once; \<open>candidates\<close> are the further places of the platform.\<close>

definition resolve_bash ::
    "(string \<Rightarrow> string + unit) \<Rightarrow> string list \<Rightarrow> bash_config \<Rightarrow> bash_readiness" where
  "resolve_bash probe candidates policy =
     (let configured = trim (bc_executable policy)
      in if configured = []
         then bash_readiness_of configured Unavailable None
                (Some ''policy.bash.executable must not be empty'')
         else if path_is_absolute configured
         then (case probe configured of
                 Inr _ \<Rightarrow> bash_readiness_of configured Ready (Some configured) None
               | Inl e \<Rightarrow> bash_readiness_of configured Unavailable None
                   (Some (''Configured Bash executable is not usable: '' @ e)))
         else case probe configured of
                Inr _ \<Rightarrow> bash_readiness_of configured Ready (Some configured) None
              | Inl e \<Rightarrow>
                  let failures = [configured @ '': '' @ e];
                      found = (if is_default_bash_name configured
                               then find (\<lambda>c. case probe c of Inr _ \<Rightarrow> True | Inl _ \<Rightarrow> False) candidates
                               else None);
                      reason = ''No usable Bash implementation found; readiness probe failures: ''
                               @ join_with ''; '' failures
                  in case found of
                       Some candidate \<Rightarrow> bash_readiness_of configured Ready (Some candidate) None
                     | None \<Rightarrow> bash_readiness_of configured Unavailable None (Some reason))"

definition readiness_json :: "bash_readiness \<Rightarrow> json" where
  "readiness_json r =
     (let opt = (\<lambda>v. case v of None \<Rightarrow> JNull | Some s \<Rightarrow> JStr s)
      in JObj [(''configured'', JBool (br_configured r)),
               (''configured_executable'', JStr (br_configured_executable r)),
               (''resolved_executable'', opt (br_resolved_executable r)),
               (''shell_type'', JStr (br_shell_type r)),
               (''readiness'', JStr (case br_readiness r of
                  Ready \<Rightarrow> ''ready'' | Unavailable \<Rightarrow> ''unavailable'')),
               (''failure_reason'', opt (br_failure_reason r))])"

section \<open>The table of retained runs\<close>

type_synonym run_table = "(string \<times> run_record) list"

definition table_get :: "run_table \<Rightarrow> string \<Rightarrow> app_error + run_record" where
  "table_get runs run_id =
     (case map_of runs run_id of
        Some r \<Rightarrow> Inr r
      | None \<Rightarrow> Inl (error_with_details RunNotFound ''Bash run not found''
                   (JObj [(''run_id'', JStr run_id)])))"

text \<open>The terminal runs by end time, sequence number and id.\<close>

definition ended_runs :: "run_table \<Rightarrow> (instant \<times> nat \<times> string) list" where
  "ended_runs runs =
     sort (List.map_filter (\<lambda>(run_id, r). map_option (\<lambda>ended. (ended, rr_sequence r, run_id)) (rr_ended_at r))
             runs)"

definition table_insert :: "run_table \<Rightarrow> string \<Rightarrow> run_record \<Rightarrow> nat \<Rightarrow> run_table" where
  "table_insert runs run_id r retain =
     (let runs1 = AList.update run_id r runs
      in if length runs1 \<le> retain then runs1
         else let excess = length runs1 - retain
              in foldl (\<lambda>rs (_, _, victim). AList.delete victim rs) runs1
                   (take excess (ended_runs runs1)))"

section \<open>Requests\<close>

record start_request =
  sq_command :: string
  sq_cwd :: "string option"
  sq_background :: "bool option"
  sq_timeout_ms :: "nat option"

datatype bash_request =
    BashStart start_request
  | BashStatus string
  | BashOutput string output_stream "string option"
  | BashCancel string

definition is_poll :: "bash_request \<Rightarrow> bool" where
  "is_poll r \<longleftrightarrow> (case r of BashStart _ \<Rightarrow> False | _ \<Rightarrow> True)"

definition non_blank :: "string \<Rightarrow> string \<Rightarrow> string \<Rightarrow> app_error + string" where
  "non_blank meth field v =
     (if trim v = []
      then Inl (error_with_details InvalidBashRequest
             (meth @ '' field '' @ [CHR 0x27] @ field @ [CHR 0x27] @ '' must be a non-empty string'')
             (JObj [(''field'', JStr field)]))
      else Inr v)"

record bash_start_request =
  bs_command :: string
  bs_cwd :: "string option"
  bs_background :: bool
  bs_timeout_ms :: "nat option"

definition start_into_request :: "bash_start_request \<Rightarrow> app_error + bash_request" where
  "start_into_request q =
     (case non_blank ''bash'' ''command'' (bs_command q) of
        Inl e \<Rightarrow> Inl e
      | Inr command \<Rightarrow>
          Inr (BashStart \<lparr>sq_command = command, sq_cwd = bs_cwd q,
                 sq_background = Some (bs_background q), sq_timeout_ms = bs_timeout_ms q\<rparr>))"

definition status_into_request :: "string \<Rightarrow> app_error + bash_request" where
  "status_into_request run_id =
     (case non_blank ''bash_status'' ''run_id'' run_id of
        Inl e \<Rightarrow> Inl e | Inr id' \<Rightarrow> Inr (BashStatus id'))"

definition output_into_request ::
    "string \<Rightarrow> output_stream option \<Rightarrow> string option \<Rightarrow> app_error + bash_request" where
  "output_into_request run_id stream continuation =
     (case non_blank ''bash_output'' ''run_id'' run_id of
        Inl e \<Rightarrow> Inl e
      | Inr id' \<Rightarrow>
          Inr (BashOutput id' (case stream of None \<Rightarrow> Combined | Some s \<Rightarrow> s) continuation))"

definition cancel_into_request :: "string \<Rightarrow> app_error + bash_request" where
  "cancel_into_request run_id =
     (case non_blank ''bash_cancel'' ''run_id'' run_id of
        Inl e \<Rightarrow> Inl e | Inr id' \<Rightarrow> Inr (BashCancel id'))"

section \<open>The supervisor\<close>

text \<open>A run id names the permit's owner; \<open>sv_launcher\<close> is the executable of the launcher.\<close>

record supervisor =
  sv_runs :: run_table
  sv_next_sequence :: nat
  sv_permit :: "string option"
  sv_policy :: bash_config
  sv_readiness :: bash_readiness
  sv_launcher :: "string option"

definition max_retained_runs :: nat where
  "max_retained_runs = 128"

definition supervisor_with_parts ::
    "bash_config \<Rightarrow> bash_readiness \<Rightarrow> string option \<Rightarrow> supervisor" where
  "supervisor_with_parts policy readiness launcher =
     \<lparr>sv_runs = [], sv_next_sequence = 0, sv_permit = None, sv_policy = policy,
      sv_readiness = readiness, sv_launcher = launcher\<rparr>"

definition supervisor_new ::
    "(string \<Rightarrow> string + unit) \<Rightarrow> string list \<Rightarrow> bash_config \<Rightarrow> app_error + supervisor" where
  "supervisor_new probe candidates policy =
     (case validate_policy policy of
        Inl e \<Rightarrow> Inl e
      | Inr _ \<Rightarrow>
          let readiness = resolve_bash probe candidates policy;
              launcher = (if readiness_is_ready readiness then br_resolved_executable readiness else None)
          in Inr (supervisor_with_parts policy readiness launcher))"

definition launcher_of :: "supervisor \<Rightarrow> app_error + string" where
  "launcher_of sv =
     (case sv_launcher sv of
        Some l \<Rightarrow> Inr l
      | None \<Rightarrow>
          Inl (error_with_details BashUnavailable
                 (case br_failure_reason (sv_readiness sv) of
                    Some reason \<Rightarrow> reason
                  | None \<Rightarrow> ''No usable Bash implementation found'')
                 (JObj [(''execution'', readiness_json (sv_readiness sv))])))"

definition running_count :: "supervisor \<Rightarrow> nat" where
  "running_count sv = length (filter (\<lambda>(_, r). \<not> is_terminal (rr_status r)) (sv_runs sv))"

text \<open>An operation on one retained record.\<close>

definition on_record ::
    "supervisor \<Rightarrow> string \<Rightarrow> (run_record \<Rightarrow> 'b \<times> run_record) \<Rightarrow> (app_error + 'b) \<times> supervisor" where
  "on_record sv run_id f =
     (case table_get (sv_runs sv) run_id of
        Inl e \<Rightarrow> (Inl e, sv)
      | Inr r \<Rightarrow> (case f r of
          (b, r') \<Rightarrow> (Inr b, sv\<lparr>sv_runs := AList.update run_id r' (sv_runs sv)\<rparr>)))"

definition set_change_baseline :: "supervisor \<Rightarrow> string \<Rightarrow> change_baseline \<Rightarrow> supervisor" where
  "set_change_baseline sv run_id baseline =
     snd (on_record sv run_id (\<lambda>r. ((), set_baseline r baseline)))"

definition supervisor_change_window ::
    "supervisor \<Rightarrow> string \<Rightarrow> change_baseline \<Rightarrow> (app_error + run_change_window) \<times> supervisor" where
  "supervisor_change_window sv run_id fallback =
     on_record sv run_id (\<lambda>r. change_window r fallback)"

definition supervisor_freeze_changes ::
    "supervisor \<Rightarrow> string \<Rightarrow> frozen_changes \<Rightarrow> (app_error + frozen_changes) \<times> supervisor" where
  "supervisor_freeze_changes sv run_id changes =
     on_record sv run_id (\<lambda>r. freeze_changes r changes)"

section \<open>Starting a run\<close>

record prepared_start =
  ps_launcher :: string
  ps_command :: string
  ps_cwd :: string
  ps_background :: bool
  ps_timeout_ms :: nat

definition start_cwd :: "'d dir_ops \<Rightarrow> 'd \<Rightarrow> string \<Rightarrow> string option \<Rightarrow> app_error + string" where
  "start_cwd ops d root cwd =
     (let cwd_relative = (case cwd of None \<Rightarrow> ''.'' | Some c \<Rightarrow> c)
      in if cwd_relative = ''.'' then Inr root
         else case rel_path_new cwd_relative of
                Inl e \<Rightarrow> Inl e
              | Inr p \<Rightarrow> root_directory ops d root p)"

definition prepare_start_request ::
    "'d dir_ops \<Rightarrow> 'd \<Rightarrow> string \<Rightarrow> supervisor \<Rightarrow> start_request \<Rightarrow> app_error + prepared_start" where
  "prepare_start_request ops d root sv q =
     (case launcher_of sv of
        Inl e \<Rightarrow> Inl e
      | Inr launcher \<Rightarrow>
          let command = trim (sq_command q)
          in if command = [] then Inl (error_invalid ''Bash command cannot be empty'')
             else case start_cwd ops d root (sq_cwd q) of
                    Inl e \<Rightarrow> Inl e
                  | Inr cwd \<Rightarrow>
                      let timeout_ms = (case sq_timeout_ms q of
                            None \<Rightarrow> bc_default_timeout_ms (sv_policy sv) | Some t \<Rightarrow> t)
                      in if timeout_ms = 0 \<or> bc_max_timeout_ms (sv_policy sv) < timeout_ms
                         then Inl (error_with_details InvalidTimeout
                                ''timeout_ms must be greater than zero and no larger than policy.bash.maxTimeoutMs''
                                (JObj [(''timeout_ms'', JNum (int timeout_ms)),
                                       (''max_timeout_ms'', JNum (int (bc_max_timeout_ms (sv_policy sv))))]))
                         else Inr \<lparr>ps_launcher = launcher, ps_command = command, ps_cwd = cwd,
                                   ps_background = (case sq_background q of None \<Rightarrow> False | Some b \<Rightarrow> b),
                                   ps_timeout_ms = timeout_ms\<rparr>)"

definition run_priority :: "run_status \<Rightarrow> nat option" where
  "run_priority s =
     (if s = Running \<or> s = Cancelling then Some 0 else if s = Queued then Some 1 else None)"

definition active_candidates :: "run_table \<Rightarrow> ((nat \<times> nat) \<times> run_record) list" where
  "active_candidates runs =
     List.map_filter (\<lambda>(_, r). map_option (\<lambda>p. ((p, rr_sequence r), r)) (run_priority (rr_status r))) runs"

definition active_view_json :: "instant \<Rightarrow> run_record \<Rightarrow> json" where
  "active_view_json now r =
     JObj [(''run_id'', JStr (rr_run_id r)), (''status'', JStr (status_as_str (rr_status r))),
           (''command'', JStr (rr_command r)),
           (''elapsed_ms'', JNum (int (now - rr_started_at r))),
           (''status_fetch'', JObj [(''kind'', JStr ''bash_status''), (''value'', JStr (rr_run_id r))])]"

definition active_run_view :: "instant \<Rightarrow> supervisor \<Rightarrow> json option" where
  "active_run_view now sv =
     map_option (\<lambda>(_, r). active_view_json now r) (min_by_key fst (active_candidates (sv_runs sv)))"

definition run_busy_error :: "instant \<Rightarrow> supervisor \<Rightarrow> app_error" where
  "run_busy_error now sv =
     error_with_details RunBusy ''Another command is already running''
       (JObj [(''retryable'', JBool True), (''active_run_limit'', JNum 1),
              (''active_run'', case active_run_view now sv of None \<Rightarrow> JNull | Some v \<Rightarrow> v),
              (''suggested_action'', JStr ''Poll bash_status with the active run_id, or cancel it before starting a different command.'')])"

text \<open>The record of a new run enters the table; its sequence number wraps at 64 bits.\<close>

definition admit_run :: "instant \<Rightarrow> string \<Rightarrow> supervisor \<Rightarrow> prepared_start \<Rightarrow> supervisor" where
  "admit_run now run_id sv p =
     sv\<lparr>sv_next_sequence := (sv_next_sequence sv + 1) mod 2 ^ 64,
        sv_runs := table_insert (sv_runs sv) run_id
          (run_queued now run_id (sv_next_sequence sv) (ps_command p) (ps_cwd p)
             (bc_max_output_chars (sv_policy sv)))
          max_retained_runs\<rparr>"

text \<open>\<open>start\<close> and \<open>queue\<close> up to the point where the task runs: the permit is taken at once
  or left to the task.\<close>

definition start_admit ::
    "'d dir_ops \<Rightarrow> 'd \<Rightarrow> string \<Rightarrow> instant \<Rightarrow> string \<Rightarrow> supervisor \<Rightarrow> start_request
     \<Rightarrow> (app_error + prepared_start) \<times> supervisor" where
  "start_admit ops d root now run_id sv q =
     (case prepare_start_request ops d root sv q of
        Inl e \<Rightarrow> (Inl e, sv)
      | Inr p \<Rightarrow>
          if sv_permit sv \<noteq> None then (Inl (run_busy_error now sv), sv)
          else (Inr p, (admit_run now run_id sv p)\<lparr>sv_permit := Some run_id\<rparr>))"

definition queue_admit ::
    "'d dir_ops \<Rightarrow> 'd \<Rightarrow> string \<Rightarrow> instant \<Rightarrow> string \<Rightarrow> supervisor \<Rightarrow> start_request
     \<Rightarrow> (app_error + prepared_start) \<times> supervisor" where
  "queue_admit ops d root now run_id sv q =
     (case prepare_start_request ops d root sv q of
        Inl e \<Rightarrow> (Inl e, sv)
      | Inr p \<Rightarrow> (Inr (p\<lparr>ps_background := True\<rparr>), admit_run now run_id sv (p\<lparr>ps_background := True\<rparr>)))"

section \<open>Views of a run\<close>

record bash_run_view =
  bv_run_id :: string
  bv_status :: run_status
  bv_command :: string
  bv_cwd :: string
  bv_started_at :: instant
  bv_ended_at :: "instant option"
  bv_exit_code :: "int option"
  bv_output :: ustr
  bv_output_truncated :: bool
  bv_retention_policy :: string
  bv_dropped_prefix_chars :: nat
  bv_retained_start_offset :: nat
  bv_log_handle :: string
  bv_status_fetch :: json
  bv_pid :: "nat option"

definition push_note :: "ustr \<Rightarrow> string \<Rightarrow> ustr" where
  "push_note output note = (if output \<noteq> [] then output @ [10, 10] else output) @ str_chars note"

definition run_view :: "run_record \<Rightarrow> nat \<Rightarrow> bash_run_view option" where
  "run_view r max_output =
     (let combined = output_stream_of (rr_output r) Combined
      in case tail_retained combined of
           None \<Rightarrow> None
         | Some retained \<Rightarrow>
             let full = foldl push_note retained (rr_notes r)
             in (case clamp_chars full max_output (keeps_output_tail (rr_status r)) of
                   None \<Rightarrow> None
                 | Some clamped \<Rightarrow> Some
                     \<lparr>bv_run_id = rr_run_id r, bv_status = rr_status r, bv_command = rr_command r,
                      bv_cwd = rr_cwd r, bv_started_at = rr_started_at r, bv_ended_at = rr_ended_at r,
                      bv_exit_code = rr_exit_code r,
                      bv_output = (case clamped of None \<Rightarrow> full | Some c \<Rightarrow> c),
                      bv_output_truncated = (output_truncated (rr_output r) \<or> clamped \<noteq> None),
                      bv_retention_policy = ''tail'',
                      bv_dropped_prefix_chars = tb_dropped_chars combined,
                      bv_retained_start_offset = tb_dropped_chars combined,
                      bv_log_handle = ''bash-log:'' @ rr_run_id r,
                      bv_status_fetch = JObj [(''kind'', JStr ''bash_status''), (''value'', JStr (rr_run_id r))],
                      bv_pid = run_pid r\<rparr>))"

text \<open>The views answer \<open>None\<close> where the code would panic.\<close>

definition status_with_limit :: "supervisor \<Rightarrow> string \<Rightarrow> nat \<Rightarrow> (app_error + bash_run_view) option" where
  "status_with_limit sv run_id max_output =
     (case table_get (sv_runs sv) run_id of
        Inl e \<Rightarrow> Some (Inl e)
      | Inr r \<Rightarrow> map_option Inr (run_view r (min max_output (bc_max_output_chars (sv_policy sv)))))"

definition run_status_view :: "supervisor \<Rightarrow> string \<Rightarrow> (app_error + bash_run_view) option" where
  "run_status_view sv run_id = status_with_limit sv run_id (bc_max_output_chars (sv_policy sv))"

record output_view =
  ov_run_id :: string
  ov_status :: run_status
  ov_exit_code :: "int option"
  ov_stream :: output_stream
  ov_output :: ustr
  ov_continuation :: "string option"
  ov_total_chars :: nat
  ov_retained_chars :: nat
  ov_output_truncated :: bool
  ov_dropped_prefix_chars :: nat

definition output_stream_view ::
    "supervisor \<Rightarrow> string \<Rightarrow> string option \<Rightarrow> output_stream \<Rightarrow> (app_error + output_view) option" where
  "output_stream_view sv run_id continuation stream =
     (case table_get (sv_runs sv) run_id of
        Inl e \<Rightarrow> Some (Inl e)
      | Inr r \<Rightarrow>
          let buffer = output_stream_of (rr_output r) stream;
              dropped = tb_dropped_chars buffer;
              from = (case continuation_offset continuation run_id stream of None \<Rightarrow> dropped | Some n \<Rightarrow> n)
          in (case tail_page buffer from (bc_max_output_chars (sv_policy sv)) of
                None \<Rightarrow> None
              | Some pg \<Rightarrow> Some (Inr
                  \<lparr>ov_run_id = run_id, ov_status = rr_status r, ov_exit_code = rr_exit_code r,
                   ov_stream = stream, ov_output = page_text pg,
                   ov_continuation = map_option (continuation_token run_id stream) (page_next pg),
                   ov_total_chars = tail_total_chars buffer, ov_retained_chars = tb_retained_chars buffer,
                   ov_output_truncated = (0 < dropped), ov_dropped_prefix_chars = dropped\<rparr>)))"

datatype cancel_reply = EndedView bash_run_view | CancelRequested string "process_group option"

definition cancel_run :: "instant \<Rightarrow> supervisor \<Rightarrow> string \<Rightarrow> (app_error + cancel_reply) option \<times> supervisor" where
  "cancel_run now sv run_id =
     (case on_record sv run_id (request_cancel now) of
        (Inl e, sv') \<Rightarrow> (Some (Inl e), sv')
      | (Inr (Requested g), sv') \<Rightarrow> (Some (Inr (CancelRequested run_id g)), sv')
      | (Inr AlreadyTerminal, sv') \<Rightarrow>
          (map_option (map_sum id EndedView) (status_with_limit sv' run_id (bc_max_output_chars (sv_policy sv))), sv'))"

definition read_output :: "supervisor \<Rightarrow> string \<Rightarrow> (app_error + ustr) option" where
  "read_output sv run_id =
     (case table_get (sv_runs sv) run_id of
        Inl e \<Rightarrow> Some (Inl e)
      | Inr r \<Rightarrow> map_option Inr (tail_retained (output_stream_of (rr_output r) Combined)))"

section \<open>The reply to a start\<close>

text \<open>\<open>finished\<close> is how the task ends (its result, or the message of its panic) and
  \<open>elapses n\<close> says that \<open>n\<close> milliseconds pass before it does.\<close>

datatype start_reply =
    Finished bash_run_view
  | InBackground bash_run_view
  | QueuedBehind bash_run_view
  | Detached bash_run_view

definition awaits_fully :: "supervisor \<Rightarrow> prepared_start \<Rightarrow> bool" where
  "awaits_fully sv p \<longleftrightarrow>
     (let budget_ms = bc_foreground_budget_ms (sv_policy sv)
      in budget_ms = 0 \<or> ps_timeout_ms p \<le> budget_ms)"

definition start_reply_of ::
    "supervisor \<Rightarrow> string \<Rightarrow> bool \<Rightarrow> prepared_start \<Rightarrow> string + (app_error + unit) \<Rightarrow> (nat \<Rightarrow> bool)
     \<Rightarrow> (app_error + start_reply) option" where
  "start_reply_of sv run_id queued p finished elapses =
     (if queued then map_option (map_sum id QueuedBehind) (run_status_view sv run_id)
      else if ps_background p then map_option (map_sum id InBackground) (run_status_view sv run_id)
      else if \<not> awaits_fully sv p \<and> elapses (bc_foreground_budget_ms (sv_policy sv))
      then map_option (map_sum id Detached) (run_status_view sv run_id)
      else case finished of
             Inr (Inl e) \<Rightarrow> Some (Inl e)
           | Inr (Inr _) \<Rightarrow> map_option (map_sum id Finished) (run_status_view sv run_id)
           | Inl detail \<Rightarrow>
               Some (Inl (error_with_details BashExecutionFailed
                      ''Bash execution task terminated unexpectedly''
                      (JObj [(''run_id'', JStr run_id), (''detail'', JStr detail)]))))"

section \<open>Lemmas: retention\<close>

definition run_key :: "string \<times> run_record \<Rightarrow> (instant \<times> nat \<times> string) option" where
  "run_key e = map_option (\<lambda>ended. (ended, rr_sequence (snd e), fst e)) (rr_ended_at (snd e))"

definition evict :: "(instant \<times> nat \<times> string) list \<Rightarrow> run_table \<Rightarrow> run_table" where
  "evict victims runs = filter (\<lambda>e. fst e \<notin> (snd \<circ> snd) ` set victims) runs"

lemma foldl_delete_evict:
  "foldl (\<lambda>rs (_, _, victim). AList.delete victim rs) runs victims = evict victims runs"
proof (induction victims arbitrary: runs)
  case Nil
  then show ?case by (simp add: evict_def)
next
  case (Cons v victims)
  obtain a b c where v: "v = (a, b, c)" by (cases v)
  show ?case
    by (simp add: Cons.IH v) (auto simp: evict_def AList.delete_eq intro: filter_cong)
qed

lemma ended_runs_eq: "ended_runs runs = sort (List.map_filter run_key runs)"
  by (simp add: ended_runs_def run_key_def [abs_def] case_prod_beta')

lemma set_ended_runs:
  "x \<in> set (ended_runs runs) \<longleftrightarrow> (\<exists>e \<in> set runs. run_key e = Some x)"
proof -
  have "x \<in> set (List.map_filter run_key runs) \<longleftrightarrow> (\<exists>e \<in> set runs. run_key e = Some x)"
    by (induction runs) (auto simp: List.map_filter_simps split: option.splits)
  then show ?thesis by (simp add: ended_runs_eq)
qed

lemma ended_ids: "map (snd \<circ> snd) (List.map_filter run_key runs)
    = map fst (filter (\<lambda>e. rr_ended_at (snd e) \<noteq> None) runs)"
  by (induction runs) (auto simp: run_key_def List.map_filter_simps)

lemma mset_ended_ids: "mset (map (snd \<circ> snd) (ended_runs runs))
    = mset (map fst (filter (\<lambda>e. rr_ended_at (snd e) \<noteq> None) runs))"
  by (simp only: mset_map ended_runs_eq mset_sort flip: ended_ids)

lemma length_evict:
  assumes "distinct (map fst runs)" "(snd \<circ> snd) ` set victims \<subseteq> fst ` set runs"
    and "distinct (map (snd \<circ> snd) victims)"
  shows "length (evict victims runs) + length victims = length runs"
proof -
  let ?V = "(snd \<circ> snd) ` set victims"
  have "length (filter (\<lambda>e. fst e \<in> ?V) runs) = card (fst ` set (filter (\<lambda>e. fst e \<in> ?V) runs))"
    using assms(1)
    by (metis (no_types, lifting) card_length distinct_card distinct_map_filter length_map set_map)
  also have "fst ` set (filter (\<lambda>e. fst e \<in> ?V) runs) = ?V"
    using assms(2) by force
  also have "card ?V = length victims"
    using assms(3) by (metis distinct_card length_map set_map)
  finally show ?thesis
    using sum_length_filter_compl [of "\<lambda>e. fst e \<in> ?V" runs] by (simp add: evict_def)
qed

lemma ended_runs_ids_distinct: "distinct (map fst runs) \<Longrightarrow> distinct (map (snd \<circ> snd) (ended_runs runs))"
  by (metis distinct_map_filter mset_ended_ids mset_eq_imp_distinct_iff)

lemma length_ended_runs: "length (ended_runs runs) = length (filter (\<lambda>e. rr_ended_at (snd e) \<noteq> None) runs)"
  by (metis length_map mset_ended_ids size_mset)

lemma run_key_Some:
  "run_key e = Some x \<longleftrightarrow> (\<exists>t. rr_ended_at (snd e) = Some t \<and> x = (t, rr_sequence (snd e), fst e))"
  by (auto simp: run_key_def)

lemma map_of_evict:
  "map_of (evict victims runs) k = (if k \<in> (snd \<circ> snd) ` set victims then None else map_of runs k)"
proof -
  have "map_of (filter (\<lambda>e. fst e \<notin> V) runs) k = (if k \<in> V then None else map_of runs k)" for V
    by (induction runs) auto
  then show ?thesis by (simp only: evict_def)
qed

text \<open>A victim is the entry of its id, and comes before every ended run that stays.\<close>

lemma take_ended_order:
  assumes "x \<in> set (take n (ended_runs runs))" "y \<in> set (ended_runs runs)" "y \<notin> set (take n (ended_runs runs))"
  shows "x \<le> y"
proof -
  have "sorted (take n (ended_runs runs) @ drop n (ended_runs runs))" by (simp add: ended_runs_eq)
  moreover have "y \<in> set (drop n (ended_runs runs))"
    using assms(2,3) by (metis Un_iff append_take_drop_id set_append)
  ultimately show ?thesis using assms(1) by (auto simp: sorted_append simp del: append_take_drop_id)
qed

definition evicts_only :: "run_table \<Rightarrow> run_table \<Rightarrow> bool" where
  "evicts_only before after \<longleftrightarrow>
     (\<forall>k r. map_of before k = Some r \<longrightarrow>
        map_of after k = Some r
        \<or> map_of after k = None
          \<and> (\<exists>t. rr_ended_at r = Some t
               \<and> (\<forall>k' r' t'. map_of after k' = Some r' \<and> rr_ended_at r' = Some t' \<longrightarrow>
                     (t, rr_sequence r, k) \<le> (t', rr_sequence r', k'))))
     \<and> (\<forall>k. map_of before k = None \<longrightarrow> map_of after k = None)"

lemma evicts_only_active:
  "evicts_only before after \<Longrightarrow> map_of before k = Some r \<Longrightarrow> rr_ended_at r = None \<Longrightarrow> map_of after k = Some r"
  unfolding evicts_only_def by (metis option.distinct(1))

lemma evicts_only_subset:
  "evicts_only before after \<Longrightarrow> map_of after k = Some r \<Longrightarrow> map_of before k = Some r"
  by (cases "map_of before k") (fastforce simp: evicts_only_def)+

lemma evict_ended:
  fixes n :: nat
  assumes "distinct (map fst runs)"
  defines "after \<equiv> evict (take n (ended_runs runs)) runs"
  shows "evicts_only runs after" "distinct (map fst after)"
    "length after + min n (length (ended_runs runs)) = length runs"
proof -
  let ?V = "take n (ended_runs runs)"
  have entry: "map_of runs k = Some r \<longleftrightarrow> (k, r) \<in> set runs" for k r
    using assms(1) by (simp add: map_of_eq_Some_iff)
  have key: "(t, q, k) \<in> set (ended_runs runs) \<longleftrightarrow>
      (\<exists>r. map_of runs k = Some r \<and> rr_ended_at r = Some t \<and> q = rr_sequence r)" for t q k
    by (force simp: set_ended_runs run_key_Some entry)
  have ids: "k \<in> (snd \<circ> snd) ` set ?V \<Longrightarrow> map_of runs k = Some r \<Longrightarrow>
      \<exists>t. rr_ended_at r = Some t \<and> (t, rr_sequence r, k) \<in> set ?V" for k r
  proof -
    assume "k \<in> (snd \<circ> snd) ` set ?V" and r: "map_of runs k = Some r"
    then obtain t q where tq: "(t, q, k) \<in> set ?V" by auto
    with key r have "rr_ended_at r = Some t \<and> q = rr_sequence r"
      by (metis in_set_takeD option.inject)
    with tq show "\<exists>t. rr_ended_at r = Some t \<and> (t, rr_sequence r, k) \<in> set ?V" by blast
  qed
  have stays: "map_of after k' = Some r' \<Longrightarrow> rr_ended_at r' = Some t' \<Longrightarrow>
      (t', rr_sequence r', k') \<in> set (ended_runs runs) \<and> (t', rr_sequence r', k') \<notin> set ?V" for k' r' t'
    unfolding after_def map_of_evict using key by (force split: if_splits)
  show "evicts_only runs after"
    unfolding evicts_only_def
  proof (intro conjI allI impI)
    fix k r assume r: "map_of runs k = Some r"
    show "map_of after k = Some r \<or> map_of after k = None \<and> (\<exists>t. rr_ended_at r = Some t
        \<and> (\<forall>k' r' t'. map_of after k' = Some r' \<and> rr_ended_at r' = Some t' \<longrightarrow>
              (t, rr_sequence r, k) \<le> (t', rr_sequence r', k')))"
    proof (cases "k \<in> (snd \<circ> snd) ` set ?V")
      case False
      then show ?thesis using r by (simp add: after_def map_of_evict del: comp_apply)
    next
      case True
      from ids [OF this r] obtain t where "rr_ended_at r = Some t" "(t, rr_sequence r, k) \<in> set ?V"
        by blast
      moreover have "map_of after k = None" using True by (simp only: after_def map_of_evict if_True)
      ultimately show ?thesis using stays take_ended_order by blast
    qed
  qed (simp add: after_def map_of_evict)
  show "distinct (map fst after)"
    using assms(1) by (simp add: after_def evict_def distinct_map_filter)
  have "(snd \<circ> snd) ` set ?V \<subseteq> fst ` set runs"
  proof
    fix k assume "k \<in> (snd \<circ> snd) ` set ?V"
    then obtain t q where "(t, q, k) \<in> set ?V" by auto
    then have "\<exists>r. map_of runs k = Some r" using key in_set_takeD by fastforce
    then show "k \<in> fst ` set runs" by (metis map_of_eq_None_iff option.distinct(1))
  qed
  moreover have "distinct (map (snd \<circ> snd) ?V)"
    using ended_runs_ids_distinct [OF assms(1)] by (simp add: take_map [symmetric] distinct_take)
  ultimately show "length after + min n (length (ended_runs runs)) = length runs"
    using length_evict [OF assms(1), of ?V] by (simp add: after_def min.commute)
qed

lemma table_insert_spec:
  assumes "distinct (map fst runs)"
  shows "let before = AList.update run_id r runs; after = table_insert runs run_id r retain;
             active = length (filter (\<lambda>e. rr_ended_at (snd e) = None) before)
         in evicts_only before after \<and> distinct (map fst after)
            \<and> length after = (if length before \<le> retain then length before else max retain active)"
proof -
  define before where "before = AList.update run_id r runs"
  have d: "distinct (map fst before)" using assms by (simp add: before_def distinct_update)
  have active: "length (filter (\<lambda>e. rr_ended_at (snd e) = None) before) + length (ended_runs before)
      = length before"
    using sum_length_filter_compl [of "\<lambda>e. rr_ended_at (snd e) = None" before]
    by (simp add: length_ended_runs)
  show ?thesis
  proof (cases "length before \<le> retain")
    case True
    then show ?thesis
      using d by (simp add: table_insert_def before_def [symmetric] Let_def evicts_only_def)
  next
    case False
    let ?n = "length before - retain"
    have "table_insert runs run_id r retain = evict (take ?n (ended_runs before)) before"
      using False by (simp add: table_insert_def before_def [symmetric] Let_def foldl_delete_evict)
    then show ?thesis
      using evict_ended [OF d, of ?n] active False
      by (simp add: before_def [symmetric] Let_def)
  qed
qed

text \<open>Inserting a run keeps every active run and the newest ended ones: only ended runs are
  evicted, each at most as recent as every ended run that stays, and the table then holds no more
  than the retention limit or, where more are active, the active runs alone.\<close>

theorem insert_evicts_oldest_ended:
  assumes "distinct (map fst runs)"
  shows "let before = AList.update run_id r runs; after = table_insert runs run_id r retain;
             active = length (filter (\<lambda>e. rr_ended_at (snd e) = None) before)
         in evicts_only before after \<and> distinct (map fst after)
            \<and> length after = (if length before \<le> retain then length before else max retain active)"
  using table_insert_spec [OF assms] .

theorem insert_evicts_oldest_ended_witness:
  "let r = run_queued 1 ''run_2'' 1 ''ls'' ''/w'' 10;
       old = snd (finish_run 5 (run_queued 1 ''run_1'' 0 ''ls'' ''/w'' 10) Failed None None);
       after = table_insert [(''run_1'', old)] ''run_2'' r 1
   in length after = 1 \<and> map_of after ''run_2'' = Some r"
proof -
  let ?r = "run_queued 1 ''run_2'' 1 ''ls'' ''/w'' 10"
  let ?old = "snd (finish_run 5 (run_queued 1 ''run_1'' 0 ''ls'' ''/w'' 10) Failed None None)"
  let ?after = "table_insert [(''run_1'', ?old)] ''run_2'' ?r 1"
  have e: "rr_ended_at ?r = None" "rr_ended_at ?old = Some 5"
    by (simp_all add: finish_run_def transition_def run_queued_def)
  have "evicts_only [(''run_1'', ?old), (''run_2'', ?r)] ?after \<and> length ?after = 1"
    using insert_evicts_oldest_ended [of "[(''run_1'', ?old)]" "''run_2''" ?r 1] e
    by (simp add: Let_def)
  then show ?thesis using e by (auto simp: evicts_only_def Let_def dest: spec [of _ "''run_2''"])
qed

section \<open>The system of tasks\<close>

text \<open>
  Every admitted run has a task that executes it (\<open>Run_Execution\<close>) with its timeout. The
  semaphore has one permit and serves its waiters in order: a queued task joins when it is
  first polled, and the permit passes on when the task of its owner is over. The requests
  of other tasks fall between any two steps. Run ids are fresh (\<open>Uuid::new_v4\<close>).
\<close>

record system =
  sys_sv :: supervisor
  sys_tasks :: "string \<Rightarrow> (nat \<times> exec_phase) option"
  sys_waiting :: "string list"

definition system_new :: "supervisor \<Rightarrow> system" where
  "system_new sv = \<lparr>sys_sv = sv, sys_tasks = (\<lambda>_. None), sys_waiting = []\<rparr>"

definition add_task :: "system \<Rightarrow> supervisor \<Rightarrow> string \<Rightarrow> nat \<Rightarrow> system" where
  "add_task s sv run_id timeout_ms =
     s\<lparr>sys_sv := sv, sys_tasks := (sys_tasks s)(run_id \<mapsto> (timeout_ms, Waiting))\<rparr>"

definition join_queue :: "system \<Rightarrow> string \<Rightarrow> system" where
  "join_queue s run_id =
     (if sv_permit (sys_sv s) = None then s\<lparr>sys_sv := (sys_sv s)\<lparr>sv_permit := Some run_id\<rparr>\<rparr>
      else s\<lparr>sys_waiting := sys_waiting s @ [run_id]\<rparr>)"

definition release_permit :: "system \<Rightarrow> system" where
  "release_permit s =
     (case sys_waiting s of
        [] \<Rightarrow> s\<lparr>sys_sv := (sys_sv s)\<lparr>sv_permit := None\<rparr>\<rparr>
      | w # ws \<Rightarrow> s\<lparr>sys_sv := (sys_sv s)\<lparr>sv_permit := Some w\<rparr>, sys_waiting := ws\<rparr>)"

definition update_run :: "system \<Rightarrow> string \<Rightarrow> nat \<Rightarrow> run_record \<Rightarrow> exec_phase \<Rightarrow> system" where
  "update_run s run_id timeout_ms r p =
     s\<lparr>sys_sv := (sys_sv s)\<lparr>sv_runs := AList.update run_id r (sv_runs (sys_sv s))\<rparr>,
       sys_tasks := (sys_tasks s)(run_id \<mapsto> (timeout_ms, p))\<rparr>"

inductive sys_step :: "'d dir_ops \<Rightarrow> string \<Rightarrow> system \<Rightarrow> system \<Rightarrow> bool" for ops root where
  start: "start_admit ops d root now run_id (sys_sv s) q = (Inr p, sv) \<Longrightarrow> sys_tasks s run_id = None \<Longrightarrow>
     sys_step ops root s (add_task s sv run_id (ps_timeout_ms p))"
| queue: "queue_admit ops d root now run_id (sys_sv s) q = (Inr p, sv) \<Longrightarrow> sys_tasks s run_id = None \<Longrightarrow>
     sys_step ops root s (add_task s sv run_id (ps_timeout_ms p))"
| join: "sys_tasks s run_id = Some (t, Waiting) \<Longrightarrow> sv_permit (sys_sv s) \<noteq> Some run_id \<Longrightarrow>
     run_id \<notin> set (sys_waiting s) \<Longrightarrow> sys_step ops root s (join_queue s run_id)"
| task: "sys_tasks s run_id = Some (t, p) \<Longrightarrow> map_of (sv_runs (sys_sv s)) run_id = Some r \<Longrightarrow>
     exec_step t (r, p) (r', p') \<Longrightarrow> (p = Waiting \<and> p' = Launching \<longrightarrow> sv_permit (sys_sv s) = Some run_id) \<Longrightarrow>
     sys_step ops root s (update_run s run_id t r' p')"
| release: "sys_tasks s run_id = Some (t, Done) \<Longrightarrow> sv_permit (sys_sv s) = Some run_id \<Longrightarrow>
     sys_step ops root s (release_permit s)"
| baseline: "sys_step ops root s (s\<lparr>sys_sv := set_change_baseline (sys_sv s) run_id b\<rparr>)"
| window: "sys_step ops root s (s\<lparr>sys_sv := snd (supervisor_change_window (sys_sv s) run_id b)\<rparr>)"
| freeze: "sys_step ops root s (s\<lparr>sys_sv := snd (supervisor_freeze_changes (sys_sv s) run_id f)\<rparr>)"

inductive_cases sys_stepE: "sys_step ops root s s'"

definition sys_ok ::
    "(string \<Rightarrow> run_record option) \<Rightarrow> (string \<Rightarrow> (nat \<times> exec_phase) option) \<Rightarrow> string option
     \<Rightarrow> string list \<Rightarrow> bool" where
  "sys_ok lookup tasks permit waiting \<longleftrightarrow>
     (\<forall>k r. lookup k = Some r \<longrightarrow> (\<exists>t p. tasks k = Some (t, p) \<and> exec_inv (r, p)))
   \<and> (\<forall>k t p. tasks k = Some (t, p) \<longrightarrow> p \<noteq> Done \<longrightarrow> lookup k \<noteq> None)
   \<and> (\<forall>k t p. tasks k = Some (t, p) \<longrightarrow> p \<notin> {Waiting, Done} \<longrightarrow> permit = Some k)
   \<and> (permit = None \<longrightarrow> waiting = [])
   \<and> (\<forall>k. permit = Some k \<longrightarrow> tasks k \<noteq> None)
   \<and> (\<forall>k \<in> set waiting. tasks k \<noteq> None)"

definition sys_inv :: "system \<Rightarrow> bool" where
  "sys_inv s \<longleftrightarrow> distinct (map fst (sv_runs (sys_sv s)))
     \<and> sys_ok (map_of (sv_runs (sys_sv s))) (sys_tasks s) (sv_permit (sys_sv s)) (sys_waiting s)"

lemma sys_ok_update:
  assumes "sys_ok lookup tasks permit waiting" "tasks k = Some (t, p)" "exec_inv (r', p')"
    and "p' \<notin> {Waiting, Done} \<longrightarrow> permit = Some k"
  shows "sys_ok (lookup(k \<mapsto> r')) (tasks(k \<mapsto> (t, p'))) permit waiting"
  using assms unfolding sys_ok_def by (auto split: if_splits)

lemma sys_ok_record:
  assumes "sys_ok lookup tasks permit waiting" "tasks k = Some (t, p)" "exec_inv (r', p)"
  shows "sys_ok (lookup(k \<mapsto> r')) tasks permit waiting"
proof -
  have "sys_ok (lookup(k \<mapsto> r')) (tasks(k \<mapsto> (t, p))) permit waiting"
    using assms by (intro sys_ok_update) (auto simp: sys_ok_def)
  moreover have "tasks(k \<mapsto> (t, p)) = tasks" using assms(2) by auto
  ultimately show ?thesis by simp
qed

lemma sys_ok_queue:
  "sys_ok lookup tasks None waiting \<Longrightarrow> tasks k \<noteq> None \<Longrightarrow> sys_ok lookup tasks (Some k) waiting"
  "sys_ok lookup tasks (Some j) waiting \<Longrightarrow> tasks k \<noteq> None \<Longrightarrow> sys_ok lookup tasks (Some j) (waiting @ [k])"
  unfolding sys_ok_def by (blast, auto)

lemma sys_ok_release:
  assumes "sys_ok lookup tasks (Some k) waiting" "tasks k = Some (t, Done)"
  shows "waiting = [] \<Longrightarrow> sys_ok lookup tasks None []"
    "waiting = w # ws \<Longrightarrow> sys_ok lookup tasks (Some w) ws"
proof -
  have "tasks j = Some (t', p') \<Longrightarrow> p' \<in> {Waiting, Done}" for j t' p'
    using assms by (cases "j = k") (fastforce simp: sys_ok_def)+
  then show "waiting = [] \<Longrightarrow> sys_ok lookup tasks None []"
    "waiting = w # ws \<Longrightarrow> sys_ok lookup tasks (Some w) ws"
    using assms(1) unfolding sys_ok_def by auto
qed

lemma sys_invD:
  assumes "sys_inv s"
  shows "map_of (sv_runs (sys_sv s)) k = Some r \<Longrightarrow> \<exists>t p. sys_tasks s k = Some (t, p) \<and> exec_inv (r, p)"
    "sys_tasks s k = Some (t, p) \<Longrightarrow> p \<noteq> Done \<Longrightarrow> \<exists>r. map_of (sv_runs (sys_sv s)) k = Some r"
    "sys_tasks s k = Some (t, p) \<Longrightarrow> p \<notin> {Waiting, Done} \<Longrightarrow> sv_permit (sys_sv s) = Some k"
  using assms by (auto simp: sys_inv_def sys_ok_def simp del: map_of_eq_Some_iff)

lemma exec_inv_terminal: "exec_inv (r, p) \<Longrightarrow> is_terminal (rr_status r) \<longleftrightarrow> p = Done"
  by (cases p) (auto simp: exec_inv_def)

lemma exec_inv_ended: "exec_inv (r, p) \<Longrightarrow> rr_ended_at r \<noteq> None \<longleftrightarrow> p = Done"
  by (cases p) (simp_all add: exec_inv_def record_inv_def, (metis is_terminal.simps(5-7))+)

lemma exec_step_Waiting: "exec_step t (r, Waiting) (r', p') \<Longrightarrow> p' \<in> {Waiting, Launching, Done}"
  by (erule exec_step.cases) auto

lemma exec_step_Done: "exec_step t (r, Done) (r', p') \<Longrightarrow> p' = Done"
  by (erule exec_step.cases) auto

lemma bookkeeping_exec_inv:
  "exec_inv (r, p) \<Longrightarrow> exec_inv (set_baseline r b, p)"
  "exec_inv (r, p) \<Longrightarrow> exec_inv (snd (change_window r b), p)"
  "exec_inv (r, p) \<Longrightarrow> exec_inv (snd (freeze_changes r f), p)"
  by (simp_all add: exec_inv_def record_inv_def set_baseline_def change_window_def
      freeze_changes_def Let_def split: exec_phase.splits)

lemma queued_exec_inv: "exec_inv (run_queued now run_id q command cwd limit, Waiting)"
  by (simp add: exec_inv_def record_inv_queued) (simp add: run_queued_def)

lemma on_record_inv:
  assumes "sys_inv s" "\<And>r p. exec_inv (r, p) \<Longrightarrow> exec_inv (snd (f r), p)"
  shows "sys_inv (s\<lparr>sys_sv := snd (on_record (sys_sv s) run_id f)\<rparr>)"
proof (cases "map_of (sv_runs (sys_sv s)) run_id")
  case None
  then show ?thesis using assms(1) by (simp add: on_record_def table_get_def)
next
  case (Some r)
  then obtain t p where "sys_tasks s run_id = Some (t, p)" "exec_inv (r, p)"
    using sys_invD(1) [OF assms(1)] by blast
  then have "sys_ok ((map_of (sv_runs (sys_sv s)))(run_id \<mapsto> snd (f r))) (sys_tasks s)
      (sv_permit (sys_sv s)) (sys_waiting s)"
    using assms by (intro sys_ok_record) (auto simp: sys_inv_def)
  then show ?thesis
    using assms(1) Some
    by (simp add: on_record_def table_get_def case_prod_beta distinct_update update_conv' sys_inv_def)
qed

lemma admit_runs:
  fixes p :: prepared_start and now :: instant
  assumes "sys_inv s" "sys_tasks s run_id = None"
  defines "before \<equiv> sv_runs (sys_sv s)" and "after \<equiv> sv_runs (admit_run now run_id (sys_sv s) p)"
  shows "distinct (map fst after)"
    "map_of after k = Some r \<Longrightarrow> k \<noteq> run_id \<Longrightarrow> map_of before k = Some r"
    "map_of before k = Some r \<Longrightarrow> rr_ended_at r = None \<Longrightarrow> map_of after k = Some r"
    "\<exists>q. map_of after run_id = Some (run_queued now run_id q (ps_command p) (ps_cwd p)
           (bc_max_output_chars (sv_policy (sys_sv s))))"
proof -
  let ?r = "run_queued now run_id (sv_next_sequence (sys_sv s)) (ps_command p) (ps_cwd p)
           (bc_max_output_chars (sv_policy (sys_sv s)))"
  let ?upd = "AList.update run_id ?r before"
  have d: "distinct (map fst before)" using assms(1) by (simp add: sys_inv_def before_def)
  have after: "after = table_insert before run_id ?r max_retained_runs"
    by (simp add: after_def before_def admit_run_def)
  have spec: "evicts_only ?upd after" "distinct (map fst after)"
    using table_insert_spec [OF d, of run_id ?r max_retained_runs] after by (simp_all add: Let_def)
  have new: "map_of before run_id = None"
    using assms(1,2) sys_invD(1) [of s run_id] by (cases "map_of before run_id") (auto simp: before_def)
  have upd: "map_of ?upd k = (if k = run_id then Some ?r else map_of before k)" for k
    by (simp add: update_conv')
  have keep: "map_of ?upd k = Some r \<Longrightarrow> rr_ended_at r = None \<Longrightarrow> map_of after k = Some r" for k r
    using spec(1) by (rule evicts_only_active)
  show "distinct (map fst after)" by (rule spec(2))
  show "map_of after k = Some r \<Longrightarrow> k \<noteq> run_id \<Longrightarrow> map_of before k = Some r"
    using evicts_only_subset [OF spec(1), of k r] upd [of k] by simp
  show "map_of before k = Some r \<Longrightarrow> rr_ended_at r = None \<Longrightarrow> map_of after k = Some r"
    using keep [of k r] upd [of k] new by (auto split: if_splits)
  show "\<exists>q. map_of after run_id = Some (run_queued now run_id q (ps_command p) (ps_cwd p)
           (bc_max_output_chars (sv_policy (sys_sv s))))"
    using keep [of run_id ?r] upd [of run_id] by (auto simp: run_queued_def)
qed

lemma add_task_inv:
  assumes inv: "sys_inv s" and new: "sys_tasks s run_id = None"
    and runs: "sv_runs sv = sv_runs (admit_run now run_id (sys_sv s) p)"
    and permit: "sv_permit sv = sv_permit (sys_sv s) \<or>
      sv_permit (sys_sv s) = None \<and> sv_permit sv = Some run_id"
  shows "sys_inv (add_task s sv run_id t)"
proof -
  note admit = admit_runs [OF inv new, where now = now and p = p, folded runs]
  obtain q where fresh: "map_of (sv_runs sv) run_id = Some (run_queued now run_id q (ps_command p) (ps_cwd p)
      (bc_max_output_chars (sv_policy (sys_sv s))))"
    using admit(4) by blast
  have recs: "map_of (sv_runs sv) k = Some r \<Longrightarrow> k \<noteq> run_id \<Longrightarrow>
      \<exists>t p. sys_tasks s k = Some (t, p) \<and> exec_inv (r, p)" for k r
    using admit(2) sys_invD(1) [OF inv] by blast
  have tasks: "sys_tasks s k = Some (t', p') \<Longrightarrow> p' \<noteq> Done \<Longrightarrow> map_of (sv_runs sv) k \<noteq> None" for k t' p'
  proof -
    assume k: "sys_tasks s k = Some (t', p')" "p' \<noteq> Done"
    then obtain r where r: "map_of (sv_runs (sys_sv s)) k = Some r" using sys_invD(2) [OF inv] by blast
    then have "exec_inv (r, p')" using sys_invD(1) [OF inv r] k by simp
    then have "rr_ended_at r = None" using exec_inv_ended k(2) by blast
    with r show "map_of (sv_runs sv) k \<noteq> None" using admit(3) by blast
  qed
  have phase: "sys_tasks s k = Some (t', p') \<Longrightarrow> p' \<notin> {Waiting, Done} \<Longrightarrow> sv_permit sv = Some k" for k t' p'
    using sys_invD(3) [OF inv] permit by fastforce
  have rest: "sv_permit (sys_sv s) = None \<longrightarrow> sys_waiting s = []"
    "\<forall>k. sv_permit (sys_sv s) = Some k \<longrightarrow> sys_tasks s k \<noteq> None"
    "\<forall>k \<in> set (sys_waiting s). sys_tasks s k \<noteq> None"
    using inv by (simp_all add: sys_inv_def sys_ok_def)
  have "sys_ok (map_of (sv_runs sv)) ((sys_tasks s)(run_id \<mapsto> (t, Waiting))) (sv_permit sv) (sys_waiting s)"
    unfolding sys_ok_def
  proof (intro conjI allI ballI impI)
    fix k r assume "map_of (sv_runs sv) k = Some r"
    then show "\<exists>ta p. ((sys_tasks s)(run_id \<mapsto> (t, Waiting))) k = Some (ta, p) \<and> exec_inv (r, p)"
      using recs fresh queued_exec_inv by (cases "k = run_id") auto
  next
    fix k ta pa assume "((sys_tasks s)(run_id \<mapsto> (t, Waiting))) k = Some (ta, pa)" "pa \<noteq> Done"
    then show "map_of (sv_runs sv) k \<noteq> None"
      using tasks fresh by (auto split: if_splits simp del: not_None_eq)
  next
    fix k ta pa assume "((sys_tasks s)(run_id \<mapsto> (t, Waiting))) k = Some (ta, pa)" "pa \<notin> {Waiting, Done}"
    then show "sv_permit sv = Some k" using phase by (auto split: if_splits)
  qed (use rest permit in auto)
  then show ?thesis using admit(1) by (simp add: sys_inv_def add_task_def)
qed

lemma admit_permit [simp]: "sv_permit (admit_run now run_id sv p) = sv_permit sv"
  by (simp add: admit_run_def)

lemma sys_step_inv:
  assumes "sys_step ops root s s'" "sys_inv s"
  shows "sys_inv s'"
  using assms
proof (induction rule: sys_step.induct)
  case (start d now run_id s q p sv)
  then show ?case
    by (auto simp: start_admit_def split: sum.splits if_splits
        intro!: add_task_inv [where p = p and now = now])
next
  case (queue d now run_id s q p sv)
  then show ?case
    by (auto simp: queue_admit_def split: sum.splits intro!: add_task_inv [where p = p and now = now])
next
  case (join s run_id t)
  then show ?case by (cases "sv_permit (sys_sv s)") (simp_all add: sys_inv_def join_queue_def sys_ok_queue)
next
  case (task s run_id t p r r' p')
  have "exec_inv (r, p)" using task sys_invD(1) [of s run_id r] by simp
  then have r': "exec_inv (r', p')" using task exec_step_inv by blast
  have permit: "p' \<notin> {Waiting, Done} \<longrightarrow> sv_permit (sys_sv s) = Some run_id"
    using task exec_step_Waiting exec_step_Done sys_invD(3) [of s run_id t p]
    by (cases "p = Waiting \<or> p = Done") auto
  have "sys_ok ((map_of (sv_runs (sys_sv s)))(run_id \<mapsto> r')) ((sys_tasks s)(run_id \<mapsto> (t, p')))
      (sv_permit (sys_sv s)) (sys_waiting s)"
    using task r' permit by (intro sys_ok_update) (auto simp: sys_inv_def)
  then show ?case using task by (simp add: sys_inv_def update_run_def distinct_update update_conv')
next
  case (release s run_id t)
  then show ?case
    using sys_ok_release [of _ "sys_tasks s" run_id "sys_waiting s" t]
    by (cases "sys_waiting s") (simp_all add: sys_inv_def release_permit_def)
next
  case (baseline s run_id b)
  then show ?case
    unfolding set_change_baseline_def by (intro on_record_inv) (simp_all add: bookkeeping_exec_inv)
next
  case (window s run_id b)
  then show ?case
    unfolding supervisor_change_window_def by (intro on_record_inv) (simp_all add: bookkeeping_exec_inv)
next
  case (freeze s run_id f)
  then show ?case
    unfolding supervisor_freeze_changes_def by (intro on_record_inv) (simp_all add: bookkeeping_exec_inv)
qed

lemma sys_reachable_inv:
  assumes "(sys_step ops root)\<^sup>*\<^sup>* (system_new (supervisor_with_parts policy readiness launcher)) s"
  shows "sys_inv s"
  using assms
proof (induction rule: rtranclp_induct)
  case base
  then show ?case by (simp add: sys_inv_def sys_ok_def system_new_def supervisor_with_parts_def)
qed (rule sys_step_inv)

lemma min_by_key_None [simp]: "min_by_key key xs = None \<longleftrightarrow> xs = []"
  by (cases xs) (auto split: option.splits)

lemma active_run_view_active:
  assumes "(k, r) \<in> set (sv_runs sv)" "\<not> is_terminal (rr_status r)"
  shows "active_run_view now sv \<noteq> None"
proof -
  have "(k, r) \<in> set runs \<Longrightarrow> active_candidates runs \<noteq> []" for runs
    using assms(2)
    by (induction runs)
      (auto simp: active_candidates_def List.map_filter_simps run_priority_def split: option.splits if_splits,
        (cases "rr_status r"; simp)+)
  then show ?thesis using assms(1) by (simp add: active_run_view_def)
qed

section \<open>Lemmas: pages\<close>

lemma continuation_own:
  "offset \<le> usize_max \<Longrightarrow>
     continuation_offset (Some (continuation_token run_id s offset)) run_id s = Some offset"
proof -
  assume n: "offset \<le> usize_max"
  have "strip_prefix (''bash:'' @ run_id @ '':'' @ stream_as_str s @ '':'') (continuation_token run_id s offset)
      = Some (show_nat offset)"
    unfolding strip_prefix_iff continuation_token_def by simp
  then show ?thesis using parse_show_usize [OF n] by (simp add: continuation_offset_def)
qed

text \<open>A client that follows the continuations for at most \<open>n\<close> pages: the text, and the
  continuation it is left with.\<close>

fun read_pages ::
    "nat \<Rightarrow> supervisor \<Rightarrow> string \<Rightarrow> output_stream \<Rightarrow> string option \<Rightarrow> (ustr \<times> string option) option" where
  "read_pages 0 sv run_id s continuation = Some ([], continuation)"
| "read_pages (Suc n) sv run_id s continuation =
     (case output_stream_view sv run_id continuation s of
        Some (Inr v) \<Rightarrow>
          (case ov_continuation v of
             None \<Rightarrow> Some (ov_output v, None)
           | Some c \<Rightarrow> map_option (\<lambda>(t, k). (ov_output v @ t, k)) (read_pages n sv run_id s (Some c)))
      | _ \<Rightarrow> None)"

lemma read_pages_from:
  fixes s :: output_stream
  assumes r: "map_of (sv_runs sv) run_id = Some r"
  defines "b \<equiv> output_stream_of (rr_output r) s" and "m \<equiv> bc_max_output_chars (sv_policy sv)"
  assumes inv: "tail_inv b" and m: "0 < m" and total: "tail_total_chars b \<le> usize_max"
  shows "(case continuation_offset c run_id s of None \<Rightarrow> tb_dropped_chars b | Some n \<Rightarrow> n)
       = tb_dropped_chars b + k \<Longrightarrow> k \<le> length (tail_kept b) \<Longrightarrow> length (tail_kept b) - k \<le> n * m \<Longrightarrow> 0 < n \<Longrightarrow>
     read_pages n sv run_id s c = Some (drop k (tail_kept b), None)"
proof (induction n arbitrary: c k)
  case (Suc n)
  let ?kept = "tail_kept b" and ?d = "tb_dropped_chars b"
  have len: "tail_total_chars b = ?d + length ?kept"
    using inv by (simp add: tail_total_chars_def tail_inv_def)
  have page: "tail_page b (?d + k) m = Some \<lparr>page_text = take m (drop k ?kept),
      page_next = (if k + m < length ?kept then Some (?d + k + m) else None)\<rparr>"
    using tail_page_spec [OF inv, of "?d + k" m] Suc.prems(2) by simp
  then obtain v where v: "output_stream_view sv run_id c s = Some (Inr v)"
    "ov_output v = take m (drop k ?kept)"
    "ov_continuation v = (if k + m < length ?kept then Some (continuation_token run_id s (?d + k + m)) else None)"
    using r Suc.prems(1)
    by (simp add: output_stream_view_def table_get_def b_def [symmetric] m_def [symmetric] Let_def)
  show ?case
  proof (cases "k + m < length ?kept")
    case False
    then show ?thesis using v by simp
  next
    case True
    let ?c = "Some (continuation_token run_id s (?d + k + m))"
    have "?d + k + m \<le> usize_max" using True total len by linarith
    then have "(case continuation_offset ?c run_id s of None \<Rightarrow> ?d | Some n \<Rightarrow> n) = ?d + (k + m)"
      by (simp add: continuation_own)
    moreover have "length ?kept - (k + m) \<le> n * m" "0 < n"
      using True Suc.prems(3) by (auto intro: gr0I)
    ultimately have "read_pages n sv run_id s ?c = Some (drop (k + m) ?kept, None)"
      using True by (intro Suc.IH) auto
    then show ?thesis using v True
      by simp (metis append_take_drop_id drop_drop add.commute)
  qed
qed simp

section \<open>Properties\<close>

text \<open>C21. Following the continuations of a stream terminates: with the page size the policy
  validates (not zero), a client that starts without a continuation has read exactly the retained
  text, and no further continuation is left, after at most one page more than the number of full
  pages it holds.\<close>

theorem paging_terminates:
  assumes "map_of (sv_runs sv) run_id = Some r"
    and "ingest_all (output_new limit) chunks = Some (rr_output r)"
    and "validate_policy (sv_policy sv) = Inr ()"
    and "tail_total_chars (output_stream_of (rr_output r) s) \<le> usize_max"
  shows "read_pages (Suc (length (tail_kept (output_stream_of (rr_output r) s))
           div bc_max_output_chars (sv_policy sv))) sv run_id s None
       = Some (tail_kept (output_stream_of (rr_output r) s), None)"
proof -
  let ?b = "output_stream_of (rr_output r) s" and ?m = "bc_max_output_chars (sv_policy sv)"
  have inv: "tail_inv ?b"
  proof -
    have "output_inv limit (rr_output r)"
      using ingest_all_spec [OF output_inv_new, of limit chunks] assms(2) by auto
    then show ?thesis by (cases s) (simp_all add: output_inv_def)
  qed
  have m: "0 < ?m" using assms(3) by (auto simp: validate_policy_def split: if_splits)
  have "length (tail_kept ?b) \<le> Suc (length (tail_kept ?b) div ?m) * ?m"
    using less_imp_le [OF dividend_less_div_times [OF m, of "length (tail_kept ?b)"]] by simp
  then show ?thesis
    using read_pages_from [OF assms(1) inv m assms(4), of None 0
        "Suc (length (tail_kept ?b) div ?m)"]
    by (simp add: continuation_offset_def)
qed

definition sample_bash :: bash_config where
  "sample_bash = \<lparr>bc_executable = ''bash'', bc_default_timeout_ms = 9, bc_foreground_budget_ms = 5,
     bc_max_timeout_ms = 9, bc_max_output_chars = 2\<rparr>"

definition sample_supervisor :: supervisor where
  "sample_supervisor =
     supervisor_with_parts sample_bash (bash_readiness_of ''bash'' Ready (Some ''bash'') None) (Some ''bash'')"

theorem paging_terminates_witness:
  "\<exists>r. read_pages 3 (sample_supervisor\<lparr>sv_runs := [(''run_1'', r)]\<rparr>) ''run_1'' Stdout None
         = Some ([97, 98, 99, 100, 101], None)"
proof -
  let ?q = "run_queued 1 ''run_1'' 0 ''ls'' ''/w'' 10"
  let ?chunks = "[(PStdout, [0x61, 0x62, 0x63]), (PStdout, [0x64, 0x65])]"
  have "(case ingest_all (output_new 10) ?chunks of Some ro \<Rightarrow>
          tail_kept (ro_stdout ro) = [97, 98, 99, 100, 101] \<and> tail_total_chars (ro_stdout ro) = 5
        | None \<Rightarrow> False)"
    by code_simp
  then obtain ro where ro: "ingest_all (output_new 10) ?chunks = Some ro"
    "tail_kept (ro_stdout ro) = [97, 98, 99, 100, 101]" "tail_total_chars (ro_stdout ro) = 5"
    by (auto split: option.splits)
  let ?r = "with_output ?q ro"
  let ?sv = "sample_supervisor\<lparr>sv_runs := [(''run_1'', ?r)]\<rparr>"
  have policy: "validate_policy (sv_policy ?sv) = Inr ()"
    by (simp add: sample_supervisor_def supervisor_with_parts_def sample_bash_def validate_policy_def
        trim_printable_ends printable_def)
  have "rr_output ?r = ro" by (simp add: with_output_def)
  moreover have "map_of (sv_runs ?sv) ''run_1'' = Some ?r" by simp
  moreover have "bc_max_output_chars (sv_policy ?sv) = 2"
    by (simp add: sample_supervisor_def supervisor_with_parts_def sample_bash_def)
  ultimately have "read_pages 3 ?sv ''run_1'' Stdout None = Some ([97, 98, 99, 100, 101], None)"
    using paging_terminates [of ?sv "''run_1''" ?r 10 ?chunks Stdout] ro policy
    by (simp add: output_stream_of_def usize_max_def numeral_3_eq_3 del: read_pages.simps)
  then show ?thesis by blast
qed

text \<open>C20. The supervisor runs one command at a time: in every reachable state, whatever the order of
  starts, queued runs, cancels, exits and aborts, at most one retained run owns a process, it is
  the owner of the permit, and no run is evicted before its execution is over.\<close>

theorem one_run_owns_process:
  assumes "(sys_step ops root)\<^sup>*\<^sup>* (system_new (supervisor_with_parts policy readiness launcher)) s"
  shows "(\<forall>k r. map_of (sv_runs (sys_sv s)) k = Some r \<and> rr_process r \<noteq> None \<longrightarrow>
            sv_permit (sys_sv s) = Some k)
       \<and> (\<forall>k t p. sys_tasks s k = Some (t, p) \<and> p \<noteq> Done \<longrightarrow>
            map_of (sv_runs (sys_sv s)) k \<noteq> None)"
proof -
  have inv: "sys_inv s" using assms by (rule sys_reachable_inv)
  have "exec_inv (r, p) \<Longrightarrow> rr_process r \<noteq> None \<Longrightarrow> p \<notin> {Waiting, Done}" for r p
    by (cases p) (auto simp: exec_inv_def record_inv_def)
  then show ?thesis using sys_invD [OF inv] by blast
qed

text \<open>C18. A start refused with \<open>RUN_BUSY\<close> changes nothing and names the active run, the one to
  poll or cancel; the field is missing only in the moment between the end of a run and the
  return of its permit.\<close>

theorem busy_names_active_run:
  assumes "(sys_step ops root)\<^sup>*\<^sup>* (system_new (supervisor_with_parts policy readiness launcher)) s"
    and "prepare_start_request ops d root (sys_sv s) q = Inr p" "sv_permit (sys_sv s) = Some owner"
  shows "start_admit ops d root now run_id (sys_sv s) q = (Inl (run_busy_error now (sys_sv s)), sys_sv s)
       \<and> (active_run_view now (sys_sv s) = None \<longrightarrow> (\<exists>t. sys_tasks s owner = Some (t, Done)))"
proof -
  have inv: "sys_inv s" using assms(1) by (rule sys_reachable_inv)
  obtain t ph where t: "sys_tasks s owner = Some (t, ph)"
    using inv assms(3) by (auto simp: sys_inv_def sys_ok_def)
  have "active_run_view now (sys_sv s) \<noteq> None" if active: "ph \<noteq> Done"
  proof -
    obtain r where r: "map_of (sv_runs (sys_sv s)) owner = Some r" using sys_invD(2) [OF inv t active] by blast
    then have "exec_inv (r, ph)" using sys_invD(1) [OF inv r] t by simp
    then have "\<not> is_terminal (rr_status r)" using active exec_inv_terminal by blast
    then show ?thesis using active_run_view_active [OF map_of_SomeD [OF r]] by blast
  qed
  then show ?thesis using assms(2,3) t by (cases "ph = Done") (auto simp: start_admit_def)
qed

definition sample_start :: start_request where
  "sample_start = \<lparr>sq_command = ''ls'', sq_cwd = None, sq_background = None, sq_timeout_ms = None\<rparr>"

definition sample_prepared :: prepared_start where
  "sample_prepared = \<lparr>ps_launcher = ''bash'', ps_command = ''ls'', ps_cwd = ''/w'', ps_background = False,
     ps_timeout_ms = 9\<rparr>"

lemma trim_ls: "trim ''ls'' = ''ls''"
  by (simp add: trim_printable_ends printable_def)

lemma sample_prepare: "sv_launcher sv = Some ''bash'' \<Longrightarrow> sv_policy sv = sample_bash \<Longrightarrow>
    prepare_start_request ops d ''/w'' sv sample_start = Inr sample_prepared"
  by (simp add: prepare_start_request_def launcher_of_def sample_start_def trim_ls start_cwd_def
      sample_bash_def sample_prepared_def)

definition sample_system :: system where
  "sample_system = add_task (system_new sample_supervisor)
     ((admit_run 1 ''run_1'' sample_supervisor sample_prepared)\<lparr>sv_permit := Some ''run_1''\<rparr>) ''run_1'' 9"

lemma sample_reachable:
  "(sys_step ops ''/w'')\<^sup>*\<^sup>*
     (system_new (supervisor_with_parts sample_bash (bash_readiness_of ''bash'' Ready (Some ''bash'') None)
        (Some ''bash''))) sample_system"
proof -
  have "start_admit ops d ''/w'' 1 ''run_1'' sample_supervisor sample_start =
      (Inr sample_prepared, (admit_run 1 ''run_1'' sample_supervisor sample_prepared)\<lparr>sv_permit := Some ''run_1''\<rparr>)"
    for d
    by (simp add: start_admit_def sample_prepare sample_supervisor_def supervisor_with_parts_def)
  then have "sys_step ops ''/w'' (system_new sample_supervisor) sample_system"
    using sys_step.start [of ops _ "''/w''" 1 "''run_1''" "system_new sample_supervisor" sample_start sample_prepared]
    by (simp add: sample_system_def system_new_def sample_prepared_def)
  then show ?thesis by (simp add: sample_supervisor_def r_into_rtranclp)
qed

lemma sample_system_simps:
  "sv_launcher (sys_sv sample_system) = Some ''bash''" "sv_policy (sys_sv sample_system) = sample_bash"
  "sv_permit (sys_sv sample_system) = Some ''run_1''"
  "sys_tasks sample_system ''run_1'' = Some (9, Waiting)"
  by (simp_all add: sample_system_def add_task_def admit_run_def sample_supervisor_def supervisor_with_parts_def)

theorem one_run_owns_process_witness:
  "sys_tasks sample_system ''run_1'' = Some (9, Waiting)
   \<and> map_of (sv_runs (sys_sv sample_system)) ''run_1'' \<noteq> None"
  using one_run_owns_process [OF sample_reachable [of mem_ops]] sample_system_simps(4) by force

theorem busy_names_active_run_witness:
  "\<forall>d. fst (start_admit mem_ops d ''/w'' 4 ''run_2'' (sys_sv sample_system) sample_start)
     = Inl (run_busy_error 4 (sys_sv sample_system))
   \<and> active_run_view 4 (sys_sv sample_system) \<noteq> None"
proof
  fix d
  have "prepare_start_request mem_ops d ''/w'' (sys_sv sample_system) sample_start = Inr sample_prepared"
    by (rule sample_prepare) (simp_all add: sample_system_simps)
  from busy_names_active_run [OF sample_reachable this sample_system_simps(3), of 4 "''run_2''"]
  show "fst (start_admit mem_ops d ''/w'' 4 ''run_2'' (sys_sv sample_system) sample_start)
     = Inl (run_busy_error 4 (sys_sv sample_system))
   \<and> active_run_view 4 (sys_sv sample_system) \<noteq> None"
    by (auto simp: sample_system_simps)
qed

end
