(* ===== verification/Request_Contract.thy ===== *)
theory Request_Contract
  imports App_Error Text_Util "HOL-Library.List_Lexorder" "HOL-Library.Char_ord"
begin

text \<open>
  The contract of a request (\<open>src/requests/contract.rs\<close>): the published schema is
  normalized to its flat form, the fields it allows are read back from it, and a request is
  checked against them before it is deserialized. The schema \<open>schemars\<close> generates and the
  deserialization \<open>serde\<close> derives are parameters; a JSON object is the association list of
  its fields in the order the map iterates them. What a schema says of a request is stated
  independently of the checker, as \<open>schema_accepts\<close>, and the two are proved to agree. A JSON number
  is an integer here: one outside the 64-bit ranges is a float to \<open>serde_json\<close>, which no integer accessor returns.
\<close>

section \<open>JSON accessors\<close>

definition json_as_array :: "json \<Rightarrow> json list option" where
  "json_as_array j = (case j of JArr xs \<Rightarrow> Some xs | _ \<Rightarrow> None)"

definition json_as_object :: "json \<Rightarrow> (string \<times> json) list option" where
  "json_as_object j = (case j of JObj kvs \<Rightarrow> Some kvs | _ \<Rightarrow> None)"

definition json_is_null :: "json \<Rightarrow> bool" where
  "json_is_null j \<longleftrightarrow> (case j of JNull \<Rightarrow> True | _ \<Rightarrow> False)"

definition json_is_string :: "json \<Rightarrow> bool" where
  "json_is_string j \<longleftrightarrow> (case j of JStr _ \<Rightarrow> True | _ \<Rightarrow> False)"

text \<open>\<open>as_i64\<close>, or else \<open>as_u64\<close>.\<close>

definition json_integer :: "json \<Rightarrow> int option" where
  "json_integer j = (case j of JNum n \<Rightarrow> if - (2 ^ 63) \<le> n \<and> n < 2 ^ 64 then Some n else None | _ \<Rightarrow> None)"

definition json_as_u64 :: "json \<Rightarrow> nat option" where
  "json_as_u64 j = (case j of JNum n \<Rightarrow> if 0 \<le> n \<and> n < 2 ^ 64 then Some (nat n) else None | _ \<Rightarrow> None)"

definition obj_remove :: "string \<Rightarrow> (string \<times> json) list \<Rightarrow> (string \<times> json) list" where
  "obj_remove k kvs = filter (\<lambda>kv. fst kv \<noteq> k) kvs"

definition obj_update :: "string \<Rightarrow> (json \<Rightarrow> json) \<Rightarrow> (string \<times> json) list \<Rightarrow> (string \<times> json) list" where
  "obj_update k f kvs = map (\<lambda>(k', v). (k', if k' = k then f v else v)) kvs"

section \<open>Normalizing the published schema\<close>

text \<open>The keywords of one schema object, in the order of the code.\<close>

definition drop_null_default :: "(string \<times> json) list \<Rightarrow> (string \<times> json) list" where
  "drop_null_default s =
     (case map_of s ''default'' of
        Some v \<Rightarrow> if json_is_null v then obj_remove ''default'' s else s
      | None \<Rightarrow> s)"

definition flatten_type :: "(string \<times> json) list \<Rightarrow> (string \<times> json) list" where
  "flatten_type s =
     (case map_of s ''type'' of
        Some (JArr types) \<Rightarrow>
          let types1 = filter (\<lambda>k. json_as_str k \<noteq> Some ''null'') types
          in obj_insert ''type'' (case types1 of [k] \<Rightarrow> k | _ \<Rightarrow> JArr types1) s
      | _ \<Rightarrow> s)"

definition drop_null_enum :: "(string \<times> json) list \<Rightarrow> (string \<times> json) list" where
  "drop_null_enum s =
     obj_update ''enum'' (\<lambda>v. case v of JArr xs \<Rightarrow> JArr (filter (\<lambda>x. \<not> json_is_null x) xs) | _ \<Rightarrow> v) s"

definition const_to_enum :: "(string \<times> json) list \<Rightarrow> (string \<times> json) list" where
  "const_to_enum s =
     (case map_of s ''const'' of
        Some v \<Rightarrow> obj_insert ''enum'' (JArr [v]) (obj_remove ''const'' s)
      | None \<Rightarrow> s)"

definition normalize_keywords :: "(string \<times> json) list \<Rightarrow> (string \<times> json) list" where
  "normalize_keywords s =
     const_to_enum (drop_null_enum (flatten_type (drop_null_default (obj_remove ''format'' s))))"

text \<open>The nested schemas are normalized in place; they are the values of other keywords.\<close>

lemma json_size_field: "(k, v) \<in> set kvs \<Longrightarrow> size v < size (JObj kvs)"
proof (induction kvs)
  case (Cons x kvs)
  then show ?case by (cases x) auto
qed simp

lemma json_size_item: "v \<in> set xs \<Longrightarrow> size v < size (JArr xs)"
  by (induction xs) auto

lemma json_size_nested:
  "(k, JObj x) \<in> set s \<Longrightarrow> size (JObj x) < size (JObj s)"
  "(k, JObj ps) \<in> set s \<Longrightarrow> (p, w) \<in> set ps \<Longrightarrow> size w < size (JObj s)"
  "(k, JArr bs) \<in> set s \<Longrightarrow> b \<in> set bs \<Longrightarrow> size b < size (JObj s)"
  using json_size_field json_size_item by (meson order.strict_trans)+

function normalize_value :: "json \<Rightarrow> json" where
  "normalize_value (JObj s) = JObj (normalize_keywords (map (\<lambda>(k, v). (k,
     if k = ''items'' then (case v of JObj _ \<Rightarrow> normalize_value v | _ \<Rightarrow> v)
     else if k = ''properties''
     then (case v of JObj ps \<Rightarrow> JObj (map (\<lambda>(p, w). (p, normalize_value w)) ps) | _ \<Rightarrow> v)
     else if k = ''oneOf'' \<or> k = ''anyOf''
     then (case v of JArr bs \<Rightarrow> JArr (map normalize_value bs) | _ \<Rightarrow> v)
     else v)) s))"
| "normalize_value JNull = JNull"
| "normalize_value (JBool b) = JBool b"
| "normalize_value (JNum n) = JNum n"
| "normalize_value (JStr t) = JStr t"
| "normalize_value (JArr xs) = JArr xs"
  by pat_completeness auto
termination
  by (relation "measure size") (simp_all only: wf_measure in_measure, (blast intro: json_size_nested)+)

definition normalize_schema :: "(string \<times> json) list \<Rightarrow> (string \<times> json) list" where
  "normalize_schema s = (case normalize_value (JObj s) of JObj s' \<Rightarrow> s' | _ \<Rightarrow> s)"

definition input_schema :: "json \<Rightarrow> (string \<times> json) list" where
  "input_schema generated =
     normalize_schema (obj_remove ''title'' (case generated of JObj root \<Rightarrow> root | _ \<Rightarrow> []))"

section \<open>The contract\<close>

datatype rejection = RejectArgument | RejectBash | RejectChange | RejectChangeItem

record integer_bounds =
  ib_field :: string
  ib_minimum :: "int option"
  ib_maximum :: "int option"

record contract =
  co_name :: string
  co_allowed :: "string list"
  co_required :: "string list"
  co_integers :: "integer_bounds list"
  co_min_lengths :: "(string \<times> nat) list"

definition contract_from_schema :: "string \<Rightarrow> (string \<times> json) list \<Rightarrow> contract" where
  "contract_from_schema name schema =
     (let properties = (case Option.bind (map_of schema ''properties'') json_as_object of
                          None \<Rightarrow> [] | Some ps \<Rightarrow> ps);
          required = (case Option.bind (map_of schema ''required'') json_as_array of
                        None \<Rightarrow> [] | Some fs \<Rightarrow> List.map_filter json_as_str fs);
          bound = (\<lambda>property keyword. Option.bind (json_get property keyword) json_integer);
          typed = (\<lambda>t property. json_get property ''type'' = Some (JStr t))
      in \<lparr>co_name = name,
          co_allowed = sort (remdups (map fst properties)),
          co_required = required,
          co_integers = map (\<lambda>(f, p). \<lparr>ib_field = f, ib_minimum = bound p ''minimum'',
                                         ib_maximum = bound p ''maximum''\<rparr>)
                          (filter (\<lambda>(_, p). typed ''integer'' p) properties),
          co_min_lengths = List.map_filter (\<lambda>(f, p).
                              map_option (\<lambda>n. (f, n)) (Option.bind (json_get p ''minLength'') json_as_u64))
                            (filter (\<lambda>(_, p). typed ''string'' p) properties)\<rparr>)"

definition json_strs :: "string list \<Rightarrow> json" where
  "json_strs xs = JArr (map JStr xs)"

definition reject_unknown :: "rejection \<Rightarrow> contract \<Rightarrow> string list \<Rightarrow> app_error" where
  "reject_unknown rj c unknown =
     (if rj = RejectChangeItem
      then error_with_details UnknownChangeField ''change received unsupported fields''
             (JObj [(''contract'', JStr (co_name c)), (''unknown'', json_strs unknown),
                    (''allowed'', json_strs (co_allowed c))])
      else error_with_details UnknownToolField
             (''tool '' @ [CHR 0x27] @ co_name c @ [CHR 0x27] @ '' received unsupported fields'')
             (JObj [(''unknown'', json_strs unknown), (''allowed'', json_strs (co_allowed c))]))"

definition reject_missing :: "rejection \<Rightarrow> contract \<Rightarrow> string list \<Rightarrow> app_error" where
  "reject_missing rj c missing =
     error_with_details
       (case rj of RejectArgument \<Rightarrow> InvalidArgument | RejectBash \<Rightarrow> InvalidBashRequest
                 | RejectChange \<Rightarrow> MissingChangeField | RejectChangeItem \<Rightarrow> MissingChangeField)
       (co_name c @ '' is missing required fields'')
       (JObj [(''contract'', JStr (co_name c)), (''missing'', json_strs missing),
              (''required'', json_strs (co_required c))])"

definition reject_invalid :: "rejection \<Rightarrow> string \<Rightarrow> json \<Rightarrow> app_error" where
  "reject_invalid rj message details =
     error_with_details
       (case rj of RejectArgument \<Rightarrow> InvalidArgument | RejectBash \<Rightarrow> InvalidBashRequest
                 | RejectChange \<Rightarrow> InvalidChangeField | RejectChangeItem \<Rightarrow> InvalidChangeField)
       message details"

definition show_int :: "int \<Rightarrow> string" where
  "show_int n = (if n < 0 then ''-'' @ show_nat (nat (- n)) else show_nat (nat n))"

definition bounds_range :: "integer_bounds \<Rightarrow> string" where
  "bounds_range b =
     (case (ib_minimum b, ib_maximum b) of
        (Some lo, Some hi) \<Rightarrow> ''from '' @ show_int lo @ '' to '' @ show_int hi
      | (Some lo, None) \<Rightarrow> ''of at least '' @ show_int lo
      | (None, Some hi) \<Rightarrow> ''of at most '' @ show_int hi
      | (None, None) \<Rightarrow> [])"

definition outside_bounds :: "integer_bounds \<Rightarrow> int \<Rightarrow> bool" where
  "outside_bounds b n \<longleftrightarrow>
     (case ib_minimum b of None \<Rightarrow> False | Some lo \<Rightarrow> n < lo)
     \<or> (case ib_maximum b of None \<Rightarrow> False | Some hi \<Rightarrow> hi < n)"

definition integer_violation :: "(string \<times> json) list \<Rightarrow> integer_bounds \<Rightarrow> bool" where
  "integer_violation obj b \<longleftrightarrow>
     (case Option.bind (map_of obj (ib_field b)) json_integer of
        None \<Rightarrow> False | Some n \<Rightarrow> outside_bounds b n)"

definition too_short :: "(string \<times> json) list \<Rightarrow> string \<times> nat \<Rightarrow> bool" where
  "too_short obj fm =
     (case Option.bind (map_of obj (fst fm)) json_as_str of
        None \<Rightarrow> False | Some t \<Rightarrow> length (str_chars t) < snd fm)"

definition contract_check ::
    "contract \<Rightarrow> rejection \<Rightarrow> (string \<times> json) list \<Rightarrow> app_error + (string \<times> json) list" where
  "contract_check c rj input =
     (let obj = filter (\<lambda>(_, v). \<not> json_is_null v) input;
          unknown = filter (\<lambda>f. f \<notin> set (co_allowed c)) (map fst obj);
          missing = filter (\<lambda>f. map_of obj f = None) (co_required c)
      in if unknown \<noteq> [] then Inl (reject_unknown rj c unknown)
         else if missing \<noteq> [] then Inl (reject_missing rj c missing)
         else case find (integer_violation obj) (co_integers c) of
           Some b \<Rightarrow>
             Inl (reject_invalid rj (ib_field b @ '' must be an integer '' @ bounds_range b)
                    (JObj [(''contract'', JStr (co_name c)), (''field'', JStr (ib_field b)),
                           (''value'', the (map_of obj (ib_field b)))]))
         | None \<Rightarrow>
             (case find (too_short obj) (co_min_lengths c) of
                Some (f, minimum) \<Rightarrow>
                  Inl (reject_invalid rj
                    (co_name c @ '' field '' @ [CHR 0x27] @ f @ [CHR 0x27] @ '' must be at least ''
                       @ show_nat minimum @ '' characters'')
                    (JObj [(''contract'', JStr (co_name c)), (''field'', JStr f)]))
              | None \<Rightarrow> Inr obj))"

text \<open>\<open>de\<close> is the derived deserialization: a field path with a message, or the request.\<close>

definition contract_parse ::
    "(json \<Rightarrow> (string \<times> string) + 'a) \<Rightarrow> contract \<Rightarrow> json \<Rightarrow> rejection \<Rightarrow> app_error + 'a" where
  "contract_parse de c v rj =
     (case v of
        JObj input \<Rightarrow>
          (case contract_check c rj input of
             Inl e \<Rightarrow> Inl e
           | Inr obj \<Rightarrow>
               (case de (JObj obj) of
                  Inr x \<Rightarrow> Inr x
                | Inl (field, m) \<Rightarrow>
                    Inl (reject_invalid rj
                      (co_name c @ '' field '' @ [CHR 0x27] @ field @ [CHR 0x27] @ '' is invalid: '' @ m)
                      (JObj [(''contract'', JStr (co_name c)), (''field'', JStr field), (''error'', JStr m)]))))
      | _ \<Rightarrow> Inl (reject_invalid rj (co_name c @ '' input must be an object'')
                (JObj [(''contract'', JStr (co_name c))])))"

section \<open>What a checked request satisfies\<close>

definition in_contract :: "contract \<Rightarrow> (string \<times> json) list \<Rightarrow> bool" where
  "in_contract c obj \<longleftrightarrow>
     (\<forall>(f, v) \<in> set obj. \<not> json_is_null v \<and> f \<in> set (co_allowed c))
   \<and> (\<forall>f \<in> set (co_required c). map_of obj f \<noteq> None)
   \<and> (\<forall>b \<in> set (co_integers c). \<not> integer_violation obj b)
   \<and> (\<forall>fm \<in> set (co_min_lengths c). \<not> too_short obj fm)"

lemma find_None_all: "find P xs = None \<longleftrightarrow> (\<forall>x \<in> set xs. \<not> P x)"
  by (auto simp: find_None_iff)

lemma contract_check_iff:
  "contract_check c rj input = Inr obj \<longleftrightarrow>
     obj = filter (\<lambda>(_, v). \<not> json_is_null v) input \<and> in_contract c obj"
proof -
  define present where "present = filter (\<lambda>(_, v). \<not> json_is_null v) input"
  have nn: "\<forall>(f, v) \<in> set present. \<not> json_is_null v" by (auto simp: present_def)
  have u: "filter (\<lambda>f. f \<notin> set (co_allowed c)) (map fst present) = []
      \<longleftrightarrow> (\<forall>(f, v) \<in> set present. f \<in> set (co_allowed c))"
    by (auto simp: filter_empty_conv)
  have m: "filter (\<lambda>f. map_of present f = None) (co_required c) = []
      \<longleftrightarrow> (\<forall>f \<in> set (co_required c). map_of present f \<noteq> None)"
    by (simp add: filter_empty_conv)
  have "contract_check c rj input = Inr obj \<longleftrightarrow> obj = present
      \<and> filter (\<lambda>f. f \<notin> set (co_allowed c)) (map fst present) = []
      \<and> filter (\<lambda>f. map_of present f = None) (co_required c) = []
      \<and> find (integer_violation present) (co_integers c) = None
      \<and> find (too_short present) (co_min_lengths c) = None"
    unfolding contract_check_def Let_def present_def [symmetric]
    by (auto split: option.splits)
  then show ?thesis
    unfolding u m find_None_all present_def [symmetric] in_contract_def using nn by auto
qed

lemma contract_parse_iff:
  "contract_parse de c (JObj input) rj = Inr x \<longleftrightarrow>
     in_contract c (filter (\<lambda>(_, v). \<not> json_is_null v) input)
     \<and> de (JObj (filter (\<lambda>(_, v). \<not> json_is_null v) input)) = Inr x"
  by (auto simp: contract_parse_def contract_check_iff split: sum.splits)
    (metis contract_check_iff sum.distinct(1) sum.exhaust)

text \<open>What a published schema says of a request, read from the schema itself: no compiled bound
  and no step of the checker occurs here. A number is an integer when it fits 64 bits; a keyword
  of another type than its own says nothing.\<close>

definition declared_properties :: "(string \<times> json) list \<Rightarrow> (string \<times> json) list" where
  "declared_properties schema = (case map_of schema ''properties'' of Some (JObj ps) \<Rightarrow> ps | _ \<Rightarrow> [])"

definition declared_required :: "(string \<times> json) list \<Rightarrow> json list" where
  "declared_required schema = (case map_of schema ''required'' of Some (JArr fs) \<Rightarrow> fs | _ \<Rightarrow> [])"

definition wide :: "int \<Rightarrow> bool" where
  "wide n \<longleftrightarrow> - 9223372036854775808 \<le> n \<and> n \<le> 18446744073709551615"

fun at_least :: "json option \<Rightarrow> int \<Rightarrow> bool" where
  "at_least (Some (JNum lo)) n = (wide lo \<longrightarrow> lo \<le> n)"
| "at_least _ _ = True"

fun at_most :: "json option \<Rightarrow> int \<Rightarrow> bool" where
  "at_most (Some (JNum hi)) n = (wide hi \<longrightarrow> n \<le> hi)"
| "at_most _ _ = True"

fun long_enough :: "json option \<Rightarrow> nat \<Rightarrow> bool" where
  "long_enough (Some (JNum m)) l = (0 \<le> m \<and> wide m \<longrightarrow> m \<le> int l)"
| "long_enough _ _ = True"

text \<open>What one declared property \<open>p\<close> says of the value of its field.\<close>

fun property_admits :: "json \<Rightarrow> json option \<Rightarrow> bool" where
  "property_admits p (Some (JNum n)) =
     (json_get p ''type'' = Some (JStr ''integer'') \<and> wide n \<longrightarrow>
        at_least (json_get p ''minimum'') n \<and> at_most (json_get p ''maximum'') n)"
| "property_admits p (Some (JStr t)) =
     (json_get p ''type'' = Some (JStr ''string'') \<longrightarrow>
        long_enough (json_get p ''minLength'') (length (str_chars t)))"
| "property_admits p _ = True"

definition schema_accepts :: "(string \<times> json) list \<Rightarrow> (string \<times> json) list \<Rightarrow> bool" where
  "schema_accepts schema request \<longleftrightarrow>
     (\<forall>(f, v) \<in> set request. f \<in> fst ` set (declared_properties schema))
   \<and> (\<forall>v \<in> set (declared_required schema). case v of JStr f \<Rightarrow> f \<in> fst ` set request | _ \<Rightarrow> True)
   \<and> (\<forall>(f, p) \<in> set (declared_properties schema). property_admits p (map_of request f))"

text \<open>Each list of the compiled contract says what the schema says.\<close>

lemma properties_declared:
  "(case Option.bind (map_of schema ''properties'') json_as_object of None \<Rightarrow> [] | Some ps \<Rightarrow> ps)
     = declared_properties schema"
  by (cases "map_of schema ''properties''")
    (simp_all add: declared_properties_def json_as_object_def split: json.splits)

lemma required_declared:
  "(case Option.bind (map_of schema ''required'') json_as_array of
      None \<Rightarrow> [] | Some fs \<Rightarrow> List.map_filter json_as_str fs)
     = List.map_filter json_as_str (declared_required schema)"
  by (cases "map_of schema ''required''")
    (simp_all add: declared_required_def json_as_array_def List.map_filter_def split: json.splits)

lemma contract_allowed_schema:
  "set (co_allowed (contract_from_schema name schema)) = fst ` set (declared_properties schema)"
  by (simp add: contract_from_schema_def properties_declared Let_def)

lemma json_as_str_Some: "json_as_str v = Some t \<longleftrightarrow> v = JStr t"
  by (auto simp: json_as_str_def split: json.splits)

lemma contract_required_schema:
  "set (co_required (contract_from_schema name schema)) = {f. JStr f \<in> set (declared_required schema)}"
proof -
  have "set (co_required (contract_from_schema name schema))
      = set (List.map_filter json_as_str (declared_required schema))"
    by (simp add: contract_from_schema_def required_declared Let_def)
  also have "\<dots> = {f. JStr f \<in> set (declared_required schema)}"
    by (auto simp: List.map_filter_def image_iff json_as_str_Some) (auto simp: json_as_str_def)
  finally show ?thesis .
qed

lemma json_integer_wide: "json_integer v = Some n \<longleftrightarrow> v = JNum n \<and> wide n"
  by (auto simp: json_integer_def wide_def split: json.splits)

lemma outside_bounds_at:
  "outside_bounds \<lparr>ib_field = f, ib_minimum = Option.bind lo json_integer, ib_maximum = Option.bind hi json_integer\<rparr> n
     \<longleftrightarrow> \<not> (at_least lo n \<and> at_most hi n)"
  by (cases "(lo, n)" rule: at_least.cases; cases "(hi, n)" rule: at_most.cases)
    (auto simp: outside_bounds_def json_integer_def wide_def)

definition schema_bounds :: "string \<times> json \<Rightarrow> integer_bounds" where
  "schema_bounds fp = \<lparr>ib_field = fst fp,
     ib_minimum = Option.bind (json_get (snd fp) ''minimum'') json_integer,
     ib_maximum = Option.bind (json_get (snd fp) ''maximum'') json_integer\<rparr>"

lemma contract_integers_schema:
  "set (co_integers (contract_from_schema name schema))
     = schema_bounds ` {(f, p) \<in> set (declared_properties schema). json_get p ''type'' = Some (JStr ''integer'')}"
proof -
  let ?typed = "{(f, p). json_get p ''type'' = Some (JStr ''integer'')}"
  have "co_integers (contract_from_schema name schema)
      = map schema_bounds (filter (\<lambda>fp. fp \<in> ?typed) (declared_properties schema))"
    unfolding contract_from_schema_def Let_def contract.simps properties_declared
    by (rule map_cong [OF filter_cong]) (auto simp: schema_bounds_def)
  then show ?thesis by auto
qed

lemma contract_min_lengths_schema:
  "(f, m) \<in> set (co_min_lengths (contract_from_schema name schema)) \<longleftrightarrow>
     (\<exists>p. (f, p) \<in> set (declared_properties schema) \<and> json_get p ''type'' = Some (JStr ''string'')
        \<and> Option.bind (json_get p ''minLength'') json_as_u64 = Some m)"
  by (force simp: contract_from_schema_def properties_declared List.map_filter_def Let_def)

lemma integer_violation_schema:
  "integer_violation request (schema_bounds (f, p)) \<longleftrightarrow>
     (\<exists>n. map_of request f = Some (JNum n) \<and> wide n
        \<and> \<not> (at_least (json_get p ''minimum'') n \<and> at_most (json_get p ''maximum'') n))"
proof (cases "Option.bind (map_of request f) json_integer")
  case None
  then have "\<nexists>n. map_of request f = Some (JNum n) \<and> wide n"
    by (auto simp: json_integer_def wide_def)
  with None show ?thesis by (auto simp: integer_violation_def schema_bounds_def)
next
  case (Some n)
  then have "map_of request f = Some (JNum n)" "wide n" by (auto simp: bind_eq_Some_conv json_integer_wide)
  with Some show ?thesis by (simp add: integer_violation_def schema_bounds_def outside_bounds_at)
qed

lemma too_short_schema:
  "(\<exists>m. Option.bind least json_as_u64 = Some m \<and> too_short request (f, m)) \<longleftrightarrow>
     (\<exists>t. map_of request f = Some (JStr t) \<and> \<not> long_enough least (length (str_chars t)))"
proof -
  have "too_short request (f, m) \<longleftrightarrow> (\<exists>t. map_of request f = Some (JStr t) \<and> length (str_chars t) < m)" for m
    by (cases "map_of request f") (auto simp: too_short_def json_as_str_def split: json.splits)
  then show ?thesis
    by (cases "(least, 0::nat)" rule: long_enough.cases) (auto simp: json_as_u64_def wide_def)
qed

lemma property_admits_iff:
  "property_admits p v \<longleftrightarrow>
     (json_get p ''type'' = Some (JStr ''integer'') \<longrightarrow>
        \<not> (\<exists>n. v = Some (JNum n) \<and> wide n
             \<and> \<not> (at_least (json_get p ''minimum'') n \<and> at_most (json_get p ''maximum'') n)))
   \<and> (json_get p ''type'' = Some (JStr ''string'') \<longrightarrow>
        \<not> (\<exists>t. v = Some (JStr t) \<and> \<not> long_enough (json_get p ''minLength'') (length (str_chars t))))"
  by (cases "(p, v)" rule: property_admits.cases) auto

lemma bounds_kept_schema:
  "(\<forall>b \<in> set (co_integers (contract_from_schema name schema)). \<not> integer_violation request b)
   \<and> (\<forall>fm \<in> set (co_min_lengths (contract_from_schema name schema)). \<not> too_short request fm)
   \<longleftrightarrow> (\<forall>(f, p) \<in> set (declared_properties schema). property_admits p (map_of request f))"
proof -
  have i: "(\<forall>b \<in> set (co_integers (contract_from_schema name schema)). \<not> integer_violation request b)
      \<longleftrightarrow> (\<forall>(f, p) \<in> set (declared_properties schema). json_get p ''type'' = Some (JStr ''integer'')
             \<longrightarrow> \<not> integer_violation request (schema_bounds (f, p)))"
    unfolding contract_integers_schema by auto
  have l: "(\<forall>fm \<in> set (co_min_lengths (contract_from_schema name schema)). \<not> too_short request fm)
      \<longleftrightarrow> (\<forall>(f, p) \<in> set (declared_properties schema). json_get p ''type'' = Some (JStr ''string'')
             \<longrightarrow> \<not> (\<exists>m. Option.bind (json_get p ''minLength'') json_as_u64 = Some m \<and> too_short request (f, m)))"
    using contract_min_lengths_schema [of _ _ name schema] by fast
  show ?thesis
    unfolding i l integer_violation_schema too_short_schema property_admits_iff by blast
qed

lemma json_is_null_iff: "json_is_null j \<longleftrightarrow> j = JNull"
  by (cases j) (simp_all add: json_is_null_def)

lemma in_contract_schema:
  "in_contract (contract_from_schema name schema) (filter (\<lambda>(_, v). \<not> json_is_null v) input)
     \<longleftrightarrow> schema_accepts schema (filter (\<lambda>(_, v). v \<noteq> JNull) input)"
proof -
  have e: "filter (\<lambda>(_, v). \<not> json_is_null v) input = filter (\<lambda>(_, v). v \<noteq> JNull) input" (is "_ = ?kept")
    by (simp add: json_is_null_iff)
  have n: "(\<forall>(f, v) \<in> set ?kept. \<not> json_is_null v \<and> f \<in> A) \<longleftrightarrow> (\<forall>(f, v) \<in> set ?kept. f \<in> A)" for A
    by (auto simp: json_is_null_iff)
  have r: "(\<forall>f \<in> set (co_required (contract_from_schema name schema)). map_of ?kept f \<noteq> None)
      \<longleftrightarrow> (\<forall>v \<in> set (declared_required schema). case v of JStr f \<Rightarrow> f \<in> fst ` set ?kept | _ \<Rightarrow> True)"
    by (simp add: contract_required_schema map_of_eq_None_iff split: json.split) blast
  show ?thesis
    unfolding e in_contract_def n contract_allowed_schema r bounds_kept_schema schema_accepts_def by blast
qed

text \<open>C25. A tool request reaches its handler exactly when it keeps the published schema: the
  deserializer sees the fields that are not null, and it sees them exactly when the schema declares
  each of them, every field it requires is among them, every 64-bit integer of an integer property
  lies between its \<open>minimum\<close> and \<open>maximum\<close>, both included, and every text of a string property has at
  least \<open>minLength\<close> characters. The right-hand side is read from the schema, not from the checker.\<close>

theorem request_keeps_contract:
  "contract_parse de (contract_from_schema name schema) (JObj input) rj = Inr x \<longleftrightarrow>
     schema_accepts schema (filter (\<lambda>(_, v). v \<noteq> JNull) input)
     \<and> de (JObj (filter (\<lambda>(_, v). v \<noteq> JNull) input)) = Inr x"
proof -
  have "filter (\<lambda>(_, v). \<not> json_is_null v) input = filter (\<lambda>(_, v). v \<noteq> JNull) input"
    by (simp add: json_is_null_iff)
  then show ?thesis unfolding contract_parse_iff in_contract_schema by metis
qed

end
