(* ===== verification/Edit_Validation.thy ===== *)
theory Edit_Validation
  imports App_Error
begin

text \<open>
  The validation commands after an applied edit (\<open>src/workspace/validation.rs\<close>): they run
  one by one until the foreground budget is spent; what remains is queued as one sequential
  run. Starting and queuing a run and reading the clock are parameters over the state they
  change: a start answers the JSON view of the run, or an error.
\<close>

record 's runner =
  vr_start :: "'s \<Rightarrow> string \<Rightarrow> (app_error + json) \<times> 's"
  vr_queue :: "'s \<Rightarrow> string \<Rightarrow> (app_error + json) \<times> 's"
  vr_over_budget :: "'s \<Rightarrow> bool"

record validation_outcome =
  vo_validation :: "json list"
  vo_failed :: bool
  vo_pending_run_id :: "string option"
  vo_deferred_run_id :: "string option"

definition view_status :: "json \<Rightarrow> string option" where
  "view_status v = Option.bind (json_get v ''status'') json_as_str"

definition view_run_id :: "json \<Rightarrow> string option" where
  "view_run_id v = Option.bind (json_get v ''run_id'') json_as_str"

definition result_item :: "string \<Rightarrow> json \<Rightarrow> json" where
  "result_item command result = JObj [(''command'', JStr command), (''result'', result)]"

definition error_item :: "string \<Rightarrow> json \<Rightarrow> json" where
  "error_item command e = JObj [(''command'', JStr command), (''error'', e)]"

definition deferred_item :: "string \<Rightarrow> json \<Rightarrow> json" where
  "deferred_item command result =
     JObj [(''command'', JStr command), (''deferred'', JBool True), (''result'', result)]"

definition joined_commands :: "string list \<Rightarrow> string" where
  "joined_commands commands = join_with '' && '' (map (\<lambda>c. ''('' @ c @ '')'') commands)"

text \<open>\<open>spawn_pending_validation\<close>: the id of the queued run and the entries it adds.\<close>

definition spawn_pending ::
    "(app_error \<Rightarrow> json) \<Rightarrow> 's runner \<Rightarrow> 's \<Rightarrow> string list \<Rightarrow> string option \<times> json list \<times> 's" where
  "spawn_pending err_json vr s commands =
     (let joined = joined_commands commands
      in case vr_queue vr s joined of
           (Inl e, s1) \<Rightarrow> (None, [error_item joined (err_json e)], s1)
         | (Inr result, s1) \<Rightarrow>
             (case view_run_id result of
                Some run_id \<Rightarrow>
                  (Some run_id,
                   map (\<lambda>c. deferred_item c (JObj [(''status'', JStr ''pending''),
                        (''reason'', JStr ''blocked_by_pending_validation''), (''run_id'', JStr run_id)]))
                     commands, s1)
              | None \<Rightarrow> (None, [deferred_item joined result], s1)))"

text \<open>The loop over the commands, with the entries so far.\<close>

fun validate_loop ::
    "(app_error \<Rightarrow> json) \<Rightarrow> 's runner \<Rightarrow> 's \<Rightarrow> json list \<Rightarrow> string list \<Rightarrow> validation_outcome \<times> 's" where
  "validate_loop err_json vr s items [] =
     (\<lparr>vo_validation = items, vo_failed = False, vo_pending_run_id = None, vo_deferred_run_id = None\<rparr>, s)"
| "validate_loop err_json vr s items (command # remaining) =
     (if vr_over_budget vr s
      then (case spawn_pending err_json vr s (command # remaining) of
              (run_id, extra, s1) \<Rightarrow>
                (\<lparr>vo_validation = items @ extra, vo_failed = (run_id = None), vo_pending_run_id = run_id,
                  vo_deferred_run_id = None\<rparr>, s1))
      else case vr_start vr s command of
        (Inl e, s1) \<Rightarrow>
          (\<lparr>vo_validation = items @ [error_item command (err_json e)], vo_failed = True,
            vo_pending_run_id = None, vo_deferred_run_id = None\<rparr>, s1)
      | (Inr result, s1) \<Rightarrow>
          let items1 = items @ [result_item command result]
          in if view_status result = Some ''succeeded''
             then validate_loop err_json vr s1 items1 remaining
             else if view_status result = Some ''running''
             then (case view_run_id result of
                     None \<Rightarrow>
                       (\<lparr>vo_validation = items1, vo_failed = True, vo_pending_run_id = None,
                         vo_deferred_run_id = None\<rparr>, s1)
                   | Some run_id \<Rightarrow>
                       if remaining = []
                       then (\<lparr>vo_validation = items1, vo_failed = False, vo_pending_run_id = Some run_id,
                              vo_deferred_run_id = None\<rparr>, s1)
                       else (case spawn_pending err_json vr s1 remaining of
                               (deferred, extra, s2) \<Rightarrow>
                                 (\<lparr>vo_validation = items1 @ extra, vo_failed = (deferred = None),
                                   vo_pending_run_id = Some run_id, vo_deferred_run_id = deferred\<rparr>, s2)))
             else (\<lparr>vo_validation = items1, vo_failed = True, vo_pending_run_id = None,
                    vo_deferred_run_id = None\<rparr>, s1))"

definition run_edit_validation ::
    "(app_error \<Rightarrow> json) \<Rightarrow> 's runner \<Rightarrow> 's \<Rightarrow> string list \<Rightarrow> validation_outcome \<times> 's" where
  "run_edit_validation err_json vr s commands = validate_loop err_json vr s [] commands"

text \<open>The entry of a command that passed.\<close>

definition passed_item :: "string \<Rightarrow> json \<Rightarrow> bool" where
  "passed_item command item \<longleftrightarrow>
     (\<exists>result. item = result_item command result \<and> view_status result = Some ''succeeded'')"

lemma validate_loop_passed:
  "fst (validate_loop err_json vr s items commands) = v \<Longrightarrow> \<not> vo_failed v \<Longrightarrow> vo_pending_run_id v = None \<Longrightarrow>
     \<exists>extra. vo_validation v = items @ extra \<and> list_all2 passed_item commands extra"
proof (induction err_json vr s items commands arbitrary: v rule: validate_loop.induct)
  case (2 err_json vr s items command remaining)
  show ?case
  proof (cases "vr_over_budget vr s")
    case True
    with 2 show ?thesis by (auto split: prod.splits)
  next
    case False
    obtain start s1 where start: "vr_start vr s command = (start, s1)" by fastforce
    show ?thesis
    proof (cases "\<exists>result. start = Inr result \<and> view_status result = Some ''succeeded''")
      case True
      then obtain result where r: "start = Inr result" "view_status result = Some ''succeeded''" by blast
      have v: "v = fst (validate_loop err_json vr s1 (items @ [result_item command result]) remaining)"
        using 2(2) False start r by (simp add: Let_def)
      obtain extra where "vo_validation v = (items @ [result_item command result]) @ extra"
        "list_all2 passed_item remaining extra"
        using 2(1) [OF False start [symmetric] r(1) refl r(2) v [symmetric]] 2(3,4) by blast
      moreover have "passed_item command (result_item command result)"
        using r(2) by (auto simp: passed_item_def)
      ultimately show ?thesis by (intro exI [of _ "result_item command result # extra"]) simp
    next
      case no: False
      then show ?thesis
        using 2(2-4) False start
        by (cases start) (auto simp: Let_def split: option.splits prod.splits if_splits)
    qed
  qed
qed simp

text \<open>C24. An edit reports its validation as passed (neither failed nor pending) only when every
  command was started, in order, and ended with the status \<open>succeeded\<close>: no error, no other
  status, no spent budget and no refused queue is taken for a pass.\<close>

theorem validation_passes_only_when_all_succeed:
  assumes "fst (run_edit_validation err_json vr s commands) = v"
    and "\<not> vo_failed v" "vo_pending_run_id v = None"
  shows "list_all2 passed_item commands (vo_validation v)"
  using validate_loop_passed [of err_json vr s "[]" commands v] assms
  by (auto simp: run_edit_validation_def)

definition sample_runner :: "unit runner" where
  "sample_runner = \<lparr>vr_start = (\<lambda>s c. (Inr (JObj [(''run_id'', JStr ''run_1''), (''status'', JStr ''succeeded'')]), s)),
     vr_queue = (\<lambda>s c. (Inr (JObj []), s)), vr_over_budget = (\<lambda>s. False)\<rparr>"

theorem validation_passes_only_when_all_succeed_witness:
  "list_all2 passed_item [''cargo check'', ''cargo test'']
     (vo_validation (fst (run_edit_validation (\<lambda>e. JNull) sample_runner () [''cargo check'', ''cargo test''])))"
  by (rule validation_passes_only_when_all_succeed [OF refl])
    (simp_all add: run_edit_validation_def sample_runner_def view_status_def json_get_def json_as_str_def Let_def)

end
