(* ===== verification/Symbols.thy ===== *)
theory Symbols
  imports Code_Index Text_Util "HOL-Library.Product_Lexorder"
begin

text \<open>
  Symbols and identifier occurrences (\<open>src/symbols.rs\<close>). The Tree-sitter grammars are the
  parameter \<open>yp_parse\<close>: the syntax tree of a text in a language, with whether it has an
  error. A node carries what the code asks of it; the walk up to its parents is a walk along the list of
  its ancestors, the innermost first. Which characters are alphanumeric is a table of the
  standard library and a parameter too.
\<close>

section \<open>Reference kinds and evidence\<close>

datatype reference_kind =
  RDeclaration | RCall | RImport | RType | RRead | RWrite | ROther

definition reference_kind_all :: "reference_kind list" where
  "reference_kind_all = [RDeclaration, RCall, RImport, RType, RRead, RWrite, ROther]"

fun reference_kind_as_str :: "reference_kind \<Rightarrow> string" where
  "reference_kind_as_str RDeclaration = ''declaration''"
| "reference_kind_as_str RCall = ''call''"
| "reference_kind_as_str RImport = ''import''"
| "reference_kind_as_str RType = ''type''"
| "reference_kind_as_str RRead = ''read''"
| "reference_kind_as_str RWrite = ''write''"
| "reference_kind_as_str ROther = ''other''"

definition reference_kind_parse :: "string \<Rightarrow> reference_kind option" where
  "reference_kind_parse v = find (\<lambda>k. reference_kind_as_str k = v) reference_kind_all"

datatype evidence = Lexical | Syntactic | Semantic

record identifier_occurrence =
  io_start_byte :: nat
  io_end_byte :: nat
  io_start_line :: nat
  io_start_column :: nat
  io_end_line :: nat
  io_end_column :: nat
  io_role :: reference_kind
  io_evidence :: evidence
  io_enclosing_symbol :: "string option"

record syntax_context =
  sx_role :: reference_kind
  sx_enclosing_symbol :: "string option"

section \<open>Syntax trees\<close>

datatype syntax_node = SNode
  (sn_kind: string) (sn_named: bool) (sn_start: nat) (sn_end: nat) (sn_start_row: nat) (sn_end_row: nat)
  (sn_children: "(string option \<times> syntax_node) list")

record symbol_env =
  yp_parse :: "string \<Rightarrow> string \<Rightarrow> (syntax_node \<times> bool) option"
  yp_alnum :: "uchar \<Rightarrow> bool"

definition parsed_languages :: "string list" where
  "parsed_languages = [''python'', ''typescript'', ''tsx'', ''javascript'', ''rust'', ''go'', ''java'', ''csharp'',
     ''c'', ''cpp'', ''json'']"

definition language :: "string \<Rightarrow> string option" where
  "language path = (let name = language_name path in if name \<in> set parsed_languages then Some name else None)"

definition with_parser :: "string \<Rightarrow> (string \<Rightarrow> 'a) \<Rightarrow> 'a option" where
  "with_parser path operation = map_option operation (language path)"

definition parse_has_error :: "symbol_env \<Rightarrow> string \<Rightarrow> string \<Rightarrow> bool option" where
  "parse_has_error env path content =
     Option.bind (with_parser path (\<lambda>l. map_option snd (yp_parse env l content))) id"

text \<open>Every node below a node, in the order of the explicit stack, with its ancestors.\<close>

fun nodes_below :: "syntax_node list \<Rightarrow> syntax_node \<Rightarrow> (syntax_node \<times> syntax_node list) list" where
  "nodes_below ancestors (SNode kind named a b r r' children) =
     (let node = SNode kind named a b r r' children
      in (node, ancestors) # concat (map (\<lambda>(_, child). nodes_below (node # ancestors) child) children))"

definition child_by_field_name :: "syntax_node \<Rightarrow> string \<Rightarrow> syntax_node option" where
  "child_by_field_name node field = map_option snd (find (\<lambda>(f, _). f = Some field) (sn_children node))"

definition node_text :: "string \<Rightarrow> syntax_node \<Rightarrow> string option" where
  "node_text source node =
     (let t = take (sn_end node - sn_start node) (drop (sn_start node) source)
      in case from_utf8 (text_bytes t) of Inr _ \<Rightarrow> Some t | Inl _ \<Rightarrow> None)"

definition same_node :: "syntax_node \<Rightarrow> syntax_node \<Rightarrow> bool" where
  "same_node left right \<longleftrightarrow> sn_start left = sn_start right \<and> sn_end left = sn_end right"

definition contains_node :: "syntax_node \<Rightarrow> syntax_node \<Rightarrow> bool" where
  "contains_node container node \<longleftrightarrow> sn_start container \<le> sn_start node \<and> sn_end node \<le> sn_end container"

definition identifier_kinds :: "string list" where
  "identifier_kinds = [''identifier'', ''field_identifier'', ''property_identifier'', ''type_identifier'',
     ''namespace_identifier'', ''name'']"

definition find_identifier :: "syntax_node \<Rightarrow> syntax_node option" where
  "find_identifier node = find (\<lambda>child. sn_kind child \<in> set identifier_kinds) (map snd (sn_children node))"

definition is_identifier_node :: "syntax_node \<Rightarrow> bool" where
  "is_identifier_node node \<longleftrightarrow>
     sn_named node \<and> filter sn_named (map snd (sn_children node)) = []
     \<and> (sn_kind node \<in> set identifier_kinds \<union> {''shorthand_property_identifier'', ''shorthand_property_identifier_pattern''}
        \<or> ends_with (sn_kind node) ''_identifier'')"

definition is_declaration :: "string \<Rightarrow> bool" where
  "is_declaration kind \<longleftrightarrow> kind \<in>
     {''function_definition'', ''class_definition'', ''decorated_definition'', ''function_declaration'',
      ''generator_function_declaration'', ''method_definition'', ''class_declaration'',
      ''interface_declaration'', ''type_alias_declaration'', ''function_item'', ''struct_item'',
      ''enum_item'', ''trait_item'', ''impl_item'', ''type_item'', ''mod_item'', ''method_declaration'',
      ''type_declaration'', ''enum_declaration'', ''record_declaration'', ''namespace_declaration'',
      ''struct_specifier'', ''enum_specifier'', ''union_specifier'', ''template_declaration''}"

definition is_occurrence_declaration :: "string \<Rightarrow> bool" where
  "is_occurrence_declaration kind \<longleftrightarrow> is_declaration kind \<or> kind \<in>
     {''variable_declarator'', ''lexical_declaration'', ''let_declaration'', ''const_item'', ''static_item'',
      ''field_declaration'', ''parameter'', ''required_parameter'', ''optional_parameter'', ''formal_parameter''}"

text \<open>The node that names a declaration.\<close>

definition declared_name :: "syntax_node \<Rightarrow> syntax_node option" where
  "declared_name node =
     (case child_by_field_name node ''name'' of Some n \<Rightarrow> Some n | None \<Rightarrow> find_identifier node)"

definition is_declaration_name :: "syntax_node list \<Rightarrow> syntax_node \<Rightarrow> bool" where
  "is_declaration_name ancestors node \<longleftrightarrow>
     list_ex (\<lambda>parent. is_occurrence_declaration (sn_kind parent)
       \<and> (case declared_name parent of Some n \<Rightarrow> same_node n node | None \<Rightarrow> False)) ancestors"

definition is_import_context :: "string \<Rightarrow> bool" where
  "is_import_context kind \<longleftrightarrow> contains kind ''import''
     \<or> kind \<in> {''use_declaration'', ''include_directive'', ''preproc_include'', ''using_directive''}"

definition is_call_context :: "string \<Rightarrow> bool" where
  "is_call_context kind \<longleftrightarrow> contains kind ''call''
     \<or> kind \<in> {''method_invocation'', ''invocation_expression'', ''macro_invocation'', ''command''}"

definition is_write_context :: "syntax_node \<Rightarrow> syntax_node \<Rightarrow> bool" where
  "is_write_context parent node =
     (let kind = sn_kind parent
      in if kind \<in> {''update_expression'', ''postfix_unary_expression''} then contains_node parent node
         else if contains kind ''assignment'' \<or> kind = ''short_var_declaration''
         then (case (case child_by_field_name parent ''left'' of
                       Some n \<Rightarrow> Some n | None \<Rightarrow> child_by_field_name parent ''name'') of
                 Some left \<Rightarrow> contains_node left node | None \<Rightarrow> False)
         else False)"

definition is_type_context :: "string \<Rightarrow> bool" where
  "is_type_context kind \<longleftrightarrow> contains kind ''type''
     \<or> kind \<in> {''cast_expression'', ''generic_parameter'', ''implements_clause'', ''extends_clause''}"

fun classify_ancestors :: "syntax_node \<Rightarrow> syntax_node list \<Rightarrow> reference_kind" where
  "classify_ancestors node [] = RRead"
| "classify_ancestors node (parent # ancestors) =
     (if is_import_context (sn_kind parent) then RImport
      else if is_write_context parent node then RWrite
      else if is_call_context (sn_kind parent) then RCall
      else if is_type_context (sn_kind parent) then RType
      else classify_ancestors node ancestors)"

definition classify_identifier_node :: "syntax_node list \<Rightarrow> syntax_node \<Rightarrow> reference_kind" where
  "classify_identifier_node ancestors node =
     (if is_declaration_name ancestors node then RDeclaration
      else if contains (sn_kind node) ''type_identifier'' then RType
      else classify_ancestors node ancestors)"

fun enclosing_symbol_name :: "string \<Rightarrow> syntax_node \<Rightarrow> syntax_node list \<Rightarrow> string option" where
  "enclosing_symbol_name source node [] = None"
| "enclosing_symbol_name source node (parent # ancestors) =
     (case (if is_declaration (sn_kind parent)
            then (case declared_name parent of
                    None \<Rightarrow> None
                  | Some name \<Rightarrow> if same_node name node then None else node_text source name)
            else None) of
        Some name \<Rightarrow> Some name
      | None \<Rightarrow> enclosing_symbol_name source node ancestors)"

section \<open>The symbols of a file\<close>

definition node_symbol :: "string \<Rightarrow> syntax_node \<Rightarrow> symbol option" where
  "node_symbol source node =
     (if \<not> is_declaration (sn_kind node) then None
      else case Option.bind (declared_name node) (node_text source) of
             None \<Rightarrow> None
           | Some name \<Rightarrow>
               let text = (case node_text source node of None \<Rightarrow> [] | Some t \<Rightarrow> t);
                   first = (case str_lines text of [] \<Rightarrow> [] | l # _ \<Rightarrow> l)
               in Some \<lparr>sy_name = name, sy_kind = sn_kind node, sy_start_line = sn_start_row node + 1,
                        sy_end_line = sn_end_row node + 1,
                        sy_signature = chars_str (take 300 (str_chars (trim first)))\<rparr>)"

definition extract_symbols :: "symbol_env \<Rightarrow> string \<Rightarrow> string \<Rightarrow> symbol list" where
  "extract_symbols env path content =
     (case with_parser path (\<lambda>l. case yp_parse env l content of
              None \<Rightarrow> []
            | Some (root, _) \<Rightarrow> List.map_filter (\<lambda>(n, _). node_symbol content n) (nodes_below [] root)) of
        None \<Rightarrow> [] | Some symbols \<Rightarrow> symbols)"

section \<open>Identifier occurrences\<close>

definition is_identifier_continue :: "symbol_env \<Rightarrow> uchar \<Rightarrow> bool" where
  "is_identifier_continue env c \<longleftrightarrow>
     c = 95 \<or> c = 36 \<or> yp_alnum env c \<or> c = 0x200C \<or> c = 0x200D
     \<or> (0x300 \<le> c \<and> c \<le> 0x36F) \<or> (0x1AB0 \<le> c \<and> c \<le> 0x1AFF) \<or> (0x1DC0 \<le> c \<and> c \<le> 0x1DFF)
     \<or> (0x20D0 \<le> c \<and> c \<le> 0x20FF) \<or> (0xFE20 \<le> c \<and> c \<le> 0xFE2F)"

definition source_line_starts :: "string \<Rightarrow> nat list" where
  "source_line_starts content = 0 # map Suc (match_indices content [nl])"

definition source_position :: "string \<Rightarrow> nat list \<Rightarrow> nat \<Rightarrow> nat \<times> nat" where
  "source_position content line_starts byte =
     (let line_index = length (takeWhile (\<lambda>s. s \<le> byte) line_starts) - 1;
          line_start = line_starts ! line_index
      in (line_index + 1, length (str_chars (take (byte - line_start) (drop line_start content))) + 1))"

definition source_line_range_bytes :: "string \<Rightarrow> nat list \<Rightarrow> nat \<Rightarrow> nat \<Rightarrow> nat \<times> nat" where
  "source_line_range_bytes content line_starts start_line end_line =
     (let start_index = min (start_line - 1) (length line_starts - 1);
          end_index = min end_line (length line_starts)
      in (line_starts ! start_index,
          if end_index < length line_starts then line_starts ! end_index else length content))"

text \<open>An identifier character next to the match makes it part of a longer identifier.\<close>

definition identifier_bounded :: "symbol_env \<Rightarrow> string \<Rightarrow> nat \<Rightarrow> nat \<Rightarrow> bool" where
  "identifier_bounded env content start_byte end_byte \<longleftrightarrow>
     \<not> ((case rev (str_chars (take start_byte content)) of
           [] \<Rightarrow> False | c # _ \<Rightarrow> is_identifier_continue env c)
        \<or> (case str_chars (drop end_byte content) of
             [] \<Rightarrow> False | c # _ \<Rightarrow> is_identifier_continue env c))"

definition lexical_identifier_occurrences ::
    "symbol_env \<Rightarrow> string \<Rightarrow> string \<Rightarrow> identifier_occurrence list" where
  "lexical_identifier_occurrences env content identifier =
     (let line_starts = source_line_starts content
      in map (\<lambda>start_byte.
             let end_byte = start_byte + length identifier;
                 (start_line, start_column) = source_position content line_starts start_byte;
                 (end_line, end_column) = source_position content line_starts end_byte
             in \<lparr>io_start_byte = start_byte, io_end_byte = end_byte, io_start_line = start_line,
                 io_start_column = start_column, io_end_line = end_line, io_end_column = end_column,
                 io_role = ROther, io_evidence = Lexical, io_enclosing_symbol = None\<rparr>)
           (filter (\<lambda>start_byte. identifier_bounded env content start_byte (start_byte + length identifier))
             (match_indices content identifier)))"

section \<open>Enrichment by syntax\<close>

definition max_syntax_range_lines :: nat where "max_syntax_range_lines = 200"
definition local_context_lines :: nat where "local_context_lines = 20"

definition indexed_enclosing :: "symbol list \<Rightarrow> identifier_occurrence \<Rightarrow> symbol option" where
  "indexed_enclosing symbols occ =
     min_by_key (\<lambda>s. sy_end_line s - sy_start_line s)
       (filter (\<lambda>s. sy_start_line s \<le> io_start_line occ \<and> io_end_line occ \<le> sy_end_line s) symbols)"

definition fallback_enclosing :: "symbol list \<Rightarrow> string \<Rightarrow> identifier_occurrence \<Rightarrow> string option" where
  "fallback_enclosing symbols identifier occ =
     (case indexed_enclosing symbols occ of
        None \<Rightarrow> None
      | Some s \<Rightarrow>
          if sy_name s = identifier \<and> sy_start_line s = io_start_line occ then None else Some (sy_name s))"

text \<open>The lines parsed for an occurrence: its symbol, or a few lines around it when that is long.\<close>

definition syntax_range :: "symbol list \<Rightarrow> nat \<Rightarrow> identifier_occurrence \<Rightarrow> nat \<times> nat" where
  "syntax_range symbols total_lines occ =
     (let (start_line, end_line) = (case indexed_enclosing symbols occ of
            Some s \<Rightarrow> (sy_start_line s, sy_end_line s)
          | None \<Rightarrow> (io_start_line occ, io_end_line occ))
      in if max_syntax_range_lines < end_line - start_line + 1
         then (max (io_start_line occ - local_context_lines) 1,
               min (io_end_line occ + local_context_lines) total_lines)
         else (start_line, end_line))"

text \<open>The ranges in order, each with the fallback of its first occurrence.\<close>

fun add_range :: "nat \<times> nat \<Rightarrow> 'v \<Rightarrow> ((nat \<times> nat) \<times> 'v) list \<Rightarrow> ((nat \<times> nat) \<times> 'v) list" where
  "add_range k v [] = [(k, v)]"
| "add_range k v ((k', v') # rs) =
     (if k = k' then (k', v') # rs else if k < k' then (k, v) # (k', v') # rs else (k', v') # add_range k v rs)"

definition syntax_ranges ::
    "symbol list \<Rightarrow> string \<Rightarrow> nat \<Rightarrow> identifier_occurrence list \<Rightarrow> ((nat \<times> nat) \<times> string option) list" where
  "syntax_ranges symbols identifier total_lines occs =
     (if symbols = [] then [((1, total_lines), None)]
      else foldl (\<lambda>rs occ. add_range (syntax_range symbols total_lines occ)
             (fallback_enclosing symbols identifier occ) rs) [] occs)"

definition syntax_contexts ::
    "syntax_node \<Rightarrow> string \<Rightarrow> string \<Rightarrow> nat \<Rightarrow> string option \<Rightarrow> ((nat \<times> nat) \<times> syntax_context) list" where
  "syntax_contexts root source identifier base_byte fallback =
     map (\<lambda>(node, ancestors).
         ((base_byte + sn_start node, base_byte + sn_end node),
          \<lparr>sx_role = classify_identifier_node ancestors node,
           sx_enclosing_symbol = (case enclosing_symbol_name source node ancestors of
              Some name \<Rightarrow> Some name | None \<Rightarrow> fallback)\<rparr>))
       (filter (\<lambda>(node, _). is_identifier_node node \<and> node_text source node = Some identifier)
         (nodes_below [] root))"

definition range_contexts ::
    "symbol_env \<Rightarrow> string \<Rightarrow> string \<Rightarrow> string \<Rightarrow> nat list \<Rightarrow> (nat \<times> nat) \<times> string option
     \<Rightarrow> ((nat \<times> nat) \<times> syntax_context) list" where
  "range_contexts env path content identifier line_starts span =
     (case span of ((start_line, end_line), fallback) \<Rightarrow>
        (case source_line_range_bytes content line_starts start_line end_line of (start_byte, end_byte) \<Rightarrow>
           let source = take (end_byte - start_byte) (drop start_byte content)
           in case Option.bind (with_parser path (\<lambda>l. yp_parse env l source)) id of
                None \<Rightarrow> []
              | Some (root, _) \<Rightarrow> syntax_contexts root source identifier start_byte fallback))"

text \<open>A later context of the same bytes replaces an earlier one.\<close>

definition enrich ::
    "((nat \<times> nat) \<times> syntax_context) list \<Rightarrow> identifier_occurrence \<Rightarrow> identifier_occurrence" where
  "enrich syntax occ =
     (case map_of (rev syntax) (io_start_byte occ, io_end_byte occ) of
        None \<Rightarrow> occ
      | Some ctx \<Rightarrow>
          occ\<lparr>io_role := sx_role ctx, io_evidence := Syntactic,
              io_enclosing_symbol := (case sx_enclosing_symbol ctx of
                 Some name \<Rightarrow> Some name | None \<Rightarrow> io_enclosing_symbol occ)\<rparr>)"

definition identifier_occurrences_with_symbols ::
    "symbol_env \<Rightarrow> string \<Rightarrow> string \<Rightarrow> string \<Rightarrow> symbol list \<Rightarrow> identifier_occurrence list" where
  "identifier_occurrences_with_symbols env path content name symbols =
     (let identifier = trim name
      in if identifier = [] then []
         else let found = lexical_identifier_occurrences env content identifier
         in if found = [] then []
         else let line_starts = source_line_starts content;
                  total_lines = max (length line_starts) 1;
                  occs = (if symbols = [] then found
                          else map (\<lambda>occ. occ\<lparr>io_enclosing_symbol := fallback_enclosing symbols identifier occ\<rparr>) found);
                  ranges = syntax_ranges symbols identifier total_lines occs;
                  syntax = concat (map (range_contexts env path content identifier line_starts) ranges)
              in map (enrich syntax) occs)"

definition identifier_occurrences ::
    "symbol_env \<Rightarrow> string \<Rightarrow> string \<Rightarrow> string \<Rightarrow> identifier_occurrence list" where
  "identifier_occurrences env path content name = identifier_occurrences_with_symbols env path content name []"

section \<open>The lexical scan is complete\<close>

text \<open>A byte below 128 is a character of its own, at either end of any text.\<close>

lemma ascii_not_second:
  assumes "b < (0x80 :: u8)"
  shows "\<not> is_cont b" "\<not> second_ok3 x b" "\<not> second_ok4 x b"
  using assms by (auto simp: is_cont_def second_ok3_def second_ok4_def word_le_nat_alt word_less_nat_alt)

text \<open>The bytes a step consumes from a list that ends in such a byte.\<close>

fun step_within :: "nat \<Rightarrow> utf8_step \<Rightarrow> bool" where
  "step_within k (Valid c n) = (n \<le> k)"
| "step_within k (Invalid n) = (n \<le> k)"
| "step_within k Incomplete = False"

lemma step_within_if [simp]:
  "step_within k (if p then s else t) \<longleftrightarrow> (if p then step_within k s else step_within k t)"
  by simp

lemma utf8_next_ascii_end:
  assumes "b < 0x80"
  shows "step_within (Suc (length xs)) (utf8_next x (xs @ [b]))"
proof -
  note n = ascii_not_second [OF assms]
  have "step_within (Suc (length xs)) (utf8_next2 x (xs @ [b]))"
    by (cases xs) (simp_all add: utf8_next2_def n)
  moreover have "step_within (Suc (length xs)) (utf8_next3 x (xs @ [b]))"
    by (cases xs; cases "tl xs") (simp_all add: utf8_next3_def n)
  moreover have "step_within (Suc (length xs)) (utf8_next4 x (xs @ [b]))"
    by (cases xs; cases "tl xs"; cases "tl (tl xs)") (simp_all add: utf8_next4_def n)
  ultimately show ?thesis by (simp add: utf8_next_def)
qed

lemma utf8_next_ascii: "b < 0x80 \<Longrightarrow> utf8_next b bs = Valid (unat b) 1"
  by (simp add: utf8_next_def utf8_char_width_def)

lemma utf8_lossy_ascii_end:
  "b < 0x80 \<Longrightarrow> \<exists>cs. utf8_lossy (xs @ [b]) = (cs @ [unat b], [])"
proof (induction xs rule: length_induct)
  case (1 xs)
  show ?case
  proof (cases xs)
    case Nil
    then show ?thesis using 1(2) by (simp add: utf8_next_ascii)
  next
    case (Cons x xs')
    have IH: "\<exists>cs. utf8_lossy (drop n xs @ [b]) = (cs @ [unat b], [])" if "0 < n" for n
      using 1 that Cons by (cases n) auto
    have d: "n \<le> Suc (length xs') \<Longrightarrow> drop n (x # xs' @ [b]) = drop n xs @ [b]" for n
      using Cons by (cases n) auto
    show ?thesis
    proof (cases "utf8_next x (xs' @ [b])")
      case (Valid c n)
      then show ?thesis
        using utf8_next_ascii_end [OF 1(2), of xs' x] utf8_next_bounds(1) [OF Valid] d [of n] IH [of n] Cons
        by (auto split: prod.splits)
    next
      case (Invalid n)
      then show ?thesis
        using utf8_next_ascii_end [OF 1(2), of xs' x] utf8_next_bounds(2) [OF Invalid] d [of n] IH [of n] Cons
        by (auto split: prod.splits)
    qed (use utf8_next_ascii_end [OF 1(2), of xs' x] in simp)
  qed
qed

lemma of_char_ascii: "of_char c < (128 :: nat) \<Longrightarrow> (of_char c :: u8) < 0x80 \<and> unat (of_char c :: u8) = of_char c"
proof -
  assume a: "of_char c < (128 :: nat)"
  have "unat (of_char c :: u8) = of_char c"
  proof -
    have "(of_char c :: u8) = of_nat (of_char c)"
      by (simp only: of_nat_of_char)
    then have "unat (of_char c :: u8) = of_char c mod 256" by (simp only: unat_of_nat) simp
    with a show ?thesis by simp
  qed
  with a show ?thesis by (simp add: word_less_nat_alt)
qed

lemma str_chars_ascii_end:
  "of_char c < (128 :: nat) \<Longrightarrow> \<exists>cs. str_chars (s @ [c]) = cs @ [of_char c]"
  using utf8_lossy_ascii_end [of "of_char c" "map of_char s"] of_char_ascii [of c]
  by (auto simp: str_chars_def text_bytes_def from_utf8_lossy_def)

text \<open>
  The matches of a pattern: every reported index is an occurrence, and an occurrence that is
  not reported overlaps a reported one that begins before it.
\<close>

lemma match_from_sound:
  "pat \<noteq> [] \<Longrightarrow> q \<in> set (match_from pos s pat) \<Longrightarrow> \<exists>k. q = pos + k \<and> starts_with (drop k s) pat"
proof (induction pos s pat rule: match_from.induct)
  case (1 pos s pat)
  show ?case
  proof (cases s)
    case Nil
    then show ?thesis using 1(4,5) by (simp add: match_from.simps [of pos "[]"])
  next
    case (Cons c cs)
    show ?thesis
    proof (cases "strip_prefix pat s")
      case None
      then have "q \<in> set (match_from (Suc pos) cs pat)"
        using 1(4,5) Cons by (simp add: match_from_step)
      from 1(2) [OF Cons 1(4) None 1(4) this] obtain k
        where "q = Suc pos + k" "starts_with (drop k cs) pat" by blast
      then show ?thesis using Cons by (intro exI [of _ "Suc k"]) simp
    next
      case (Some rest)
      then have s: "s = pat @ rest" by (simp add: strip_prefix_iff)
      have "q = pos \<or> q \<in> set (match_from (pos + length pat) rest pat)"
        using 1(4,5) Cons Some by (simp add: match_from_step)
      then show ?thesis
      proof
        assume "q = pos"
        then show ?thesis using s by (intro exI [of _ 0]) (simp add: starts_with_iff)
      next
        assume "q \<in> set (match_from (pos + length pat) rest pat)"
        from 1(3) [OF Cons 1(4) Some 1(4) this] obtain k
          where "q = pos + length pat + k" "starts_with (drop k rest) pat" by blast
        then show ?thesis using s by (intro exI [of _ "length pat + k"]) simp
      qed
    qed
  qed
qed

lemma match_from_complete:
  "pat \<noteq> [] \<Longrightarrow> starts_with (drop k s) pat \<Longrightarrow>
   pos + k \<in> set (match_from pos s pat)
   \<or> (\<exists>m < k. k < m + length pat \<and> starts_with (drop m s) pat)"
proof (induction pos s pat arbitrary: k rule: match_from.induct)
  case (1 pos s pat)
  obtain c cs where Cons: "s = c # cs"
    using 1(4,5) by (cases s) (auto simp: starts_with_iff)
  show ?case
  proof (cases "strip_prefix pat s")
    case None
    then obtain k' where k: "k = Suc k'"
      using 1(5) by (cases k) (auto simp: starts_with_def)
    have m: "match_from pos s pat = match_from (Suc pos) cs pat"
      using 1(4) Cons None by (simp add: match_from_step)
    from 1(2) [OF Cons 1(4) None 1(4), of k'] 1(5) Cons k
    have "Suc pos + k' \<in> set (match_from (Suc pos) cs pat)
        \<or> (\<exists>m < k'. k' < m + length pat \<and> starts_with (drop m cs) pat)" by simp
    then show ?thesis
    proof (elim disjE exE conjE)
      fix n assume "n < k'" "k' < n + length pat" "starts_with (drop n cs) pat"
      then show ?thesis using Cons k by (intro disjI2 exI [of _ "Suc n"]) simp
    qed (simp add: m k)
  next
    case (Some rest)
    then have s: "s = pat @ rest" by (simp add: strip_prefix_iff)
    have m: "match_from pos s pat = pos # match_from (pos + length pat) rest pat"
      using 1(4) Cons Some by (simp add: match_from_step)
    show ?thesis
    proof (cases "k < length pat")
      case True
      then show ?thesis using m s
        by (cases k) (auto intro!: exI [of _ 0] simp: starts_with_iff)
    next
      case False
      define k' where "k' = k - length pat"
      have k: "k = length pat + k'" using False by (simp add: k'_def)
      from 1(3) [OF Cons 1(4) Some 1(4), of k'] 1(5) s k
      have "pos + length pat + k' \<in> set (match_from (pos + length pat) rest pat)
          \<or> (\<exists>m < k'. k' < m + length pat \<and> starts_with (drop m rest) pat)" by simp
      then show ?thesis
      proof (elim disjE exE conjE)
        fix n assume "n < k'" "k' < n + length pat" "starts_with (drop n rest) pat"
        then show ?thesis using s k by (intro disjI2 exI [of _ "length pat + n"]) simp
      qed (simp add: m k add.assoc)
    qed
  qed
qed

text \<open>An occurrence that overlaps an earlier one follows an identifier character.\<close>

lemma overlapping_not_bounded:
  assumes ascii: "\<forall>c\<in>set identifier. of_char c < (128 :: nat) \<and> is_identifier_continue env (of_char c)"
    and m: "m < k" "k < m + length identifier" "starts_with (drop m content) identifier"
  shows "\<not> identifier_bounded env content k e"
proof -
  obtain ys where ys: "drop m content = identifier @ ys" using m(3) by (auto simp: starts_with_iff)
  have len: "m + length identifier \<le> length content"
    using arg_cong [OF ys, of length] m by simp
  have nth: "content ! (k - 1) = identifier ! (k - 1 - m)"
  proof -
    have "content ! (k - 1) = drop m content ! (k - 1 - m)" using m len by simp
    moreover have "k - 1 - m < length identifier" using m by linarith
    ultimately show ?thesis using ys by (simp only: nth_append if_True)
  qed
  have "k \<le> length content" "0 < k" using m len by simp_all
  then have t: "take k content = take (k - 1) content @ [content ! (k - 1)]"
    by (metis Suc_diff_1 Suc_le_lessD take_Suc_conv_app_nth)
  have "identifier ! (k - 1 - m) \<in> set identifier" using m by (intro nth_mem) linarith
  with ascii nth have c: "of_char (content ! (k - 1)) < (128 :: nat)"
    "is_identifier_continue env (of_char (content ! (k - 1)))" by simp_all
  from str_chars_ascii_end [OF c(1), of "take (k - 1) content"] c(2) t
  show ?thesis by (auto simp: identifier_bounded_def)
qed

lemma lexical_starts:
  "map io_start_byte (lexical_identifier_occurrences env content identifier)
     = filter (\<lambda>i. identifier_bounded env content i (i + length identifier)) (match_indices content identifier)"
proof -
  have "map io_start_byte (lexical_identifier_occurrences env content identifier)
      = map (\<lambda>i. i) (filter (\<lambda>i. identifier_bounded env content i (i + length identifier))
          (match_indices content identifier))"
    unfolding lexical_identifier_occurrences_def Let_def map_map
    by (rule map_cong [OF refl]) (simp add: split: prod.splits)
  then show ?thesis by simp
qed

lemma enrich_start [simp]: "io_start_byte (enrich syntax occ) = io_start_byte occ"
  by (simp add: enrich_def split: option.splits)

text \<open>Tree-sitter only adds to what the scan found.\<close>

lemma enriched_starts:
  "map io_start_byte (identifier_occurrences_with_symbols env path content name symbols)
     = (if trim name = [] then [] else map io_start_byte (lexical_identifier_occurrences env content (trim name)))"
  by (simp add: identifier_occurrences_with_symbols_def Let_def comp_def)

text \<open>C31. The identifier scan is complete and exact whatever the parser answers. For an
  identifier of ASCII identifier characters, the reported occurrences are exactly the bytes
  where the identifier stands in the file and neither the character before it nor the one
  after it continues an identifier: the non-overlapping scan misses none, and Tree-sitter,
  the symbols and the ranges it parses neither add nor filter one.\<close>

theorem occurrences_complete:
  assumes "\<forall>c\<in>set (trim name). of_char c < (128 :: nat) \<and> is_identifier_continue env (of_char c)"
    and "trim name \<noteq> []"
  shows "io_start_byte ` set (identifier_occurrences_with_symbols env path content name symbols)
     = {i. starts_with (drop i content) (trim name)
           \<and> identifier_bounded env content i (i + length (trim name))}"
proof -
  have "i \<in> set (match_indices content (trim name))"
    if "starts_with (drop i content) (trim name)"
      "identifier_bounded env content i (i + length (trim name))" for i
    using match_from_complete [OF assms(2) that(1), of 0] that(2)
      overlapping_not_bounded [OF assms(1), of _ i content "i + length (trim name)"]
    by (auto simp: match_indices_def)
  moreover have "starts_with (drop i content) (trim name)"
    if "i \<in> set (match_indices content (trim name))" for i
    using match_from_sound [OF assms(2) that [unfolded match_indices_def]] by auto
  ultimately have "set (filter (\<lambda>i. identifier_bounded env content i (i + length (trim name)))
        (match_indices content (trim name)))
      = {i. starts_with (drop i content) (trim name)
            \<and> identifier_bounded env content i (i + length (trim name))}" by auto
  then show ?thesis
    using enriched_starts [of env path content name symbols] assms(2) lexical_starts [of env content "trim name"]
    by (metis (no_types, lifting) image_set)
qed

definition sample_symbol_env :: symbol_env where
  "sample_symbol_env = \<lparr>yp_parse = (\<lambda>_ _. None), yp_alnum = (\<lambda>c. 97 \<le> c \<and> c \<le> 122)\<rparr>"

theorem occurrences_complete_witness:
  "io_start_byte ` set (identifier_occurrences_with_symbols sample_symbol_env ''m.rs'' ''ab cab;ab'' '' ab '' [])
     = {i. starts_with (drop i ''ab cab;ab'') ''ab''
           \<and> identifier_bounded sample_symbol_env ''ab cab;ab'' i (i + 2)}"
proof -
  have t: "trim '' ab '' = ''ab''"
    using trim_start_white [of "CHR '' ''" "''ab ''"] trim_end_white [of "CHR '' ''" "''ab''"]
    by (simp add: trim_def trim_ends_id printable_def)
  show ?thesis
    using occurrences_complete [of "'' ab ''" sample_symbol_env "''m.rs''" "''ab cab;ab''" "[]"]
    by (simp add: t is_identifier_continue_def sample_symbol_env_def)
qed

end
