(* ===== verification/Lsp_Uri.thy ===== *)
theory Lsp_Uri
  imports Symbols
begin

text \<open>
  The \<open>file://\<close> URI codec of the language servers (\<open>src/intelligence/uri.rs\<close>): from a
  workspace path to a document URI and back. Paths are their UTF-8 text; the branches under
  \<open>cfg!(windows)\<close> are left out. The canonical form of the root is an argument.
\<close>

section \<open>Path text\<close>

definition slash :: char where "slash = CHR ''/''"

fun drop_trailing :: "string \<Rightarrow> string" where
  "drop_trailing (c # d # cs) = (if c = slash then drop_trailing (d # cs) else c # d # cs)"
| "drop_trailing cs = cs"

text \<open>No trailing separator, except in the root itself.\<close>

definition trim_separators :: "string \<Rightarrow> string" where
  "trim_separators s = rev (drop_trailing (rev s))"

definition comparable_text :: "string \<Rightarrow> string" where
  "comparable_text raw =
     trim_separators
       (case strip_prefix (''//'' @ [CHR 0x3F] @ ''/UNC/'') raw of
          Some rest \<Rightarrow> ''//'' @ rest
        | None \<Rightarrow> (case strip_prefix (''//'' @ [CHR 0x3F] @ ''/'') raw of Some rest \<Rightarrow> rest | None \<Rightarrow> raw))"

definition strip_root :: "string \<Rightarrow> string \<Rightarrow> string option" where
  "strip_root path root =
     (case strip_prefix root path of
        None \<Rightarrow> None
      | Some [] \<Rightarrow> Some []
      | Some rest \<Rightarrow> strip_prefix [slash] rest)"

section \<open>Percent encoding\<close>

definition upper_hex :: "nat \<Rightarrow> char" where
  "upper_hex d = (if d < 10 then char_of (48 + d) else char_of (55 + d))"

definition ascii_alphanumeric :: "char \<Rightarrow> bool" where
  "ascii_alphanumeric c \<longleftrightarrow>
     (let n = (of_char c :: nat) in 48 \<le> n \<and> n \<le> 57 \<or> 65 \<le> n \<and> n \<le> 90 \<or> 97 \<le> n \<and> n \<le> 122)"

definition plain_byte :: "bool \<Rightarrow> char \<Rightarrow> bool" where
  "plain_byte preserve c \<longleftrightarrow>
     ascii_alphanumeric c \<or> c \<in> {CHR ''-'', CHR ''.'', CHR ''_'', CHR 0x7E}
     \<or> preserve \<and> c \<in> {slash, CHR '':''}"

definition percent_byte :: "bool \<Rightarrow> char \<Rightarrow> string" where
  "percent_byte preserve c =
     (if plain_byte preserve c then [c]
      else [CHR 0x25, upper_hex (of_char c div 16), upper_hex (of_char c mod 16)])"

definition percent_encode :: "string \<Rightarrow> bool \<Rightarrow> string" where
  "percent_encode v preserve = concat (map (percent_byte preserve) v)"

definition hex_value :: "char \<Rightarrow> nat option" where
  "hex_value c =
     (let n = (of_char c :: nat)
      in if 48 \<le> n \<and> n \<le> 57 then Some (n - 48)
         else if 65 \<le> n \<and> n \<le> 70 then Some (n - 55)
         else if 97 \<le> n \<and> n \<le> 102 then Some (n - 87)
         else None)"

text \<open>\<open>u8::from_str_radix(pair, 16)\<close> on two bytes: a leading \<open>+\<close> is a sign.\<close>

definition radix_pair :: "char \<Rightarrow> char \<Rightarrow> nat option" where
  "radix_pair a b =
     (if a = CHR ''+'' then hex_value b
      else case (hex_value a, hex_value b) of (Some x, Some y) \<Rightarrow> Some (16 * x + y) | _ \<Rightarrow> None)"

definition invalid_uri :: "string \<Rightarrow> app_error" where
  "invalid_uri message = error_new InvalidLspUri message"

text \<open>A pair of bytes that is not text by itself counts as incomplete.\<close>

fun percent_loop :: "string \<Rightarrow> app_error + string" where
  "percent_loop [] = Inr []"
| "percent_loop (c # cs) =
     (if c = CHR 0x25
      then (case cs of
              a # b # rest \<Rightarrow>
                (case from_utf8 (text_bytes [a, b]) of
                   Inl _ \<Rightarrow> Inl (invalid_uri ''LSP file URI contains an incomplete percent escape'')
                 | Inr _ \<Rightarrow>
                     (case radix_pair a b of
                        None \<Rightarrow> Inl (invalid_uri ''LSP file URI contains an invalid percent escape'')
                      | Some n \<Rightarrow> map_sum id ((#) (char_of n)) (percent_loop rest)))
            | _ \<Rightarrow> Inl (invalid_uri ''LSP file URI contains an incomplete percent escape''))
      else map_sum id ((#) c) (percent_loop cs))"

definition percent_decode :: "string \<Rightarrow> app_error + string" where
  "percent_decode v =
     (case percent_loop v of
        Inl e \<Rightarrow> Inl e
      | Inr bytes \<Rightarrow>
          (case from_utf8 (text_bytes bytes) of
             Inl _ \<Rightarrow> Inl (invalid_uri ''LSP file URI is not valid UTF-8'')
           | Inr _ \<Rightarrow> Inr bytes))"

section \<open>URIs\<close>

text \<open>\<open>split_once('/')\<close>\<close>

definition split_slash :: "string \<Rightarrow> (string \<times> string) option" where
  "split_slash s =
     (if slash \<in> set s then Some (takeWhile (\<lambda>c. c \<noteq> slash) s, drop 1 (dropWhile (\<lambda>c. c \<noteq> slash) s)) else None)"

definition path_uri :: "string \<Rightarrow> string" where
  "path_uri path =
     (let raw = comparable_text path
      in case strip_prefix ''//'' raw of
           Some unc \<Rightarrow>
             (case (case split_slash unc of None \<Rightarrow> (unc, []) | Some p \<Rightarrow> p) of (authority, rest) \<Rightarrow>
                ''file://'' @ percent_encode authority False @ ''/'' @ percent_encode rest True)
         | None \<Rightarrow> ''file:///'' @ percent_encode (dropWhile (\<lambda>c. c = slash) raw) True)"

definition decode_file_uri :: "string \<Rightarrow> app_error + string" where
  "decode_file_uri uri =
     (case strip_prefix ''file://'' uri of
        None \<Rightarrow> Inl (error_new UnsupportedLspUri ''LSP returned a non-file URI'')
      | Some raw \<Rightarrow>
          let authority0 = takeWhile (\<lambda>c. c \<noteq> slash) raw; path0 = dropWhile (\<lambda>c. c \<noteq> slash) raw
          in (case percent_decode path0 of
                Inl e \<Rightarrow> Inl e
              | Inr path \<Rightarrow>
                  (case percent_decode authority0 of
                     Inl e \<Rightarrow> Inl e
                   | Inr authority \<Rightarrow>
                       if authority \<noteq> [] \<and> ascii_lower authority \<noteq> ''localhost''
                       then Inl (error_new UnsupportedLspUri ''LSP returned a file URI with a remote authority'')
                       else Inr path)))"

record uri_codec =
  uc_root :: string
  uc_prefixes :: "string list"

definition uri_codec_new :: "string \<Rightarrow> string option \<Rightarrow> uri_codec" where
  "uri_codec_new root canonical =
     (let prefixes = [comparable_text root]
      in \<lparr>uc_root = root,
          uc_prefixes = (case map_option comparable_text canonical of
             None \<Rightarrow> prefixes
           | Some c \<Rightarrow> if c \<in> set prefixes then prefixes else prefixes @ [c])\<rparr>)"

text \<open>\<open>Path::join\<close>\<close>

definition path_join :: "string \<Rightarrow> string \<Rightarrow> string" where
  "path_join root relative =
     (if starts_with relative ''/'' then relative
      else if root = [] \<or> ends_with root ''/'' then root @ relative
      else root @ ''/'' @ relative)"

definition root_uri :: "uri_codec \<Rightarrow> string" where
  "root_uri uc = path_uri (uc_root uc)"

definition document_uri :: "uri_codec \<Rightarrow> string \<Rightarrow> string" where
  "document_uri uc relative = path_uri (path_join (uc_root uc) relative)"

definition lsp_outside_root :: app_error where
  "lsp_outside_root = error_new OutsideRoot ''LSP result is outside the workspace''"

fun find_map :: "('a \<Rightarrow> 'b option) \<Rightarrow> 'a list \<Rightarrow> 'b option" where
  "find_map f [] = None"
| "find_map f (x # xs) = (case f x of Some y \<Rightarrow> Some y | None \<Rightarrow> find_map f xs)"

definition uri_relative :: "uri_codec \<Rightarrow> string \<Rightarrow> app_error + string" where
  "uri_relative uc uri =
     (case decode_file_uri uri of
        Inl e \<Rightarrow> Inl e
      | Inr path \<Rightarrow>
          (case find_map (strip_root (comparable_text path)) (uc_prefixes uc) of
             None \<Rightarrow> Inl lsp_outside_root
           | Some remainder \<Rightarrow>
               if remainder = []
               then Inl (invalid_uri ''LSP URI names the workspace root, not a file'')
               else if \<exists>s \<in> set (split_on slash remainder). s \<in> {[], ''.'', ''..''}
               then Inl lsp_outside_root
               else Inr remainder))"

section \<open>Escapes decode to what they encode\<close>

definition utf8_valid :: "string \<Rightarrow> bool" where
  "utf8_valid s \<longleftrightarrow> (\<exists>cs. from_utf8 (text_bytes s) = Inr cs)"

lemma utf8_valid_ascii: "list_all (\<lambda>c. of_char c < (128 :: nat)) s \<Longrightarrow> utf8_valid s"
proof (induction s)
  case (Cons c s)
  then obtain cs where "from_utf8 (text_bytes s) = Inr cs" by (auto simp: utf8_valid_def)
  with Cons.prems of_char_ascii [of c] show ?case
    by (simp add: utf8_valid_def text_bytes_def utf8_next_ascii)
qed (simp add: utf8_valid_def text_bytes_def)

lemma upper_hex_value:
  assumes "d < 16"
  shows "hex_value (upper_hex d) = Some d" "upper_hex d \<noteq> CHR ''+''" "of_char (upper_hex d) < (128 :: nat)"
proof -
  have n: "(of_char (upper_hex d) :: nat) = (if d < 10 then 48 + d else 55 + d)"
    using assms by (simp add: upper_hex_def of_char_of take_bit_nat_eq_self)
  show "hex_value (upper_hex d) = Some d" "of_char (upper_hex d) < (128 :: nat)"
    using n assms by (auto simp: hex_value_def Let_def)
  show "upper_hex d \<noteq> CHR ''+''"
  proof
    assume "upper_hex d = CHR ''+''"
    then have "(of_char (upper_hex d) :: nat) = 43" by simp
    with n show False by (simp split: if_splits)
  qed
qed

lemma ascii_pair_text:
  assumes "of_char a < (128 :: nat)" "of_char b < (128 :: nat)"
  shows "from_utf8 (text_bytes [a, b]) = Inr [of_char a, of_char b]"
  using of_char_ascii [OF assms(1)] of_char_ascii [OF assms(2)]
  by (simp add: text_bytes_def utf8_next_ascii)

lemma percent_escape: "radix_pair (upper_hex (of_char c div 16)) (upper_hex (of_char c mod 16)) = Some (of_char c)"
  and percent_escape_text:
    "\<exists>cs. from_utf8 (text_bytes [upper_hex (of_char c div 16), upper_hex (of_char c mod 16)]) = Inr cs"
proof -
  have "(of_char c :: nat) < 16 * 16" by simp
  then have d: "of_char c div 16 < (16 :: nat)" "of_char c mod 16 < (16 :: nat)"
    using less_mult_imp_div_less by (blast, simp)
  show "radix_pair (upper_hex (of_char c div 16)) (upper_hex (of_char c mod 16)) = Some (of_char c)"
    using upper_hex_value [OF d(1)] upper_hex_value [OF d(2)] by (simp add: radix_pair_def)
  show "\<exists>cs. from_utf8 (text_bytes [upper_hex (of_char c div 16), upper_hex (of_char c mod 16)]) = Inr cs"
    using ascii_pair_text upper_hex_value(3) d by blast
qed

lemma plain_not_percent: "plain_byte preserve c \<Longrightarrow> c \<noteq> CHR 0x25"
  by (auto simp: plain_byte_def ascii_alphanumeric_def slash_def Let_def)

lemma percent_loop_encode:
  "percent_loop (percent_encode s preserve @ t) = map_sum id ((@) s) (percent_loop t)"
proof (induction s)
  case Nil
  then show ?case by (cases "percent_loop t") (simp_all add: percent_encode_def)
next
  case (Cons c s)
  have e: "percent_encode (c # s) preserve = percent_byte preserve c @ percent_encode s preserve"
    by (simp add: percent_encode_def)
  obtain cs where "from_utf8 (text_bytes [upper_hex (of_char c div 16), upper_hex (of_char c mod 16)]) = Inr cs"
    using percent_escape_text by blast
  then have "percent_loop (percent_byte preserve c @ u) = map_sum id ((#) c) (percent_loop u)" for u
    using plain_not_percent [of preserve c] percent_escape [of c]
    by (auto simp: percent_byte_def char_of_char)
  then show ?case using Cons e by (cases "percent_loop t") simp_all
qed

lemma percent_decode_encode: "utf8_valid (p @ s) \<Longrightarrow> \<forall>c \<in> set p. c \<noteq> CHR 0x25 \<Longrightarrow>
    percent_decode (p @ percent_encode s preserve) = Inr (p @ s)"
proof -
  assume v: "utf8_valid (p @ s)" and p: "\<forall>c \<in> set p. c \<noteq> CHR 0x25"
  have "percent_loop (p @ percent_encode s preserve) = Inr (p @ s)"
    using p percent_loop_encode [of s preserve "[]"] by (induction p) simp_all
  with v show ?thesis by (auto simp: percent_decode_def utf8_valid_def)
qed

section \<open>Paths inside the root\<close>

text \<open>A relative path without empty, current or parent segments.\<close>

definition segments_ok :: "string \<Rightarrow> bool" where
  "segments_ok r \<longleftrightarrow> (\<forall>s \<in> set (split_on slash r). s \<notin> {[], ''.'', ''..''})"

text \<open>An absolute root in its comparable form: not the file system's root, not a network path.\<close>

definition root_ok :: "string \<Rightarrow> bool" where
  "root_ok root \<longleftrightarrow> comparable_text root = root \<and> (\<exists>c r. root = slash # c # r \<and> c \<noteq> slash)"

lemma segments_ok_ends:
  assumes "segments_ok r"
  shows "r \<noteq> []" "hd r \<noteq> slash" "last r \<noteq> slash"
proof -
  have e: "[] \<notin> set (split_on slash r)" using assms by (auto simp: segments_ok_def)
  then show ne: "r \<noteq> []" by auto
  show "hd r \<noteq> slash" using e ne by (cases r) auto
  show "last r \<noteq> slash"
  proof
    assume "last r = slash"
    then have "r = butlast r @ slash # []" using ne by (metis append_butlast_last_id)
    then have "split_on slash r = split_on slash (butlast r) @ [[]]"
      using split_on_append [of slash "butlast r" "[]"] by simp
    then show False using e by simp
  qed
qed

lemma drop_trailing_id: "s \<noteq> [] \<Longrightarrow> hd s \<noteq> slash \<Longrightarrow> drop_trailing s = s"
  by (cases s rule: drop_trailing.cases) auto

lemma length_drop_trailing: "length (drop_trailing s) \<le> length s"
  by (induction s rule: drop_trailing.induct) auto

lemma trim_separators_id: "s \<noteq> [] \<Longrightarrow> last s \<noteq> slash \<Longrightarrow> trim_separators s = s"
  using drop_trailing_id [of "rev s"] by (simp add: trim_separators_def hd_rev)

lemma trim_separators_last: "trim_separators (c # d # s) = c # d # s \<Longrightarrow> last (d # s) \<noteq> slash"
proof
  assume t: "trim_separators (c # d # s) = c # d # s" and l: "last (d # s) = slash"
  define u where "u = rev (c # d # s)"
  obtain x y v where u: "u = x # y # v"
    unfolding u_def by (cases "rev s") (auto, metis append_Cons append_Nil neq_Nil_conv)
  have "x = slash" using l u u_def by (metis hd_rev last_ConsR list.discI list.sel(1))
  then have "length (drop_trailing u) < length u"
    using length_drop_trailing [of "y # v"] u by simp
  moreover have "length (drop_trailing u) = length u"
    using t by (metis length_rev trim_separators_def u_def)
  ultimately show False by simp
qed

lemma comparable_document:
  assumes "root = slash # c # r" "c \<noteq> slash" "segments_ok rel"
  shows "comparable_text (root @ ''/'' @ rel) = root @ ''/'' @ rel"
proof -
  have "strip_prefix (''//'' @ x) (root @ ''/'' @ rel) = None" for x
    using assms(1,2) by (simp add: slash_def)
  then have "comparable_text (root @ ''/'' @ rel) = trim_separators (root @ ''/'' @ rel)"
    by (simp add: comparable_text_def)
  then show ?thesis using segments_ok_ends [OF assms(3)] by (simp add: trim_separators_id)
qed

lemma find_map_Some: "find_map f xs = Some y \<Longrightarrow> \<exists>x \<in> set xs. f x = Some y"
  by (induction xs) (auto split: option.splits)

section \<open>Properties\<close>

text \<open>C33. A document URI decodes to the path it was made from: for an absolute root in its
  comparable form and a relative path without empty, current or parent segments, whatever its
  characters, the URI the language server is given leads back to that path.\<close>

theorem document_uri_roundtrip:
  assumes "root_ok root" "segments_ok rel" "utf8_valid (root @ ''/'' @ rel)"
  shows "uri_relative (uri_codec_new root canonical) (document_uri (uri_codec_new root canonical) rel) = Inr rel"
proof -
  from assms(1) obtain c r where root: "root = slash # c # r" "c \<noteq> slash" "comparable_text root = root"
    by (auto simp: root_ok_def)
  have "last (c # r) \<noteq> slash"
    using root by (intro trim_separators_last [of slash]) (simp add: comparable_text_def slash_def)
  then have "last root \<noteq> slash" using root(1) by simp
  then have "\<not> ends_with root ''/''" unfolding ends_with_iff slash_def [symmetric] by (metis last_snoc)
  moreover have "\<not> starts_with rel ''/''"
    using segments_ok_ends [OF assms(2)] by (auto simp: starts_with_iff slash_def)
  ultimately have "path_join root rel = root @ ''/'' @ rel"
    using root(1) by (simp add: path_join_def)
  moreover note comparable_document [OF root(1,2) assms(2)]
  ultimately have u: "document_uri (uri_codec_new root canonical) rel
      = ''file:///'' @ percent_encode (c # r @ ''/'' @ rel) True"
    using root(1,2) by (simp add: document_uri_def path_uri_def uri_codec_new_def Let_def slash_def)
  have "percent_decode ([slash] @ percent_encode (c # r @ ''/'' @ rel) True) = Inr (root @ ''/'' @ rel)"
    using percent_decode_encode [of "[slash]" "c # r @ ''/'' @ rel" True] assms(3) root(1) by (simp add: slash_def)
  then have d: "decode_file_uri (''file:///'' @ percent_encode (c # r @ ''/'' @ rel) True) = Inr (root @ ''/'' @ rel)"
    by (simp add: decode_file_uri_def slash_def percent_decode_def text_bytes_def)
  have "strip_root (root @ ''/'' @ rel) root = Some rel"
    using strip_prefix_append [of root "''/'' @ rel"] by (simp add: strip_root_def slash_def)
  then show ?thesis
    using comparable_document [OF root(1,2) assms(2)] assms(2) segments_ok_ends(1) [OF assms(2)] root(3)
    unfolding uri_relative_def u d
    by (auto simp: uri_codec_new_def Let_def segments_ok_def split: option.splits)
qed

theorem document_uri_roundtrip_witness:
  "uri_relative (uri_codec_new ''/w'' None) (document_uri (uri_codec_new ''/w'' None) ''a b/c.rs'') = Inr ''a b/c.rs''"
proof (rule document_uri_roundtrip)
  show "root_ok ''/w''" by (simp add: root_ok_def comparable_text_def trim_separators_def slash_def)
  show "segments_ok ''a b/c.rs''" by (simp add: segments_ok_def slash_def)
  show "utf8_valid (''/w'' @ ''/'' @ ''a b/c.rs'')" by (rule utf8_valid_ascii) simp
qed

text \<open>A URI from a language server never leaves the workspace: when one is accepted, its
  decoded path is a form of the root, a separator and the relative path, which has no empty,
  current or parent segment.\<close>

theorem accepted_uri_stays_below:
  assumes "uri_relative uc uri = Inr r"
  shows "segments_ok r \<and> r \<noteq> []
    \<and> (\<exists>path. decode_file_uri uri = Inr path \<and> (\<exists>root \<in> set (uc_prefixes uc). comparable_text path = root @ slash # r))"
proof -
  from assms obtain path where p: "decode_file_uri uri = Inr path"
    and f: "find_map (strip_root (comparable_text path)) (uc_prefixes uc) = Some r" and r: "r \<noteq> []" "segments_ok r"
    by (auto simp: uri_relative_def segments_ok_def split: sum.splits option.splits if_splits)
  from f obtain root where root: "root \<in> set (uc_prefixes uc)" "strip_root (comparable_text path) root = Some r"
    using find_map_Some [OF f] by blast
  then have "comparable_text path = root @ slash # r"
    using r(1) by (auto simp: strip_root_def strip_prefix_iff split: option.splits list.splits if_splits)
  with p r root(1) show ?thesis by blast
qed

theorem accepted_uri_stays_below_witness:
  "uri_relative (uri_codec_new ''/w'' None) ''file:///w/a%20b'' = Inr ''a b'' \<and> segments_ok ''a b''"
proof -
  have "percent_loop ''/w/a%20b'' = Inr ''/w/a b''"
    by (simp add: text_bytes_def radix_pair_def hex_value_def utf8_next_def utf8_char_width_def char_of_def bit_Suc_0_iff)
  then have u: "uri_relative (uri_codec_new ''/w'' None) ''file:///w/a%20b'' = Inr ''a b''"
    by (simp add: uri_relative_def decode_file_uri_def slash_def percent_decode_def text_bytes_def
        utf8_next_def utf8_char_width_def uri_codec_new_def comparable_text_def trim_separators_def strip_root_def)
  with accepted_uri_stays_below [OF u] show ?thesis by blast
qed

end
