(* ===== verification/Reference_Search.thy ===== *)
theory Reference_Search
  imports Index_Search Symbols "HOL-Library.Option_ord" "HOL-Library.Multiset"
begin

text \<open>
  Reference search (\<open>src/reference_service/mod.rs\<close>): the selection of one declaration, the
  lexical search of every file in scope for its name, and the shaping of language-server
  locations into the same response, whose constant fields \<open>mode\<close>, \<open>operation\<close> and
  \<open>definition_count\<close> are left out. Scores are kept in hundredths. The parser is the
  \<open>symbol_env\<close> of the occurrences, the payload of a handle the \<open>search_env\<close>.
\<close>

section \<open>Vocabulary\<close>

definition occurrences_per_window :: nat where "occurrences_per_window = 3"
definition windows_per_file :: nat where "windows_per_file = 3"

datatype reference_scope = ScopeAll | ScopeProduction | ScopeTests

definition reference_scope_all :: "reference_scope list" where
  "reference_scope_all = [ScopeAll, ScopeProduction, ScopeTests]"

fun reference_scope_as_str :: "reference_scope \<Rightarrow> string" where
  "reference_scope_as_str ScopeAll = ''all''"
| "reference_scope_as_str ScopeProduction = ''production''"
| "reference_scope_as_str ScopeTests = ''tests''"

definition reference_scope_parse :: "string \<Rightarrow> reference_scope option" where
  "reference_scope_parse v = find (\<lambda>s. reference_scope_as_str s = v) reference_scope_all"

fun scope_allows :: "reference_scope \<Rightarrow> file_entry \<Rightarrow> bool" where
  "scope_allows ScopeAll f = True"
| "scope_allows ScopeTests f = (fe_document_type f = Test)"
| "scope_allows ScopeProduction f =
     (fe_document_type f = Source \<and> \<not> starts_with (fe_path f) ''docs/''
      \<and> \<not> starts_with (fe_path f) ''examples/'')"

datatype freshness = Current

datatype reference_backend = SemanticBackend | FallbackBackend

datatype reference_match_type = ReferenceMatch | DeclarationMatch

record reference_query =
  rq_symbol :: string
  rq_scope :: reference_scope
  rq_kinds :: "reference_kind list"
  rq_definition_path :: "string option"
  rq_definition_line :: "nat option"
  rq_context_lines :: nat

record reference_position =
  rp_line :: nat
  rp_column :: nat
  rp_byte :: "nat option"

record reference_range =
  rr_start :: reference_position
  rr_end :: reference_position

record reference_target =
  rt_name :: string
  rt_path :: string
  rt_range :: reference_range
  rt_kind :: string
  rt_qualified_name :: "string option"

record reference_occurrence =
  ro_range :: reference_range
  ro_role :: reference_kind
  ro_evidence :: evidence
  ro_enclosing_symbol :: "string option"

record reference_location =
  rl_path :: string
  rl_line :: nat
  rl_start_line :: nat
  rl_end_line :: nat
  rl_range :: reference_range
  rl_preview :: "string option"
  rl_handle :: "string option"
  rl_match_type :: reference_match_type
  rl_evidence :: evidence
  rl_classification_evidence :: evidence
  rl_freshness :: freshness
  rl_reference_kind :: reference_kind
  rl_role :: reference_kind
  rl_enclosing_symbol :: "string option"
  rl_occurrences :: "reference_occurrence list"
  rl_score :: nat
  rl_reason_codes :: "string list"

record scanned_scope =
  sc_file_count :: nat
  sc_byte_count :: nat

record reference_response =
  rf_symbol :: string
  rf_snapshot_id :: string
  rf_target :: reference_target
  rf_target_evidence :: evidence
  rf_backend :: reference_backend
  rf_freshness :: freshness
  rf_evidence :: evidence
  rf_evidence_caveat :: string
  rf_semantic :: bool
  rf_definitions :: "(string \<times> symbol) list"
  rf_reference_scope :: reference_scope
  rf_reference_kinds :: "reference_kind list"
  rf_scanned_scope :: "scanned_scope option"
  rf_occurrence_count :: nat
  rf_result_count :: nat
  rf_truncated :: bool
  rf_results :: "reference_location list"

record reference_target_selection =
  ts_target :: reference_target
  ts_symbol :: symbol
  ts_target_evidence :: evidence
  ts_declaration_occurrence :: "identifier_occurrence option"
  ts_selected_declaration :: "(nat \<times> nat) option"

record semantic_reference_location =
  sl_path :: string
  sl_range :: reference_range

record semantic_metadata =
  md_freshness :: freshness
  md_evidence_caveat :: string

definition fallback_caveat :: string where
  "fallback_caveat = ''Complete exact-identifier fallback scan; same-named unrelated identifiers may be included, while aliases and dynamic references may be missed.''"

section \<open>Ranges and priorities\<close>

definition occurrence_range :: "identifier_occurrence \<Rightarrow> reference_range" where
  "occurrence_range occ =
     \<lparr>rr_start = \<lparr>rp_line = io_start_line occ, rp_column = io_start_column occ, rp_byte = Some (io_start_byte occ)\<rparr>,
      rr_end = \<lparr>rp_line = io_end_line occ, rp_column = io_end_column occ, rp_byte = Some (io_end_byte occ)\<rparr>\<rparr>"

definition symbol_range :: "symbol \<Rightarrow> reference_range" where
  "symbol_range s =
     \<lparr>rr_start = \<lparr>rp_line = sy_start_line s, rp_column = 1, rp_byte = None\<rparr>,
      rr_end = \<lparr>rp_line = sy_end_line s, rp_column = 1, rp_byte = None\<rparr>\<rparr>"

fun kind_priority :: "reference_kind \<Rightarrow> nat" where
  "kind_priority RDeclaration = 0"
| "kind_priority RCall = 1"
| "kind_priority RWrite = 2"
| "kind_priority RType = 3"
| "kind_priority RImport = 4"
| "kind_priority RRead = 5"
| "kind_priority ROther = 6"

fun kind_score :: "reference_kind \<Rightarrow> nat" where
  "kind_score RDeclaration = 100"
| "kind_score RCall = 100"
| "kind_score RWrite = 90"
| "kind_score RType = 85"
| "kind_score RImport = 75"
| "kind_score RRead = 65"
| "kind_score ROther = 50"

definition reference_occurrence_of :: "identifier_occurrence \<Rightarrow> reference_occurrence" where
  "reference_occurrence_of occ =
     \<lparr>ro_range = occurrence_range occ, ro_role = io_role occ, ro_evidence = io_evidence occ,
      ro_enclosing_symbol = io_enclosing_symbol occ\<rparr>"

text \<open>The first hit of the highest priority; a window always has a hit.\<close>

definition leading_occurrence :: "identifier_occurrence window \<Rightarrow> identifier_occurrence" where
  "leading_occurrence w =
     (case min_by_key (\<lambda>occ. kind_priority (io_role occ)) (wi_hits w) of Some occ \<Rightarrow> occ | None \<Rightarrow> hd (wi_hits w))"

definition reference_handle :: "search_env \<Rightarrow> string \<Rightarrow> file_entry \<Rightarrow> nat \<Rightarrow> nat \<Rightarrow> string" where
  "reference_handle env workspace_id f start_line end_line =
     encode_handle (se_payload env)
       \<lparr>rh_workspace_id = workspace_id, rh_path = fe_path f, rh_start_line = start_line,
        rh_end_line = end_line, rh_content_hash = fe_hash f\<rparr>"

definition reference_location_of ::
    "search_env \<Rightarrow> string \<Rightarrow> file_entry \<Rightarrow> identifier_occurrence window \<Rightarrow> app_error + reference_location" where
  "reference_location_of env workspace_id f w =
     (let lead = leading_occurrence w; kind = io_role lead; occurrences = map reference_occurrence_of (wi_hits w)
      in Inr \<lparr>rl_path = fe_path f, rl_line = wi_line w, rl_start_line = wi_start_line w,
              rl_end_line = wi_end_line w, rl_range = ro_range (hd occurrences),
              rl_preview = Some (slice_lines (fe_content f) (wi_start_line w) (wi_end_line w)),
              rl_handle = Some (reference_handle env workspace_id f (wi_start_line w) (wi_end_line w)),
              rl_match_type = ReferenceMatch, rl_evidence = Lexical,
              rl_classification_evidence = io_evidence lead, rl_freshness = Current,
              rl_reference_kind = kind, rl_role = kind, rl_enclosing_symbol = io_enclosing_symbol lead,
              rl_occurrences = occurrences, rl_score = kind_score kind,
              rl_reason_codes = [reference_kind_as_str kind @ ''_reference'']\<rparr>)"

definition declaration_location ::
    "search_env \<Rightarrow> string \<Rightarrow> file_entry \<Rightarrow> symbol \<Rightarrow> identifier_occurrence option \<Rightarrow> reference_location" where
  "declaration_location env workspace_id f s occurrence =
     \<lparr>rl_path = fe_path f,
      rl_line = (case occurrence of None \<Rightarrow> sy_start_line s | Some occ \<Rightarrow> io_start_line occ),
      rl_start_line = sy_start_line s, rl_end_line = sy_end_line s,
      rl_range = (case occurrence of None \<Rightarrow> symbol_range s | Some occ \<Rightarrow> occurrence_range occ),
      rl_preview = Some (slice_lines (fe_content f) (sy_start_line s) (sy_end_line s)),
      rl_handle = Some (reference_handle env workspace_id f (sy_start_line s) (sy_end_line s)),
      rl_match_type = DeclarationMatch, rl_evidence = Syntactic, rl_classification_evidence = Syntactic,
      rl_freshness = Current, rl_reference_kind = RDeclaration, rl_role = RDeclaration,
      rl_enclosing_symbol = Option.bind occurrence io_enclosing_symbol,
      rl_occurrences = (case occurrence of None \<Rightarrow> [] | Some occ \<Rightarrow> [reference_occurrence_of occ]),
      rl_score = 100, rl_reason_codes = [''declaration_match'']\<rparr>"

section \<open>Selecting the declaration\<close>

definition symbol_json :: "symbol \<Rightarrow> json" where
  "symbol_json s =
     JObj [(''name'', JStr (sy_name s)), (''kind'', JStr (sy_kind s)),
           (''start_line'', JNum (int (sy_start_line s))), (''end_line'', JNum (int (sy_end_line s))),
           (''signature'', JStr (sy_signature s))]"

definition matching_definitions ::
    "code_index \<Rightarrow> string \<Rightarrow> string option \<Rightarrow> nat option \<Rightarrow> symbol_definition list" where
  "matching_definitions ci selector definition_path definition_line =
     sort_key (\<lambda>(path, s, _). (path, sy_start_line s, sy_end_line s))
       (filter (\<lambda>(_, s, _). case definition_line of None \<Rightarrow> True | Some line \<Rightarrow> line = sy_start_line s)
         (find_symbols ci definition_path selector))"

definition within_symbol :: "symbol \<Rightarrow> identifier_occurrence \<Rightarrow> bool" where
  "within_symbol s occ \<longleftrightarrow> sy_start_line s \<le> io_start_line occ \<and> io_start_line occ \<le> sy_end_line s"

text \<open>The first declaring occurrence inside the symbol, or its first occurrence there.\<close>

definition declaration_occurrence :: "symbol \<Rightarrow> identifier_occurrence list \<Rightarrow> identifier_occurrence option" where
  "declaration_occurrence s occurrences =
     (case find (\<lambda>occ. within_symbol s occ \<and> io_role occ = RDeclaration) occurrences of
        Some occ \<Rightarrow> Some occ
      | None \<Rightarrow> find (within_symbol s) occurrences)"

definition select_target ::
    "string \<Rightarrow> string \<Rightarrow> symbol \<Rightarrow> identifier_occurrence list \<Rightarrow> reference_target_selection" where
  "select_target selector path s occurrences =
     (let found = declaration_occurrence s occurrences
      in \<lparr>ts_target =
            \<lparr>rt_name = sy_name s, rt_path = path,
             rt_range = (case found of None \<Rightarrow> symbol_range s | Some occ \<Rightarrow> occurrence_range occ),
             rt_kind = sy_kind s,
             rt_qualified_name = (if selector \<noteq> sy_name s then Some selector else None)\<rparr>,
          ts_symbol = s,
          ts_target_evidence = (case found of None \<Rightarrow> Syntactic | Some occ \<Rightarrow> io_evidence occ),
          ts_declaration_occurrence = found,
          ts_selected_declaration = map_option (\<lambda>occ. (io_start_byte occ, io_end_byte occ)) found\<rparr>)"

definition resolve_symbol ::
    "symbol_env \<Rightarrow> code_index \<Rightarrow> string \<Rightarrow> string option \<Rightarrow> nat option
     \<Rightarrow> app_error + reference_target_selection" where
  "resolve_symbol senv ci selector0 definition_path definition_line =
     (let selector = trim selector0
      in if selector = [] then Inl (error_invalid ''query is required for reference search'')
         else (case matching_definitions ci selector definition_path definition_line of
            [] \<Rightarrow> Inl (error_with_details SymbolNotFound ''Reference search requires an indexed symbol definition''
                    (JObj [(''symbol'', JStr selector),
                           (''suggested_action'',
                            JStr ''Use literal search for arbitrary text or symbol search to find the declaration.'')]))
          | [(path, s, _)] \<Rightarrow>
              (case index_get ci path of
                 None \<Rightarrow> Inl (error_with_details SymbolNotFound ''Reference target file is no longer indexed''
                           (JObj [(''path'', JStr path)]))
               | Some f \<Rightarrow>
                   Inr (select_target selector path s
                     (identifier_occurrences_with_symbols senv path (fe_content f) (sy_name s) (fe_symbols f))))
          | definitions \<Rightarrow>
              Inl (error_with_details AmbiguousSymbol
                ''Reference search found multiple declarations; specify definition_path and definition_line''
                (JObj [(''symbol'', JStr selector),
                       (''candidates'', JArr (map (\<lambda>(path, s, _).
                          JObj [(''path'', JStr path), (''symbol'', symbol_json s)]) definitions))]))))"

definition symbol_at :: "file_entry \<Rightarrow> nat \<Rightarrow> symbol option" where
  "symbol_at f line =
     min_by_key (\<lambda>s. (sy_start_line s \<noteq> line, sy_end_line s - sy_start_line s, sy_start_line s,
                       sy_end_line s, sy_name s))
       (filter (\<lambda>s. sy_start_line s \<le> line \<and> line \<le> sy_end_line s) (fe_symbols f))"

definition resolve_position ::
    "symbol_env \<Rightarrow> code_index \<Rightarrow> string \<Rightarrow> nat \<Rightarrow> app_error + reference_target_selection" where
  "resolve_position senv ci path line =
     (case index_get ci path of
        None \<Rightarrow> Inl (error_with_details PathNotIndexed ''Reference target path is not indexed''
                  (JObj [(''path'', JStr path)]))
      | Some f \<Rightarrow>
          (case symbol_at f line of
             None \<Rightarrow> Inl (error_with_details SymbolNotFound
                       ''No indexed declaration contains the requested position''
                       (JObj [(''path'', JStr path), (''line'', JNum (int line))]))
           | Some s \<Rightarrow> resolve_symbol senv ci (sy_name s) (Some path) (Some (sy_start_line s))))"

section \<open>The lexical search\<close>

text \<open>The occurrences of one file that count: of the selected kinds, without the selected
  declaration itself.\<close>

definition selected_occurrences ::
    "symbol_env \<Rightarrow> reference_query \<Rightarrow> reference_target_selection \<Rightarrow> file_entry \<Rightarrow> identifier_occurrence list" where
  "selected_occurrences senv q target f =
     filter (\<lambda>occ. \<not> (fe_path f = rt_path (ts_target target)
                        \<and> ts_selected_declaration target = Some (io_start_byte occ, io_end_byte occ))
                    \<and> (rq_kinds q = [] \<or> io_role occ \<in> set (rq_kinds q)))
       (identifier_occurrences_with_symbols senv (fe_path f) (fe_content f) (sy_name (ts_symbol target))
         (fe_symbols f))"

definition reference_windows ::
    "symbol_env \<Rightarrow> reference_query \<Rightarrow> reference_target_selection \<Rightarrow> file_entry \<Rightarrow> identifier_occurrence window list" where
  "reference_windows senv q target f =
     sort_key (\<lambda>w. (kind_priority (io_role (leading_occurrence w)), wi_line w))
       (build_windows (rq_context_lines q) (fe_line_count f) occurrences_per_window
         (map (\<lambda>occ. (io_start_line occ, io_end_line occ, occ)) (selected_occurrences senv q target f)))"

text \<open>The loop over the files: the groups and the number of occurrences.\<close>

definition reference_groups ::
    "symbol_env \<Rightarrow> search_env \<Rightarrow> search_scope \<Rightarrow> reference_query \<Rightarrow> reference_target_selection
     \<Rightarrow> reference_location file_groups \<Rightarrow> file_entry list
     \<Rightarrow> app_error + reference_location file_groups \<times> nat" where
  "reference_groups senv env scope q target start fs =
     fold_res (\<lambda>(groups, hits) f.
         case push_file groups (reference_windows senv q target f) (min (scope_limit scope) windows_per_file)
                (reference_location_of env (ss_workspace_id scope) f) of
           (Inl e, _) \<Rightarrow> Inl e
         | (Inr _, groups') \<Rightarrow> Inr (groups', hits + length (selected_occurrences senv q target f)))
       (start, 0) fs"

definition reference_files :: "code_index \<Rightarrow> search_scope \<Rightarrow> reference_query \<Rightarrow> file_entry list" where
  "reference_files ci scope q =
     sort_key fe_path (filter (scope_allows (rq_scope q))
       (filter (\<lambda>f. path_filter_allows (path_filter_new (ss_paths scope)) (fe_path f)) (ci_files ci)))"

text \<open>The target declaration is a result of its own when declarations are asked for.\<close>

definition declaration_group ::
    "search_env \<Rightarrow> search_scope \<Rightarrow> reference_query \<Rightarrow> reference_target_selection \<Rightarrow> file_entry
     \<Rightarrow> reference_location file_groups" where
  "declaration_group env scope q target f =
     (if RDeclaration \<in> set (rq_kinds q)
         \<and> path_filter_allows (path_filter_new (ss_paths scope)) (rt_path (ts_target target))
         \<and> scope_allows (rq_scope q) f
      then push_extra groups_new
             (declaration_location env (ss_workspace_id scope) f (ts_symbol target)
               (ts_declaration_occurrence target))
      else groups_new)"

definition fallback_for_target ::
    "symbol_env \<Rightarrow> search_env \<Rightarrow> code_index \<Rightarrow> search_scope \<Rightarrow> reference_query \<Rightarrow> reference_target_selection
     \<Rightarrow> app_error + reference_response" where
  "fallback_for_target senv env ci scope q target =
     (let target_path = rt_path (ts_target target)
      in case index_get ci target_path of
           None \<Rightarrow> Inl (error_with_details SymbolNotFound ''Reference target file is no longer indexed''
                     (JObj [(''path'', JStr target_path)]))
         | Some target_file \<Rightarrow>
             let fs = reference_files ci scope q
             in (case reference_groups senv env scope q target
                        (declaration_group env scope q target target_file) fs of
                   Inl e \<Rightarrow> Inl e
                 | Inr (groups, hits) \<Rightarrow>
                     let il = interleave (sort_by_first (\<lambda>l. kind_priority (rl_reference_kind l)) groups)
                                (scope_limit scope)
                     in Inr \<lparr>rf_symbol = rq_symbol q, rf_snapshot_id = ss_snapshot_id scope,
                             rf_target = ts_target target, rf_target_evidence = ts_target_evidence target,
                             rf_backend = FallbackBackend, rf_freshness = Current, rf_evidence = Lexical,
                             rf_evidence_caveat = fallback_caveat, rf_semantic = False,
                             rf_definitions = [(target_path, ts_symbol target)],
                             rf_reference_scope = rq_scope q, rf_reference_kinds = rq_kinds q,
                             rf_scanned_scope = Some
                               \<lparr>sc_file_count = length fs,
                                sc_byte_count = sum_list (map (length \<circ> fe_content) fs)\<rparr>,
                             rf_occurrence_count = hits, rf_result_count = length (il_results il),
                             rf_truncated = il_truncated il, rf_results = il_results il\<rparr>))"

definition fallback ::
    "symbol_env \<Rightarrow> search_env \<Rightarrow> code_index \<Rightarrow> search_scope \<Rightarrow> reference_query \<Rightarrow> app_error + reference_response" where
  "fallback senv env ci scope q =
     (case resolve_symbol senv ci (rq_symbol q) (rq_definition_path q) (rq_definition_line q) of
        Inl e \<Rightarrow> Inl e
      | Inr target \<Rightarrow> fallback_for_target senv env ci scope q target)"

definition fallback_at_position ::
    "symbol_env \<Rightarrow> search_env \<Rightarrow> code_index \<Rightarrow> string \<Rightarrow> string \<Rightarrow> string \<Rightarrow> nat \<Rightarrow> nat
     \<Rightarrow> app_error + reference_response" where
  "fallback_at_position senv env ci workspace_id snapshot_id path line max_results =
     (case resolve_position senv ci path line of
        Inl e \<Rightarrow> Inl e
      | Inr target \<Rightarrow>
          fallback_for_target senv env ci
            \<lparr>ss_workspace_id = workspace_id, ss_snapshot_id = snapshot_id, ss_paths = [],
             ss_max_results = max_results\<rparr>
            \<lparr>rq_symbol = sy_name (ts_symbol target), rq_scope = ScopeAll, rq_kinds = [],
             rq_definition_path = Some (rt_path (ts_target target)),
             rq_definition_line = Some (sy_start_line (ts_symbol target)), rq_context_lines = 0\<rparr>
            target)"

section \<open>Language-server locations\<close>

text \<open>The derived order of a location: path, then start, then end.\<close>

definition position_key :: "reference_position \<Rightarrow> nat \<times> nat \<times> nat option" where
  "position_key p = (rp_line p, rp_column p, rp_byte p)"

definition location_key ::
    "semantic_reference_location \<Rightarrow> string \<times> (nat \<times> nat \<times> nat option) \<times> (nat \<times> nat \<times> nat option)" where
  "location_key l = (sl_path l, position_key (rr_start (sl_range l)), position_key (rr_end (sl_range l)))"

definition semantic_locations ::
    "reference_target_selection \<Rightarrow> semantic_reference_location list \<Rightarrow> semantic_reference_location list" where
  "semantic_locations target locations =
     filter (\<lambda>l. sl_path l \<noteq> rt_path (ts_target target) \<or> sl_range l \<noteq> rt_range (ts_target target))
       (remdups_adj (sort_key location_key locations))"

definition semantic_location ::
    "search_env \<Rightarrow> code_index \<Rightarrow> string \<Rightarrow> freshness \<Rightarrow> semantic_reference_location \<Rightarrow> reference_location" where
  "semantic_location env ci workspace_id fresh l =
     (let start_line = rp_line (rr_start (sl_range l)); end_line = rp_line (rr_end (sl_range l));
          indexed = index_get ci (sl_path l)
      in \<lparr>rl_path = sl_path l, rl_line = start_line, rl_start_line = start_line, rl_end_line = end_line,
          rl_range = sl_range l,
          rl_preview = map_option (\<lambda>f. slice_lines (fe_content f) start_line end_line) indexed,
          rl_handle = map_option (\<lambda>f. encode_handle (se_payload env)
             \<lparr>rh_workspace_id = workspace_id, rh_path = sl_path l, rh_start_line = start_line,
              rh_end_line = end_line, rh_content_hash = fe_hash f\<rparr>) indexed,
          rl_match_type = ReferenceMatch, rl_evidence = Semantic, rl_classification_evidence = Semantic,
          rl_freshness = fresh, rl_reference_kind = ROther, rl_role = ROther, rl_enclosing_symbol = None,
          rl_occurrences = [\<lparr>ro_range = sl_range l, ro_role = ROther, ro_evidence = Semantic,
                             ro_enclosing_symbol = None\<rparr>],
          rl_score = 100, rl_reason_codes = [''semantic_reference'']\<rparr>)"

definition semantic ::
    "search_env \<Rightarrow> code_index \<Rightarrow> string \<Rightarrow> string \<Rightarrow> reference_target_selection
     \<Rightarrow> semantic_reference_location list \<Rightarrow> nat \<Rightarrow> semantic_metadata \<Rightarrow> reference_response" where
  "semantic env ci workspace_id snapshot_id target locations max_results metadata =
     (let found = semantic_locations target locations;
          results = map (semantic_location env ci workspace_id (md_freshness metadata))
                      (take (max max_results 1) found)
      in \<lparr>rf_symbol = sy_name (ts_symbol target), rf_snapshot_id = snapshot_id,
          rf_target = ts_target target, rf_target_evidence = ts_target_evidence target,
          rf_backend = SemanticBackend, rf_freshness = md_freshness metadata, rf_evidence = Semantic,
          rf_evidence_caveat = md_evidence_caveat metadata, rf_semantic = True,
          rf_definitions = [(rt_path (ts_target target), ts_symbol target)],
          rf_reference_scope = ScopeAll, rf_reference_kinds = [], rf_scanned_scope = None,
          rf_occurrence_count = length found, rf_result_count = length results,
          rf_truncated = (length results < length found), rf_results = results\<rparr>)"

section \<open>Windows and groups as multisets\<close>

lemma mset_heads_tails: "mset (heads gs) + mset (concat (tails gs)) = mset (concat gs)"
proof (induction gs)
  case (Cons g gs)
  then show ?case by (cases g) (auto simp: tails_def)
qed (simp add: tails_def)

lemma mset_transpose: "mset (concat (transpose gs)) = mset (concat gs)"
proof (induction gs rule: transpose.induct)
  case (3 x xs gs)
  have "transpose (xs # [t. (h # t) \<leftarrow> gs]) = transpose (xs # tails gs)" by (simp add: tails_def)
  then show ?case using 3 mset_heads_tails [of gs] by (simp add: columns_heads tails_def)
qed simp_all

lemma mset_insert_group: "mset (insert_group key g hs) = add_mset g (mset hs)"
  by (induction hs) auto

lemma mset_concat_sort_by_first: "mset (concat (fg_groups (sort_by_first key g))) = mset (concat (fg_groups g))"
proof -
  have "mset (foldr (insert_group key) gs []) = mset gs" for gs
    by (induction gs) (auto simp: mset_insert_group)
  then have "mset (map mset (fg_groups (sort_by_first key g))) = mset (map mset (fg_groups g))"
    by (simp add: sort_by_first_def)
  then show ?thesis by (simp only: mset_concat flip: sum_mset_sum_list)
qed

lemma sort_by_first_total [simp]: "fg_total_windows (sort_by_first key g) = fg_total_windows g"
  by (simp add: sort_by_first_def)

text \<open>When every window was rendered at most once and nothing is truncated, everything is shown.\<close>

lemma interleave_all:
  assumes "length (concat (fg_groups g)) \<le> fg_total_windows g" "\<not> il_truncated (interleave g limit)"
  shows "mset (il_results (interleave g limit)) = mset (concat (fg_groups g))
    \<and> fg_total_windows g = length (concat (fg_groups g))"
proof -
  let ?cs = "concat (transpose (fg_groups g))"
  have r: "il_results (interleave g limit) = take limit ?cs"
    by (simp add: interleave_def interleave_loop_eq)
  have len: "length ?cs = length (concat (fg_groups g))"
    using mset_transpose [of "fg_groups g"] by (metis size_mset)
  have "fg_total_windows g \<le> length (take limit ?cs)"
    using assms(2) r by (simp add: interleave_def Let_def del: length_take)
  then have "length ?cs \<le> limit" "fg_total_windows g = length ?cs" using assms(1) len by auto
  then show ?thesis using r len mset_transpose [of "fg_groups g"] by simp
qed

lemma builder_push_hits:
  "concat (map wi_hits (wb_windows (builder_push b s e h))) = concat (map wi_hits (wb_windows b)) @ [h]"
proof (cases "wb_windows b" rule: rev_exhaust)
  case (snoc earlier previous)
  then show ?thesis by (auto simp: builder_push_def Let_def)
qed (simp add: builder_push_def Let_def)

lemma build_windows_hits: "concat (map wi_hits (build_windows c n m hits)) = map (snd \<circ> snd) hits"
proof -
  have "concat (map wi_hits (wb_windows (foldl (\<lambda>b (s, e, h). builder_push b s e h) b hits)))
      = concat (map wi_hits (wb_windows b)) @ map (snd \<circ> snd) hits" for b
    by (induction hits arbitrary: b) (auto simp: builder_push_hits)
  then show ?thesis by (simp add: build_windows_def builder_finish_def builder_new_def)
qed

section \<open>What the search collects\<close>

definition located :: "search_env \<Rightarrow> string \<Rightarrow> file_entry \<Rightarrow> identifier_occurrence window \<Rightarrow> reference_location" where
  "located env workspace_id f w = projr (reference_location_of env workspace_id f w)"

lemma reference_location_total:
  "reference_location_of env workspace_id f w = Inr (located env workspace_id f w)"
  by (simp add: located_def reference_location_of_def Let_def)

lemma located_simps [simp]:
  "rl_path (located env workspace_id f w) = fe_path f"
  "rl_occurrences (located env workspace_id f w) = map reference_occurrence_of (wi_hits w)"
  by (simp_all add: located_def reference_location_of_def Let_def)

lemma render_all_total: "(\<And>w. render w = Inr (g w)) \<Longrightarrow> render_all render ws = Inr (map g ws)"
  by (induction ws) simp_all

lemma push_file_total:
  assumes "\<And>w. render w = Inr (g w)"
  shows "fst (push_file gs ws k render) = Inr ()"
    and "concat (fg_groups (snd (push_file gs ws k render))) = concat (fg_groups gs) @ map g (take k ws)"
    and "fg_total_windows (snd (push_file gs ws k render)) = fg_total_windows gs + length ws"
  using render_all_total [of render g, OF assms] by (auto simp: push_file_def Let_def)

lemma reference_groups_spec:
  obtains groups where
    "reference_groups senv env scope q target start fs
       = Inr (groups, sum_list (map (length \<circ> selected_occurrences senv q target) fs))"
    "concat (fg_groups groups) = concat (fg_groups start)
       @ concat (map (\<lambda>f. map (located env (ss_workspace_id scope) f)
           (take (min (scope_limit scope) windows_per_file) (reference_windows senv q target f))) fs)"
    "fg_total_windows groups = fg_total_windows start
       + sum_list (map (length \<circ> reference_windows senv q target) fs)"
proof -
  let ?k = "min (scope_limit scope) windows_per_file"
  let ?step = "\<lambda>(groups, hits) f.
         case push_file groups (reference_windows senv q target f) ?k
                (reference_location_of env (ss_workspace_id scope) f) of
           (Inl e, _) \<Rightarrow> Inl e
         | (Inr _, groups') \<Rightarrow> Inr (groups', hits + length (selected_occurrences senv q target f))"
  have "\<exists>groups. fold_res ?step (g, n) fs = Inr (groups, n + sum_list (map (length \<circ> selected_occurrences senv q target) fs))
      \<and> concat (fg_groups groups) = concat (fg_groups g)
          @ concat (map (\<lambda>f. map (located env (ss_workspace_id scope) f) (take ?k (reference_windows senv q target f))) fs)
      \<and> fg_total_windows groups = fg_total_windows g + sum_list (map (length \<circ> reference_windows senv q target) fs)" for g n
  proof (induction fs arbitrary: g n)
    case (Cons f fs)
    define p where "p = push_file g (reference_windows senv q target f) ?k
      (reference_location_of env (ss_workspace_id scope) f)"
    note total = push_file_total [of "reference_location_of env (ss_workspace_id scope) f"
        "located env (ss_workspace_id scope) f", OF reference_location_total, of g "reference_windows senv q target f" ?k,
        folded p_def]
    have "?step (g, n) f = Inr (snd p, n + length (selected_occurrences senv q target f))"
      using total(1) by (cases p) (simp add: p_def [symmetric])
    then have "fold_res ?step (g, n) (f # fs)
        = fold_res ?step (snd p, n + length (selected_occurrences senv q target f)) fs" by simp
    with Cons [of "snd p" "n + length (selected_occurrences senv q target f)"] total(2,3)
    show ?case by (simp add: add.assoc)
  qed simp
  from this [of start 0] that show ?thesis by (auto simp: reference_groups_def)
qed

lemma mset_concat_cong:
  "mset ws = mset vs \<Longrightarrow> mset (concat (map h ws)) = mset (concat (map h vs))"
  by (metis (no_types, lifting) mset_concat mset_map sum_mset_sum_list)

lemma reference_windows_hits:
  "mset (concat (map wi_hits (reference_windows senv q target f))) = mset (selected_occurrences senv q target f)"
proof -
  have "mset (concat (map wi_hits (reference_windows senv q target f)))
      = mset (concat (map wi_hits (build_windows (rq_context_lines q) (fe_line_count f) occurrences_per_window
          (map (\<lambda>occ. (io_start_line occ, io_end_line occ, occ)) (selected_occurrences senv q target f)))))"
    by (rule mset_concat_cong) (simp add: reference_windows_def)
  then show ?thesis by (simp add: build_windows_hits comp_def)
qed

text \<open>The occurrences of a response, with their paths, and those of a list of files.\<close>

definition shown_occurrences :: "reference_location list \<Rightarrow> (string \<times> reference_occurrence) list" where
  "shown_occurrences ls = concat (map (\<lambda>l. map (Pair (rl_path l)) (rl_occurrences l)) ls)"

definition sought_occurrences ::
    "symbol_env \<Rightarrow> reference_query \<Rightarrow> reference_target_selection \<Rightarrow> file_entry list
     \<Rightarrow> (string \<times> reference_occurrence) list" where
  "sought_occurrences senv q target fs =
     concat (map (\<lambda>f. map (\<lambda>occ. (fe_path f, reference_occurrence_of occ)) (selected_occurrences senv q target f)) fs)"

lemma shown_located:
  "mset (shown_occurrences (map (located env ws f) (reference_windows senv q target f)))
     = mset (map (\<lambda>occ. (fe_path f, reference_occurrence_of occ)) (selected_occurrences senv q target f))"
proof -
  let ?h = "\<lambda>occ. (fe_path f, reference_occurrence_of occ)"
  have "shown_occurrences (map (located env ws f) vs) = map ?h (concat (map wi_hits vs))" for vs
    by (induction vs) (auto simp: shown_occurrences_def)
  then show ?thesis using reference_windows_hits [of senv q target f] by (metis mset_map)
qed

lemma shown_all_files:
  "mset (shown_occurrences (concat (map (\<lambda>f. map (located env ws f) (reference_windows senv q target f)) fs)))
     = mset (sought_occurrences senv q target fs)"
proof (induction fs)
  case (Cons f fs)
  have "shown_occurrences (xs @ ys) = shown_occurrences xs @ shown_occurrences ys" for xs ys
    by (simp add: shown_occurrences_def)
  with Cons shown_located [of env ws f senv q target] show ?case by (simp add: sought_occurrences_def)
qed (simp add: shown_occurrences_def sought_occurrences_def)

lemma take_all_lengths:
  assumes "sum_list (map (\<lambda>f. min (k f) (length (ws f))) fs) = sum_list (map (\<lambda>f. length (ws f)) fs)" "f \<in> set fs"
  shows "take (k f) (ws f) = ws f"
  using assms
proof (induction fs)
  case (Cons g gs)
  have le: "sum_list (map (\<lambda>f. min (k f) (length (ws f))) gs) \<le> sum_list (map (\<lambda>f. length (ws f)) gs)"
    by (rule sum_list_mono) simp
  with Cons.prems(1) have "length (ws g) \<le> k g"
    "sum_list (map (\<lambda>f. min (k f) (length (ws f))) gs) = sum_list (map (\<lambda>f. length (ws f)) gs)"
    by (simp_all add: min_def split: if_splits)
  with Cons show ?case by auto
qed simp

text \<open>The files a target's search goes through, all of them in one response.\<close>

lemma fallback_for_targetD:
  assumes "fallback_for_target senv env ci scope q target = Inr r"
  shows "rf_occurrence_count r = length (sought_occurrences senv q target (reference_files ci scope q))"
    and "RDeclaration \<notin> set (rq_kinds q) \<Longrightarrow> \<not> rf_truncated r \<Longrightarrow>
      mset (shown_occurrences (rf_results r)) = mset (sought_occurrences senv q target (reference_files ci scope q))"
proof -
  let ?fs = "reference_files ci scope q" and ?k = "min (scope_limit scope) windows_per_file"
  from assms obtain tf where tf: "index_get ci (rt_path (ts_target target)) = Some tf"
    by (auto simp: fallback_for_target_def Let_def split: option.splits)
  obtain groups where g: "reference_groups senv env scope q target (declaration_group env scope q target tf) ?fs
       = Inr (groups, sum_list (map (length \<circ> selected_occurrences senv q target) ?fs))"
    "concat (fg_groups groups) = concat (fg_groups (declaration_group env scope q target tf))
       @ concat (map (\<lambda>f. map (located env (ss_workspace_id scope) f)
           (take ?k (reference_windows senv q target f))) ?fs)"
    "fg_total_windows groups = fg_total_windows (declaration_group env scope q target tf)
       + sum_list (map (length \<circ> reference_windows senv q target) ?fs)"
    by (rule reference_groups_spec)
  define il where "il = interleave (sort_by_first (\<lambda>l. kind_priority (rl_reference_kind l)) groups) (scope_limit scope)"
  have r: "rf_occurrence_count r = sum_list (map (length \<circ> selected_occurrences senv q target) ?fs)"
    "rf_truncated r = il_truncated il" "rf_results r = il_results il"
    using assms tf g(1) by (auto simp: fallback_for_target_def Let_def il_def)
  show "rf_occurrence_count r = length (sought_occurrences senv q target ?fs)"
    by (simp add: r(1) sought_occurrences_def length_concat comp_def)
  assume "RDeclaration \<notin> set (rq_kinds q)" and all: "\<not> rf_truncated r"
  then have d: "declaration_group env scope q target tf = groups_new" by (simp add: declaration_group_def)
  have lens: "length (concat (fg_groups groups)) = sum_list (map (\<lambda>f. min ?k (length (reference_windows senv q target f))) ?fs)"
    "fg_total_windows groups = sum_list (map (\<lambda>f. length (reference_windows senv q target f)) ?fs)"
    using g(2,3) d by (simp_all add: groups_new_def length_concat comp_def min.commute)
  have "length (concat (fg_groups groups)) \<le> fg_total_windows groups"
    unfolding lens by (rule sum_list_mono) simp
  moreover have "length (concat (fg_groups (sort_by_first (\<lambda>l. kind_priority (rl_reference_kind l)) groups)))
      = length (concat (fg_groups groups))"
    using mset_concat_sort_by_first by (metis size_mset)
  ultimately have il: "mset (il_results il) = mset (concat (fg_groups groups))"
    "fg_total_windows groups = length (concat (fg_groups groups))"
    using interleave_all [of "sort_by_first (\<lambda>l. kind_priority (rl_reference_kind l)) groups" "scope_limit scope"]
      all r(2) mset_concat_sort_by_first [of "\<lambda>l. kind_priority (rl_reference_kind l)" groups]
    by (simp_all add: il_def)
  have "take ?k (reference_windows senv q target f) = reference_windows senv q target f" if "f \<in> set ?fs" for f
    using take_all_lengths [where k = "\<lambda>_. ?k" and ws = "reference_windows senv q target", OF _ that] lens il(2)
    by simp
  then have "concat (fg_groups groups)
      = concat (map (\<lambda>f. map (located env (ss_workspace_id scope) f) (reference_windows senv q target f)) ?fs)"
    using g(2) d by (auto simp: groups_new_def intro!: arg_cong [where f = concat])
  then show "mset (shown_occurrences (rf_results r)) = mset (sought_occurrences senv q target ?fs)"
    using mset_concat_cong [OF il(1), of "\<lambda>l. map (Pair (rl_path l)) (rl_occurrences l)"]
      shown_all_files [of env "ss_workspace_id scope" senv q target ?fs]
    unfolding shown_occurrences_def r(3) by simp
qed

lemma fallback_for_target_total:
  assumes "index_get ci (rt_path (ts_target target)) = Some f"
  shows "\<exists>r. fallback_for_target senv env ci scope q target = Inr r"
proof -
  obtain groups where "reference_groups senv env scope q target (declaration_group env scope q target f)
      (reference_files ci scope q)
    = Inr (groups, sum_list (map (length \<circ> selected_occurrences senv q target) (reference_files ci scope q)))"
    by (rule reference_groups_spec)
  with assms show ?thesis by (auto simp: fallback_for_target_def Let_def)
qed

lemma resolve_symbolD:
  assumes "resolve_symbol senv ci selector definition_path definition_line = Inr target"
  shows "\<exists>h. matching_definitions ci (trim selector) definition_path definition_line
      = [(rt_path (ts_target target), ts_symbol target, h)]"
  using assms
  by (auto simp: resolve_symbol_def Let_def select_target_def split: if_splits list.splits option.splits)

section \<open>Properties\<close>

text \<open>C32. A reference search that says it is complete is complete. Every answer starts from the
  only declaration the selector matches and counts all occurrences of the selected kinds in the
  files of its scope, the selected declaration apart; when the answer does not say that it was
  truncated (and the declaration was not asked for as an extra result), its results hold each of
  those occurrences exactly once, with its path.\<close>

theorem untruncated_references_are_all:
  assumes "fallback senv env ci scope q = Inr r"
  shows "\<exists>target h.
     matching_definitions ci (trim (rq_symbol q)) (rq_definition_path q) (rq_definition_line q)
       = [(rt_path (ts_target target), ts_symbol target, h)]
   \<and> rf_occurrence_count r = length (sought_occurrences senv q target (reference_files ci scope q))
   \<and> (RDeclaration \<notin> set (rq_kinds q) \<longrightarrow> \<not> rf_truncated r \<longrightarrow>
        mset (shown_occurrences (rf_results r)) = mset (sought_occurrences senv q target (reference_files ci scope q)))"
proof -
  obtain target where t: "resolve_symbol senv ci (rq_symbol q) (rq_definition_path q) (rq_definition_line q) = Inr target"
    "fallback_for_target senv env ci scope q target = Inr r"
    using assms by (auto simp: fallback_def split: sum.splits)
  then show ?thesis using resolve_symbolD [OF t(1)] fallback_for_targetD [OF t(2)] by blast
qed

definition sample_reference_index :: code_index where
  "sample_reference_index =
     (let s = \<lparr>sy_name = ''ab'', sy_kind = ''function_item'', sy_start_line = 1, sy_end_line = 1,
                sy_signature = ''fn ab()''\<rparr>;
          content = ''fn ab()'' @ [nl] @ ''ab();ab()''
      in \<lparr>ci_files = [entry_with_symbols ''m.rs'' content ''1'' [s] 0 0],
          ci_symbol_index = [(''ab'', [(''m.rs'', 0)])], ci_snapshot_acc = []\<rparr>)"

definition sample_search_env :: search_env where
  "sample_search_env = \<lparr>se_payload = (\<lambda>_. ''h''), se_regex = (\<lambda>_ _. Inl []), se_regex_escape = id\<rparr>"

definition sample_scope :: search_scope where
  "sample_scope = \<lparr>ss_workspace_id = ''w'', ss_snapshot_id = ''s'', ss_paths = [], ss_max_results = 5\<rparr>"

definition sample_reference_query :: reference_query where
  "sample_reference_query =
     \<lparr>rq_symbol = ''ab'', rq_scope = ScopeAll, rq_kinds = [], rq_definition_path = Some ''m.rs'',
      rq_definition_line = None, rq_context_lines = 0\<rparr>"

lemma trim_ab: "trim ''ab'' = ''ab''" by (simp add: trim_printable_ends printable_def)

lemma sample_index_get:
  "index_get sample_reference_index ''m.rs'' =
     Some (entry_with_symbols ''m.rs'' (''fn ab()'' @ [nl] @ ''ab();ab()'') ''1''
       [\<lparr>sy_name = ''ab'', sy_kind = ''function_item'', sy_start_line = 1, sy_end_line = 1,
          sy_signature = ''fn ab()''\<rparr>] 0 0)"
  by (simp add: index_get_def index_lookup_def sample_reference_index_def entry_with_symbols_def
      normalize_path_text_def backslash_def starts_with_def Let_def)

theorem untruncated_references_are_all_witness:
  "\<exists>r target h.
     fallback sample_symbol_env sample_search_env sample_reference_index sample_scope sample_reference_query = Inr r
   \<and> matching_definitions sample_reference_index (trim (rq_symbol sample_reference_query))
        (rq_definition_path sample_reference_query) (rq_definition_line sample_reference_query)
       = [(rt_path (ts_target target), ts_symbol target, h)]
   \<and> rf_occurrence_count r = length (sought_occurrences sample_symbol_env sample_reference_query target
        (reference_files sample_reference_index sample_scope sample_reference_query))
   \<and> (\<not> rf_truncated r \<longrightarrow> mset (shown_occurrences (rf_results r))
        = mset (sought_occurrences sample_symbol_env sample_reference_query target
            (reference_files sample_reference_index sample_scope sample_reference_query)))"
proof -
  let ?q = sample_reference_query
  have m: "matching_definitions sample_reference_index (trim (rq_symbol ?q)) (rq_definition_path ?q)
        (rq_definition_line ?q)
      = [(''m.rs'', \<lparr>sy_name = ''ab'', sy_kind = ''function_item'', sy_start_line = 1, sy_end_line = 1,
                sy_signature = ''fn ab()''\<rparr>, ''1'')]"
    by (simp add: matching_definitions_def find_symbols_def sample_index_get trim_ab qualified_symbol_parts_def
        rfind_def starts_with_def sample_reference_query_def symbol_found_def symbol_matches_qualified_name_def
        entry_with_symbols_def Let_def)
  have t: "trim (rq_symbol ?q) \<noteq> []" by (simp add: sample_reference_query_def trim_ab)
  obtain f where f: "index_get sample_reference_index ''m.rs'' = Some f" using sample_index_get by blast
  from m t f obtain target where res: "resolve_symbol sample_symbol_env sample_reference_index (rq_symbol ?q)
      (rq_definition_path ?q) (rq_definition_line ?q) = Inr target" "rt_path (ts_target target) = ''m.rs''"
    by (auto simp: resolve_symbol_def Let_def select_target_def)
  then obtain r where r: "fallback sample_symbol_env sample_search_env sample_reference_index sample_scope ?q = Inr r"
    using fallback_for_target_total [of sample_reference_index target f] f by (force simp: fallback_def)
  have "RDeclaration \<notin> set (rq_kinds ?q)" by (simp add: sample_reference_query_def)
  with r untruncated_references_are_all [OF r] show ?thesis by blast
qed

end
