(* ===== verification/Lsp_Position.thy ===== *)
theory Lsp_Position
  imports Lsp_Uri Reference_Search Request_Contract
begin

text \<open>
  Positions of language servers (\<open>src/intelligence/position.rs\<close>, the encodings of
  \<open>src/intelligence/protocol.rs\<close>): columns counted in UTF-8 bytes, UTF-16 units or
  characters, the public contract (one-based lines, zero-based UTF-16 columns), and byte offsets.
  Text is the list of its characters here; a prefix of a line is returned as characters.
\<close>

section \<open>Encodings\<close>

datatype position_encoding = Utf8 | Utf16 | Utf32

fun position_encoding_as_str :: "position_encoding \<Rightarrow> string" where
  "position_encoding_as_str Utf8 = ''utf-8''"
| "position_encoding_as_str Utf16 = ''utf-16''"
| "position_encoding_as_str Utf32 = ''utf-32''"

definition position_encoding_parse :: "string option \<Rightarrow> position_encoding" where
  "position_encoding_parse v =
     (if v = Some ''utf-8'' then Utf8 else if v = Some ''utf-32'' then Utf32 else Utf16)"

definition len_utf16 :: "uchar \<Rightarrow> nat" where
  "len_utf16 c = (if c < 0x10000 then 1 else 2)"

definition utf16_len :: "ustr \<Rightarrow> nat" where
  "utf16_len cs = sum_list (map len_utf16 cs)"

lemma utf16_len_simps [simp]:
  "utf16_len [] = 0" "utf16_len (c # cs) = len_utf16 c + utf16_len cs"
  "utf16_len (cs @ ds) = utf16_len cs + utf16_len ds"
  by (simp_all add: utf16_len_def)

section \<open>Columns\<close>

definition invalid_position :: "string \<Rightarrow> app_error" where
  "invalid_position message = error_new InvalidLspPosition message"

definition unl :: uchar where "unl = 10"

definition line_content :: "ustr \<Rightarrow> nat \<Rightarrow> app_error + ustr" where
  "line_content content line =
     (let lines = split_on unl content
      in if line < length lines then Inr (lines ! line)
         else Inl (invalid_position ''LSP position line is outside the document''))"

text \<open>The loop over the characters, with the units and the prefix so far.\<close>

fun utf16_prefix :: "ustr \<Rightarrow> nat \<Rightarrow> ustr \<Rightarrow> nat \<Rightarrow> app_error + ustr" where
  "utf16_prefix seen units [] column =
     (if units = column then Inr seen else Inl (invalid_position ''UTF-16 column is outside the line''))"
| "utf16_prefix seen units (c # cs) column =
     (if units = column then Inr seen
      else if column < units + len_utf16 c
      then Inl (invalid_position ''UTF-16 column splits a Unicode scalar value'')
      else utf16_prefix (seen @ [c]) (units + len_utf16 c) cs column)"

definition prefix_for_utf16_column :: "ustr \<Rightarrow> nat \<Rightarrow> app_error + ustr" where
  "prefix_for_utf16_column line column = utf16_prefix [] 0 line column"

definition prefix_for_server_column :: "ustr \<Rightarrow> nat \<Rightarrow> position_encoding \<Rightarrow> app_error + ustr" where
  "prefix_for_server_column line column enc =
     (case enc of
        Utf8 \<Rightarrow>
          (case slice_to line column of
             Some p \<Rightarrow> Inr p
           | None \<Rightarrow> Inl (invalid_position ''UTF-8 column is outside a character boundary''))
      | Utf16 \<Rightarrow> prefix_for_utf16_column line column
      | Utf32 \<Rightarrow>
          if column \<le> length line then Inr (take column line)
          else Inl (invalid_position ''UTF-32 column is outside the line''))"

definition server_character_from_utf16 ::
    "ustr \<Rightarrow> nat \<Rightarrow> nat \<Rightarrow> position_encoding \<Rightarrow> app_error + nat" where
  "server_character_from_utf16 content one_based_line utf16_column enc =
     (case line_content content (one_based_line - 1) of
        Inl e \<Rightarrow> Inl e
      | Inr line \<Rightarrow>
          (case prefix_for_utf16_column line utf16_column of
             Inl e \<Rightarrow> Inl e
           | Inr p \<Rightarrow>
               Inr (case enc of Utf8 \<Rightarrow> utf8_len p | Utf16 \<Rightarrow> utf16_column | Utf32 \<Rightarrow> length p)))"

definition utf16_character_from_server ::
    "ustr \<Rightarrow> nat \<Rightarrow> nat \<Rightarrow> position_encoding \<Rightarrow> app_error + nat" where
  "utf16_character_from_server content zero_based_line server_column enc =
     (case line_content content zero_based_line of
        Inl e \<Rightarrow> Inl e
      | Inr line \<Rightarrow> map_sum id utf16_len (prefix_for_server_column line server_column enc))"

section \<open>Offsets\<close>

text \<open>\<open>split_inclusive('\n')\<close> on characters.\<close>

fun lines_inclusive :: "ustr \<Rightarrow> ustr list" where
  "lines_inclusive [] = []"
| "lines_inclusive (c # cs) =
     (if c = unl then [c] # lines_inclusive cs
      else case lines_inclusive cs of [] \<Rightarrow> [[c]] | l # ls \<Rightarrow> (c # l) # ls)"

definition strip_newline :: "ustr \<Rightarrow> ustr" where
  "strip_newline l = (if l \<noteq> [] \<and> last l = unl then butlast l else l)"

text \<open>The line of an edit and the characters before it. The line after a final newline exists.\<close>

definition edit_line :: "ustr \<Rightarrow> nat \<Rightarrow> app_error + (ustr \<times> ustr)" where
  "edit_line content line =
     (let ls = lines_inclusive content
      in if line < length ls then Inr (concat (take line ls), strip_newline (ls ! line))
         else if line = length ls \<and> content \<noteq> [] \<and> last content = unl then Inr (content, [])
         else Inl (error_new InvalidLspEdit ''Edit line is outside the file''))"

definition offset_for_server_position ::
    "ustr \<Rightarrow> nat \<Rightarrow> nat \<Rightarrow> position_encoding \<Rightarrow> app_error + nat" where
  "offset_for_server_position content zero_based_line server_column enc =
     (case edit_line content zero_based_line of
        Inl e \<Rightarrow> Inl e
      | Inr (before, line) \<Rightarrow>
          map_sum id (\<lambda>p. utf8_len before + utf8_len p) (prefix_for_server_column line server_column enc))"

section \<open>Protocol values\<close>

record lsp_cursor =
  cu_line :: nat
  cu_column :: nat

definition position_params ::
    "string \<Rightarrow> ustr \<Rightarrow> lsp_cursor \<Rightarrow> position_encoding \<Rightarrow> app_error + json" where
  "position_params uri content p enc =
     map_sum id (\<lambda>character. JObj
         [(''textDocument'', JObj [(''uri'', JStr uri)]),
          (''position'', JObj [(''line'', JNum (int (cu_line p - 1))), (''character'', JNum (int character))])])
       (server_character_from_utf16 content (cu_line p) (cu_column p) enc)"

definition position_number :: "json \<Rightarrow> string \<Rightarrow> app_error + nat" where
  "position_number v key =
     (case Option.bind (json_get v key) json_as_u64 of
        Some n \<Rightarrow> Inr n
      | None \<Rightarrow> Inl (error_with_details InvalidLspResponse (''LSP position lacks a numeric '' @ key)
                   (JObj [(''position'', v)])))"

definition lsp_position :: "json \<Rightarrow> app_error + nat \<times> nat" where
  "lsp_position v =
     (case position_number v ''line'' of
        Inl e \<Rightarrow> Inl e
      | Inr line \<Rightarrow> map_sum id (Pair line) (position_number v ''character''))"

section \<open>Lemmas\<close>

lemma utf16_prefix_ok:
  "utf16_prefix d (utf16_len d) cs column = Inr p \<Longrightarrow>
     \<exists>k. p = d @ take k cs \<and> k \<le> length cs \<and> utf16_len p = column"
proof (induction cs arbitrary: d)
  case (Cons c cs)
  show ?case
  proof (cases "utf16_len d = column")
    case True
    with Cons.prems show ?thesis by (intro exI [of _ 0]) simp
  next
    case False
    with Cons.prems have "utf16_prefix (d @ [c]) (utf16_len (d @ [c])) cs column = Inr p"
      by (simp split: if_splits)
    from Cons.IH [OF this] obtain k where "p = (d @ [c]) @ take k cs" "k \<le> length cs" "utf16_len p = column" by blast
    then show ?thesis by (intro exI [of _ "Suc k"]) simp
  qed
qed (auto split: if_splits)

lemma utf16_prefix_found:
  "k \<le> length cs \<Longrightarrow> utf16_prefix d (utf16_len d) cs (utf16_len d + utf16_len (take k cs)) = Inr (d @ take k cs)"
proof (induction cs arbitrary: d k)
  case (Cons c cs)
  show ?case
  proof (cases k)
    case (Suc m)
    have "0 < len_utf16 c" by (simp add: len_utf16_def)
    then show ?thesis using Cons.IH [of m "d @ [c]"] Cons.prems Suc by (simp add: add.assoc)
  qed simp
qed simp

lemma prefix_for_utf16_column_iff:
  "prefix_for_utf16_column line column = Inr p \<longleftrightarrow>
     (\<exists>k. p = take k line \<and> k \<le> length line \<and> utf16_len p = column)"
  using utf16_prefix_ok [of "[]" line column p] utf16_prefix_found [of _ line "[]"]
  by (fastforce simp: prefix_for_utf16_column_def)

lemma slice_to_prefix: "slice_to cs n = Some p \<Longrightarrow> \<exists>k. p = take k cs \<and> k \<le> length cs \<and> utf8_len p = n"
proof (induction cs n arbitrary: p rule: slice_to.induct)
  case (1 cs)
  then show ?case by (intro exI [of _ 0]) simp
next
  case (3 c cs n)
  then obtain q where q: "len_utf8 c \<le> Suc n" "slice_to cs (Suc n - len_utf8 c) = Some q" "p = c # q"
    by (auto split: if_splits)
  from 3(1) [OF q(1,2)] obtain k where "q = take k cs" "k \<le> length cs" "utf8_len q = Suc n - len_utf8 c" by blast
  with q show ?case by (intro exI [of _ "Suc k"]) simp
qed simp

text \<open>A column in a server's encoding is the length of a prefix in that encoding.\<close>

definition column_of :: "position_encoding \<Rightarrow> ustr \<Rightarrow> nat" where
  "column_of enc p = (case enc of Utf8 \<Rightarrow> utf8_len p | Utf16 \<Rightarrow> utf16_len p | Utf32 \<Rightarrow> length p)"

lemma prefix_for_server_column_iff:
  "prefix_for_server_column line column enc = Inr p \<longleftrightarrow>
     (\<exists>k. p = take k line \<and> k \<le> length line \<and> column_of enc p = column)"
proof (cases enc)
  case Utf8
  then show ?thesis
    using slice_to_prefix [of line column p] slice_to_take [of line]
    by (fastforce simp: prefix_for_server_column_def column_of_def split: option.splits)
next
  case Utf16
  then show ?thesis by (simp add: prefix_for_server_column_def column_of_def prefix_for_utf16_column_iff)
next
  case Utf32
  have "(\<exists>k. p = take k line \<and> k \<le> length line \<and> length p = column) \<longleftrightarrow>
      column \<le> length line \<and> p = take column line"
    by (auto intro!: exI [of _ column])
  with Utf32 show ?thesis by (auto simp: prefix_for_server_column_def column_of_def)
qed

lemma take_prefix_same_utf16:
  assumes "utf16_len (take j xs) = utf16_len (take k xs)" "j \<le> length xs" "k \<le> length xs"
  shows "take j xs = take k xs"
  using assms
proof (induction xs arbitrary: j k)
  case (Cons x xs)
  have pos: "0 < len_utf16 x" by (simp add: len_utf16_def)
  show ?case
  proof (cases "j = 0 \<or> k = 0")
    case True
    with Cons.prems pos show ?thesis by (cases j; cases k) simp_all
  next
    case False
    then obtain m n where "j = Suc m" "k = Suc n" by (metis not0_implies_Suc)
    with Cons show ?thesis by simp
  qed
qed simp

section \<open>Decoded text is as long as its bytes\<close>

lemma is_cont_unat: "is_cont b \<Longrightarrow> 128 \<le> unat b \<and> unat b \<le> 191"
  by (simp add: is_cont_def word_le_nat_alt)

lemma second_ok3_unat:
  "second_ok3 b0 b1 \<Longrightarrow> 224 \<le> unat b0 \<and> unat b0 \<le> 239 \<and> 128 \<le> unat b1 \<and> unat b1 \<le> 191 \<and> (unat b0 = 224 \<longrightarrow> 160 \<le> unat b1)"
  by (auto simp: second_ok3_def is_cont_def word_le_nat_alt)

lemma second_ok4_unat:
  "second_ok4 b0 b1 \<Longrightarrow> 240 \<le> unat b0 \<and> unat b0 \<le> 244 \<and> 128 \<le> unat b1 \<and> unat b1 \<le> 191 \<and> (unat b0 = 240 \<longrightarrow> 144 \<le> unat b1)"
  by (auto simp: second_ok4_def is_cont_def word_le_nat_alt)

lemma utf8_next_len2: "utf8_next2 b bs = Valid c n \<Longrightarrow> 194 \<le> unat b \<Longrightarrow> unat b \<le> 223 \<Longrightarrow> len_utf8 c = n"
  by (auto simp: utf8_next2_def len_utf8_def cont_val_def split: list.splits if_splits dest!: is_cont_unat)

lemma utf8_next_len3: "utf8_next3 b bs = Valid c n \<Longrightarrow> len_utf8 c = n"
proof -
  assume "utf8_next3 b bs = Valid c n"
  then obtain b1 b2 where b: "second_ok3 b b1" "is_cont b2" "n = 3"
    "c = (unat b - 224) * 4096 + (unat b1 - 128) * 64 + (unat b2 - 128)"
    by (auto simp: utf8_next3_def cont_val_def split: list.splits if_splits)
  note u = second_ok3_unat [OF b(1)] is_cont_unat [OF b(2)]
  have "2048 \<le> c" "c < 65536" using u unfolding b(4) by arith+
  with b(3) show ?thesis by (simp add: len_utf8_def)
qed

lemma utf8_next_len4: "utf8_next4 b bs = Valid c n \<Longrightarrow> len_utf8 c = n"
proof -
  assume "utf8_next4 b bs = Valid c n"
  then obtain b1 b2 b3 where b: "second_ok4 b b1" "is_cont b2" "is_cont b3" "n = 4"
    "c = (unat b - 240) * 262144 + (unat b1 - 128) * 4096 + (unat b2 - 128) * 64 + (unat b3 - 128)"
    by (auto simp: utf8_next4_def cont_val_def split: list.splits if_splits)
  note u = second_ok4_unat [OF b(1)] is_cont_unat [OF b(2)]
  have "65536 \<le> c" using u unfolding b(5) by arith
  with b(4) show ?thesis by (simp add: len_utf8_def)
qed

lemma utf8_width_unat:
  "utf8_char_width b = 1 \<Longrightarrow> unat b < 128"
  "utf8_char_width b = 2 \<Longrightarrow> 194 \<le> unat b \<and> unat b \<le> 223"
  by (auto simp: utf8_char_width_def word_le_nat_alt word_less_nat_alt split: if_splits)

lemma utf8_next_len:
  assumes "utf8_next b bs = Valid c n"
  shows "len_utf8 c = n"
proof -
  from assms consider "utf8_char_width b = 1" "c = unat b" "n = 1"
    | "utf8_char_width b = 2" "utf8_next2 b bs = Valid c n"
    | "utf8_next3 b bs = Valid c n" | "utf8_next4 b bs = Valid c n"
    unfolding utf8_next_def by (simp split: if_split_asm)
  then show ?thesis
  proof cases
    case 1
    then show ?thesis using utf8_width_unat(1) [of b] by (simp add: len_utf8_def)
  next
    case 2
    then show ?thesis using utf8_next_len2 utf8_width_unat(2) [of b] by blast
  next
    case 3
    then show ?thesis by (rule utf8_next_len3)
  next
    case 4
    then show ?thesis by (rule utf8_next_len4)
  qed
qed

lemma utf8_len_from_utf8: "from_utf8 bs = Inr cs \<Longrightarrow> utf8_len cs = length bs"
proof (induction bs arbitrary: cs rule: from_utf8.induct)
  case (2 b bs)
  then obtain c n ds where s: "utf8_next b bs = Valid c n" "from_utf8 (drop n (b # bs)) = Inr ds" "cs = c # ds"
    by (auto split: utf8_step.splits sum.splits)
  have "utf8_len ds = length (drop n (b # bs))" by (rule 2(1) [OF s(1) s(2)])
  with s utf8_next_len [OF s(1)] utf8_next_bounds(1) [OF s(1)] show ?case by simp
qed simp

lemma utf8_len_str_chars: "utf8_valid s \<Longrightarrow> utf8_len (str_chars s) = length s"
  using utf8_len_from_utf8 [of "text_bytes s"] from_utf8_lossy_whole [of "text_bytes s"]
  by (auto simp: utf8_valid_def str_chars_def from_utf8_lossy_def text_bytes_def)

section \<open>Properties\<close>

text \<open>Columns survive the server. Where a public UTF-16 column of a line translates to a column
  in the encoding the server negotiated, translating that column back gives the public column; so
  a position sent to a server and returned by it is the same position, whatever the encoding.\<close>

theorem server_column_roundtrip:
  assumes "server_character_from_utf16 content line column enc = Inr ch"
  shows "utf16_character_from_server content (line - 1) ch enc = Inr column"
proof -
  from assms obtain l where l: "line_content content (line - 1) = Inr l"
    by (auto simp: server_character_from_utf16_def split: sum.splits)
  with assms obtain p where p: "prefix_for_utf16_column l column = Inr p"
    by (auto simp: server_character_from_utf16_def split: sum.splits)
  from p have u: "utf16_len p = column" by (auto simp: prefix_for_utf16_column_iff)
  from assms l p u have ch: "ch = column_of enc p"
    by (cases enc) (simp_all add: server_character_from_utf16_def column_of_def)
  from p obtain k where "p = take k l" "k \<le> length l" "utf16_len p = column"
    by (auto simp: prefix_for_utf16_column_iff)
  then have "prefix_for_server_column l ch enc = Inr p"
    by (auto simp: prefix_for_server_column_iff ch)
  with l \<open>utf16_len p = column\<close> show ?thesis by (simp add: utf16_character_from_server_def)
qed

theorem server_column_roundtrip_witness:
  "utf16_character_from_server [97, 0x1F600, 233, 122, 10] 0 5 Utf8 = Inr 3"
proof -
  have "server_character_from_utf16 [97, 0x1F600, 233, 122, 10] 1 3 Utf8 = Inr 5"
    by (simp add: server_character_from_utf16_def line_content_def unl_def prefix_for_utf16_column_def
        len_utf16_def utf8_len_def len_utf8_def split_on.simps)
  from server_column_roundtrip [OF this] show ?thesis by simp
qed

lemma lines_inclusive_concat [simp]: "concat (lines_inclusive cs) = cs"
  by (induction cs) (auto split: list.splits)

lemma lines_inclusive_nonempty: "[] \<notin> set (lines_inclusive cs)"
  by (induction cs) (auto split: list.splits)

text \<open>An offset is the length of a prefix of the text, so an edit never splits a character.\<close>

lemma offset_at_boundary:
  assumes "offset_for_server_position content line column enc = Inr n"
  obtains k where "k \<le> length content" "utf8_len (take k content) = n"
proof -
  from assms obtain b l where e: "edit_line content line = Inr (b, l)"
    by (auto simp: offset_for_server_position_def split: sum.splits)
  with assms obtain p where p: "prefix_for_server_column l column enc = Inr p" and n: "n = utf8_len b + utf8_len p"
    by (cases "prefix_for_server_column l column enc") (auto simp: offset_for_server_position_def)
  from p obtain j where j: "p = take j l" "j \<le> length l" by (auto simp: prefix_for_server_column_iff)
  have "\<exists>r. content = b @ l @ r"
  proof (cases "line < length (lines_inclusive content)")
    case True
    let ?ls = "lines_inclusive content"
    have "content = concat (take line ?ls) @ ?ls ! line @ concat (drop (Suc line) ?ls)"
      by (metis Cons_nth_drop_Suc True append_take_drop_id concat.simps(2) concat_append lines_inclusive_concat)
    moreover have "\<exists>r. ?ls ! line = strip_newline (?ls ! line) @ r"
      by (metis append_Nil2 append_butlast_last_id strip_newline_def)
    moreover have "b = concat (take line ?ls)" "l = strip_newline (?ls ! line)"
      using e True by (simp_all add: edit_line_def Let_def)
    ultimately show ?thesis by (metis append.assoc)
  next
    case False
    with e show ?thesis by (auto simp: edit_line_def split: if_splits)
  qed
  then obtain r where "content = b @ l @ r" by blast
  then show thesis using j n by (intro that [of "length b + j"]) (simp_all add: utf8_len_append)
qed

end
