(* ===== verification/Lsp_Sync.thy ===== *)
theory Lsp_Sync
  imports Lsp_Position
begin

text \<open>
  What is agreed with a language server: its capabilities (\<open>src/intelligence/protocol.rs\<close>),
  the presets (\<open>src/intelligence/preset.rs\<close>) and the synchronization of documents
  (\<open>src/intelligence/sync.rs\<close>). The process id and the version of the client are arguments.
  The map of documents is an association list; the order of its entries is never observed.
  Versions are 64-bit integers that count the changes of one document, here unbounded.
\<close>

section \<open>Capabilities\<close>

definition json_at :: "json \<Rightarrow> string \<Rightarrow> json" where
  "json_at v k = (case json_get v k of Some x \<Rightarrow> x | None \<Rightarrow> JNull)"

datatype sync_kind = SyncNone | SyncFull | SyncIncremental

fun sync_kind_as_str :: "sync_kind \<Rightarrow> string" where
  "sync_kind_as_str SyncNone = ''none''"
| "sync_kind_as_str SyncFull = ''full''"
| "sync_kind_as_str SyncIncremental = ''incremental''"

definition sync_kind_parse :: "json option \<Rightarrow> sync_kind" where
  "sync_kind_parse v =
     (let numeric = (case Option.bind v json_as_u64 of
           Some n \<Rightarrow> Some n
         | None \<Rightarrow> Option.bind (Option.bind v (\<lambda>item. json_get item ''change'')) json_as_u64)
      in if numeric = Some 1 then SyncFull else if numeric = Some 2 then SyncIncremental else SyncNone)"

record server_capabilities =
  cap_references :: bool
  cap_definition :: bool
  cap_rename :: bool
  cap_diagnostics :: bool
  cap_pull_diagnostics :: bool
  cap_sync_kind :: sync_kind
  cap_encoding :: position_encoding
  cap_server_name :: "string option"
  cap_server_version :: "string option"
  cap_initialization_ms :: nat

definition str_json :: "string option \<Rightarrow> json" where
  "str_json v = (case v of None \<Rightarrow> JNull | Some s \<Rightarrow> JStr s)"

definition capabilities_json :: "server_capabilities \<Rightarrow> json" where
  "capabilities_json c = JObj
     [(''references_provider'', JBool (cap_references c)),
      (''definition_provider'', JBool (cap_definition c)),
      (''rename_provider'', JBool (cap_rename c)),
      (''diagnostics_provider'', JBool (cap_diagnostics c)),
      (''diagnostics_transport'', JStr (if cap_pull_diagnostics c then ''pull'' else ''publish'')),
      (''sync_kind'', JStr (sync_kind_as_str (cap_sync_kind c))),
      (''position_encoding'', JStr (position_encoding_as_str (cap_encoding c))),
      (''server_name'', str_json (cap_server_name c)),
      (''server_version'', str_json (cap_server_version c)),
      (''initialization_ms'', JNum (int (cap_initialization_ms c)))]"

definition capabilities_none :: server_capabilities where
  "capabilities_none =
     \<lparr>cap_references = False, cap_definition = False, cap_rename = False, cap_diagnostics = False,
      cap_pull_diagnostics = False, cap_sync_kind = SyncNone, cap_encoding = Utf16,
      cap_server_name = None, cap_server_version = None, cap_initialization_ms = 0\<rparr>"

definition capabilities_support :: "server_capabilities \<Rightarrow> string \<Rightarrow> bool" where
  "capabilities_support c operation =
     (if operation = ''definition'' then cap_definition c
      else if operation = ''references'' then cap_references c
      else if operation = ''rename'' then cap_rename c
      else if operation = ''diagnostics'' then cap_diagnostics c
      else False)"

definition provider_enabled :: "json option \<Rightarrow> bool" where
  "provider_enabled v = (case v of Some (JBool b) \<Rightarrow> b | Some (JObj _) \<Rightarrow> True | _ \<Rightarrow> False)"

definition initialize_params :: "nat \<Rightarrow> string \<Rightarrow> string \<Rightarrow> json" where
  "initialize_params process_id version uri =
     (let no_registration = [(''dynamicRegistration'', JBool False)] in
      JObj
       [(''processId'', JNum (int process_id)),
        (''rootUri'', JStr uri),
        (''workspaceFolders'', JArr [JObj [(''uri'', JStr uri), (''name'', JStr ''workspace'')]]),
        (''capabilities'', JObj
          [(''general'', JObj [(''positionEncodings'', JArr [JStr ''utf-8'', JStr ''utf-16'', JStr ''utf-32''])]),
           (''workspace'', JObj [(''configuration'', JBool True), (''workspaceFolders'', JBool True)]),
           (''textDocument'', JObj
             [(''synchronization'', JObj (no_registration @
                [(''didSave'', JBool False), (''willSave'', JBool False), (''willSaveWaitUntil'', JBool False)])),
              (''definition'', JObj (no_registration @ [(''linkSupport'', JBool True)])),
              (''references'', JObj no_registration),
              (''rename'', JObj (no_registration @ [(''prepareSupport'', JBool False)])),
              (''publishDiagnostics'', JObj
                [(''relatedInformation'', JBool True), (''versionSupport'', JBool True),
                 (''codeDescriptionSupport'', JBool True), (''dataSupport'', JBool True)]),
              (''diagnostic'', JObj no_registration)])]),
        (''clientInfo'', JObj [(''name'', JStr ''CodeWeave''), (''version'', JStr version)])])"

definition parse_initialize_result :: "json \<Rightarrow> nat \<Rightarrow> app_error + server_capabilities" where
  "parse_initialize_result result initialization_ms =
     (case json_get result ''capabilities'' of
        None \<Rightarrow> Inl (error_new LspProtocolError ''Initialize response does not contain capabilities'')
      | Some c \<Rightarrow>
          let info = json_get result ''serverInfo''
          in Inr
           \<lparr>cap_references = provider_enabled (json_get c ''referencesProvider''),
            cap_definition = provider_enabled (json_get c ''definitionProvider''),
            cap_rename = provider_enabled (json_get c ''renameProvider''),
            cap_diagnostics = (provider_enabled (json_get c ''diagnosticProvider'')
                               \<or> json_get c ''textDocumentSync'' \<noteq> None),
            cap_pull_diagnostics = provider_enabled (json_get c ''diagnosticProvider''),
            cap_sync_kind = sync_kind_parse (json_get c ''textDocumentSync''),
            cap_encoding = position_encoding_parse (Option.bind (json_get c ''positionEncoding'') json_as_str),
            cap_server_name = Option.bind (Option.bind info (\<lambda>v. json_get v ''name'')) json_as_str,
            cap_server_version = Option.bind (Option.bind info (\<lambda>v. json_get v ''version'')) json_as_str,
            cap_initialization_ms = initialization_ms\<rparr>)"

text \<open>The answer to a request of the server. It never gets to edit the workspace.\<close>

definition server_request_result :: "string \<Rightarrow> json \<Rightarrow> string \<Rightarrow> json" where
  "server_request_result rpc params root =
     (if rpc = ''workspace/configuration''
      then JArr (replicate (case Option.bind (json_get params ''items'') json_as_array of
                              None \<Rightarrow> 0 | Some items \<Rightarrow> length items) JNull)
      else if rpc = ''workspace/workspaceFolders''
      then JArr [JObj [(''uri'', JStr (path_uri root)),
                       (''name'', JStr (case path_file_name root of Some name \<Rightarrow> name | None \<Rightarrow> ''workspace''))]]
      else if rpc = ''workspace/applyEdit''
      then JObj [(''applied'', JBool False),
                 (''failureReason'', JStr ''CodeWeave never applies server-initiated workspace edits'')]
      else JNull)"

section \<open>Presets\<close>

datatype lsp_preset = RustPreset | PythonPreset | TypeScriptPreset

definition preset_all :: "lsp_preset list" where
  "preset_all = [RustPreset, PythonPreset, TypeScriptPreset]"

fun preset_key :: "lsp_preset \<Rightarrow> string" where
  "preset_key RustPreset = ''rust''"
| "preset_key PythonPreset = ''python''"
| "preset_key TypeScriptPreset = ''typescript''"

fun preset_language_id :: "lsp_preset \<Rightarrow> string" where
  "preset_language_id RustPreset = ''rust''"
| "preset_language_id PythonPreset = ''python''"
| "preset_language_id TypeScriptPreset = ''typescript''"

fun preset_languages :: "lsp_preset \<Rightarrow> string list" where
  "preset_languages RustPreset = [''rust'']"
| "preset_languages PythonPreset = [''python'']"
| "preset_languages TypeScriptPreset = [''typescript'', ''tsx'', ''javascript'']"

fun preset_default_command :: "lsp_preset \<Rightarrow> string" where
  "preset_default_command RustPreset = ''rust-analyzer''"
| "preset_default_command PythonPreset = ''basedpyright-langserver''"
| "preset_default_command TypeScriptPreset = ''typescript-language-server''"

fun preset_default_args :: "lsp_preset \<Rightarrow> string list" where
  "preset_default_args RustPreset = []"
| "preset_default_args PythonPreset = [''--stdio'']"
| "preset_default_args TypeScriptPreset = [''--stdio'']"

definition preset_for_path :: "string \<Rightarrow> lsp_preset option" where
  "preset_for_path path =
     (let language = language_name path
      in find (\<lambda>p. language \<in> set (preset_languages p)) preset_all)"

section \<open>Documents\<close>

record document_snapshot =
  dsn_uri :: string
  dsn_language_id :: string
  dsn_content :: string
  dsn_hash :: string

definition document_snapshot_new :: "sha256 \<Rightarrow> string \<Rightarrow> string \<Rightarrow> string \<Rightarrow> document_snapshot" where
  "document_snapshot_new sha uri language_id content =
     \<lparr>dsn_uri = uri, dsn_language_id = language_id, dsn_content = content,
      dsn_hash = content_hash sha content\<rparr>"

record synchronized_document =
  sd_hash :: string
  sd_version :: int

record document_state =
  dst_hash :: string
  dst_version :: int

type_synonym documents = "(string \<times> document_state) list"

record sync_plan =
  sp_notification :: "json option"
  sp_synchronized :: synchronized_document
  sp_changed :: bool

definition did_open :: "document_snapshot \<Rightarrow> json" where
  "did_open s = JObj
     [(''jsonrpc'', JStr ''2.0''), (''method'', JStr ''textDocument/didOpen''),
      (''params'', JObj [(''textDocument'', JObj
         [(''uri'', JStr (dsn_uri s)), (''languageId'', JStr (dsn_language_id s)),
          (''version'', JNum 1), (''text'', JStr (dsn_content s))])])]"

definition did_change :: "document_snapshot \<Rightarrow> int \<Rightarrow> json" where
  "did_change s version = JObj
     [(''jsonrpc'', JStr ''2.0''), (''method'', JStr ''textDocument/didChange''),
      (''params'', JObj
         [(''textDocument'', JObj [(''uri'', JStr (dsn_uri s)), (''version'', JNum version)]),
          (''contentChanges'', JArr [JObj [(''text'', JStr (dsn_content s))]])])]"

definition documents_insert :: "string \<Rightarrow> document_state \<Rightarrow> documents \<Rightarrow> documents" where
  "documents_insert uri st docs = (uri, st) # filter (\<lambda>d. fst d \<noteq> uri) docs"

definition plan_sync :: "documents \<Rightarrow> document_snapshot \<Rightarrow> sync_plan \<times> documents" where
  "plan_sync docs s =
     (let (notification, version, is_changed) = (case map_of docs (dsn_uri s) of
           None \<Rightarrow> (Some (did_open s), 1, True)
         | Some st \<Rightarrow>
             if dst_hash st \<noteq> dsn_hash s
             then (let version = dst_version st + 1 in (Some (did_change s version), version, True))
             else (None, dst_version st, False))
      in (\<lparr>sp_notification = notification,
           sp_synchronized = \<lparr>sd_hash = dsn_hash s, sd_version = version\<rparr>, sp_changed = is_changed\<rparr>,
          documents_insert (dsn_uri s) \<lparr>dst_hash = dsn_hash s, dst_version = version\<rparr> docs))"

lemma map_of_documents_insert [simp]: "map_of (documents_insert u st docs) = (map_of docs)(u \<mapsto> st)"
proof -
  have "map_of (filter (\<lambda>d. fst d \<noteq> u) docs) v = map_of docs v" if "v \<noteq> u" for v
    using that by (induction docs) auto
  then show ?thesis by (auto simp: documents_insert_def)
qed

section \<open>The server's view\<close>

text \<open>The documents of a server under full synchronization, as its protocol describes them: a
  document is opened once, and a change names an open document and a larger version.\<close>

record server_document =
  sdoc_version :: int
  sdoc_text :: string

type_synonym server_view = "string \<Rightarrow> server_document option"

definition view_notify :: "server_view \<Rightarrow> json \<Rightarrow> server_view option" where
  "view_notify view n =
     (let params = json_at n ''params''; doc = json_at params ''textDocument''
      in case (json_at n ''method'', json_at doc ''uri'', json_at doc ''version'') of
        (JStr rpc, JStr uri, JNum version) \<Rightarrow>
          if rpc = ''textDocument/didOpen''
          then (case (view uri, json_at doc ''text'') of
                  (None, JStr text_of) \<Rightarrow> Some (view(uri \<mapsto> \<lparr>sdoc_version = version, sdoc_text = text_of\<rparr>))
                | _ \<Rightarrow> None)
          else if rpc = ''textDocument/didChange''
          then (case (view uri, json_at params ''contentChanges'') of
                  (Some d, JArr [c]) \<Rightarrow>
                    (case json_at c ''text'' of
                       JStr text_of \<Rightarrow>
                         if sdoc_version d < version
                         then Some (view(uri \<mapsto> \<lparr>sdoc_version = version, sdoc_text = text_of\<rparr>)) else None
                     | _ \<Rightarrow> None)
                | _ \<Rightarrow> None)
          else None
      | _ \<Rightarrow> None)"

text \<open>A run of requests: each snapshot is planned, and its notification sent.\<close>

fun sync_run :: "documents \<Rightarrow> server_view \<Rightarrow> document_snapshot list \<Rightarrow> (documents \<times> server_view) option" where
  "sync_run docs view [] = Some (docs, view)"
| "sync_run docs view (s # ss) =
     (case plan_sync docs s of (plan, docs') \<Rightarrow>
        (case sp_notification plan of
           None \<Rightarrow> sync_run docs' view ss
         | Some n \<Rightarrow> (case view_notify view n of None \<Rightarrow> None | Some view' \<Rightarrow> sync_run docs' view' ss)))"

text \<open>The record of the client and the view of the server agree, up to the hash.\<close>

definition sync_agrees :: "sha256 \<Rightarrow> documents \<Rightarrow> server_view \<Rightarrow> bool" where
  "sync_agrees sha docs view \<longleftrightarrow>
     (\<forall>uri. map_option (\<lambda>d. (content_hash sha (sdoc_text d), sdoc_version d)) (view uri)
            = map_option (\<lambda>st. (dst_hash st, dst_version st)) (map_of docs uri))"

lemma view_notify_did_open:
  "view (dsn_uri s) = None \<Longrightarrow>
     view_notify view (did_open s) = Some (view(dsn_uri s \<mapsto> \<lparr>sdoc_version = 1, sdoc_text = dsn_content s\<rparr>))"
  by (simp add: view_notify_def did_open_def json_at_def json_get_def)

lemma view_notify_did_change:
  "view (dsn_uri s) = Some d \<Longrightarrow> sdoc_version d < version \<Longrightarrow>
     view_notify view (did_change s version)
       = Some (view(dsn_uri s \<mapsto> \<lparr>sdoc_version = version, sdoc_text = dsn_content s\<rparr>))"
  by (simp add: view_notify_def did_change_def json_at_def json_get_def)

lemma sync_agreesD:
  "sync_agrees sha docs view \<Longrightarrow> map_of docs uri = None \<Longrightarrow> view uri = None"
  "sync_agrees sha docs view \<Longrightarrow> map_of docs uri = Some st \<Longrightarrow>
     \<exists>d. view uri = Some d \<and> content_hash sha (sdoc_text d) = dst_hash st \<and> sdoc_version d = dst_version st"
  by (auto simp: sync_agrees_def dest: spec [of _ uri])

text \<open>One plan: its notification is accepted, the records agree again, and the server's text has
  the snapshot's hash.\<close>

lemma plan_sync_step:
  assumes "sync_agrees sha docs view" "dsn_hash s = content_hash sha (dsn_content s)"
    and "plan_sync docs s = (plan, docs')"
  obtains view' where
    "(case sp_notification plan of None \<Rightarrow> Some view | Some n \<Rightarrow> view_notify view n) = Some view'"
    "sync_agrees sha docs' view'"
    "\<And>uri. uri \<noteq> dsn_uri s \<Longrightarrow> view' uri = view uri"
    "sp_notification plan \<noteq> None \<Longrightarrow> map_option sdoc_text (view' (dsn_uri s)) = Some (dsn_content s)"
    "sp_notification plan = None \<Longrightarrow> view' = view"
    "sd_hash (sp_synchronized plan) = dsn_hash s"
proof (cases "map_of docs (dsn_uri s)")
  case None
  from sync_agreesD(1) [OF assms(1) None] view_notify_did_open
  have "view_notify view (did_open s) = Some (view(dsn_uri s \<mapsto> \<lparr>sdoc_version = 1, sdoc_text = dsn_content s\<rparr>))"
    by blast
  with None assms show thesis
    by (intro that [of "view(dsn_uri s \<mapsto> \<lparr>sdoc_version = 1, sdoc_text = dsn_content s\<rparr>)"])
      (auto simp: plan_sync_def sync_agrees_def)
next
  case (Some st)
  from sync_agreesD(2) [OF assms(1) Some] obtain d where d: "view (dsn_uri s) = Some d"
    "content_hash sha (sdoc_text d) = dst_hash st" "sdoc_version d = dst_version st" by blast
  show thesis
  proof (cases "dst_hash st = dsn_hash s")
    case True
    with Some assms d show thesis
      by (intro that [of view]) (auto simp: plan_sync_def sync_agrees_def)
  next
    case False
    from view_notify_did_change [of view s, OF d(1), of "dst_version st + 1"] d(3)
    have "view_notify view (did_change s (dst_version st + 1))
        = Some (view(dsn_uri s \<mapsto> \<lparr>sdoc_version = dst_version st + 1, sdoc_text = dsn_content s\<rparr>))" by simp
    with Some False assms show thesis
      by (intro that [of "view(dsn_uri s \<mapsto> \<lparr>sdoc_version = dst_version st + 1, sdoc_text = dsn_content s\<rparr>)"])
        (auto simp: plan_sync_def sync_agrees_def Let_def)
  qed
qed

definition latest_content :: "document_snapshot list \<Rightarrow> string \<Rightarrow> string option" where
  "latest_content ss uri = map_option dsn_content (find (\<lambda>s. dsn_uri s = uri) (rev ss))"

lemma latest_content_Cons:
  "latest_content (s # ss) uri =
     (case latest_content ss uri of Some c \<Rightarrow> Some c
      | None \<Rightarrow> if dsn_uri s = uri then Some (dsn_content s) else None)"
proof -
  have "find P (xs @ ys) = (case find P xs of Some x \<Rightarrow> Some x | None \<Rightarrow> find P ys)" for P and xs ys :: "document_snapshot list"
    by (induction xs) auto
  then show ?thesis by (auto simp: latest_content_def split: option.splits)
qed

lemma sync_run_invariant:
  assumes "sync_agrees sha docs view" "inj_on (content_hash sha) C"
    and "\<forall>s \<in> set ss. dsn_hash s = content_hash sha (dsn_content s) \<and> dsn_content s \<in> C"
    and "\<forall>uri d. view uri = Some d \<longrightarrow> sdoc_text d \<in> C"
  shows "\<exists>docs' view'. sync_run docs view ss = Some (docs', view') \<and> sync_agrees sha docs' view'
    \<and> (\<forall>uri. map_option sdoc_text (view' uri)
           = (case latest_content ss uri of Some c \<Rightarrow> Some c | None \<Rightarrow> map_option sdoc_text (view uri)))"
  using assms
proof (induction ss arbitrary: docs view)
  case Nil
  then show ?case by (simp add: latest_content_def)
next
  case (Cons s ss)
  obtain plan docs1 where p: "plan_sync docs s = (plan, docs1)" by fastforce
  from Cons.prems(3) have s: "dsn_hash s = content_hash sha (dsn_content s)" "dsn_content s \<in> C" by auto
  obtain view1 where v:
    "(case sp_notification plan of None \<Rightarrow> Some view | Some n \<Rightarrow> view_notify view n) = Some view1"
    "sync_agrees sha docs1 view1" "\<And>uri. uri \<noteq> dsn_uri s \<Longrightarrow> view1 uri = view uri"
    "sp_notification plan \<noteq> None \<Longrightarrow> map_option sdoc_text (view1 (dsn_uri s)) = Some (dsn_content s)"
    "sp_notification plan = None \<Longrightarrow> view1 = view" "sd_hash (sp_synchronized plan) = dsn_hash s"
    by (rule plan_sync_step [OF Cons.prems(1) s(1) p]) (rule that; assumption?)
  have m: "map_of docs1 (dsn_uri s) = Some st \<Longrightarrow> dst_hash st = dsn_hash s" for st
    using p by (auto simp: plan_sync_def Let_def split: option.splits if_splits)
  have here: "map_option sdoc_text (view1 (dsn_uri s)) = Some (dsn_content s)"
  proof (cases "sp_notification plan = None")
    case True
    obtain st where st: "map_of docs1 (dsn_uri s) = Some st"
      using p by (auto simp: plan_sync_def Let_def split: option.splits if_splits)
    from sync_agreesD(2) [OF v(2) st] m [OF st] obtain d where
      d: "view1 (dsn_uri s) = Some d" "content_hash sha (sdoc_text d) = dsn_hash s" by auto
    moreover have "sdoc_text d \<in> C" using d(1) v(5) [OF True] Cons.prems(4) by blast
    ultimately have "sdoc_text d = dsn_content s" using s Cons.prems(2) by (auto dest: inj_onD)
    with d(1) show ?thesis by simp
  qed (rule v(4))
  have "\<forall>uri d. view1 uri = Some d \<longrightarrow> sdoc_text d \<in> C"
  proof (intro allI impI)
    fix uri d
    assume d: "view1 uri = Some d"
    show "sdoc_text d \<in> C"
    proof (cases "uri = dsn_uri s")
      case True
      with here d s(2) show ?thesis by simp
    next
      case False
      with v(3) d Cons.prems(4) show ?thesis by simp
    qed
  qed
  with Cons.IH [OF v(2) Cons.prems(2)] Cons.prems(3) obtain docs' view' where
    r: "sync_run docs1 view1 ss = Some (docs', view')" "sync_agrees sha docs' view'"
    "\<forall>uri. map_option sdoc_text (view' uri)
       = (case latest_content ss uri of Some c \<Rightarrow> Some c | None \<Rightarrow> map_option sdoc_text (view1 uri))" by auto
  have "sync_run docs view (s # ss) = Some (docs', view')"
    using v(1) r(1) p by (auto split: option.splits)
  moreover have "map_option sdoc_text (view' uri)
       = (case latest_content (s # ss) uri of Some c \<Rightarrow> Some c | None \<Rightarrow> map_option sdoc_text (view uri))" for uri
    using r(3) here v(3) [of uri] by (cases "uri = dsn_uri s") (auto simp: latest_content_Cons split: option.splits)
  ultimately show ?case using r(2) by blast
qed

section \<open>Properties\<close>

text \<open>C34. A language server sees the text it is asked about. Over any run of requests on a fresh
  server, every notification the client sends is one the protocol accepts (a document is opened
  once, versions grow), and the server ends with exactly the text of the latest snapshot of each
  document, provided the hash tells the texts of the run apart: texts are re-sent only when
  their hash changed.\<close>

theorem synchronized_text_is_latest:
  assumes "inj_on (content_hash sha) (dsn_content ` set ss)"
    and "\<forall>s \<in> set ss. dsn_hash s = content_hash sha (dsn_content s)"
  shows "\<exists>docs view. sync_run [] Map.empty ss = Some (docs, view)
    \<and> (\<forall>uri. map_option sdoc_text (view uri) = latest_content ss uri)
    \<and> (\<forall>uri. map_option sdoc_version (view uri) = map_option dst_version (map_of docs uri))"
proof -
  have "sync_agrees sha [] Map.empty" by (simp add: sync_agrees_def)
  moreover have "\<forall>s \<in> set ss. dsn_hash s = content_hash sha (dsn_content s) \<and> dsn_content s \<in> dsn_content ` set ss"
    using assms(2) by simp
  moreover have "\<forall>uri d. Map.empty uri = Some d \<longrightarrow> sdoc_text d \<in> dsn_content ` set ss" by simp
  moreover note sync_run_invariant [OF _ assms(1), of "[]" Map.empty ss]
  ultimately obtain docs view where
    r: "sync_run [] Map.empty ss = Some (docs, view)" "sync_agrees sha docs view"
    "\<forall>uri. map_option sdoc_text (view uri)
       = (case latest_content ss uri of Some c \<Rightarrow> Some c | None \<Rightarrow> map_option sdoc_text ((Map.empty :: server_view) uri))"
    by blast
  have "map_option sdoc_version (view uri) = map_option dst_version (map_of docs uri)" for uri
    using r(2) by (auto simp: sync_agrees_def map_option_case dest!: spec [of _ uri] split: option.splits)
  with r show ?thesis by (auto split: option.splits)
qed

definition sample_sha :: sha256 where
  "sample_sha s = map of_char s"

definition sample_snapshots :: "document_snapshot list" where
  "sample_snapshots =
     [document_snapshot_new sample_sha ''a'' ''rust'' ''x'', document_snapshot_new sample_sha ''b'' ''rust'' ''x'',
      document_snapshot_new sample_sha ''a'' ''rust'' ''y'']"

theorem synchronized_text_is_latest_witness:
  "\<exists>docs view. sync_run [] Map.empty sample_snapshots = Some (docs, view)
    \<and> map_option sdoc_text (view ''a'') = Some ''y'' \<and> map_option sdoc_text (view ''b'') = Some ''x''"
proof -
  have "inj_on (content_hash sample_sha) (dsn_content ` set sample_snapshots)" by code_simp
  moreover have "\<forall>s \<in> set sample_snapshots. dsn_hash s = content_hash sample_sha (dsn_content s)" by code_simp
  ultimately obtain docs view where v: "sync_run [] Map.empty sample_snapshots = Some (docs, view)"
    "\<forall>uri. map_option sdoc_text (view uri) = latest_content sample_snapshots uri"
    using synchronized_text_is_latest by blast
  moreover have "latest_content sample_snapshots ''a'' = Some ''y''" "latest_content sample_snapshots ''b'' = Some ''x''"
    by code_simp+
  ultimately show ?thesis by (intro exI [of _ docs] exI [of _ view]) simp
qed

end
