(* ===== verification/Lsp_Session.thy ===== *)
theory Lsp_Session
  imports Lsp_Sync Edit_Plan
begin

text \<open>
  The session over one document (\<open>src/intelligence/session.rs\<close>), its view of the live index
  (\<open>src/intelligence/live_index.rs\<close>), the normalization of locations (\<open>position.rs\<close>) and the
  compilation of a workspace edit (\<open>src/intelligence/workspace_edit.rs\<close>). The workspace changes
  while a session runs, so disk and index are a history: a world per moment. Every read happens
  at a moment and the next one later; the moment a backend returns is its own. Errors and reads
  are threaded by \<open>rf_bind\<close>, where the \<open>?\<close> of the code stops.
\<close>

section \<open>The changing workspace\<close>

record 'd live_world =
  lw_disk :: 'd
  lw_index :: code_index

record 'd session_env =
  sn_ops :: "'d dir_ops"
  sn_sha :: sha256
  sn_codec :: uri_codec
  sn_history :: "nat \<Rightarrow> 'd live_world"

definition max_result_file_bytes :: nat where
  "max_result_file_bytes = 16 * 1024 * 1024"

definition live_file :: "'d session_env \<Rightarrow> nat \<Rightarrow> string \<Rightarrow> (string \<times> string) option" where
  "live_file env t relative =
     map_option (\<lambda>f. (fe_content f, fe_hash f)) (index_get (lw_index (sn_history env t)) relative)"

definition live_hash :: "'d session_env \<Rightarrow> nat \<Rightarrow> string \<Rightarrow> string option" where
  "live_hash env t relative = map_option fe_hash (index_get (lw_index (sn_history env t)) relative)"

definition read_text :: "'d session_env \<Rightarrow> nat \<Rightarrow> string \<Rightarrow> nat \<Rightarrow> app_error + string option" where
  "read_text env t relative max_bytes =
     (case rel_path_new relative of
        Inl e \<Rightarrow> Inl e
      | Inr p \<Rightarrow>
          (case read_file (sn_ops env) (lw_disk (sn_history env t)) p max_bytes of
             Inl e \<Rightarrow> Inl e
           | Inr None \<Rightarrow> Inr None
           | Inr (Some file) \<Rightarrow>
               Inr (case from_utf8 (wf_bytes file) of Inl _ \<Rightarrow> None | Inr _ \<Rightarrow> Some (bytes_text (wf_bytes file)))))"

definition intelligence_stale :: "string \<Rightarrow> string \<Rightarrow> (string \<times> json) list \<Rightarrow> app_error" where
  "intelligence_stale phase message details =
     error_with_details IntelligenceStale message (JObj (obj_insert ''phase'' (JStr phase) details))"

section \<open>Result files\<close>

record result_files =
  rs_cache :: "string \<Rightarrow> string option"
  rs_time :: nat

type_synonym 'a rf = "result_files \<Rightarrow> (app_error + 'a) \<times> result_files"

definition rf_return :: "'a \<Rightarrow> 'a rf" where "rf_return x s = (Inr x, s)"

definition rf_lift :: "app_error + 'a \<Rightarrow> 'a rf" where "rf_lift r s = (r, s)"

definition rf_bind :: "'a rf \<Rightarrow> ('a \<Rightarrow> 'b rf) \<Rightarrow> 'b rf" where
  "rf_bind m k s = (case m s of (Inl e, s') \<Rightarrow> (Inl e, s') | (Inr x, s') \<Rightarrow> k x s')"

fun rf_map :: "('a \<Rightarrow> 'b rf) \<Rightarrow> 'a list \<Rightarrow> 'b list rf" where
  "rf_map f [] = rf_return []"
| "rf_map f (x # xs) = rf_bind (f x) (\<lambda>y. rf_bind (rf_map f xs) (\<lambda>ys. rf_return (y # ys)))"

text \<open>The disk at \<open>t\<close>, then the index.\<close>

definition read_current :: "'d session_env \<Rightarrow> nat \<Rightarrow> string \<Rightarrow> app_error + string" where
  "read_current env t relative =
     (case read_text env t relative max_result_file_bytes of
        Inl e \<Rightarrow> Inl e
      | Inr None \<Rightarrow>
          Inl (error_with_details InvalidLspResponse ''LSP result does not name a readable regular workspace file''
                 (JObj [(''path'', JStr relative)]))
      | Inr (Some content) \<Rightarrow>
          (case live_hash env (t + 1) relative of
             None \<Rightarrow> Inr content
           | Some ihash \<Rightarrow>
               let disk_hash = content_hash (sn_sha env) content
               in if disk_hash \<noteq> ihash
                  then Inl (intelligence_stale ''result_file''
                         ''A file named in the semantic result no longer matches the live index''
                         [(''path'', JStr relative), (''indexed_hash'', JStr ihash),
                          (''disk_hash'', JStr disk_hash)])
                  else Inr content))"

definition files_content :: "'d session_env \<Rightarrow> string \<Rightarrow> string rf" where
  "files_content env relative s =
     (case rs_cache s relative of
        Some content \<Rightarrow> (Inr content, s)
      | None \<Rightarrow>
          (case read_current env (rs_time s) relative of
             Inl e \<Rightarrow> (Inl e, s\<lparr>rs_time := rs_time s + 2\<rparr>)
           | Inr content \<Rightarrow>
               (Inr content, \<lparr>rs_cache = (rs_cache s)(relative \<mapsto> content), rs_time = rs_time s + 2\<rparr>)))"

section \<open>Locations\<close>

definition location_items :: "json \<Rightarrow> json list" where
  "location_items v = (case v of JArr items \<Rightarrow> items | JNull \<Rightarrow> [] | item \<Rightarrow> [item])"

definition get_or :: "json \<Rightarrow> string \<Rightarrow> string \<Rightarrow> json option" where
  "get_or v k k' = (case json_get v k of Some x \<Rightarrow> Some x | None \<Rightarrow> json_get v k')"

definition normalize_location ::
    "'d session_env \<Rightarrow> position_encoding \<Rightarrow> json \<Rightarrow> semantic_reference_location rf" where
  "normalize_location env enc item =
     (case Option.bind (get_or item ''uri'' ''targetUri'') json_as_str of
        None \<Rightarrow> rf_lift (Inl (error_new InvalidLspResponse ''Location lacks URI''))
      | Some uri \<Rightarrow>
     (case get_or item ''range'' ''targetSelectionRange'' of
        None \<Rightarrow> rf_lift (Inl (error_new InvalidLspResponse ''Location lacks range''))
      | Some r \<Rightarrow>
          rf_bind (rf_lift (uri_relative (sn_codec env) uri)) (\<lambda>relative.
          rf_bind (files_content env relative) (\<lambda>content.
          rf_bind (rf_lift (lsp_position (json_at r ''start''))) (\<lambda>(start_line, start_character).
          rf_bind (rf_lift (lsp_position (json_at r ''end''))) (\<lambda>(end_line, end_character).
          rf_bind (rf_lift (utf16_character_from_server (str_chars content) start_line start_character enc)) (\<lambda>start.
          rf_bind (rf_lift (utf16_character_from_server (str_chars content) end_line end_character enc)) (\<lambda>stop.
          rf_return
            \<lparr>sl_path = relative,
             sl_range = \<lparr>rr_start = \<lparr>rp_line = start_line + 1, rp_column = start + 1, rp_byte = None\<rparr>,
                         rr_end = \<lparr>rp_line = end_line + 1, rp_column = stop + 1, rp_byte = None\<rparr>\<rparr>\<rparr>))))))))"

definition normalize_reference_locations ::
    "'d session_env \<Rightarrow> position_encoding \<Rightarrow> json \<Rightarrow> semantic_reference_location list rf" where
  "normalize_reference_locations env enc v = rf_map (normalize_location env enc) (location_items v)"

definition definition_json :: "semantic_reference_location \<Rightarrow> json" where
  "definition_json l =
     (let start = rr_start (sl_range l); stop = rr_end (sl_range l)
      in JObj [(''path'', JStr (sl_path l)), (''line'', JNum (int (rp_line start))),
               (''column'', JNum (int (rp_column start - 1))), (''end_line'', JNum (int (rp_line stop))),
               (''end_column'', JNum (int (rp_column stop - 1))), (''evidence'', JStr ''semantic'')])"

definition normalize_locations :: "'d session_env \<Rightarrow> position_encoding \<Rightarrow> json \<Rightarrow> json list rf" where
  "normalize_locations env enc v =
     rf_bind (normalize_reference_locations env enc v) (\<lambda>ls. rf_return (map definition_json ls))"

section \<open>Workspace edits\<close>

record rename_change =
  rnc_path :: string
  rnc_old_text :: string
  rnc_new_text :: string
  rnc_expected_hash :: string

definition rename_change_json :: "rename_change \<Rightarrow> json" where
  "rename_change_json c = JObj
     [(''kind'', JStr ''replace''), (''path'', JStr (rnc_path c)), (''old_text'', JStr (rnc_old_text c)),
      (''new_text'', JStr (rnc_new_text c)), (''expected_replacements'', JNum 1),
      (''expected_hash'', JStr (rnc_expected_hash c))]"

definition to_change :: "rename_change \<Rightarrow> change" where
  "to_change c = Replace (rnc_path c) (rnc_old_text c) (rnc_new_text c) 1 (Some (rnc_expected_hash c)) None"

definition invalid_edit :: "string \<Rightarrow> app_error" where
  "invalid_edit message = error_new InvalidLspEdit message"

text \<open>The documents of an edit: the entries of \<open>changes\<close>, then those of \<open>documentChanges\<close>.\<close>

fun document_changes :: "json list \<Rightarrow> app_error + (string \<times> json) list" where
  "document_changes [] = Inr []"
| "document_changes (item # items) =
     (if json_get item ''kind'' \<noteq> None
      then Inl (error_new UnsupportedWorkspaceEdit ''LSP resource create/rename/delete operations are not supported'')
      else (case json_at (json_at item ''textDocument'') ''uri'' of
              JStr uri \<Rightarrow> map_sum id (\<lambda>ds. (uri, json_at item ''edits'') # ds) (document_changes items)
            | _ \<Rightarrow> Inl (invalid_edit ''TextDocumentEdit lacks a URI'')))"

definition edit_documents :: "json \<Rightarrow> app_error + (string \<times> json) list" where
  "edit_documents edit =
     (let plain = (case Option.bind (json_get edit ''changes'') json_as_object of None \<Rightarrow> [] | Some kvs \<Rightarrow> kvs)
      in case (case Option.bind (json_get edit ''documentChanges'') json_as_array of
                 None \<Rightarrow> Inr []
               | Some items \<Rightarrow> document_changes items) of
           Inl e \<Rightarrow> Inl e
         | Inr ds \<Rightarrow>
             if plain @ ds = []
             then Inl (error_new UnsupportedWorkspaceEdit ''WorkspaceEdit contains no supported text edits'')
             else Inr (plain @ ds))"

type_synonym text_edit = "nat \<times> nat \<times> string"

definition edit_range :: "string \<Rightarrow> position_encoding \<Rightarrow> json \<Rightarrow> app_error + text_edit" where
  "edit_range content enc item =
     (let r = json_at item ''range'' in
      case lsp_position (json_at r ''start'') of
        Inl e \<Rightarrow> Inl e
      | Inr (start_line, start_character) \<Rightarrow>
     (case lsp_position (json_at r ''end'') of
        Inl e \<Rightarrow> Inl e
      | Inr (end_line, end_character) \<Rightarrow>
     (case offset_for_server_position (str_chars content) start_line start_character enc of
        Inl e \<Rightarrow> Inl e
      | Inr start \<Rightarrow>
     (case offset_for_server_position (str_chars content) end_line end_character enc of
        Inl e \<Rightarrow> Inl e
      | Inr stop \<Rightarrow>
          if stop < start then Inl (invalid_edit ''LSP edit range ends before it starts'')
          else (case json_at item ''newText'' of
                  JStr new_text \<Rightarrow> Inr (start, stop, new_text)
                | _ \<Rightarrow> Inl (invalid_edit ''LSP edit lacks newText''))))))"

fun edit_ranges :: "string \<Rightarrow> position_encoding \<Rightarrow> json list \<Rightarrow> app_error + text_edit list" where
  "edit_ranges content enc [] = Inr []"
| "edit_ranges content enc (item # items) =
     (case edit_range content enc item of
        Inl e \<Rightarrow> Inl e
      | Inr r \<Rightarrow> map_sum id ((#) r) (edit_ranges content enc items))"

fun overlapping :: "text_edit list \<Rightarrow> bool" where
  "overlapping ((a, b, s) # (a', b', s') # rs) = (a' < b \<or> overlapping ((a', b', s') # rs))"
| "overlapping _ = False"

definition replace_bytes :: "nat \<Rightarrow> nat \<Rightarrow> string \<Rightarrow> string \<Rightarrow> string" where
  "replace_bytes a b new_text s = take a s @ new_text @ drop b s"

text \<open>The last range first, in place.\<close>

definition apply_edits :: "string \<Rightarrow> text_edit list \<Rightarrow> string" where
  "apply_edits before ranges = foldl (\<lambda>s (a, b, new_text). replace_bytes a b new_text s) before (rev ranges)"

definition edit_document :: "'d session_env \<Rightarrow> position_encoding \<Rightarrow> string \<times> json \<Rightarrow> rename_change rf" where
  "edit_document env enc document =
     rf_bind (rf_lift (uri_relative (sn_codec env) (fst document))) (\<lambda>path.
     rf_bind (files_content env path) (\<lambda>before.
     rf_bind (rf_lift (case json_as_array (snd document) of
                         None \<Rightarrow> Inl (invalid_edit ''Edits must be an array'')
                       | Some items \<Rightarrow> edit_ranges before enc items)) (\<lambda>found.
     let ranges = sort_key fst found in
     if overlapping ranges
     then rf_lift (Inl (error_new OverlappingLspEdits ''LSP returned overlapping edits''))
     else rf_return \<lparr>rnc_path = path, rnc_old_text = before, rnc_new_text = apply_edits before ranges,
                     rnc_expected_hash = content_hash (sn_sha env) before\<rparr>)))"

definition workspace_edit_changes :: "'d session_env \<Rightarrow> position_encoding \<Rightarrow> json \<Rightarrow> rename_change list rf" where
  "workspace_edit_changes env enc edit =
     rf_bind (rf_lift (edit_documents edit)) (rf_map (edit_document env enc))"

section \<open>Sessions\<close>

record session =
  sx_relative :: string
  sx_content :: string
  sx_hash :: string

text \<open>\<open>Session::open\<close>: the index at \<open>t\<close>, the disk at \<open>t + 1\<close>.\<close>

definition session_open :: "'d session_env \<Rightarrow> nat \<Rightarrow> string \<Rightarrow> app_error + session" where
  "session_open env t relative =
     (case live_file env t relative of
        None \<Rightarrow> Inl (intelligence_stale ''before_request''
                  ''Code-intelligence target is not present in the confined live index''
                  [(''path'', JStr relative)])
      | Some (content, ihash) \<Rightarrow>
          (case read_text env (t + 1) relative (length content + 1) of
             Inl e \<Rightarrow> Inl e
           | Inr found \<Rightarrow>
               let disk_hash = map_option (content_hash (sn_sha env)) found
               in if disk_hash \<noteq> Some ihash
                  then Inl (intelligence_stale ''before_request''
                         ''Code-intelligence target no longer matches the confined live index''
                         [(''path'', JStr relative), (''indexed_hash'', JStr ihash),
                          (''disk_hash'', str_json disk_hash)])
                  else Inr \<lparr>sx_relative = relative, sx_content = content, sx_hash = ihash\<rparr>))"

text \<open>The disk at \<open>t\<close>, then the index.\<close>

definition verify_after_request :: "'d session_env \<Rightarrow> nat \<Rightarrow> session \<Rightarrow> string \<Rightarrow> app_error + unit" where
  "verify_after_request env t x synchronized_hash =
     (case read_text env t (sx_relative x) (length (sx_content x) + 1) of
        Inl e \<Rightarrow> Inl e
      | Inr found \<Rightarrow>
          let disk_hash = map_option (content_hash (sn_sha env)) found;
              ihash = live_hash env (t + 1) (sx_relative x)
          in if synchronized_hash = sx_hash x \<and> disk_hash = Some synchronized_hash
                \<and> ihash = Some synchronized_hash
             then Inr ()
             else Inl (intelligence_stale ''after_request''
                    ''Target changed while the semantic request was running''
                    [(''path'', JStr (sx_relative x)), (''synchronized_hash'', JStr synchronized_hash),
                     (''disk_hash'', str_json disk_hash), (''indexed_hash'', str_json ihash)]))"

datatype worker_operation =
    WorkDefinition lsp_cursor
  | WorkReferences lsp_cursor
  | WorkRename lsp_cursor string
  | WorkDiagnostics

record worker_response =
  wr_result :: json
  wr_synchronized :: synchronized_document
  wr_capabilities :: server_capabilities

text \<open>A backend: its preset, whether it is configured, its status, and the answer to an operation,
  with its next state and the moment it returns. The error is the public one.\<close>

record 'b backend =
  bk_preset :: lsp_preset
  bk_configured :: bool
  bk_status :: "'b \<Rightarrow> json"
  bk_execute :: "worker_operation \<Rightarrow> document_snapshot \<Rightarrow> 'b \<Rightarrow> nat
                 \<Rightarrow> (app_error + worker_response) \<times> 'b \<times> nat"

record fallback_reason =
  fbr_error :: app_error
  fbr_backend_status :: json

datatype 'a attempt = SemanticAnswer 'a worker_response | FallbackAnswer "fallback_reason option"

text \<open>The answer, the backend's state and the moment it is complete.\<close>

definition session_semantic ::
    "'d session_env \<Rightarrow> 'b backend \<Rightarrow> session \<Rightarrow> worker_operation \<Rightarrow> (worker_response \<Rightarrow> 'a rf)
     \<Rightarrow> 'b \<Rightarrow> nat \<Rightarrow> (app_error + 'a \<times> worker_response) \<times> 'b \<times> nat" where
  "session_semantic env bk x operation interpret b t =
     (let document = document_snapshot_new (sn_sha env) (document_uri (sn_codec env) (sx_relative x))
                       (preset_language_id (bk_preset bk)) (sx_content x)
      in case bk_execute bk operation document b t of
        (Inl e, b', t') \<Rightarrow> (Inl e, b', t')
      | (Inr response, b', t') \<Rightarrow>
          (case verify_after_request env t' x (sd_hash (wr_synchronized response)) of
             Inl e \<Rightarrow> (Inl e, b', t' + 2)
           | Inr _ \<Rightarrow>
               (case interpret response \<lparr>rs_cache = Map.empty, rs_time = t' + 2\<rparr> of
                  (Inl e, s) \<Rightarrow> (Inl e, b', rs_time s)
                | (Inr v, s) \<Rightarrow> (Inr (v, response), b', rs_time s))))"

definition session_attempt ::
    "'d session_env \<Rightarrow> 'b backend option \<Rightarrow> session \<Rightarrow> worker_operation \<Rightarrow> (worker_response \<Rightarrow> 'a rf)
     \<Rightarrow> 'b \<Rightarrow> nat \<Rightarrow> 'a attempt \<times> 'b \<times> nat" where
  "session_attempt env bk x operation interpret b t =
     (case bk of
        None \<Rightarrow> (FallbackAnswer None, b, t)
      | Some k \<Rightarrow>
          (case session_semantic env k x operation interpret b t of
             (Inr (v, response), b', t') \<Rightarrow> (SemanticAnswer v response, b', t')
           | (Inl e, b', t') \<Rightarrow>
               (FallbackAnswer (Some \<lparr>fbr_error = e, fbr_backend_status = bk_status k b'\<rparr>), b', t')))"

section \<open>Reads are fresh\<close>

text \<open>Text read as current at a moment: it was on disk then, and an index entry it has right after
  carries its hash.\<close>

definition current_at :: "'d session_env \<Rightarrow> string \<Rightarrow> string \<Rightarrow> nat \<Rightarrow> bool" where
  "current_at env path content t \<longleftrightarrow>
     read_text env t path max_result_file_bytes = Inr (Some content)
     \<and> live_hash env (t + 1) path \<in> {None, Some (content_hash (sn_sha env) content)}"

definition files_current :: "'d session_env \<Rightarrow> nat \<Rightarrow> result_files \<Rightarrow> bool" where
  "files_current env t s \<longleftrightarrow>
     (\<forall>path content. rs_cache s path = Some content \<longrightarrow>
        (\<exists>t'. t \<le> t' \<and> t' < rs_time s \<and> current_at env path content t')) \<and> t \<le> rs_time s"

lemma read_current_ok: "read_current env t path = Inr content \<longleftrightarrow> current_at env path content t"
  by (auto simp: read_current_def current_at_def Let_def split: sum.splits option.splits)

lemma files_content_current:
  assumes "files_content env path s = (r, s')" "files_current env t s"
  shows "files_current env t s' \<and> rs_time s \<le> rs_time s'
    \<and> (\<forall>content. r = Inr content \<longrightarrow> rs_cache s' path = Some content)
    \<and> (\<forall>p content. rs_cache s p = Some content \<longrightarrow> rs_cache s' p = Some content)"
proof (cases "rs_cache s path")
  case (Some content)
  with assms show ?thesis by (auto simp: files_content_def)
next
  case None
  show ?thesis
  proof (cases "read_current env (rs_time s) path")
    case (Inl e)
    with None assms have "s' = s\<lparr>rs_time := rs_time s + 2\<rparr>" "r = Inl e" by (simp_all add: files_content_def)
    with assms(2) show ?thesis unfolding files_current_def by fastforce
  next
    case (Inr content)
    with None assms(1) have s': "s' = \<lparr>rs_cache = (rs_cache s)(path \<mapsto> content), rs_time = rs_time s + 2\<rparr>" "r = Inr content"
      by (simp_all add: files_content_def)
    have "current_at env path content (rs_time s)" using Inr by (simp add: read_current_ok)
    moreover have "t \<le> rs_time s" using assms(2) by (simp add: files_current_def)
    ultimately have "\<exists>t'. t \<le> t' \<and> t' < rs_time s' \<and> current_at env p c t'" if "rs_cache s' p = Some c" for p c
    proof (cases "p = path")
      case True
      with that \<open>current_at env path content (rs_time s)\<close> \<open>t \<le> rs_time s\<close> show ?thesis
        by (intro exI [of _ "rs_time s"]) (simp add: s')
    next
      case False
      with that have "rs_cache s p = Some c" by (simp add: s')
      with assms(2) obtain t' where "t \<le> t'" "t' < rs_time s" "current_at env p c t'"
        unfolding files_current_def by blast
      then show ?thesis by (intro exI [of _ t']) (simp add: s')
    qed
    then have "files_current env t s'" using \<open>t \<le> rs_time s\<close> by (simp add: files_current_def s')
    with s' None show ?thesis by auto
  qed
qed

lemma rf_bind_Inr:
  "rf_bind m k s = (Inr v, s') \<longleftrightarrow> (\<exists>x s1. m s = (Inr x, s1) \<and> k x s1 = (Inr v, s'))"
  by (auto simp: rf_bind_def split: prod.splits sum.splits)

lemma rf_lift_Inr [simp]: "rf_lift r s = (Inr v, s') \<longleftrightarrow> r = Inr v \<and> s' = s"
  by (auto simp: rf_lift_def)

lemma rf_return_eq [simp]: "rf_return x s = (Inr v, s') \<longleftrightarrow> v = x \<and> s' = s"
  by (auto simp: rf_return_def)

text \<open>A rule for mapping over results: what every step keeps and shows.\<close>

lemma rf_map_Inr:
  assumes "rf_map f xs s = (Inr ys, s')" "I s"
    and "\<And>x y s s'. f x s = (Inr y, s') \<Longrightarrow> I s \<Longrightarrow> I s' \<and> R s s' \<and> P x y s'"
    and "\<And>s. R s s" "\<And>a b c. R a b \<Longrightarrow> R b c \<Longrightarrow> R a c"
    and "\<And>x y a b. P x y a \<Longrightarrow> R a b \<Longrightarrow> P x y b"
  shows "I s' \<and> R s s' \<and> list_all2 (\<lambda>x y. P x y s') xs ys"
  using assms(1,2)
proof (induction xs arbitrary: s ys)
  case Nil
  with assms(4) show ?case by simp
next
  case (Cons x xs)
  then obtain y s1 zs where f: "f x s = (Inr y, s1)" "rf_map f xs s1 = (Inr zs, s')" "ys = y # zs"
    by (auto simp: rf_bind_Inr)
  from assms(3) [OF f(1) Cons.prems(2)] have y: "I s1" "R s s1" "P x y s1" by auto
  from Cons.IH [OF f(2) y(1)] have "I s' \<and> R s1 s' \<and> list_all2 (\<lambda>x y. P x y s') xs zs" .
  with y f(3) show ?case by (auto intro: assms(5,6))
qed

text \<open>Reads only add to the cache.\<close>

definition files_grow :: "result_files \<Rightarrow> result_files \<Rightarrow> bool" where
  "files_grow s s' \<longleftrightarrow> (\<forall>p content. rs_cache s p = Some content \<longrightarrow> rs_cache s' p = Some content)"

lemma files_grow_refl [simp]: "files_grow s s" by (simp add: files_grow_def)

lemma files_grow_trans: "files_grow a b \<Longrightarrow> files_grow b c \<Longrightarrow> files_grow a c" by (simp add: files_grow_def)

lemma files_content_grows:
  assumes "files_content env path s = (Inr content, s')" "files_current env t s"
  shows "files_current env t s' \<and> files_grow s s' \<and> rs_cache s' path = Some content"
  using files_content_current [OF assms] by (simp add: files_grow_def)

section \<open>Edits applied backwards\<close>

text \<open>The reference: the text between the ranges, with each range replaced, left to right.\<close>

fun splice_from :: "nat \<Rightarrow> string \<Rightarrow> text_edit list \<Rightarrow> string" where
  "splice_from pos s [] = drop pos s"
| "splice_from pos s ((a, b, new_text) # rs) = drop pos (take a s) @ new_text @ splice_from b s rs"

lemma apply_edits_Cons: "apply_edits s ((a, b, n) # rs) = replace_bytes a b n (apply_edits s rs)"
  by (simp add: apply_edits_def)

lemma apply_edits_splice:
  assumes "\<not> overlapping rs" "\<forall>(a, b, n) \<in> set rs. a \<le> b \<and> b \<le> length s"
    and "case rs of [] \<Rightarrow> True | (a, _, _) # _ \<Rightarrow> pos \<le> a" "pos \<le> length s"
  shows "apply_edits s rs = take pos s @ splice_from pos s rs"
  using assms
proof (induction rs arbitrary: pos)
  case Nil
  then show ?case by (simp add: apply_edits_def)
next
  case (Cons r rs)
  obtain a b n where r: "r = (a, b, n)" by (cases r)
  from Cons.prems have b: "a \<le> b" "b \<le> length s" "pos \<le> a" by (auto simp: r)
  have "case rs of [] \<Rightarrow> True | (a', _, _) # _ \<Rightarrow> b \<le> a'"
    using Cons.prems(1) by (auto simp: r split: list.splits)
  moreover have "\<not> overlapping rs" using Cons.prems(1) by (cases rs) (auto simp: r)
  ultimately have "apply_edits s rs = take b s @ splice_from b s rs" using Cons b by simp
  then have "apply_edits s (r # rs) = take a s @ n @ splice_from b s rs"
    using b by (simp add: r apply_edits_Cons replace_bytes_def)
  also have "take a s = take pos s @ drop pos (take a s)"
    using b by (metis append_take_drop_id min.absorb1 take_take)
  finally show ?case by (simp add: r)
qed

lemma edit_range_bounds:
  assumes "edit_range content enc item = Inr (a, b, n)" "utf8_valid content"
  shows "a \<le> b \<and> b \<le> length content"
proof -
  from assms(1) obtain line column where
    o: "offset_for_server_position (str_chars content) line column enc = Inr b" and "a \<le> b"
    by (auto simp: edit_range_def Let_def split: sum.splits prod.splits if_splits json.splits)
  from offset_at_boundary [OF o] obtain k where k: "utf8_len (take k (str_chars content)) = b" .
  have "utf8_len (take k (str_chars content)) \<le> utf8_len (str_chars content)"
    by (metis append_take_drop_id le_add1 utf8_len_append)
  with k \<open>a \<le> b\<close> utf8_len_str_chars [OF assms(2)] show ?thesis by simp
qed

lemma edit_ranges_each:
  "edit_ranges content enc items = Inr rs \<Longrightarrow> list_all2 (\<lambda>item r. edit_range content enc item = Inr r) items rs"
proof (induction items arbitrary: rs)
  case (Cons item items)
  then show ?case by (cases "edit_ranges content enc items") (auto split: sum.splits)
qed simp

lemma of_char_of_u8 [simp]: "of_char (char_of (unat (b :: u8))) = b"
proof -
  have "(of_char (char_of (unat b)) :: u8) = of_nat (of_char (char_of (unat b)))" by (simp only: of_nat_of_char)
  also have "\<dots> = of_nat (unat b mod 256)" by (simp only: of_char_of)
  also have "unat b mod 256 = unat b"
  proof -
    have "unat b < 2 ^ LENGTH(8)" by (rule unsigned_less)
    then show ?thesis by simp
  qed
  finally show ?thesis by simp
qed

lemma text_bytes_bytes_text [simp]: "text_bytes (bytes_text bs) = bs"
  by (simp add: text_bytes_def bytes_text_def comp_def)

lemma read_text_valid:
  assumes "read_text env t path n = Inr (Some content)"
  shows "utf8_valid content"
proof -
  from assms obtain bs cs where "content = bytes_text bs" "from_utf8 bs = Inr cs"
    by (auto simp: read_text_def split: sum.splits option.splits)
  then show ?thesis by (simp add: utf8_valid_def)
qed

text \<open>What a compiled change is: a file of the workspace read as current, and its text with the
  server's edits made at once.\<close>

definition change_of_edits ::
    "'d session_env \<Rightarrow> position_encoding \<Rightarrow> string \<times> json \<Rightarrow> rename_change \<Rightarrow> bool" where
  "change_of_edits env enc document c \<longleftrightarrow>
     uri_relative (sn_codec env) (fst document) = Inr (rnc_path c)
     \<and> rnc_expected_hash c = content_hash (sn_sha env) (rnc_old_text c)
     \<and> (\<exists>items ranges. json_as_array (snd document) = Some items
          \<and> edit_ranges (rnc_old_text c) enc items = Inr ranges
          \<and> \<not> overlapping (sort_key fst ranges)
          \<and> rnc_new_text c = splice_from 0 (rnc_old_text c) (sort_key fst ranges))"

lemma edit_document_ok:
  assumes "edit_document env enc document s = (Inr c, s')" "files_current env t s"
  shows "files_current env t s' \<and> files_grow s s'
    \<and> (rs_cache s' (rnc_path c) = Some (rnc_old_text c) \<and> change_of_edits env enc document c)"
proof -
  from assms(1) obtain path before items ranges where
    u: "uri_relative (sn_codec env) (fst document) = Inr path"
    and f: "files_content env path s = (Inr before, s')"
    and i: "json_as_array (snd document) = Some items" "edit_ranges before enc items = Inr ranges"
    and r: "\<not> overlapping (sort_key fst ranges)"
    and c: "c = \<lparr>rnc_path = path, rnc_old_text = before, rnc_new_text = apply_edits before (sort_key fst ranges),
               rnc_expected_hash = content_hash (sn_sha env) before\<rparr>"
    by (auto simp: edit_document_def rf_bind_Inr Let_def split: option.splits if_splits)
  note s' = files_content_grows [OF f assms(2)]
  then obtain t' where "current_at env path before t'" unfolding files_current_def by blast
  then have v: "utf8_valid before" by (auto simp: current_at_def intro: read_text_valid)
  have "\<forall>(a, b, n) \<in> set ranges. a \<le> b \<and> b \<le> length before"
    using edit_ranges_each [OF i(2)] edit_range_bounds [OF _ v]
    by (fastforce simp: list_all2_conv_all_nth in_set_conv_nth)
  then have "apply_edits before (sort_key fst ranges) = splice_from 0 before (sort_key fst ranges)"
    using apply_edits_splice [OF r, of before 0] by (auto split: list.splits)
  with u i r c s' show ?thesis by (auto simp: change_of_edits_def)
qed

section \<open>Properties\<close>

text \<open>C35. A rename edits current files, all ranges at once. When a workspace edit compiles, each of
  its documents gave one change, in order: its old text was read from a file below the root at a
  moment of this request, where the index, if it has the file, agreed; and its new text is that
  text with the server's ranges replaced simultaneously, though the code replaces them in place
  from the last to the first.\<close>

theorem workspace_edit_is_simultaneous:
  assumes "workspace_edit_changes env enc edit s = (Inr changes, s')" "files_current env t s"
  shows "\<exists>documents. edit_documents edit = Inr documents \<and> documents \<noteq> []
    \<and> list_all2 (\<lambda>document c. change_of_edits env enc document c
         \<and> (\<exists>t'. t \<le> t' \<and> t' < rs_time s' \<and> current_at env (rnc_path c) (rnc_old_text c) t'))
        documents changes"
proof -
  from assms(1) obtain documents where d: "edit_documents edit = Inr documents"
    and m: "rf_map (edit_document env enc) documents s = (Inr changes, s')"
    by (auto simp: workspace_edit_changes_def rf_bind_Inr)
  have "files_current env t s' \<and> files_grow s s'
      \<and> list_all2 (\<lambda>document c. rs_cache s' (rnc_path c) = Some (rnc_old_text c)
            \<and> change_of_edits env enc document c) documents changes"
    by (rule rf_map_Inr [where I = "files_current env t" and R = files_grow, OF m assms(2) edit_document_ok])
      (auto intro: files_grow_trans simp: files_grow_def)
  moreover have "documents \<noteq> []" using d by (auto simp: edit_documents_def Let_def split: sum.splits if_splits)
  ultimately show ?thesis
    using d unfolding files_current_def by (auto elim!: list_all2_mono)
qed

text \<open>C36. A semantic answer is current. It is given only when the hash of the text the server
  answered against is the hash of the target in the index and on disk when the session was
  opened, and again on disk and in the index after the server returned; any other
  interleaving of changes ends in the fallback.\<close>

theorem semantic_answers_are_current:
  assumes "session_open env t0 relative = Inr x"
    and "session_attempt env (Some bk) x operation interpret b t = (SemanticAnswer v response, b', t')"
  shows "\<exists>t1. fst (bk_execute bk operation
           (document_snapshot_new (sn_sha env) (document_uri (sn_codec env) relative)
              (preset_language_id (bk_preset bk)) (sx_content x)) b t) = Inr response
    \<and> t1 = snd (snd (bk_execute bk operation
           (document_snapshot_new (sn_sha env) (document_uri (sn_codec env) relative)
              (preset_language_id (bk_preset bk)) (sx_content x)) b t))
    \<and> (let h = sd_hash (wr_synchronized response) in
         live_file env t0 relative = Some (sx_content x, h)
       \<and> (\<exists>c. read_text env (t0 + 1) relative (length (sx_content x) + 1) = Inr (Some c) \<and> content_hash (sn_sha env) c = h)
       \<and> (\<exists>c. read_text env t1 relative (length (sx_content x) + 1) = Inr (Some c) \<and> content_hash (sn_sha env) c = h)
       \<and> live_hash env (t1 + 1) relative = Some h)"
proof -
  from assms(1) have x: "live_file env t0 relative = Some (sx_content x, sx_hash x)" "sx_relative x = relative"
    "\<exists>c. read_text env (t0 + 1) relative (length (sx_content x) + 1) = Inr (Some c) \<and> content_hash (sn_sha env) c = sx_hash x"
    by (auto simp: session_open_def Let_def split: option.splits sum.splits if_splits)
  from assms(2) obtain b1 t1 where e: "bk_execute bk operation
           (document_snapshot_new (sn_sha env) (document_uri (sn_codec env) relative)
              (preset_language_id (bk_preset bk)) (sx_content x)) b t = (Inr response, b1, t1)"
    "verify_after_request env t1 x (sd_hash (wr_synchronized response)) = Inr ()"
    by (auto simp: session_attempt_def session_semantic_def Let_def x(2) split: prod.splits sum.splits)
  then have "sd_hash (wr_synchronized response) = sx_hash x"
    "\<exists>c. read_text env t1 relative (length (sx_content x) + 1) = Inr (Some c) \<and> content_hash (sn_sha env) c = sx_hash x"
    "live_hash env (t1 + 1) relative = Some (sx_hash x)"
    by (auto simp: verify_after_request_def Let_def x(2) split: sum.splits option.splits if_splits)
  with e x show ?thesis by (simp add: Let_def)
qed


section \<open>A concrete session\<close>

definition sample_world :: "mem_dir live_world" where
  "sample_world =
     \<lparr>lw_disk = \<lparr>mem_files = [[Normal ''a''] \<mapsto> ''x''], mem_faults = [], mem_uuids = 0\<rparr>,
      lw_index = \<lparr>ci_files = [entry_with_symbols ''a'' ''x'' (content_hash sample_sha ''x'') [] 0 0],
                 ci_symbol_index = [], ci_snapshot_acc = []\<rparr>\<rparr>"

definition sample_session_env :: "mem_dir session_env" where
  "sample_session_env = \<lparr>sn_ops = mem_ops, sn_sha = sample_sha, sn_codec = uri_codec_new ''/w'' None,
     sn_history = (\<lambda>_. sample_world)\<rparr>"

definition sample_cursor :: "int \<Rightarrow> int \<Rightarrow> json" where
  "sample_cursor line character = JObj [(''line'', JNum line), (''character'', JNum character)]"

definition sample_edit :: json where
  "sample_edit = JObj [(''changes'', JObj [(''file:///w/a'', JArr [JObj
     [(''range'', JObj [(''start'', sample_cursor 0 0), (''end'', sample_cursor 0 1)]), (''newText'', JStr ''yz'')]])])]"

definition sample_session :: session where
  "sample_session = \<lparr>sx_relative = ''a'', sx_content = ''x'', sx_hash = content_hash sample_sha ''x''\<rparr>"

definition sample_response :: "document_snapshot \<Rightarrow> worker_response" where
  "sample_response s = \<lparr>wr_result = sample_edit, wr_synchronized = \<lparr>sd_hash = dsn_hash s, sd_version = 1\<rparr>,
     wr_capabilities = capabilities_none\<rparr>"

definition sample_backend :: "unit backend" where
  "sample_backend = \<lparr>bk_preset = RustPreset, bk_configured = True, bk_status = (\<lambda>_. JNull),
     bk_execute = (\<lambda>_ s b t. (Inr (sample_response s), b, t + 1))\<rparr>"

lemma sample_read_text: "1 \<le> n \<Longrightarrow> read_text sample_session_env t ''a'' n = Inr (Some ''x'')"
  by (simp add: read_text_def sample_session_env_def sample_world_def sample_rel_path read_file_def open_regular_def
      mem_ops_def mem_metadata_def sample_components read_bounded_def usize_max_def bytes_text_def
      utf8_next_def utf8_char_width_def char_of_def bit_Suc_0_iff)

lemma sample_live:
  "live_file sample_session_env t ''a'' = Some (''x'', content_hash sample_sha ''x'')"
  "live_hash sample_session_env t ''a'' = Some (content_hash sample_sha ''x'')"
proof -
  have "map_option (\<lambda>f. (fe_content f, fe_hash f))
      (index_get \<lparr>ci_files = [entry_with_symbols ''a'' ''x'' h [] 0 0], ci_symbol_index = [], ci_snapshot_acc = []\<rparr> ''a'')
      = Some (''x'', h)" for h
    by (simp add: index_get_def index_lookup_def entry_with_symbols_def
        rel_path_new_ok [OF sample_rel_path, THEN conjunct2, symmetric])
  then show "live_file sample_session_env t ''a'' = Some (''x'', content_hash sample_sha ''x'')"
    "live_hash sample_session_env t ''a'' = Some (content_hash sample_sha ''x'')"
    by (auto simp: live_file_def live_hash_def sample_session_env_def sample_world_def)
qed

lemma sample_session_opens: "session_open sample_session_env t ''a'' = Inr sample_session"
  by (simp add: session_open_def sample_live sample_read_text sample_session_def)
    (simp add: sample_session_env_def)

lemma sample_reads: "files_content sample_session_env ''a'' \<lparr>rs_cache = Map.empty, rs_time = t\<rparr>
    = (Inr ''x'', \<lparr>rs_cache = [''a'' \<mapsto> ''x''], rs_time = t + 2\<rparr>)"
proof -
  have "read_current sample_session_env t ''a'' = Inr ''x''"
    by (simp add: read_current_ok current_at_def sample_read_text sample_live max_result_file_bytes_def)
      (simp add: sample_session_env_def)
  then show ?thesis by (simp add: files_content_def)
qed

lemma sample_uri: "uri_relative (sn_codec sample_session_env) ''file:///w/a'' = Inr ''a''"
  by (simp add: sample_session_env_def uri_relative_def decode_file_uri_def slash_def percent_decode_def text_bytes_def
      utf8_next_def utf8_char_width_def uri_codec_new_def comparable_text_def trim_separators_def strip_root_def)

lemma sample_range: "edit_ranges ''x'' Utf16 (case sample_edit of JObj [(_, JObj [(_, JArr items)])] \<Rightarrow> items)
    = Inr [(0, 1, ''yz'')]"
  by (simp add: sample_edit_def edit_range_def json_at_def json_get_def lsp_position_def position_number_def
      sample_cursor_def json_as_u64_def offset_for_server_position_def edit_line_def str_chars_def text_bytes_def
      from_utf8_lossy_def utf8_next_def utf8_char_width_def unl_def strip_newline_def prefix_for_server_column_def
      prefix_for_utf16_column_def len_utf16_def len_utf8_def)

definition sample_change :: rename_change where
  "sample_change = \<lparr>rnc_path = ''a'', rnc_old_text = ''x'', rnc_new_text = ''yz'',
     rnc_expected_hash = content_hash sample_sha ''x''\<rparr>"

lemma sample_compiles:
  "workspace_edit_changes sample_session_env Utf16 sample_edit \<lparr>rs_cache = Map.empty, rs_time = t\<rparr>
     = (Inr [sample_change], \<lparr>rs_cache = [''a'' \<mapsto> ''x''], rs_time = t + 2\<rparr>)"
proof -
  have d: "edit_documents sample_edit
      = Inr [(''file:///w/a'', JArr (case sample_edit of JObj [(_, JObj [(_, JArr items)])] \<Rightarrow> items))]"
    by (simp add: edit_documents_def sample_edit_def json_get_def json_as_object_def)
  have "edit_document sample_session_env Utf16
      (''file:///w/a'', JArr (case sample_edit of JObj [(_, JObj [(_, JArr items)])] \<Rightarrow> items))
      \<lparr>rs_cache = Map.empty, rs_time = t\<rparr> = (Inr sample_change, \<lparr>rs_cache = [''a'' \<mapsto> ''x''], rs_time = t + 2\<rparr>)"
    unfolding edit_document_def
    by (simp add: rf_bind_def rf_lift_def rf_return_def sample_uri sample_reads sample_range json_as_array_def
        apply_edits_def replace_bytes_def sample_change_def)
      (simp add: sample_session_env_def)
  with d show ?thesis
    by (simp add: workspace_edit_changes_def rf_bind_def rf_lift_def rf_return_def)
qed

theorem workspace_edit_is_simultaneous_witness:
  "\<exists>documents s'.
     workspace_edit_changes sample_session_env Utf16 sample_edit \<lparr>rs_cache = Map.empty, rs_time = 3\<rparr>
       = (Inr [sample_change], s')
   \<and> list_all2 (\<lambda>document c. change_of_edits sample_session_env Utf16 document c
         \<and> (\<exists>t'. 3 \<le> t' \<and> t' < rs_time s' \<and> current_at sample_session_env (rnc_path c) (rnc_old_text c) t'))
        documents [sample_change]"
proof -
  have "files_current sample_session_env 3 \<lparr>rs_cache = Map.empty, rs_time = 3\<rparr>" by (simp add: files_current_def)
  from workspace_edit_is_simultaneous [OF sample_compiles this] sample_compiles show ?thesis by blast
qed

theorem semantic_answers_are_current_witness:
  "\<exists>b' t'. session_attempt sample_session_env (Some sample_backend) sample_session WorkDiagnostics
       (\<lambda>r. workspace_edit_changes sample_session_env Utf16 (wr_result r)) () 5
       = (SemanticAnswer [sample_change] (sample_response (document_snapshot_new sample_sha
            (document_uri (sn_codec sample_session_env) ''a'') ''rust'' ''x'')), b', t')
   \<and> live_hash sample_session_env 7 ''a'' = Some (content_hash sample_sha ''x'')"
proof -
  have sha: "sn_sha sample_session_env = sample_sha" by (simp add: sample_session_env_def)
  have v: "verify_after_request sample_session_env 6 sample_session (content_hash sample_sha ''x'') = Inr ()"
    by (simp add: verify_after_request_def sample_session_def sample_read_text sample_live sha)
  have a: "session_attempt sample_session_env (Some sample_backend) sample_session WorkDiagnostics
       (\<lambda>r. workspace_edit_changes sample_session_env Utf16 (wr_result r)) () 5
       = (SemanticAnswer [sample_change] (sample_response (document_snapshot_new sample_sha
            (document_uri (sn_codec sample_session_env) ''a'') ''rust'' ''x'')), (), 10)"
    using v sample_compiles [of 8]
    by (simp add: session_attempt_def session_semantic_def sample_backend_def sample_response_def sha
        document_snapshot_new_def sample_session_def)
  from semantic_answers_are_current [OF sample_session_opens [of 0] a]
  have "live_hash sample_session_env (6 + 1) ''a'' = Some (content_hash sample_sha ''x'')"
    by (simp add: sample_backend_def Let_def sample_response_def document_snapshot_new_def)
  with a show ?thesis by simp
qed

end
