(* ===== verification/Git_Repository.thy ===== *)
theory Git_Repository
  imports Workspace_State Text_Util
begin

text \<open>
  Git behind its command line (\<open>src/repository/\<close>): the classification of a failed run and
  the cut of its output (\<open>runner.rs\<close>), the status records (\<open>porcelain.rs\<close>), the hunks of a
  diff (\<open>diff.rs\<close>) and the arguments of each operation (\<open>cli.rs\<close>). The executable is the
  parameter \<open>git\<close>: what a run with given arguments and timeout answers, its standard output or
  why it failed. File contents come from the workspace root.
\<close>

section \<open>Runs\<close>

datatype git_failure =
    GitUnavailableF string
  | GitTimedOutF nat
  | GitNotRepositoryF string
  | GitFailedF "int option" string
  | GitWaitF string

type_synonym git_exec = "string list \<Rightarrow> nat \<Rightarrow> git_failure + u8 list"

definition git_default_timeout :: nat where "git_default_timeout = 30000"
definition git_push_timeout :: nat where "git_push_timeout = 120000"
definition not_repository_exit :: int where "not_repository_exit = 128"

definition git_args_json :: "string list \<Rightarrow> string \<times> json" where
  "git_args_json args = (''args'', JArr (map JStr args))"

definition git_error :: "string list \<Rightarrow> git_failure \<Rightarrow> app_error" where
  "git_error args failure =
     (case failure of
        GitUnavailableF m \<Rightarrow> error_with_details GitUnavailable m (JObj [git_args_json args])
      | GitTimedOutF ms \<Rightarrow>
          error_with_details GitTimeout ''Git operation timed out''
            (JObj [git_args_json args, (''timeout_ms'', JNum (int ms))])
      | GitNotRepositoryF stderr \<Rightarrow>
          error_with_details GitFailed stderr
            (JObj [git_args_json args, (''exit_code'', JNum not_repository_exit)])
      | GitFailedF exit_code stderr \<Rightarrow>
          error_with_details GitFailed stderr
            (JObj [git_args_json args,
                   (''exit_code'', case exit_code of None \<Rightarrow> JNull | Some n \<Rightarrow> JNum n)])
      | GitWaitF m \<Rightarrow> error_with_details GitFailed m (JObj [git_args_json args]))"

definition git_classify :: "int option \<Rightarrow> string \<Rightarrow> git_failure" where
  "git_classify exit_code stderr =
     (let t = trim stderr
      in if exit_code = Some not_repository_exit \<and> contains (ascii_lower t) ''not a git repository''
         then GitNotRepositoryF t else GitFailedF exit_code t)"

definition ellipsis :: string where
  "ellipsis = map char_of [0xE2::nat, 0x80, 0xA6]"

definition truncation_marker :: string where
  "truncation_marker = [nl] @ ellipsis @ '' output truncated '' @ ellipsis"

definition truncate_output :: "string \<Rightarrow> nat \<Rightarrow> string" where
  "truncate_output t max_chars =
     (if length t \<le> max_chars then t
      else let marker = (if length truncation_marker \<le> max_chars then truncation_marker else [])
           in take (floor_char_boundary t (max_chars - length marker)) t @ marker)"

definition lossy_string :: "u8 list \<Rightarrow> string" where
  "lossy_string bytes = chars_str (from_utf8_lossy bytes)"

definition git_run_timeout :: "git_exec \<Rightarrow> string list \<Rightarrow> nat \<Rightarrow> nat \<Rightarrow> app_error + string" where
  "git_run_timeout git args max_chars timeout_ms =
     (case git args timeout_ms of
        Inl f \<Rightarrow> Inl (git_error args f)
      | Inr stdout \<Rightarrow> Inr (truncate_output (lossy_string stdout) max_chars))"

definition git_run :: "git_exec \<Rightarrow> string list \<Rightarrow> nat \<Rightarrow> app_error + string" where
  "git_run git args max_chars = git_run_timeout git args max_chars git_default_timeout"

definition require_worktree :: "git_exec \<Rightarrow> string \<Rightarrow> app_error + unit" where
  "require_worktree git root =
     (let args = [''rev-parse'', ''--is-inside-work-tree''];
          not_repository = (\<lambda>stderr. error_with_details NotGitRepository
             ''workspace.path must be a Git worktree''
             (JObj [(''path'', JStr root), (''stderr'', JStr stderr)]))
      in case git args git_default_timeout of
           Inr stdout \<Rightarrow>
             if trim (lossy_string stdout) = ''true'' then Inr () else Inl (not_repository [])
         | Inl (GitUnavailableF m) \<Rightarrow>
             Inl (error_with_details GitUnavailable m
                    (JObj [(''command'', JStr ''git rev-parse --is-inside-work-tree'')]))
         | Inl (GitNotRepositoryF stderr) \<Rightarrow> Inl (not_repository stderr)
         | Inl (GitFailedF _ stderr) \<Rightarrow> Inl (not_repository stderr)
         | Inl f \<Rightarrow> Inl (git_error args f))"

section \<open>The status records\<close>

definition normalized_path :: "string \<Rightarrow> string option" where
  "normalized_path p = (let q = normalize_path_text p in if q = [] then None else Some q)"

text \<open>\<open>splitn(n, ' ').nth(n - 1)\<close>: the rest after \<open>n - 1\<close> spaces.\<close>

fun after_spaces :: "nat \<Rightarrow> string \<Rightarrow> string option" where
  "after_spaces 0 s = Some s"
| "after_spaces (Suc n) [] = None"
| "after_spaces (Suc n) (c # cs) = (if c = CHR '' '' then after_spaces n cs else after_spaces (Suc n) cs)"

definition porcelain_path :: "string \<Rightarrow> nat \<Rightarrow> string option" where
  "porcelain_path rec field_count = Option.bind (after_spaces (field_count - 1) rec) normalized_path"

record porcelain =
  pc_head :: string
  pc_branch :: string
  pc_dirty :: "string set"
  pc_staged :: "string set"
  pc_unstaged :: "string set"
  pc_untracked :: "string set"

definition porcelain_empty :: porcelain where
  "porcelain_empty = \<lparr>pc_head = [], pc_branch = [], pc_dirty = {}, pc_staged = {}, pc_unstaged = {},
     pc_untracked = {}\<rparr>"

text \<open>The flags \<open>XY\<close> are the third and fourth characters; a missing one is a dot.\<close>

definition flag_char :: "string \<Rightarrow> nat \<Rightarrow> uchar" where
  "flag_char rec n = (let cs = str_chars rec in if n < length cs then cs ! n else 46)"

definition add_changed :: "string \<Rightarrow> string \<Rightarrow> porcelain \<Rightarrow> porcelain" where
  "add_changed rec path pc =
     pc\<lparr>pc_dirty := insert path (pc_dirty pc),
        pc_staged := (if flag_char rec 2 \<noteq> 46 then insert path (pc_staged pc) else pc_staged pc),
        pc_unstaged := (if flag_char rec 3 \<noteq> 46 then insert path (pc_unstaged pc) else pc_unstaged pc)\<rparr>"

definition add_opt :: "string option \<Rightarrow> (string \<Rightarrow> porcelain \<Rightarrow> porcelain) \<Rightarrow> porcelain \<Rightarrow> porcelain" where
  "add_opt p f pc = (case p of None \<Rightarrow> pc | Some q \<Rightarrow> f q pc)"

text \<open>The loop over the records: a rename takes the next record as its original path.\<close>

fun porcelain_loop :: "string list \<Rightarrow> porcelain \<Rightarrow> porcelain" where
  "porcelain_loop [] pc = pc"
| "porcelain_loop (rec # records) pc =
     (case strip_prefix ''# branch.oid '' rec of
        Some oid \<Rightarrow> porcelain_loop records (if oid \<noteq> ''(initial)'' then pc\<lparr>pc_head := oid\<rparr> else pc)
      | None \<Rightarrow>
     (case strip_prefix ''# branch.head '' rec of
        Some branch \<Rightarrow>
          porcelain_loop records (if branch \<noteq> ''(detached)'' then pc\<lparr>pc_branch := branch\<rparr> else pc)
      | None \<Rightarrow>
     (case rec of
        [] \<Rightarrow> porcelain_loop records pc
      | c # _ \<Rightarrow>
          if c = CHR ''1'' then porcelain_loop records (add_opt (porcelain_path rec 9) (add_changed rec) pc)
          else if c = CHR ''2''
          then let pc1 = add_opt (porcelain_path rec 10) (add_changed rec) pc
               in (case records of
                     [] \<Rightarrow> pc1
                   | next # later \<Rightarrow>
                       (case normalized_path next of
                          Some original \<Rightarrow>
                            porcelain_loop later (pc1\<lparr>pc_dirty := insert original (pc_dirty pc1)\<rparr>)
                        | None \<Rightarrow> porcelain_loop records pc1))
          else if c = CHR ''u''
          then porcelain_loop records (add_opt (porcelain_path rec 11)
                 (\<lambda>p pc. pc\<lparr>pc_dirty := insert p (pc_dirty pc), pc_staged := insert p (pc_staged pc),
                           pc_unstaged := insert p (pc_unstaged pc)\<rparr>) pc)
          else if c = CHR 0x3F
          then porcelain_loop records (add_opt (Option.bind (strip_prefix (CHR 0x3F # '' '') rec) normalized_path)
                 (\<lambda>p pc. pc\<lparr>pc_dirty := insert p (pc_dirty pc), pc_untracked := insert p (pc_untracked pc)\<rparr>) pc)
          else porcelain_loop records pc)))"

definition parse_porcelain_v2 :: "string \<Rightarrow> repo_status" where
  "parse_porcelain_v2 raw =
     (let pc = porcelain_loop (filter (\<lambda>r. r \<noteq> []) (split_on nul raw)) porcelain_empty
      in \<lparr>rs_is_git = True, rs_head = pc_head pc, rs_branch = pc_branch pc,
          rs_dirty_files = sorted_list_of_set (pc_dirty pc),
          rs_staged_files = sorted_list_of_set (pc_staged pc),
          rs_unstaged_files = sorted_list_of_set (pc_unstaged pc),
          rs_untracked_files = sorted_list_of_set (pc_untracked pc),
          rs_partially_staged_files = sorted_list_of_set (pc_staged pc \<inter> pc_unstaged pc)\<rparr>)"

section \<open>Diffs\<close>

record line_span =
  ls_start :: nat
  ls_count :: nat

record diff_hunk =
  dh_id :: string
  dh_path :: string
  dh_old :: line_span
  dh_new :: line_span
  dh_text :: string

record diff =
  df_text :: string
  df_hunks :: "diff_hunk list"

definition span_overlaps :: "line_span \<Rightarrow> nat \<Rightarrow> nat \<Rightarrow> bool" where
  "span_overlaps s start end \<longleftrightarrow>
     0 < ls_count s \<and> ls_start s \<le> end \<and> start \<le> saturating_add (ls_start s) (ls_count s - 1)"

definition hunk_overlaps :: "diff_hunk \<Rightarrow> nat \<Rightarrow> nat \<Rightarrow> bool" where
  "hunk_overlaps h start end \<longleftrightarrow> span_overlaps (dh_old h) start end \<or> span_overlaps (dh_new h) start end"

definition diff_select :: "diff \<Rightarrow> (nat \<times> nat) list \<Rightarrow> string list \<Rightarrow> diff_hunk list" where
  "diff_select d ranges ids =
     filter (\<lambda>h. ids = [] \<or> dh_id h \<in> set ids)
       (filter (\<lambda>h. \<forall>(start, end) \<in> set ranges. hunk_overlaps h start end) (df_hunks d))"

definition split_once :: "char \<Rightarrow> string \<Rightarrow> (string \<times> string) option" where
  "split_once c s =
     (if c \<in> set s then Some (takeWhile (\<lambda>x. x \<noteq> c) s, drop 1 (dropWhile (\<lambda>x. x \<noteq> c) s)) else None)"

definition parse_span :: "string \<Rightarrow> line_span" where
  "parse_span v =
     (let v1 = dropWhile (\<lambda>c. c = CHR ''-'' \<or> c = CHR ''+'') v;
          (start, count) = (case split_once CHR '','' v1 of Some p \<Rightarrow> p | None \<Rightarrow> (v1, ''1''))
      in \<lparr>ls_start = (case parse_usize start of Some n \<Rightarrow> n | None \<Rightarrow> 0),
          ls_count = (case parse_usize count of Some n \<Rightarrow> n | None \<Rightarrow> 1)\<rparr>)"

text \<open>\<open>split_whitespace\<close>\<close>

fun word_split :: "string \<Rightarrow> string \<times> string" where
  "word_split [] = ([], [])"
| "word_split (c # cs) =
     (if strip_any white_encodings (c # cs) \<noteq> None then ([], c # cs)
      else (case word_split cs of (w, rest) \<Rightarrow> (c # w, rest)))"

lemma word_split_length: "length (snd (word_split s)) \<le> length s"
  by (induction s) (auto simp: case_prod_beta)

lemma length_trim_with: "length (trim_with ps s) \<le> length s"
  using trim_with_suffix [of s ps] by (metis length_append le_add2)

function split_whitespace :: "string \<Rightarrow> string list" where
  "split_whitespace s =
     (case trim_start s of
        [] \<Rightarrow> []
      | c # cs \<Rightarrow> (c # fst (word_split cs)) # split_whitespace (snd (word_split cs)))"
  by pat_completeness auto
termination
proof (relation "measure length", simp)
  fix s c cs assume "trim_start s = c # cs"
  then have "length (c # cs) \<le> length s" using length_trim_with [of white_encodings s] by (simp add: trim_start_def)
  then show "(snd (word_split cs), s) \<in> measure length" using word_split_length [of cs] by simp
qed

declare split_whitespace.simps [simp del]

record open_hunk =
  oh_old :: line_span
  oh_new :: line_span
  oh_text :: string

record hunk_state =
  hs_hunks :: "diff_hunk list"
  hs_path :: string
  hs_header :: string
  hs_active :: "open_hunk option"

definition finish_hunk :: "sha256 \<Rightarrow> hunk_state \<Rightarrow> hunk_state" where
  "finish_hunk sha st =
     (case hs_active st of
        None \<Rightarrow> st
      | Some h \<Rightarrow>
          st\<lparr>hs_active := None,
             hs_hunks := hs_hunks st @
               [\<lparr>dh_id = content_hash sha (hs_path st @ [nul] @ show_nat (ls_start (oh_old h)) @ [nul]
                          @ show_nat (ls_start (oh_new h)) @ [nul] @ oh_text h),
                 dh_path = hs_path st, dh_old = oh_old h, dh_new = oh_new h, dh_text = oh_text h\<rparr>]\<rparr>)"

definition hunk_span :: "string list \<Rightarrow> nat \<Rightarrow> line_span" where
  "hunk_span fs i = (if i < length fs then parse_span (fs ! i) else \<lparr>ls_start = 0, ls_count = 0\<rparr>)"

definition hunk_line :: "sha256 \<Rightarrow> hunk_state \<Rightarrow> string \<Rightarrow> hunk_state" where
  "hunk_line sha st line =
     (if starts_with line ''diff --git ''
      then (finish_hunk sha st)\<lparr>hs_header := line, hs_path := []\<rparr>
      else let st1 = (case strip_prefix ''+++ b/'' line of
                        Some v \<Rightarrow> st\<lparr>hs_path := trim_end v\<rparr> | None \<Rightarrow> st)
           in if starts_with line ''@@ ''
              then let st2 = finish_hunk sha st1; fs = split_whitespace line
                   in st2\<lparr>hs_active := Some \<lparr>oh_old = hunk_span fs 1, oh_new = hunk_span fs 2,
                                             oh_text = hs_header st2 @ line\<rparr>\<rparr>
              else (case hs_active st1 of
                      Some h \<Rightarrow> st1\<lparr>hs_active := Some (h\<lparr>oh_text := oh_text h @ line\<rparr>)\<rparr>
                    | None \<Rightarrow> st1\<lparr>hs_header := hs_header st1 @ line\<rparr>))"

definition parse_hunks :: "sha256 \<Rightarrow> string \<Rightarrow> diff_hunk list" where
  "parse_hunks sha d =
     hs_hunks (finish_hunk sha
       (foldl (hunk_line sha) \<lparr>hs_hunks = [], hs_path = [], hs_header = [], hs_active = None\<rparr>
          (split_inclusive d)))"

definition diff_parse :: "sha256 \<Rightarrow> string \<Rightarrow> diff" where
  "diff_parse sha t = \<lparr>df_text = t, df_hunks = parse_hunks sha t\<rparr>"

section \<open>The operations\<close>

definition string_prefix :: "string \<Rightarrow> nat \<Rightarrow> string \<times> bool" where
  "string_prefix t max_bytes =
     (if length t \<le> max_bytes then (t, False) else (take (floor_char_boundary t max_bytes) t, True))"

definition utf8_prefix :: "u8 list \<Rightarrow> bool \<Rightarrow> (string \<times> bool) option" where
  "utf8_prefix bytes truncated =
     (case from_utf8 bytes of
        Inr _ \<Rightarrow> Some (bytes_text bytes, truncated)
      | Inl (valid_up_to, error_len) \<Rightarrow>
          if truncated \<and> error_len = None then Some (bytes_text (take valid_up_to bytes), truncated)
          else None)"

definition new_file_header :: "string \<Rightarrow> string \<Rightarrow> string" where
  "new_file_header path mode =
     ''diff --git a/'' @ path @ '' b/'' @ path @ [nl] @ ''new file mode '' @ mode @ [nl]
     @ ''--- /dev/null'' @ [nl] @ ''+++ b/'' @ path @ [nl]"

text \<open>The mode and content of one untracked file within the budget; \<open>None\<close> is skipped.\<close>

definition untracked_content ::
    "'d dir_ops \<Rightarrow> 'd \<Rightarrow> rel_path \<Rightarrow> nat \<Rightarrow> (string \<times> string \<times> bool) option" where
  "untracked_content ops d p remaining =
     (case read_link ops d p of
        Inr (Some target) \<Rightarrow> Some (''120000'', string_prefix target remaining)
      | _ \<Rightarrow>
          (case read_prefix ops d p remaining of
             Inr (Some (bytes, truncated)) \<Rightarrow>
               (case utf8_prefix bytes truncated of None \<Rightarrow> None | Some c \<Rightarrow> Some (''100644'', c))
           | _ \<Rightarrow> None))"

definition new_file_hunk :: "string \<Rightarrow> string" where
  "new_file_hunk content =
     (let ls = str_lines content
      in (if ls = [] then [] else if length ls = 1 then ''@@ -0,0 +1 @@'' @ [nl]
          else ''@@ -0,0 +1,'' @ show_nat (length ls) @ '' @@'' @ [nl])
         @ concat (map (\<lambda>l. CHR ''+'' # l @ [nl]) ls))"

fun untracked_loop :: "'d dir_ops \<Rightarrow> 'd \<Rightarrow> nat \<Rightarrow> string \<Rightarrow> string list \<Rightarrow> string" where
  "untracked_loop ops d max_chars diff [] = diff"
| "untracked_loop ops d max_chars diff (name # names) =
     (case Option.bind (normalized_path name) (\<lambda>p. case rel_path_new p of Inr q \<Rightarrow> Some q | Inl _ \<Rightarrow> None) of
        None \<Rightarrow> untracked_loop ops d max_chars diff names
      | Some p \<Rightarrow>
          (case untracked_content ops d p (max_chars - (length diff + length (new_file_header p ''100644''))) of
             None \<Rightarrow> untracked_loop ops d max_chars diff names
           | Some (mode, content, content_truncated) \<Rightarrow>
               let diff1 = diff @ new_file_header p mode @ new_file_hunk content
                     @ (if \<not> content_truncated \<and> \<not> ends_with content [nl]
                        then [CHR 0x5C] @ '' No newline at end of file'' @ [nl] else [])
               in if content_truncated \<or> max_chars < length diff1
                  then truncate_output (if length diff1 \<le> max_chars then diff1 @ [nl] else diff1) max_chars
                  else untracked_loop ops d max_chars diff1 names))"

definition untracked_diff ::
    "git_exec \<Rightarrow> 'd dir_ops \<Rightarrow> 'd \<Rightarrow> rel_path list \<Rightarrow> nat \<Rightarrow> app_error + string" where
  "untracked_diff git ops d paths max_chars =
     (case git_run git ([''ls-files'', ''--others'', ''--exclude-standard'', ''-z'', ''--'']
                         @ filter (\<lambda>p. p \<noteq> []) paths) usize_max of
        Inl e \<Rightarrow> Inl e
      | Inr untracked \<Rightarrow>
          Inr (untracked_loop ops d max_chars [] (filter (\<lambda>p. p \<noteq> []) (split_on nul untracked))))"

definition git_status :: "git_exec \<Rightarrow> app_error + repo_status" where
  "git_status git =
     (let args = [''status'', ''--porcelain=v2'', ''-z'', ''--branch'', ''--untracked-files=all'']
      in case git args git_default_timeout of
           Inr stdout \<Rightarrow> Inr (parse_porcelain_v2 (lossy_string stdout))
         | Inl (GitNotRepositoryF _) \<Rightarrow> Inr repo_status_default
         | Inl f \<Rightarrow> Inl (git_error args f))"

definition diff_args :: "bool \<Rightarrow> rel_path list \<Rightarrow> string list" where
  "diff_args staged paths =
     [''diff'', ''--no-ext-diff'', ''--unified=3''] @ (if staged then [''--cached''] else [])
     @ (if paths \<noteq> [] then ''--'' # paths else [])"

definition git_diff ::
    "git_exec \<Rightarrow> sha256 \<Rightarrow> 'd dir_ops \<Rightarrow> 'd \<Rightarrow> bool \<Rightarrow> rel_path list \<Rightarrow> nat \<Rightarrow> app_error + diff" where
  "git_diff git sha ops d staged paths max_chars =
     (case git_run git (diff_args staged paths) max_chars of
        Inl e \<Rightarrow> Inl e
      | Inr t \<Rightarrow>
          if staged \<or> paths = [] \<or> max_chars \<le> length t then Inr (diff_parse sha t)
          else (case untracked_diff git ops d paths (max_chars - length t) of
                  Inl e \<Rightarrow> Inl e
                | Inr untracked \<Rightarrow>
                    let t1 = (if t \<noteq> [] \<and> untracked \<noteq> [] \<and> \<not> ends_with t [nl] then t @ [nl] else t)
                    in Inr (diff_parse sha (truncate_output (t1 @ untracked) max_chars))))"

definition git_log :: "git_exec \<Rightarrow> nat \<Rightarrow> app_error + string" where
  "git_log git limit =
     git_run git [''log'', ''-n'' @ show_nat limit, ''--date=iso-strict'',
       ''--pretty=format:%H%x09%ad%x09%an%x09%s''] 100000"

definition show_args :: "string \<Rightarrow> string list" where
  "show_args reference = [''show'', ''--stat'', ''--patch'', reference]"

definition git_show :: "git_exec \<Rightarrow> string \<Rightarrow> nat \<Rightarrow> app_error + string" where
  "git_show git reference max_chars = git_run git (show_args reference) max_chars"

definition blame_args :: "rel_path \<Rightarrow> nat option \<Rightarrow> nat option \<Rightarrow> string list" where
  "blame_args path start end =
     [''blame'', ''--date=short'']
     @ (case (start, end) of (Some a, Some b) \<Rightarrow> [''-L'' @ show_nat a @ '','' @ show_nat b] | _ \<Rightarrow> [])
     @ [''--'', path]"

definition git_blame ::
    "git_exec \<Rightarrow> rel_path \<Rightarrow> nat option \<Rightarrow> nat option \<Rightarrow> nat \<Rightarrow> app_error + string" where
  "git_blame git path start end max_chars = git_run git (blame_args path start end) max_chars"

definition git_stage :: "git_exec \<Rightarrow> rel_path list \<Rightarrow> app_error + string" where
  "git_stage git paths =
     (if paths = [] then Inl (error_invalid ''git stage requires paths'')
      else case git_run git ([''add'', ''--''] @ paths) 20000 of
             Inl e \<Rightarrow> Inl e
           | Inr _ \<Rightarrow> Inr (''Staged '' @ show_nat (length paths) @ '' path(s)''))"

definition git_commit :: "git_exec \<Rightarrow> string \<Rightarrow> app_error + string" where
  "git_commit git message =
     (if trim message = [] then Inl (error_invalid ''git commit requires message'')
      else git_run git [''commit'', ''-m'', message] 50000)"

definition git_restore :: "git_exec \<Rightarrow> rel_path list \<Rightarrow> bool \<Rightarrow> app_error + string" where
  "git_restore git paths staged =
     (if paths = [] then Inl (error_invalid ''git restore requires paths'')
      else case git_run git ([''restore''] @ (if staged then [''--staged''] else []) @ [''--''] @ paths) 20000 of
             Inl e \<Rightarrow> Inl e
           | Inr _ \<Rightarrow> Inr (''Restored '' @ show_nat (length paths) @ '' path(s)''))"

definition push_args :: "string \<Rightarrow> string \<Rightarrow> string list" where
  "push_args remote branch = [''push'', remote] @ (if branch \<noteq> [] then [branch] else [])"

definition git_push :: "git_exec \<Rightarrow> string \<Rightarrow> string \<Rightarrow> app_error + string" where
  "git_push git remote branch = git_run_timeout git (push_args remote branch) 20000 git_push_timeout"

end
