(* ===== verification/Lsp_Transport.thy ===== *)
theory Lsp_Transport
  imports Lsp_Session Git_Repository Bounded_Tail
begin

text \<open>
  JSON-RPC over a server's pipes (\<open>src/intelligence/transport.rs\<close>): the frames of its standard
  output, the tail of its standard error, and the errors of a transport. The bytes written by
  the process are an argument; the text of a JSON value and the value of a text
  (\<open>serde_json\<close>) are parameters. Spawning, the threads and the channel are not modelled.
\<close>

section \<open>Errors\<close>

datatype rpc_io_kind = BrokenPipe | UnexpectedEof | ConnectionReset | IoTimedOut | OtherIo

datatype transport_error =
    TransportTimedOut
  | TransportDisconnected
  | TransportProtocol string
  | TransportIo string

fun transport_error_display :: "transport_error \<Rightarrow> string" where
  "transport_error_display TransportTimedOut = ''language-server response timed out''"
| "transport_error_display TransportDisconnected = ''language server closed its connection''"
| "transport_error_display (TransportProtocol message) = message"
| "transport_error_display (TransportIo message) = message"

definition transport_error_from_io :: "rpc_io_kind \<Rightarrow> string \<Rightarrow> transport_error" where
  "transport_error_from_io kind message =
     (if kind \<in> {BrokenPipe, UnexpectedEof, ConnectionReset} then TransportDisconnected
      else if kind = IoTimedOut then TransportTimedOut else TransportIo message)"

section \<open>Frames\<close>

definition max_frame_bytes :: nat where "max_frame_bytes = 64 * 1024 * 1024"

definition stderr_tail_bytes :: nat where "stderr_tail_bytes = 8 * 1024"

text \<open>\<open>read_line\<close>: the bytes up to and with the newline, and the rest. At the end of the input,
  and for bytes that are not UTF-8, the caller gives up alike.\<close>

definition read_line :: "string \<Rightarrow> (string \<times> string) option" where
  "read_line s =
     (let rest = dropWhile (\<lambda>c. c \<noteq> nl) s; line = takeWhile (\<lambda>c. c \<noteq> nl) s @ take 1 rest
      in if line = [] then None
         else (case from_utf8 (text_bytes line) of
                 Inl _ \<Rightarrow> None
               | Inr _ \<Rightarrow> Some (line, drop 1 rest)))"

datatype frame_head = HeadEof | HeadFatal string | HeadEnd nat string

lemma read_line_shorter: "read_line s = Some (line, rest) \<Longrightarrow> length rest < length s"
proof -
  assume a: "read_line s = Some (line, rest)"
  then have "line @ rest = s" "line \<noteq> []"
    by (auto simp: read_line_def Let_def split: if_splits sum.splits)
  then show ?thesis by auto
qed

text \<open>The header lines, with the length read so far.\<close>

function read_headers :: "nat option \<Rightarrow> string \<Rightarrow> frame_head" where
  "read_headers len s =
     (case read_line s of
        None \<Rightarrow> HeadEof
      | Some (line, rest) \<Rightarrow>
          let trimmed = trim line in
          if trimmed = []
          then (case len of Some n \<Rightarrow> HeadEnd n rest | None \<Rightarrow> read_headers len rest)
          else (case split_once CHR '':'' trimmed of
                  None \<Rightarrow> read_headers len rest
                | Some (name, v) \<Rightarrow>
                    if ascii_lower (trim name) = ''content-length''
                    then (case parse_usize (trim v) of
                            None \<Rightarrow> HeadFatal (''language server sent an invalid Content-Length: '' @ v)
                          | Some n \<Rightarrow> read_headers (Some n) rest)
                    else read_headers len rest))"
  by pat_completeness auto
termination
  by (relation "measure (\<lambda>(len, s). length s)") (auto dest: read_line_shorter)

declare read_headers.simps [simp del]

datatype frame = FrameEof | FrameFatal string | FrameBody string string

definition read_frame :: "string \<Rightarrow> frame" where
  "read_frame s =
     (case read_headers None s of
        HeadEof \<Rightarrow> FrameEof
      | HeadFatal message \<Rightarrow> FrameFatal message
      | HeadEnd n rest \<Rightarrow>
          if max_frame_bytes < n
          then FrameFatal (''language-server frame of '' @ show_nat n @ '' bytes exceeds the ''
                 @ show_nat max_frame_bytes @ '' byte limit'')
          else if length rest < n then FrameEof
          else FrameBody (take n rest) (drop n rest))"

datatype reader_event = ReaderMessage json | ReaderFatal string

lemma read_headers_shorter: "read_headers len s = HeadEnd n rest \<Longrightarrow> length rest < length s"
proof (induction len s rule: read_headers.induct)
  case (1 len s)
  from "1.prems" obtain line rest0 where l: "read_line s = Some (line, rest0)"
    by (auto simp: read_headers.simps [of len s] split: option.splits)
  note shorter = read_line_shorter [OF l]
  note step = read_headers.simps [of len s, unfolded l option.case prod.case Let_def]
  show ?case
  proof (cases "trim line = []")
    case True
    show ?thesis
    proof (cases len)
      case None
      from "1.IH"(1) [OF l refl refl True None] have "length rest < length rest0"
        using "1.prems" step True None by simp
      with shorter show ?thesis by simp
    next
      case (Some m)
      with "1.prems" step True shorter show ?thesis by simp
    qed
  next
    case False
    show ?thesis
    proof (cases "split_once CHR '':'' (trim line)")
      case None
      from "1.IH"(2) [OF l refl refl False None] have "length rest < length rest0"
        using "1.prems" step False None by simp
      with shorter show ?thesis by simp
    next
      case (Some nv)
      obtain name v where nv: "nv = (name, v)" by fastforce
      note split = Some [unfolded nv]
      show ?thesis
      proof (cases "ascii_lower (trim name) = ''content-length''")
        case True
        from "1.prems" step False split True obtain m where m: "parse_usize (trim v) = Some m"
          by (auto split: option.splits)
        from "1.IH"(3) [OF l refl refl False split refl True m] have "length rest < length rest0"
          using "1.prems" step False split True m by simp
        with shorter show ?thesis by simp
      next
        case name_other: False
        from "1.IH"(4) [OF l refl refl False split refl name_other] have "length rest < length rest0"
          using "1.prems" step False split name_other by simp
        with shorter show ?thesis by simp
      qed
    qed
  qed
qed

lemma read_frame_shorter: "read_frame s = FrameBody body rest \<Longrightarrow> length rest < length s"
  by (auto simp: read_frame_def split: frame_head.splits if_splits dest: read_headers_shorter)

text \<open>Frames until the end or an error; a body that is not JSON is dropped.\<close>

function read_frames :: "(string \<Rightarrow> json option) \<Rightarrow> string \<Rightarrow> reader_event list" where
  "read_frames from_slice s =
     (case read_frame s of
        FrameEof \<Rightarrow> []
      | FrameFatal message \<Rightarrow> [ReaderFatal message]
      | FrameBody body rest \<Rightarrow>
          (case from_slice body of
             Some v \<Rightarrow> ReaderMessage v # read_frames from_slice rest
           | None \<Rightarrow> read_frames from_slice rest))"
  by pat_completeness auto
termination
  by (relation "measure (\<lambda>(from_slice, s). length s)") (auto dest: read_frame_shorter)

declare read_frames.simps [simp del]

text \<open>What \<open>send\<close> writes for a value whose text is \<open>body\<close>.\<close>

definition frame_bytes :: "string \<Rightarrow> string" where
  "frame_bytes body = ''Content-Length: '' @ show_nat (length body) @ crlf @ crlf @ body"

section \<open>Standard error\<close>

definition retain_tail :: "string \<Rightarrow> string \<Rightarrow> string" where
  "retain_tail tail_bytes chunk =
     (let grown = tail_bytes @ chunk in drop (length grown - stderr_tail_bytes) grown)"

interpretation stderr: bounded_tail "\<lambda>b xs. Some (retain_tail b xs)" id "\<lambda>_. stderr_tail_bytes"
    "\<lambda>b. length b \<le> stderr_tail_bytes"
  by unfold_locales (auto simp: retain_tail_def take_last_def Let_def)

definition stderr_tail :: "string \<Rightarrow> string option" where
  "stderr_tail tail_bytes = (if tail_bytes = [] then None else Some (chars_str (str_chars tail_bytes)))"

section \<open>Frames are read back\<close>

lemma show_nat_printable: "\<forall>c \<in> set (show_nat n). printable c \<and> c \<notin> {nl, CHR '':''}"
proof (induction n rule: show_nat.induct)
  case (1 n)
  have d: "printable (digit_char d) \<and> digit_char d \<notin> {nl, CHR '':''}" if "d < 10" for d
  proof -
    have "(of_char (digit_char d) :: nat) = 48 + d" using that by (simp add: digit_char_def of_char_of)
    moreover have "(of_char nl :: nat) = 10" "(of_char CHR '':'' :: nat) = 58" by (simp_all add: nl_def)
    ultimately show ?thesis using that by (auto simp: printable_def)
  qed
  with 1 show ?case by (auto simp: show_nat.simps [of n])
qed

lemma read_line_ascii:
  assumes "list_all (\<lambda>c. of_char c < (128 :: nat)) line" "nl \<notin> set line"
  shows "read_line (line @ nl # rest) = Some (line @ [nl], rest)"
proof -
  have "utf8_valid (line @ [nl])" using assms(1) by (intro utf8_valid_ascii) (simp add: nl_def)
  then obtain cs where "from_utf8 (text_bytes (line @ [nl])) = Inr cs" by (auto simp: utf8_valid_def)
  moreover have "takeWhile (\<lambda>c. c \<noteq> nl) (line @ nl # rest) = line \<and> dropWhile (\<lambda>c. c \<noteq> nl) (line @ nl # rest) = nl # rest"
    using assms(2) by (induction line) auto
  ultimately show ?thesis by (simp add: read_line_def)
qed

lemma split_once_first:
  assumes "c \<notin> set xs"
  shows "split_once c (xs @ c # ys) = Some (xs, ys)"
proof -
  have "takeWhile (\<lambda>x. x \<noteq> c) (xs @ c # ys) = xs \<and> dropWhile (\<lambda>x. x \<noteq> c) (xs @ c # ys) = c # ys"
    using assms by (induction xs) auto
  then show ?thesis by (simp add: split_once_def)
qed

definition length_name :: string where "length_name = ''Content-Length''"

definition colon :: char where "colon = CHR '':''"

lemma length_header_facts:
  "trim length_name = length_name" "ascii_lower length_name = ''content-length''"
  "list_all (\<lambda>c. of_char c < (128 :: nat)) (length_name @ [colon, CHR '' ''])"
  "nl \<notin> set (length_name @ [colon, CHR '' '', cr])" "colon \<notin> set length_name"
  "of_char cr < (128 :: nat)" "length_name = CHR ''C'' # ''ontent-Length''"
  by (simp_all add: length_name_def colon_def cr_def nl_def trim_printable_ends printable_def ascii_lower_def
      ascii_lower_char_def char_of_def bit_Suc_0_iff)

lemma length_line_read:
  assumes "n \<le> usize_max"
  shows "read_headers len (''Content-Length: '' @ show_nat n @ crlf @ rest) = read_headers (Some n) rest"
proof -
  let ?ds = "show_nat n" and ?pre = "length_name @ [colon, CHR '' '']"
  from show_nat_hd [of n] have ds0: "?ds \<noteq> []" by force
  have ds: "?ds \<noteq> []" "\<forall>c \<in> set ?ds. printable c" "nl \<notin> set ?ds" "colon \<notin> set ?ds"
    using ds0 show_nat_printable [of n] by (auto simp only: colon_def insert_iff)
  have head: "''Content-Length: '' @ ?ds @ crlf @ rest = (?pre @ ?ds @ [cr]) @ nl # rest"
    by (simp add: length_name_def colon_def crlf_def)
  have "list_all (\<lambda>c. of_char c < (128 :: nat)) (?pre @ ?ds @ [cr])"
  proof -
    have "list_all (\<lambda>c. of_char c < (128 :: nat)) ?ds" using ds(2) by (auto simp: list_all_iff printable_def)
    then show ?thesis using length_header_facts(3,6) by simp
  qed
  moreover have "nl \<notin> set (?pre @ ?ds @ [cr])" using length_header_facts(4) ds(3) by auto
  ultimately have line: "read_line (''Content-Length: '' @ ?ds @ crlf @ rest)
      = Some ((?pre @ ?ds @ [cr]) @ [nl], rest)"
    unfolding head by (rule read_line_ascii)
  have "trim_start (?pre @ ?ds @ [cr] @ [nl]) = ?pre @ ?ds @ [cr] @ [nl]"
    using trim_start_printable [of "CHR ''C''"] by (simp add: length_header_facts(7) printable_def)
  then have "trim ((?pre @ ?ds @ [cr]) @ [nl]) = trim_end (((?pre @ ?ds) @ [cr]) @ [nl])"
    by (simp add: trim_def)
  also have "\<dots> = trim_end (?pre @ ?ds)" by (simp only: trim_end_white insert_iff simp_thms)
  also have "\<dots> = trim_end ((?pre @ butlast ?ds) @ [last ?ds])" using ds(1) by simp
  also have "\<dots> = (?pre @ butlast ?ds) @ [last ?ds]" using ds(1,2) by (intro trim_end_printable) simp
  also have "\<dots> = length_name @ colon # CHR '' '' # ?ds" using ds(1) by simp
  finally have t: "trim ((?pre @ ?ds @ [cr]) @ [nl]) = length_name @ colon # CHR '' '' # ?ds" .
  have sp: "split_once CHR '':'' (length_name @ colon # CHR '' '' # ?ds) = Some (length_name, CHR '' '' # ?ds)"
    unfolding colon_def [symmetric] by (rule split_once_first) (rule length_header_facts(5))
  have "trim (CHR '' '' # ?ds) = trim_end (trim_start ?ds)" by (simp add: trim_def trim_start_white)
  also have "\<dots> = ?ds" using trim_printable_ends [OF ds(1)] ds(1,2) by (simp add: trim_def)
  finally have v: "trim (CHR '' '' # ?ds) = ?ds" .
  show ?thesis
    by (subst read_headers.simps, subst line)
      (simp add: t sp v length_header_facts(1,2) parse_show_usize [OF assms] del: append_assoc)
qed

lemma empty_line_read: "read_headers (Some n) (crlf @ rest) = HeadEnd n rest"
proof -
  have "read_line ([cr] @ nl # rest) = Some ([cr] @ [nl], rest)"
    by (rule read_line_ascii) (use length_header_facts(4,6) in simp_all)
  moreover have "trim [cr, nl] = []"
    by (simp add: trim_def trim_start_white) (simp add: trim_start_def trim_end_def trim_with.simps white_encodings_def)
  ultimately show ?thesis by (subst read_headers.simps) (simp add: crlf_def)
qed

lemma frame_roundtrip:
  assumes "length body \<le> max_frame_bytes"
  shows "read_frame (frame_bytes body @ rest) = FrameBody body rest"
proof -
  have "length body \<le> usize_max" using assms by (simp add: max_frame_bytes_def usize_max_def)
  then have "read_headers None (frame_bytes body @ rest) = HeadEnd (length body) (body @ rest)"
    using length_line_read [of "length body" None "crlf @ body @ rest"] by (simp add: frame_bytes_def empty_line_read)
  with assms show ?thesis by (simp add: read_frame_def)
qed

section \<open>Properties\<close>

text \<open>C37. What one side sends, the other reads: the frames of any messages whose texts are within
  the size limit and parse back are read as exactly those messages, in order, whatever bytes
  the texts hold and whatever follows them.\<close>

theorem frames_roundtrip:
  assumes "\<forall>v \<in> set vs. length (to_vec v) \<le> max_frame_bytes \<and> from_slice (to_vec v) = Some v"
  shows "read_frames from_slice (concat (map (\<lambda>v. frame_bytes (to_vec v)) vs) @ rest)
    = map ReaderMessage vs @ read_frames from_slice rest"
  using assms
proof (induction vs)
  case (Cons v vs)
  let ?tail = "concat (map (\<lambda>v. frame_bytes (to_vec v)) vs) @ rest"
  have "read_frame (frame_bytes (to_vec v) @ ?tail) = FrameBody (to_vec v) ?tail"
    using Cons.prems by (intro frame_roundtrip) simp
  moreover have "read_frames from_slice ?tail = map ReaderMessage vs @ read_frames from_slice rest" using Cons by simp
  ultimately have "read_frames from_slice (frame_bytes (to_vec v) @ ?tail)
      = ReaderMessage v # map ReaderMessage vs @ read_frames from_slice rest"
    using Cons.prems by (simp add: read_frames.simps [of from_slice "frame_bytes (to_vec v) @ ?tail"])
  then show ?case by simp
qed simp

theorem frames_roundtrip_witness:
  "read_frames (\<lambda>s. Some (JStr s)) (frame_bytes ''a'' @ frame_bytes [nl]) = [ReaderMessage (JStr ''a''), ReaderMessage (JStr [nl])]"
proof -
  have "read_line [] = None" by (simp add: read_line_def)
  then have "read_frames f [] = []" for f
    by (simp add: read_frames.simps [of f "[]"] read_frame_def read_headers.simps [of None "[]"])
  with frames_roundtrip [of "[JStr ''a'', JStr [nl]]" "\<lambda>v. case v of JStr s \<Rightarrow> s" "\<lambda>s. Some (JStr s)" "[]"]
  show ?thesis by (simp add: max_frame_bytes_def)
qed

end
