(* ===== verification/Lsp_Server.thy ===== *)
theory Lsp_Server
  imports Lsp_Transport
begin

text \<open>
  One running language server (\<open>src/intelligence/worker/server.rs\<close>) and the failures of a
  semantic request (\<open>src/intelligence/worker/error.rs\<close>). The process, the clock and the stop flag
  are a script: \<open>sv_sends\<close> says how the next writes end, \<open>sv_polls\<close> what the next rounds of
  \<open>receive_before\<close> meet, each error with the standard error at that moment; a script that has
  run out is the deadline. \<open>sv_sent\<close> logs the messages written.
\<close>

section \<open>Failures\<close>

datatype worker_error =
    BackendDisabled string
  | BackendBusy string
  | BackendStopped
  | ServerStartFailed string string
  | ServerTimedOut string "string option"
  | ServerExited string "string option"
  | ServerTransport string
  | ServerProtocol string "json option"
  | ServerError string json
  | OperationUnsupported string
  | SyncUnsupported
  | RequestInvalid app_error

fun restartable :: "worker_error \<Rightarrow> bool" where
  "restartable (ServerTimedOut _ _) = True"
| "restartable (ServerExited _ _) = True"
| "restartable (ServerTransport _) = True"
| "restartable (ServerProtocol _ _) = True"
| "restartable _ = False"

fun from_transport :: "transport_error \<Rightarrow> string \<Rightarrow> string option \<Rightarrow> worker_error" where
  "from_transport TransportTimedOut lang tail_text = ServerTimedOut lang tail_text"
| "from_transport TransportDisconnected lang tail_text = ServerExited lang tail_text"
| "from_transport (TransportProtocol message) lang tail_text = ServerProtocol message None"
| "from_transport (TransportIo message) lang tail_text = ServerTransport message"

fun to_app_error :: "worker_error \<Rightarrow> app_error" where
  "to_app_error (BackendDisabled lang) =
     error_new SemanticBackendUnavailable (lang @ '' language server is disabled'')"
| "to_app_error (BackendBusy lang) =
     error_with_details LspBusy ''Language-server request queue is full'' (JObj [(''language'', JStr lang)])"
| "to_app_error BackendStopped = error_new LspWorkerStopped ''Language-server worker has stopped''"
| "to_app_error (ServerStartFailed lang message) =
     error_with_details LspStartFailed message (JObj [(''language'', JStr lang)])"
| "to_app_error (ServerTimedOut lang tail_text) =
     error_with_details LspTimeout ''Language-server response timed out''
       (JObj [(''language'', JStr lang), (''stderr_tail'', str_json tail_text)])"
| "to_app_error (ServerExited lang tail_text) =
     error_with_details LspTransportError ''Language server exited or closed its connection''
       (JObj [(''language'', JStr lang), (''cause'', JStr ''server_exited''), (''stderr_tail'', str_json tail_text)])"
| "to_app_error (ServerTransport message) = error_new LspTransportError message"
| "to_app_error (ServerProtocol message details) =
     (case details of Some d \<Rightarrow> error_with_details LspProtocolError message d
      | None \<Rightarrow> error_new LspProtocolError message)"
| "to_app_error (ServerError lang e) =
     error_with_details LspError (lang @ '' language-server request failed'') e"
| "to_app_error (OperationUnsupported operation) =
     error_with_details LspUnsupported (''Language server does not advertise '' @ operation @ '' support'')
       (JObj [(''operation'', JStr operation)])"
| "to_app_error SyncUnsupported =
     error_new LspSyncUnsupported ''Language server does not advertise document synchronization''"
| "to_app_error (RequestInvalid e) = e"

section \<open>The server and its script\<close>

datatype poll =
    PollStop
  | PollDeadline "string option"
  | PollSlice
  | PollMessage json
  | PollError transport_error "string option"

record server =
  sv_capabilities :: server_capabilities
  sv_next_id :: nat
  sv_documents :: documents
  sv_diagnostics :: "string \<Rightarrow> json option"
  sv_sends :: "(transport_error \<times> string option) option list"
  sv_polls :: "poll list"
  sv_sent :: "json list"

record request_context =
  rx_root :: string
  rx_codec :: uri_codec
  rx_language :: string
  rx_process_id :: nat
  rx_version :: string

type_synonym 'a served = "(worker_error + 'a) \<times> server"

definition server_notify :: "request_context \<Rightarrow> json \<Rightarrow> server \<Rightarrow> unit served" where
  "server_notify ctx v sv =
     (let rest = drop 1 (sv_sends sv) in
      case sv_sends sv of
        Some (e, tail_text) # _ \<Rightarrow> (Inl (from_transport e (rx_language ctx) tail_text), sv\<lparr>sv_sends := rest\<rparr>)
      | _ \<Rightarrow> (Inr (), sv\<lparr>sv_sends := rest, sv_sent := sv_sent sv @ [v]\<rparr>))"

text \<open>A round that times out with time left is repeated.\<close>

fun receive_before :: "string \<Rightarrow> poll list \<Rightarrow> (worker_error + json) \<times> poll list" where
  "receive_before lang [] = (Inl (ServerTimedOut lang None), [])"
| "receive_before lang (PollStop # ps) = (Inl BackendStopped, ps)"
| "receive_before lang (PollDeadline tail_text # ps) = (Inl (ServerTimedOut lang tail_text), ps)"
| "receive_before lang (PollSlice # ps) = receive_before lang ps"
| "receive_before lang (PollMessage m # ps) = (Inr m, ps)"
| "receive_before lang (PollError e tail_text # ps) = (Inl (from_transport e lang tail_text), ps)"

definition server_receive :: "request_context \<Rightarrow> server \<Rightarrow> json served" where
  "server_receive ctx sv =
     (case receive_before (rx_language ctx) (sv_polls sv) of (r, ps) \<Rightarrow> (r, sv\<lparr>sv_polls := ps\<rparr>))"

definition published_diagnostics :: "json \<Rightarrow> (string \<times> json) option" where
  "published_diagnostics message =
     (if Option.bind (json_get message ''method'') json_as_str \<noteq> Some ''textDocument/publishDiagnostics'' then None
      else Option.bind (json_get message ''params'') (\<lambda>params.
           Option.bind (Option.bind (json_get params ''uri'') json_as_str) (\<lambda>uri.
           map_option (Pair uri) (json_get params ''diagnostics''))))"

definition diagnostic_report_items :: "json \<Rightarrow> worker_error + json" where
  "diagnostic_report_items report =
     (case report of
        JArr _ \<Rightarrow> Inr report
      | _ \<Rightarrow>
          (case json_get report ''items'' of
             Some (JArr items) \<Rightarrow> Inr (JArr items)
           | _ \<Rightarrow> Inl (ServerProtocol ''Language-server diagnostic response does not contain an items array''
                    (Some (JObj [(''response'', report)])))))"

definition diagnostic_uri_matches :: "uri_codec \<Rightarrow> string \<Rightarrow> string \<Rightarrow> bool" where
  "diagnostic_uri_matches uc requested published \<longleftrightarrow>
     requested = published
     \<or> (case (uri_relative uc requested, uri_relative uc published) of
          (Inr r, Inr p) \<Rightarrow> r = p | _ \<Rightarrow> False)"

definition answer_server_request :: "request_context \<Rightarrow> json \<Rightarrow> server \<Rightarrow> unit served" where
  "answer_server_request ctx message sv =
     (case (json_get message ''id'', Option.bind (json_get message ''method'') json_as_str) of
        (Some rid, Some rpc) \<Rightarrow>
          server_notify ctx (JObj [(''jsonrpc'', JStr ''2.0''), (''id'', rid),
            (''result'', server_request_result rpc (json_at message ''params'') (rx_root ctx))]) sv
      | _ \<Rightarrow> (Inr (), sv))"

definition handle_message :: "request_context \<Rightarrow> json \<Rightarrow> server \<Rightarrow> unit served" where
  "handle_message ctx message sv =
     (case published_diagnostics message of
        Some (published, diagnostics) \<Rightarrow>
          (Inr (), sv\<lparr>sv_diagnostics := (sv_diagnostics sv)(published \<mapsto> diagnostics)\<rparr>)
      | None \<Rightarrow> answer_server_request ctx message sv)"

section \<open>Requests\<close>

lemma receive_before_shorter: "receive_before l ps = (Inr m, ps') \<Longrightarrow> length ps' < length ps"
  by (induction l ps rule: receive_before.induct) auto

lemma server_receive_shorter:
  "server_receive ctx sv = (Inr m, sv') \<Longrightarrow> length (sv_polls sv') < length (sv_polls sv)"
  by (auto simp: server_receive_def split: prod.splits dest: receive_before_shorter)

lemma server_notify_polls: "sv_polls (snd (server_notify ctx v sv)) = sv_polls sv"
  by (auto simp: server_notify_def Let_def split: list.splits option.splits)

lemma answer_polls: "sv_polls (snd (answer_server_request ctx m sv)) = sv_polls sv"
  by (auto simp: answer_server_request_def server_notify_polls split: option.splits)

lemma handle_polls: "sv_polls (snd (handle_message ctx m sv)) = sv_polls sv"
  by (auto simp: handle_message_def answer_polls split: option.splits)

lemma served_polls:
  "(Inr m, sv1) = server_receive ctx sv \<Longrightarrow> length (sv_polls sv1) < length (sv_polls sv)"
  "(r, sv2) = handle_message ctx m sv \<Longrightarrow> sv_polls sv2 = sv_polls sv"
  "(r, sv2) = answer_server_request ctx m sv \<Longrightarrow> sv_polls sv2 = sv_polls sv"
  using server_receive_shorter [of ctx sv m sv1] handle_polls [of ctx m sv] answer_polls [of ctx m sv]
  by (metis snd_conv)+

text \<open>Messages until the response to \<open>rid\<close>.\<close>

function request_loop :: "request_context \<Rightarrow> nat \<Rightarrow> server \<Rightarrow> json served" where
  "request_loop ctx rid sv =
     (case server_receive ctx sv of
        (Inl e, sv1) \<Rightarrow> (Inl e, sv1)
      | (Inr message, sv1) \<Rightarrow>
          if Option.bind (json_get message ''id'') json_as_u64 = Some rid \<and> json_get message ''method'' = None
          then (case json_get message ''error'' of
                  Some e \<Rightarrow> (Inl (ServerError (rx_language ctx) e), sv1)
                | None \<Rightarrow>
                    (case json_get message ''result'' of
                       Some r \<Rightarrow> (Inr r, sv1)
                     | None \<Rightarrow> (Inl (ServerProtocol ''JSON-RPC response contains neither result nor error'' None), sv1)))
          else (case handle_message ctx message sv1 of
                  (Inl e, sv2) \<Rightarrow> (Inl e, sv2)
                | (Inr _, sv2) \<Rightarrow> request_loop ctx rid sv2))"
  by pat_completeness auto
termination
  by (relation "measure (\<lambda>(ctx, rid, sv). length (sv_polls sv))") (auto dest!: served_polls)

declare request_loop.simps [simp del]

definition server_request :: "request_context \<Rightarrow> string \<Rightarrow> json \<Rightarrow> server \<Rightarrow> json served" where
  "server_request ctx rpc params sv =
     (let rid = sv_next_id sv;
          message = JObj [(''jsonrpc'', JStr ''2.0''), (''id'', JNum (int rid)), (''method'', JStr rpc), (''params'', params)]
      in case server_notify ctx message (sv\<lparr>sv_next_id := rid + 1\<rparr>) of
           (Inl e, sv1) \<Rightarrow> (Inl e, sv1)
         | (Inr _, sv1) \<Rightarrow> request_loop ctx rid sv1)"

text \<open>Published diagnostics until those of \<open>uri\<close>.\<close>

function diagnostics_loop :: "request_context \<Rightarrow> string \<Rightarrow> server \<Rightarrow> json served" where
  "diagnostics_loop ctx uri sv =
     (case server_receive ctx sv of
        (Inl e, sv1) \<Rightarrow> (Inl e, sv1)
      | (Inr message, sv1) \<Rightarrow>
          (case published_diagnostics message of
             Some (published, diagnostics) \<Rightarrow>
               let sv2 = sv1\<lparr>sv_diagnostics := (sv_diagnostics sv1)(published \<mapsto> diagnostics)\<rparr>
               in if diagnostic_uri_matches (rx_codec ctx) uri published
                  then (Inr diagnostics, sv2\<lparr>sv_diagnostics := (sv_diagnostics sv2)(uri \<mapsto> diagnostics)\<rparr>)
                  else diagnostics_loop ctx uri sv2
           | None \<Rightarrow>
               (case answer_server_request ctx message sv1 of
                  (Inl e, sv2) \<Rightarrow> (Inl e, sv2)
                | (Inr _, sv2) \<Rightarrow> diagnostics_loop ctx uri sv2)))"
  by pat_completeness auto
termination
  by (relation "measure (\<lambda>(ctx, uri, sv). length (sv_polls sv))") (auto dest!: served_polls)

declare diagnostics_loop.simps [simp del]

definition diagnostics_for :: "request_context \<Rightarrow> string \<Rightarrow> server \<Rightarrow> json served" where
  "diagnostics_for ctx uri sv =
     (case sv_diagnostics sv uri of
        Some cached \<Rightarrow> (Inr cached, sv)
      | None \<Rightarrow>
          if cap_pull_diagnostics (sv_capabilities sv)
          then (case server_request ctx ''textDocument/diagnostic''
                       (JObj [(''textDocument'', JObj [(''uri'', JStr uri)])]) sv of
                  (Inl e, sv1) \<Rightarrow> (Inl e, sv1)
                | (Inr report, sv1) \<Rightarrow>
                    (case diagnostic_report_items report of
                       Inl e \<Rightarrow> (Inl e, sv1)
                     | Inr diagnostics \<Rightarrow>
                         (Inr diagnostics, sv1\<lparr>sv_diagnostics := (sv_diagnostics sv1)(uri \<mapsto> diagnostics)\<rparr>)))
          else diagnostics_loop ctx uri sv)"

definition server_initialize ::
    "request_context \<Rightarrow> (transport_error \<times> string option) option list \<Rightarrow> poll list \<Rightarrow> nat \<Rightarrow> server served" where
  "server_initialize ctx sends polls elapsed_ms =
     (let sv = \<lparr>sv_capabilities = capabilities_none, sv_next_id = 1, sv_documents = [], sv_diagnostics = Map.empty,
                sv_sends = sends, sv_polls = polls, sv_sent = []\<rparr>
      in case server_request ctx ''initialize''
                (initialize_params (rx_process_id ctx) (rx_version ctx) (root_uri (rx_codec ctx))) sv of
           (Inl e, sv1) \<Rightarrow> (Inl e, sv1)
         | (Inr result, sv1) \<Rightarrow>
             (case parse_initialize_result result elapsed_ms of
                Inl e \<Rightarrow> (Inl (ServerProtocol (ae_message e) (ae_details e)), sv1)
              | Inr capabilities \<Rightarrow>
                  let sv2 = sv1\<lparr>sv_capabilities := capabilities\<rparr>
                  in case server_notify ctx (JObj [(''jsonrpc'', JStr ''2.0''), (''method'', JStr ''initialized''),
                            (''params'', JObj [])]) sv2 of
                       (Inl e, sv3) \<Rightarrow> (Inl e, sv3)
                     | (Inr _, sv3) \<Rightarrow> (Inr sv3, sv3)))"

section \<open>Operations\<close>

fun capability_name :: "worker_operation \<Rightarrow> string" where
  "capability_name (WorkDefinition _) = ''definition''"
| "capability_name (WorkReferences _) = ''references''"
| "capability_name (WorkRename _ _) = ''rename''"
| "capability_name WorkDiagnostics = ''diagnostics''"

fun operation_method :: "worker_operation \<Rightarrow> string" where
  "operation_method (WorkDefinition _) = ''textDocument/definition''"
| "operation_method (WorkReferences _) = ''textDocument/references''"
| "operation_method (WorkRename _ _) = ''textDocument/rename''"
| "operation_method WorkDiagnostics = ''textDocument/diagnostic''"

definition json_set :: "string \<Rightarrow> json \<Rightarrow> json \<Rightarrow> json" where
  "json_set k v j = (case j of JObj kvs \<Rightarrow> JObj (obj_insert k v kvs) | _ \<Rightarrow> j)"

text \<open>The parameters of an operation at a position.\<close>

definition operation_params ::
    "worker_operation \<Rightarrow> document_snapshot \<Rightarrow> lsp_cursor \<Rightarrow> position_encoding \<Rightarrow> app_error + json" where
  "operation_params operation document p enc =
     map_sum id (\<lambda>params. case operation of
          WorkReferences _ \<Rightarrow> json_set ''context'' (JObj [(''includeDeclaration'', JBool False)]) params
        | WorkRename _ new_name \<Rightarrow> json_set ''newName'' (JStr new_name) params
        | _ \<Rightarrow> params)
       (position_params (dsn_uri document) (str_chars (dsn_content document)) p enc)"

fun operation_cursor :: "worker_operation \<Rightarrow> lsp_cursor option" where
  "operation_cursor (WorkDefinition p) = Some p"
| "operation_cursor (WorkReferences p) = Some p"
| "operation_cursor (WorkRename p _) = Some p"
| "operation_cursor WorkDiagnostics = None"

definition server_answer ::
    "request_context \<Rightarrow> worker_operation \<Rightarrow> document_snapshot \<Rightarrow> server_capabilities \<Rightarrow> server \<Rightarrow> json served" where
  "server_answer ctx operation document capabilities sv =
     (case operation_cursor operation of
        None \<Rightarrow> diagnostics_for ctx (dsn_uri document) sv
      | Some p \<Rightarrow>
          (case operation_params operation document p (cap_encoding capabilities) of
             Inl e \<Rightarrow> (Inl (RequestInvalid e), sv)
           | Inr params \<Rightarrow> server_request ctx (operation_method operation) params sv))"

definition server_sync :: "request_context \<Rightarrow> document_snapshot \<Rightarrow> server \<Rightarrow> synchronized_document served" where
  "server_sync ctx document sv =
     (case plan_sync (sv_documents sv) document of (plan, docs) \<Rightarrow>
        let sv1 = sv\<lparr>sv_documents := docs\<rparr> in
        case sp_notification plan of
          None \<Rightarrow> (Inr (sp_synchronized plan), sv1)
        | Some n \<Rightarrow>
            (case server_notify ctx n sv1 of
               (Inl e, sv2) \<Rightarrow> (Inl e, sv2)
             | (Inr _, sv2) \<Rightarrow>
                 (Inr (sp_synchronized plan),
                  if sp_changed plan then sv2\<lparr>sv_diagnostics := (sv_diagnostics sv2)(dsn_uri document := None)\<rparr>
                  else sv2)))"

definition server_execute ::
    "request_context \<Rightarrow> worker_operation \<Rightarrow> document_snapshot \<Rightarrow> server \<Rightarrow> worker_response served" where
  "server_execute ctx operation document sv =
     (let capabilities = sv_capabilities sv in
      if \<not> capabilities_support capabilities (capability_name operation)
      then (Inl (OperationUnsupported (capability_name operation)), sv)
      else if cap_sync_kind capabilities = SyncNone then (Inl SyncUnsupported, sv)
      else (case server_sync ctx document sv of
              (Inl e, sv1) \<Rightarrow> (Inl e, sv1)
            | (Inr synchronized, sv1) \<Rightarrow>
                (case server_answer ctx operation document capabilities sv1 of
                   (Inl e, sv2) \<Rightarrow> (Inl e, sv2)
                 | (Inr r, sv2) \<Rightarrow>
                     (Inr \<lparr>wr_result = r, wr_synchronized = synchronized, wr_capabilities = capabilities\<rparr>, sv2))))"

section \<open>What the server has been told\<close>

definition sync_message :: "json \<Rightarrow> bool" where
  "sync_message m \<longleftrightarrow> Option.bind (json_get m ''method'') json_as_str
     \<in> {Some ''textDocument/didOpen'', Some ''textDocument/didChange''}"

fun replay :: "server_view \<Rightarrow> json list \<Rightarrow> server_view option" where
  "replay view [] = Some view"
| "replay view (m # ms) =
     (if sync_message m then (case view_notify view m of None \<Rightarrow> None | Some view' \<Rightarrow> replay view' ms)
      else replay view ms)"

lemma replay_append:
  "replay view (ms @ ns) = (case replay view ms of None \<Rightarrow> None | Some view' \<Rightarrow> replay view' ns)"
  by (induction ms arbitrary: view) (auto split: option.splits)

lemma replay_other: "\<forall>m \<in> set ms. \<not> sync_message m \<Longrightarrow> replay view ms = Some view"
  by (induction ms) auto

text \<open>The messages written replay to a view of the documents that the record agrees with.\<close>

definition server_synced :: "sha256 \<Rightarrow> server \<Rightarrow> bool" where
  "server_synced sha sv \<longleftrightarrow>
     (\<exists>view. replay Map.empty (sv_sent sv) = Some view \<and> sync_agrees sha (sv_documents sv) view)"

text \<open>Steps that leave the documents alone.\<close>

definition same_sync :: "server \<Rightarrow> server \<Rightarrow> bool" where
  "same_sync sv sv' \<longleftrightarrow> sv_documents sv' = sv_documents sv \<and> sv_capabilities sv' = sv_capabilities sv
     \<and> (\<exists>ms. sv_sent sv' = sv_sent sv @ ms \<and> (\<forall>m \<in> set ms. \<not> sync_message m))"

lemma same_sync_refl [simp]: "same_sync sv sv" by (simp add: same_sync_def)

lemma same_sync_trans: "same_sync a b \<Longrightarrow> same_sync b c \<Longrightarrow> same_sync a c"
  unfolding same_sync_def by fastforce

lemma same_sync_synced: "same_sync sv sv' \<Longrightarrow> server_synced sha sv \<Longrightarrow> server_synced sha sv'"
  by (auto simp: same_sync_def server_synced_def replay_append replay_other)

lemma notify_same:
  "(r, sv') = server_notify ctx m sv \<Longrightarrow> \<not> sync_message m \<Longrightarrow> same_sync sv sv'"
  by (auto simp: server_notify_def same_sync_def Let_def split: list.splits option.splits)

lemma receive_same: "(r, sv') = server_receive ctx sv \<Longrightarrow> same_sync sv sv'"
  by (auto simp: server_receive_def same_sync_def split: prod.splits)

lemma answer_same: "(r, sv') = answer_server_request ctx m sv \<Longrightarrow> same_sync sv sv'"
  by (auto simp: answer_server_request_def sync_message_def json_get_def elim!: notify_same split: option.splits)

lemma handle_same: "(r, sv') = handle_message ctx m sv \<Longrightarrow> same_sync sv sv'"
  by (auto simp: handle_message_def split: option.splits dest: answer_same) (auto simp: same_sync_def)

lemma request_loop_same: "(r, sv') = request_loop ctx rid sv \<Longrightarrow> same_sync sv sv'"
proof (induction ctx rid sv arbitrary: r sv' rule: request_loop.induct)
  case (1 ctx rid sv)
  obtain g sv1 where g: "server_receive ctx sv = (g, sv1)" by fastforce
  note same1 = receive_same [OF g [symmetric]]
  show ?case
  proof (cases g)
    case (Inl e)
    with "1.prems" g same1 show ?thesis by (simp add: request_loop.simps [of ctx rid sv])
  next
    case (Inr m)
    show ?thesis
    proof (cases "Option.bind (json_get m ''id'') json_as_u64 = Some rid \<and> json_get m ''method'' = None")
      case True
      with "1.prems" g Inr same1 show ?thesis
        by (simp add: request_loop.simps [of ctx rid sv] split: option.splits)
    next
      case False
      obtain h sv2 where h: "handle_message ctx m sv1 = (h, sv2)" by fastforce
      note same2 = same_sync_trans [OF same1 handle_same [OF h [symmetric]]]
      show ?thesis
      proof (cases h)
        case (Inl e)
        with "1.prems" g Inr False h same2 show ?thesis by (simp add: request_loop.simps [of ctx rid sv])
      next
        case hr: (Inr u)
        have "(r, sv') = request_loop ctx rid sv2"
          using "1.prems" g Inr False h hr by (simp add: request_loop.simps [of ctx rid sv])
        from "1.IH" [OF g [symmetric] Inr False h [symmetric] hr this] same2 show ?thesis
          by (rule same_sync_trans [rotated])
      qed
    qed
  qed
qed

lemma request_same:
  assumes "(r, sv') = server_request ctx rpc params sv"
    and "rpc \<noteq> ''textDocument/didOpen''" "rpc \<noteq> ''textDocument/didChange''"
  shows "same_sync sv sv'"
proof -
  let ?m = "JObj [(''jsonrpc'', JStr ''2.0''), (''id'', JNum (int (sv_next_id sv))), (''method'', JStr rpc), (''params'', params)]"
  let ?sv = "sv\<lparr>sv_next_id := sv_next_id sv + 1\<rparr>"
  obtain g sv1 where g: "server_notify ctx ?m ?sv = (g, sv1)" by fastforce
  have "\<not> sync_message ?m" using assms(2,3) by (simp add: sync_message_def json_get_def json_as_str_def)
  from notify_same [OF g [symmetric] this] have s1: "same_sync sv sv1" by (simp add: same_sync_def)
  show ?thesis
  proof (cases g)
    case (Inl e)
    with assms(1) g s1 show ?thesis by (simp add: server_request_def Let_def)
  next
    case (Inr u)
    with assms(1) g have "(r, sv') = request_loop ctx (sv_next_id sv) sv1" by (simp add: server_request_def Let_def)
    from same_sync_trans [OF s1 request_loop_same [OF this]] show ?thesis .
  qed
qed

lemma same_sync_diagnostics: "same_sync sv sv' \<Longrightarrow> same_sync sv (sv'\<lparr>sv_diagnostics := d\<rparr>)"
  by (simp add: same_sync_def)

lemma diagnostics_loop_same: "(r, sv') = diagnostics_loop ctx uri sv \<Longrightarrow> same_sync sv sv'"
proof (induction ctx uri sv arbitrary: r sv' rule: diagnostics_loop.induct)
  case (1 ctx uri sv)
  obtain g sv1 where g: "server_receive ctx sv = (g, sv1)" by fastforce
  note same1 = receive_same [OF g [symmetric]]
  show ?case
  proof (cases g)
    case (Inl e)
    with "1.prems" g same1 show ?thesis by (simp add: diagnostics_loop.simps [of ctx uri sv])
  next
    case (Inr m)
    show ?thesis
    proof (cases "published_diagnostics m")
      case None
      obtain h sv2 where h: "answer_server_request ctx m sv1 = (h, sv2)" by fastforce
      note same2 = same_sync_trans [OF same1 answer_same [OF h [symmetric]]]
      show ?thesis
      proof (cases h)
        case (Inl e)
        with "1.prems" g Inr None h same2 show ?thesis by (simp add: diagnostics_loop.simps [of ctx uri sv])
      next
        case hr: (Inr u)
        have "(r, sv') = diagnostics_loop ctx uri sv2"
          using "1.prems" g Inr None h hr by (simp add: diagnostics_loop.simps [of ctx uri sv])
        from "1.IH"(1) [OF g [symmetric] Inr None h [symmetric] hr this] same2 show ?thesis
          by (rule same_sync_trans [rotated])
      qed
    next
      case (Some pd)
      obtain published ds where pd: "pd = (published, ds)" by fastforce
      let ?sv2 = "sv1\<lparr>sv_diagnostics := (sv_diagnostics sv1)(published \<mapsto> ds)\<rparr>"
      have same2: "same_sync sv ?sv2" by (rule same_sync_diagnostics [OF same1])
      show ?thesis
      proof (cases "diagnostic_uri_matches (rx_codec ctx) uri published")
        case True
        then show ?thesis using "1.prems" g Inr Some pd same1
          by (simp add: diagnostics_loop.simps [of ctx uri sv] Let_def same_sync_diagnostics)
      next
        case False
        have "(r, sv') = diagnostics_loop ctx uri ?sv2"
          using "1.prems" g Inr Some pd False by (simp add: diagnostics_loop.simps [of ctx uri sv] Let_def)
        from "1.IH"(2) [OF g [symmetric] Inr Some [unfolded pd] refl refl False this] same2 show ?thesis
          by (rule same_sync_trans [rotated])
      qed
    qed
  qed
qed

lemma diagnostics_for_same:
  assumes "(r, sv') = diagnostics_for ctx uri sv"
  shows "same_sync sv sv'"
proof (cases "sv_diagnostics sv uri")
  case (Some d)
  with assms show ?thesis by (simp add: diagnostics_for_def)
next
  case None
  show ?thesis
  proof (cases "cap_pull_diagnostics (sv_capabilities sv)")
    case True
    let ?q = "server_request ctx ''textDocument/diagnostic'' (JObj [(''textDocument'', JObj [(''uri'', JStr uri)])]) sv"
    obtain g sv1 where g: "?q = (g, sv1)" by fastforce
    then have "same_sync sv sv1" using request_same [OF g [symmetric]] by simp
    with assms None True g show ?thesis
      by (auto simp: diagnostics_for_def same_sync_diagnostics split: sum.splits)
  next
    case False
    with assms None show ?thesis by (simp add: diagnostics_for_def diagnostics_loop_same)
  qed
qed

lemma server_answer_same: "(r, sv') = server_answer ctx operation document c sv \<Longrightarrow> same_sync sv sv'"
  by (cases operation) (auto simp: server_answer_def dest: diagnostics_for_same request_same split: sum.splits)

text \<open>A write that fails is a failure of the transport.\<close>

lemma notify_error: "(Inl e, sv') = server_notify ctx m sv \<Longrightarrow> restartable e"
proof -
  have "restartable (from_transport t lang tail_text)" for t lang tail_text by (cases t) simp_all
  then show "(Inl e, sv') = server_notify ctx m sv \<Longrightarrow> restartable e"
    by (auto simp: server_notify_def Let_def split: list.splits option.splits)
qed

lemma notify_sent: "(Inr u, sv') = server_notify ctx m sv \<Longrightarrow> sv_sent sv' = sv_sent sv @ [m]
    \<and> sv_documents sv' = sv_documents sv \<and> sv_capabilities sv' = sv_capabilities sv"
  by (auto simp: server_notify_def Let_def split: list.splits option.splits)

lemma server_sync_ok:
  assumes "(Inr synchronized, sv') = server_sync ctx document sv" "server_synced sha sv"
    and "dsn_hash document = content_hash sha (dsn_content document)"
  shows "server_synced sha sv' \<and> sv_capabilities sv' = sv_capabilities sv \<and> sd_hash synchronized = dsn_hash document
    \<and> map_of (sv_documents sv') (dsn_uri document)
        = Some \<lparr>dst_hash = dsn_hash document, dst_version = sd_version synchronized\<rparr>"
proof -
  obtain plan docs where p: "plan_sync (sv_documents sv) document = (plan, docs)" by fastforce
  have m: "map_of docs (dsn_uri document)
      = Some \<lparr>dst_hash = dsn_hash document, dst_version = sd_version (sp_synchronized plan)\<rparr>"
    "sd_hash (sp_synchronized plan) = dsn_hash document"
    using p by (auto simp: plan_sync_def Let_def split: option.splits if_splits)
  from assms(2) obtain view where v: "replay Map.empty (sv_sent sv) = Some view" "sync_agrees sha (sv_documents sv) view"
    by (auto simp: server_synced_def)
  obtain view' where v': "(case sp_notification plan of None \<Rightarrow> Some view | Some n \<Rightarrow> view_notify view n) = Some view'"
    "sync_agrees sha docs view'"
    by (rule plan_sync_step [OF v(2) assms(3) p])
  show ?thesis
  proof (cases "sp_notification plan")
    case None
    with assms(1) p v v' m show ?thesis by (auto simp: server_sync_def server_synced_def Let_def)
  next
    case (Some n)
    have "n = did_open document \<or> (\<exists>k. n = did_change document k)"
      using p Some by (auto simp: plan_sync_def Let_def split: option.splits if_splits)
    then have n: "sync_message n" by (auto simp: sync_message_def did_open_def did_change_def json_get_def json_as_str_def)
    obtain g sv2 where g: "server_notify ctx n (sv\<lparr>sv_documents := docs\<rparr>) = (g, sv2)" by fastforce
    with assms(1) p Some obtain u where u: "g = Inr u" "synchronized = sp_synchronized plan"
      "sv_documents sv' = sv_documents sv2" "sv_sent sv' = sv_sent sv2" "sv_capabilities sv' = sv_capabilities sv2"
      by (cases g) (auto simp: server_sync_def Let_def split: if_splits)
    from notify_sent [OF g [unfolded u(1), symmetric]] u have s: "sv_sent sv' = sv_sent sv @ [n]" "sv_documents sv' = docs"
      "sv_capabilities sv' = sv_capabilities sv" by auto
    have "replay Map.empty (sv_sent sv') = Some view'" using v(1) v'(1) Some n by (simp add: s(1) replay_append)
    with s v'(2) m u(2) show ?thesis by (auto simp: server_synced_def)
  qed
qed

lemma server_sync_error: "(Inl e, sv') = server_sync ctx document sv \<Longrightarrow> restartable e"
  by (auto simp: server_sync_def Let_def split: prod.splits option.splits sum.splits
      dest!: sym [of "server_notify _ _ _"] dest: notify_error)

text \<open>The document's text as the server has it, by hash and version.\<close>

definition server_has :: "sha256 \<Rightarrow> server \<Rightarrow> string \<Rightarrow> synchronized_document \<Rightarrow> bool" where
  "server_has sha sv uri sd \<longleftrightarrow>
     (\<exists>view d. replay Map.empty (sv_sent sv) = Some view \<and> view uri = Some d
        \<and> content_hash sha (sdoc_text d) = sd_hash sd \<and> sdoc_version d = sd_version sd)"

lemma server_has_same:
  "same_sync sv sv' \<Longrightarrow> server_has sha sv uri sd \<Longrightarrow> server_has sha sv' uri sd"
  by (auto simp: same_sync_def server_has_def replay_append replay_other)

lemma server_synced_has:
  assumes "server_synced sha sv" "map_of (sv_documents sv) uri = Some \<lparr>dst_hash = h, dst_version = v\<rparr>"
  shows "server_has sha sv uri \<lparr>sd_hash = h, sd_version = v\<rparr>"
proof -
  from assms(1) obtain view where v: "replay Map.empty (sv_sent sv) = Some view" "sync_agrees sha (sv_documents sv) view"
    by (auto simp: server_synced_def)
  with sync_agreesD(2) [OF v(2) assms(2)] show ?thesis by (auto simp: server_has_def)
qed

lemma server_execute_ok:
  assumes "(r, sv') = server_execute ctx operation document sv" "server_synced sha sv"
    and "dsn_hash document = content_hash sha (dsn_content document)"
  shows "(\<forall>e. r = Inl e \<and> \<not> restartable e \<longrightarrow> server_synced sha sv' \<and> sv_capabilities sv' = sv_capabilities sv)
    \<and> (\<forall>v. r = Inr v \<longrightarrow> server_synced sha sv' \<and> sv_capabilities sv' = sv_capabilities sv
         \<and> sd_hash (wr_synchronized v) = dsn_hash document
         \<and> server_has sha sv' (dsn_uri document) (wr_synchronized v))"
proof (cases "\<not> capabilities_support (sv_capabilities sv) (capability_name operation)
    \<or> cap_sync_kind (sv_capabilities sv) = SyncNone")
  case True
  with assms show ?thesis by (auto simp: server_execute_def Let_def split: if_splits)
next
  case False
  obtain g sv1 where g: "server_sync ctx document sv = (g, sv1)" by fastforce
  show ?thesis
  proof (cases g)
    case (Inl e)
    with server_sync_error [OF g [unfolded Inl, symmetric]] assms(1) False g show ?thesis
      by (auto simp: server_execute_def Let_def)
  next
    case (Inr sd)
    note ok = server_sync_ok [OF g [unfolded Inr, symmetric] assms(2,3)]
    obtain h sv2 where h: "server_answer ctx operation document (sv_capabilities sv) sv1 = (h, sv2)" by fastforce
    note same = server_answer_same [OF h [symmetric]]
    have s2: "server_synced sha sv2" using same_sync_synced [OF same] ok by blast
    have has: "server_has sha sv2 (dsn_uri document) sd"
      using server_has_same [OF same] server_synced_has [of sha sv1] ok by (cases sd) fastforce
    have "sv' = sv2" "r = map_sum id (\<lambda>x. \<lparr>wr_result = x, wr_synchronized = sd, wr_capabilities = sv_capabilities sv\<rparr>) h"
      using assms(1) False g Inr h by (auto simp: server_execute_def Let_def split: sum.splits)
    with s2 has ok same show ?thesis by (cases h) (auto simp: same_sync_def)
  qed
qed

text \<open>A server that initializes has been told about no document.\<close>

lemma server_initialize_synced:
  assumes "(Inr sv, sv') = server_initialize ctx sends polls ms"
  shows "server_synced sha sv" "sv_documents sv = []"
proof -
  let ?sv0 = "\<lparr>sv_capabilities = capabilities_none, sv_next_id = 1, sv_documents = [], sv_diagnostics = Map.empty,
                sv_sends = sends, sv_polls = polls, sv_sent = []\<rparr>"
  obtain g sv1 where g: "server_request ctx ''initialize''
      (initialize_params (rx_process_id ctx) (rx_version ctx) (root_uri (rx_codec ctx))) ?sv0 = (g, sv1)" by fastforce
  with assms obtain result c where c: "g = Inr result" "parse_initialize_result result ms = Inr c"
    by (auto simp: server_initialize_def Let_def split: sum.splits)
  let ?m = "JObj [(''jsonrpc'', JStr ''2.0''), (''method'', JStr ''initialized''), (''params'', JObj [])]"
  obtain h sv2 where h: "server_notify ctx ?m (sv1\<lparr>sv_capabilities := c\<rparr>) = (h, sv2)" by fastforce
  with assms g c have sv: "sv = sv2" by (auto simp: server_initialize_def Let_def split: sum.splits)
  have same1: "same_sync ?sv0 sv1" using request_same [OF g [symmetric]] by simp
  then have synced: "server_synced sha (sv1\<lparr>sv_capabilities := c\<rparr>)"
    using same_sync_synced [of ?sv0 sv1 sha] by (simp add: server_synced_def sync_agrees_def)
  have "\<not> sync_message ?m" by (simp add: sync_message_def json_get_def json_as_str_def)
  then have same2: "same_sync (sv1\<lparr>sv_capabilities := c\<rparr>) sv" using notify_same [OF h [symmetric]] sv by blast
  from same_sync_synced [OF same2 synced] show "server_synced sha sv" .
  from same1 same2 show "sv_documents sv = []" by (simp add: same_sync_def)
qed

text \<open>A publication is taken as the document's diagnostics whatever version it names.\<close>

theorem published_version_is_ignored:
  "published_diagnostics (JObj [(''method'', JStr ''textDocument/publishDiagnostics''),
     (''params'', JObj [(''uri'', JStr uri), (''version'', JNum v), (''diagnostics'', ds)])]) = Some (uri, ds)"
  by (simp add: published_diagnostics_def json_get_def json_as_str_def)

end
