(* ===== verification/Lsp_Worker.thy ===== *)
theory Lsp_Worker
  imports Lsp_Server
begin

text \<open>
  The worker of one language server (\<open>src/intelligence/worker.rs\<close>): the requests it runs one
  after another, the single restart of a failed server, and the status it reports. The outcomes of
  spawning a server, and the flags the loop reads between steps (the stop flag, the deadline, the
  elapsed time), are arguments. The thread and the two channels appear as the outcome of sending
  a request and of waiting for its reply.
\<close>

section \<open>Status\<close>

definition queue_capacity :: nat where "queue_capacity = 16"

definition reply_grace_ms :: nat where "reply_grace_ms = 250"

definition latency_samples :: nat where "latency_samples = 64"

datatype worker_readiness = ReadyDisabled | ReadyLazy | ReadyStarting | ReadyReady

fun readiness_as_str :: "worker_readiness \<Rightarrow> string" where
  "readiness_as_str ReadyDisabled = ''disabled''"
| "readiness_as_str ReadyLazy = ''lazy''"
| "readiness_as_str ReadyStarting = ''starting''"
| "readiness_as_str ReadyReady = ''ready''"

record worker_status =
  wst_readiness :: worker_readiness
  wst_restart_count :: nat
  wst_last_error :: "string option"
  wst_capabilities :: "server_capabilities option"
  wst_document_count :: nat
  wst_request_count :: nat
  wst_first_request_ms :: "nat option"
  wst_last_request_ms :: "nat option"
  wst_warm_samples :: "nat list"

definition worker_status_new :: "worker_readiness \<Rightarrow> worker_status" where
  "worker_status_new r =
     \<lparr>wst_readiness = r, wst_restart_count = 0, wst_last_error = None, wst_capabilities = None,
      wst_document_count = 0, wst_request_count = 0, wst_first_request_ms = None,
      wst_last_request_ms = None, wst_warm_samples = []\<rparr>"

definition record_latency :: "nat \<Rightarrow> worker_status \<Rightarrow> worker_status" where
  "record_latency elapsed_ms st =
     (let st1 = st\<lparr>wst_request_count := wst_request_count st + 1, wst_last_request_ms := Some elapsed_ms\<rparr>
      in if wst_first_request_ms st = None then st1\<lparr>wst_first_request_ms := Some elapsed_ms\<rparr>
         else let samples = wst_warm_samples st @ [elapsed_ms]
              in st1\<lparr>wst_warm_samples := (if latency_samples < length samples then tl samples else samples)\<rparr>)"

definition latency_p50 :: "nat list \<Rightarrow> nat option" where
  "latency_p50 samples = (if samples = [] then None else Some (sort samples ! ((length samples - 1) div 2)))"

section \<open>The worker thread\<close>

text \<open>What spawning a server gives: the message of a failure, or the new server's script and the
  time it will take to initialize.\<close>

type_synonym spawn_outcome =
  "string + ((transport_error \<times> string option) option list \<times> poll list \<times> nat)"

record worker =
  wk_context :: request_context
  wk_server :: "server option"
  wk_status :: worker_status
  wk_spawns :: "nat \<Rightarrow> spawn_outcome"
  wk_spawned :: nat

type_synonym worker_result = "worker_error + worker_response"

definition update_status :: "(worker_status \<Rightarrow> worker_status) \<Rightarrow> worker \<Rightarrow> worker" where
  "update_status f wk = wk\<lparr>wk_status := f (wk_status wk)\<rparr>"

definition record_success :: "worker \<Rightarrow> worker" where
  "record_success wk =
     update_status (\<lambda>st. st\<lparr>wst_readiness := ReadyReady, wst_last_error := None,
        wst_document_count := (case wk_server wk of Some sv \<Rightarrow> length (sv_documents sv)
                                                  | None \<Rightarrow> wst_document_count st)\<rparr>) wk"

definition record_failure :: "worker_error \<Rightarrow> bool \<Rightarrow> worker \<Rightarrow> worker" where
  "record_failure e restarting wk =
     update_status (\<lambda>st.
        let st1 = st\<lparr>wst_last_error := Some (ae_message (to_app_error e)),
                     wst_restart_count := wst_restart_count st + (if restarting then 1 else 0)\<rparr>
        in if wk_server wk = None
           then st1\<lparr>wst_readiness := ReadyLazy, wst_capabilities := None, wst_document_count := 0\<rparr>
           else st1) wk"

text \<open>A server taken out for the request is put back unless its failure discards it.\<close>

definition run_server ::
    "worker_operation \<Rightarrow> document_snapshot \<Rightarrow> server \<Rightarrow> worker \<Rightarrow> worker_result \<times> worker" where
  "run_server operation document sv wk =
     (case server_execute (wk_context wk) operation document sv of
        (r, sv1) \<Rightarrow>
          let discard = (case r of Inl e \<Rightarrow> restartable e \<or> e = BackendStopped | Inr _ \<Rightarrow> False)
          in (r, wk\<lparr>wk_server := (if discard then None else Some sv1)\<rparr>))"

definition execute_once :: "worker_operation \<Rightarrow> document_snapshot \<Rightarrow> worker \<Rightarrow> worker_result \<times> worker" where
  "execute_once operation document wk =
     (case wk_server wk of
        Some sv \<Rightarrow> run_server operation document sv wk
      | None \<Rightarrow>
          let wk1 = (update_status (\<lambda>st. st\<lparr>wst_readiness := ReadyStarting\<rparr>) wk)\<lparr>wk_spawned := wk_spawned wk + 1\<rparr>
          in case wk_spawns wk (wk_spawned wk) of
               Inl message \<Rightarrow> (Inl (ServerStartFailed (rx_language (wk_context wk)) message), wk1)
             | Inr (sends, polls, elapsed_ms) \<Rightarrow>
                 (case server_initialize (wk_context wk) sends polls elapsed_ms of
                    (Inl e, _) \<Rightarrow> (Inl e, wk1)
                  | (Inr sv, _) \<Rightarrow>
                      run_server operation document sv
                        (update_status (\<lambda>st. st\<lparr>wst_readiness := ReadyReady,
                            wst_capabilities := Some (sv_capabilities sv)\<rparr>) wk1)))"

text \<open>\<open>may_retry\<close>: after the first failure the deadline has not passed and the worker is not
  stopping.\<close>

definition execute_with_restart ::
    "worker_operation \<Rightarrow> document_snapshot \<Rightarrow> bool \<Rightarrow> worker \<Rightarrow> worker_result \<times> worker" where
  "execute_with_restart operation document may_retry wk =
     (let (r, wk2) = (case execute_once operation document wk of
           (Inl e, wk1) \<Rightarrow>
             if restartable e \<and> may_retry
             then execute_once operation document (record_failure e True wk1) else (Inl e, wk1)
         | (Inr v, wk1) \<Rightarrow> (Inr v, wk1))
      in (r, case r of Inr _ \<Rightarrow> record_success wk2 | Inl e \<Rightarrow> record_failure e False wk2))"

record command =
  cm_operation :: worker_operation
  cm_document :: document_snapshot
  cm_stopping :: bool
  cm_expired :: bool
  cm_may_retry :: bool
  cm_elapsed_ms :: nat

definition run_command :: "command \<Rightarrow> worker \<Rightarrow> worker_result \<times> worker" where
  "run_command c wk =
     (if cm_stopping c then (Inl BackendStopped, wk)
      else if cm_expired c then (Inl (ServerTimedOut (rx_language (wk_context wk)) None), wk)
      else (case execute_with_restart (cm_operation c) (cm_document c) (cm_may_retry c) wk of
              (r, wk1) \<Rightarrow> (r, update_status (record_latency (cm_elapsed_ms c)) wk1)))"

fun run_worker :: "command list \<Rightarrow> worker \<Rightarrow> worker_result list \<times> worker" where
  "run_worker [] wk = ([], wk)"
| "run_worker (c # cs) wk =
     (case run_command c wk of (r, wk1) \<Rightarrow> case run_worker cs wk1 of (rs, wk2) \<Rightarrow> (r # rs, wk2))"

section \<open>The caller's side\<close>

record server_settings =
  lss_enabled :: bool
  lss_command :: string
  lss_args :: "string list"
  lss_timeout_ms :: nat

record lsp_worker =
  lw_preset :: lsp_preset
  lw_command :: string
  lw_args :: "string list"
  lw_timeout_ms :: nat
  lw_running :: bool
  lw_status :: worker_status

text \<open>\<open>LspWorker::spawn\<close>; the argument is the failure to start the thread, if any.\<close>

definition lsp_worker_spawn :: "string option \<Rightarrow> lsp_preset \<Rightarrow> server_settings \<Rightarrow> app_error + lsp_worker" where
  "lsp_worker_spawn thread_failure preset settings =
     (let command = (if lss_command settings = [] then preset_default_command preset else lss_command settings);
          args = (if lss_args settings = [] then preset_default_args preset else lss_args settings);
          status = worker_status_new (if lss_enabled settings then ReadyLazy else ReadyDisabled)
      in case (lss_enabled settings, thread_failure) of
           (True, Some e) \<Rightarrow>
             Inl (error_with_details LspWorkerStartFailed
                    (''Cannot start the language-server worker thread: '' @ e)
                    (JObj [(''language'', JStr (preset_key preset))]))
         | _ \<Rightarrow> Inr \<lparr>lw_preset = preset, lw_command = command, lw_args = args,
                     lw_timeout_ms = max (lss_timeout_ms settings) 1, lw_running = lss_enabled settings,
                     lw_status = status\<rparr>)"

definition request_budget_ms :: "lsp_worker \<Rightarrow> nat" where
  "request_budget_ms w = lw_timeout_ms w * 4 + 2000"

text \<open>How the request enters the queue, and what comes back within the budget and its grace.\<close>

datatype 'r reply = ReplyResult 'r | ReplyTimeout | ReplyDisconnected

datatype 'r submission = Queued "'r reply" | QueueFull | QueueDisconnected

definition worker_submit :: "lsp_worker \<Rightarrow> worker_result submission \<Rightarrow> worker_result" where
  "worker_submit w s =
     (let lang = preset_key (lw_preset w) in
      if \<not> lw_running w then Inl (BackendDisabled lang)
      else (case s of
              QueueFull \<Rightarrow> Inl (BackendBusy lang)
            | QueueDisconnected \<Rightarrow> Inl BackendStopped
            | Queued (ReplyResult r) \<Rightarrow> r
            | Queued ReplyTimeout \<Rightarrow> Inl (ServerTimedOut lang None)
            | Queued ReplyDisconnected \<Rightarrow> Inl BackendStopped))"

definition num_json :: "nat option \<Rightarrow> json" where
  "num_json v = (case v of None \<Rightarrow> JNull | Some n \<Rightarrow> JNum (int n))"

definition worker_status_json :: "lsp_worker \<Rightarrow> json" where
  "worker_status_json w =
     (let st = lw_status w
      in JObj
       [(''language'', JStr (preset_key (lw_preset w))), (''configured'', JBool (lw_running w)),
        (''command'', JStr (lw_command w)), (''args'', JArr (map JStr (lw_args w))),
        (''timeout_ms'', JNum (int (lw_timeout_ms w))),
        (''readiness'', JStr (readiness_as_str (wst_readiness st))),
        (''restart_count'', JNum (int (wst_restart_count st))),
        (''last_error'', str_json (wst_last_error st)),
        (''synchronized_document_count'', JNum (int (wst_document_count st))),
        (''capabilities'', case wst_capabilities st of None \<Rightarrow> JNull | Some c \<Rightarrow> capabilities_json c),
        (''latency_ms'', JObj
          [(''initialization'', num_json (map_option cap_initialization_ms (wst_capabilities st))),
           (''first_request'', num_json (wst_first_request_ms st)),
           (''last_request'', num_json (wst_last_request_ms st)),
           (''warm_request_p50'', num_json (latency_p50 (wst_warm_samples st))),
           (''request_count'', JNum (int (wst_request_count st)))]),
        (''fallback'', JStr ''tree_sitter_then_lexical'')])"

section \<open>The invariant\<close>

text \<open>The status tells the truth about the server, and the server has the documents the record
  says it has.\<close>

definition worker_ok :: "sha256 \<Rightarrow> worker \<Rightarrow> bool" where
  "worker_ok sha wk \<longleftrightarrow>
     (case wk_server wk of
        None \<Rightarrow> wst_readiness (wk_status wk) = ReadyLazy \<and> wst_capabilities (wk_status wk) = None
                \<and> wst_document_count (wk_status wk) = 0
      | Some sv \<Rightarrow> wst_readiness (wk_status wk) = ReadyReady
                \<and> wst_capabilities (wk_status wk) = Some (sv_capabilities sv) \<and> server_synced sha sv)
     \<and> length (wst_warm_samples (wk_status wk)) \<le> latency_samples"

text \<open>Between the two halves of a request the status may still say starting.\<close>

definition worker_mid :: "sha256 \<Rightarrow> worker \<Rightarrow> bool" where
  "worker_mid sha wk \<longleftrightarrow>
     (\<forall>sv. wk_server wk = Some sv \<longrightarrow> wst_readiness (wk_status wk) = ReadyReady
        \<and> wst_capabilities (wk_status wk) = Some (sv_capabilities sv) \<and> server_synced sha sv)
     \<and> length (wst_warm_samples (wk_status wk)) \<le> latency_samples"

lemma worker_ok_mid: "worker_ok sha wk \<Longrightarrow> worker_mid sha wk"
  by (auto simp: worker_ok_def worker_mid_def split: option.splits)

text \<open>An answer: about this document's hash, by a server that was kept and has its text.\<close>

definition answers :: "sha256 \<Rightarrow> document_snapshot \<Rightarrow> worker_result \<Rightarrow> worker \<Rightarrow> bool" where
  "answers sha document r wk \<longleftrightarrow>
     (\<forall>v. r = Inr v \<longrightarrow> sd_hash (wr_synchronized v) = dsn_hash document
        \<and> (\<exists>sv. wk_server wk = Some sv \<and> server_has sha sv (dsn_uri document) (wr_synchronized v)))"

lemma run_server_ok:
  assumes "run_server operation document sv wk = (r, wk')" "server_synced sha sv"
    and "dsn_hash document = content_hash sha (dsn_content document)"
    and "wst_readiness (wk_status wk) = ReadyReady" "wst_capabilities (wk_status wk) = Some (sv_capabilities sv)"
    and "length (wst_warm_samples (wk_status wk)) \<le> latency_samples"
  shows "worker_mid sha wk' \<and> answers sha document r wk' \<and> wk_spawned wk' = wk_spawned wk
    \<and> wst_restart_count (wk_status wk') = wst_restart_count (wk_status wk)
    \<and> (\<forall>e. r = Inl e \<and> restartable e \<longrightarrow> wk_server wk' = None)"
proof -
  obtain g sv1 where g: "server_execute (wk_context wk) operation document sv = (g, sv1)" by fastforce
  note ok = server_execute_ok [OF g [symmetric] assms(2,3)]
  show ?thesis
  proof (cases g)
    case (Inl e)
    with assms g ok show ?thesis
      by (cases "restartable e \<or> e = BackendStopped") (auto simp: run_server_def worker_mid_def answers_def Let_def)
  next
    case (Inr v)
    with assms g ok show ?thesis by (auto simp: run_server_def worker_mid_def answers_def Let_def)
  qed
qed

lemma execute_once_ok:
  assumes "execute_once operation document wk = (r, wk')" "worker_mid sha wk"
    and "dsn_hash document = content_hash sha (dsn_content document)"
  shows "worker_mid sha wk' \<and> answers sha document r wk'
    \<and> wk_spawned wk' = wk_spawned wk + (if wk_server wk = None then 1 else 0)
    \<and> wst_restart_count (wk_status wk') = wst_restart_count (wk_status wk)
    \<and> (\<forall>e. r = Inl e \<and> restartable e \<longrightarrow> wk_server wk' = None)"
proof (cases "wk_server wk")
  case (Some sv)
  with assms run_server_ok [of operation document sv wk r wk' sha] show ?thesis
    by (auto simp: execute_once_def worker_mid_def)
next
  case None
  let ?wk1 = "(update_status (\<lambda>st. st\<lparr>wst_readiness := ReadyStarting\<rparr>) wk)\<lparr>wk_spawned := wk_spawned wk + 1\<rparr>"
  have mid1: "worker_mid sha ?wk1" using assms(2) None by (simp add: worker_mid_def update_status_def)
  show ?thesis
  proof (cases "wk_spawns wk (wk_spawned wk)")
    case (Inl message)
    with assms None mid1 show ?thesis by (auto simp: execute_once_def answers_def update_status_def Let_def)
  next
    case (Inr spawn)
    obtain sends polls ms where spawn: "spawn = (sends, polls, ms)" by (cases spawn)
    obtain g sv0 where g: "server_initialize (wk_context wk) sends polls ms = (g, sv0)" by fastforce
    show ?thesis
    proof (cases g)
      case (Inl e)
      with assms None Inr spawn g mid1 show ?thesis
        by (auto simp: execute_once_def answers_def update_status_def Let_def)
    next
      case gr: (Inr sv)
      let ?wk2 = "update_status (\<lambda>st. st\<lparr>wst_readiness := ReadyReady, wst_capabilities := Some (sv_capabilities sv)\<rparr>) ?wk1"
      have "run_server operation document sv ?wk2 = (r, wk')"
        using assms(1) None Inr spawn g gr by (simp add: execute_once_def Let_def)
      moreover have "server_synced sha sv" using server_initialize_synced(1) [OF g [unfolded gr, symmetric]] .
      ultimately show ?thesis
        using run_server_ok [of operation document sv ?wk2 r wk' sha] assms(2,3) None
        by (simp add: update_status_def worker_mid_def)
    qed
  qed
qed

lemma record_failure_ok: "worker_mid sha wk \<Longrightarrow> worker_ok sha (record_failure e b wk)"
  by (auto simp: worker_mid_def worker_ok_def record_failure_def update_status_def Let_def split: option.splits)

lemma record_success_ok:
  "worker_mid sha wk \<Longrightarrow> wk_server wk \<noteq> None \<Longrightarrow> worker_ok sha (record_success wk)"
  by (auto simp: worker_mid_def worker_ok_def record_success_def update_status_def)

lemma record_simps [simp]:
  "wk_server (record_failure e b wk) = wk_server wk" "wk_spawned (record_failure e b wk) = wk_spawned wk"
  "wst_restart_count (wk_status (record_failure e b wk)) = wst_restart_count (wk_status wk) + (if b then 1 else 0)"
  "wk_server (record_success wk) = wk_server wk" "wk_spawned (record_success wk) = wk_spawned wk"
  "wst_restart_count (wk_status (record_success wk)) = wst_restart_count (wk_status wk)"
  by (simp_all add: record_failure_def record_success_def update_status_def Let_def)

lemma execute_with_restart_ok:
  assumes "execute_with_restart operation document may_retry wk = (r, wk')" "worker_ok sha wk"
    and "dsn_hash document = content_hash sha (dsn_content document)"
  shows "worker_ok sha wk' \<and> answers sha document r wk'
    \<and> wst_restart_count (wk_status wk') \<le> wst_restart_count (wk_status wk) + 1
    \<and> wk_spawned wk' \<le> wk_spawned wk + (if wk_server wk = None then 1 else 0)
        + (wst_restart_count (wk_status wk') - wst_restart_count (wk_status wk))"
proof -
  obtain g wk1 where g: "execute_once operation document wk = (g, wk1)" by fastforce
  note first = execute_once_ok [OF g worker_ok_mid [OF assms(2)] assms(3)]
  obtain r2 wk2 where r2: "(case g of Inl e \<Rightarrow> if restartable e \<and> may_retry
         then execute_once operation document (record_failure e True wk1) else (Inl e, wk1)
      | Inr v \<Rightarrow> (Inr v, wk1)) = (r2, wk2)" by fastforce
  have final: "r = r2" "wk' = (case r2 of Inr _ \<Rightarrow> record_success wk2 | Inl e \<Rightarrow> record_failure e False wk2)"
    using assms(1) g r2 by (auto simp: execute_with_restart_def Let_def split: sum.splits)
  have second: "worker_mid sha wk2 \<and> answers sha document r2 wk2
      \<and> wst_restart_count (wk_status wk2) \<le> wst_restart_count (wk_status wk) + 1
      \<and> wk_spawned wk2 \<le> wk_spawned wk + (if wk_server wk = None then 1 else 0)
          + (wst_restart_count (wk_status wk2) - wst_restart_count (wk_status wk))"
  proof (cases "\<exists>e. g = Inl e \<and> restartable e \<and> may_retry")
    case True
    then obtain e where e: "g = Inl e" "restartable e" may_retry by blast
    with r2 have "execute_once operation document (record_failure e True wk1) = (r2, wk2)" by simp
    from execute_once_ok [OF this worker_ok_mid [OF record_failure_ok] assms(3)] first e
    show ?thesis by simp
  next
    case False
    with r2 have "r2 = g" "wk2 = wk1" by (auto split: sum.splits if_splits)
    with first show ?thesis by simp
  qed
  show ?thesis
  proof (cases r2)
    case (Inl e)
    with second final record_failure_ok [of sha wk2 e False] show ?thesis by (simp add: answers_def)
  next
    case (Inr v)
    with second have "wk_server wk2 \<noteq> None" by (auto simp: answers_def)
    with Inr second final record_success_ok [of sha wk2] show ?thesis by (simp add: answers_def)
  qed
qed

lemma update_latency_ok: "worker_ok sha wk \<Longrightarrow> worker_ok sha (update_status (record_latency ms) wk)"
  by (auto simp: worker_ok_def update_status_def record_latency_def Let_def split: option.splits)

lemma run_command_ok:
  assumes "run_command c wk = (r, wk')" "worker_ok sha wk"
    and "dsn_hash (cm_document c) = content_hash sha (dsn_content (cm_document c))"
  shows "worker_ok sha wk' \<and> answers sha (cm_document c) r wk'
    \<and> wst_restart_count (wk_status wk') \<le> wst_restart_count (wk_status wk) + 1
    \<and> wk_spawned wk' \<le> wk_spawned wk + (if wk_server wk = None then 1 else 0)
        + (wst_restart_count (wk_status wk') - wst_restart_count (wk_status wk))"
proof (cases "cm_stopping c \<or> cm_expired c")
  case True
  with assms(1,2) show ?thesis by (auto simp: run_command_def answers_def split: if_splits)
next
  case False
  obtain g wk1 where g: "execute_with_restart (cm_operation c) (cm_document c) (cm_may_retry c) wk = (g, wk1)"
    by fastforce
  have "wst_restart_count (record_latency m st) = wst_restart_count st" for m st
    by (simp add: record_latency_def Let_def)
  moreover from False assms(1) g have w: "r = g" "wk' = update_status (record_latency (cm_elapsed_ms c)) wk1"
    by (simp_all add: run_command_def)
  ultimately have "wst_restart_count (wk_status wk') = wst_restart_count (wk_status wk1)"
    "wk_spawned wk' = wk_spawned wk1" "wk_server wk' = wk_server wk1"
    by (simp_all add: update_status_def)
  with w execute_with_restart_ok [OF g assms(2,3)] update_latency_ok [of sha wk1 "cm_elapsed_ms c"]
  show ?thesis by (simp add: answers_def)
qed

subsection \<open>The number of documents\<close>

lemma documents_insert_length:
  "distinct (map fst docs) \<Longrightarrow> distinct (map fst (documents_insert u st docs)) \<and> length docs \<le> length (documents_insert u st docs)"
proof (induction docs)
  case (Cons d docs)
  have "filter (\<lambda>d. fst d \<noteq> u) docs = docs" if "u \<notin> fst ` set docs" using that by (auto simp: filter_id_conv)
  with Cons show ?case by (auto simp: documents_insert_def distinct_map_filter)
qed (simp add: documents_insert_def)

lemma server_execute_documents:
  assumes "(r, sv') = server_execute ctx operation document sv" "distinct (map fst (sv_documents sv))"
    and "\<forall>e. r = Inl e \<longrightarrow> \<not> restartable e"
  shows "distinct (map fst (sv_documents sv')) \<and> length (sv_documents sv) \<le> length (sv_documents sv')"
proof (cases "\<not> capabilities_support (sv_capabilities sv) (capability_name operation)
    \<or> cap_sync_kind (sv_capabilities sv) = SyncNone")
  case True
  with assms show ?thesis by (auto simp: server_execute_def Let_def split: if_splits)
next
  case False
  obtain g sv1 where g: "server_sync ctx document sv = (g, sv1)" by fastforce
  show ?thesis
  proof (cases g)
    case (Inl e)
    with server_sync_error [OF g [unfolded Inl, symmetric]] assms(1,3) False g show ?thesis
      by (auto simp: server_execute_def Let_def)
  next
    case (Inr sd)
    obtain plan docs where p: "plan_sync (sv_documents sv) document = (plan, docs)" by fastforce
    have d: "docs = documents_insert (dsn_uri document) \<lparr>dst_hash = dsn_hash document, dst_version = sd_version (sp_synchronized plan)\<rparr> (sv_documents sv)"
      using p by (auto simp: plan_sync_def Let_def split: option.splits if_splits)
    have s1: "sv_documents sv1 = docs"
      using g Inr p by (auto simp: server_sync_def Let_def split: option.splits sum.splits prod.splits if_splits
        dest!: sym [of "server_notify _ _ _"] dest: notify_sent)
    obtain h sv2 where h: "server_answer ctx operation document (sv_capabilities sv) sv1 = (h, sv2)" by fastforce
    have "sv' = sv2" using assms(1) False g Inr h by (auto simp: server_execute_def Let_def split: sum.splits)
    then have "sv_documents sv' = docs" using server_answer_same [OF h [symmetric]] s1 by (simp add: same_sync_def)
    then show ?thesis using documents_insert_length [OF assms(2)] unfolding d by simp
  qed
qed

text \<open>The reported number of documents never exceeds the true one; a request that is answered makes
  them equal. Between the two halves of a request only the first is known.\<close>

definition count_mid :: "worker \<Rightarrow> bool" where
  "count_mid wk \<longleftrightarrow> (\<forall>sv. wk_server wk = Some sv \<longrightarrow>
     distinct (map fst (sv_documents sv)) \<and> wst_document_count (wk_status wk) \<le> length (sv_documents sv))"

definition count_ok :: "worker \<Rightarrow> bool" where
  "count_ok wk \<longleftrightarrow> count_mid wk \<and> (wk_server wk = None \<longrightarrow> wst_document_count (wk_status wk) = 0)"

definition count_exact :: "worker \<Rightarrow> bool" where
  "count_exact wk \<longleftrightarrow> wst_document_count (wk_status wk)
     = (case wk_server wk of None \<Rightarrow> 0 | Some sv \<Rightarrow> length (sv_documents sv))"

lemma run_server_count:
  assumes "run_server operation document sv wk = (r, wk')" "distinct (map fst (sv_documents sv))"
    and "wst_document_count (wk_status wk) \<le> length (sv_documents sv)"
  shows "count_mid wk'"
proof -
  obtain g sv1 where g: "server_execute (wk_context wk) operation document sv = (g, sv1)" by fastforce
  from assms(1) g have w: "wk' = wk\<lparr>wk_server :=
      if (case g of Inl e \<Rightarrow> restartable e \<or> e = BackendStopped | Inr _ \<Rightarrow> False) then None else Some sv1\<rparr>"
    by (auto simp: run_server_def Let_def)
  show ?thesis
  proof (cases "case g of Inl e \<Rightarrow> restartable e \<or> e = BackendStopped | Inr _ \<Rightarrow> False")
    case True
    then show ?thesis by (simp add: w count_mid_def)
  next
    case False
    then have "\<forall>e. g = Inl e \<longrightarrow> \<not> restartable e" by auto
    from server_execute_documents [OF g [symmetric] assms(2) this] assms(3) False show ?thesis
      by (simp add: w count_mid_def)
  qed
qed

lemma execute_once_count:
  assumes "execute_once operation document wk = (r, wk')" "count_ok wk"
  shows "count_mid wk'"
proof (cases "wk_server wk")
  case (Some sv)
  with assms run_server_count [of operation document sv wk r wk'] show ?thesis
    by (simp add: execute_once_def count_ok_def count_mid_def)
next
  case None
  show ?thesis
  proof (cases "wk_spawns wk (wk_spawned wk)")
    case (Inl message)
    with assms None show ?thesis by (auto simp: execute_once_def count_mid_def update_status_def Let_def)
  next
    case (Inr spawn)
    obtain sends polls ms where spawn: "spawn = (sends, polls, ms)" by (cases spawn)
    obtain g sv0 where g: "server_initialize (wk_context wk) sends polls ms = (g, sv0)" by fastforce
    show ?thesis
    proof (cases g)
      case (Inl e)
      with assms None Inr spawn g show ?thesis
        by (auto simp: execute_once_def count_mid_def update_status_def Let_def)
    next
      case gr: (Inr sv)
      have "sv_documents sv = []" by (rule server_initialize_synced(2) [OF g [unfolded gr, symmetric]])
      with assms None Inr spawn g gr show ?thesis
        by (simp add: execute_once_def Let_def) (erule run_server_count; simp add: update_status_def count_ok_def)
    qed
  qed
qed

lemma record_failure_count: "count_mid wk \<Longrightarrow> count_ok (record_failure e b wk)"
  by (auto simp: count_mid_def count_ok_def record_failure_def update_status_def Let_def)

lemma record_success_count:
  "count_mid wk \<Longrightarrow> wk_server wk \<noteq> None \<Longrightarrow> count_ok (record_success wk) \<and> count_exact (record_success wk)"
  by (auto simp: count_mid_def count_ok_def count_exact_def record_success_def update_status_def)

lemma execute_with_restart_count:
  assumes "execute_with_restart operation document may_retry wk = (r, wk')" "count_ok wk"
    and "\<forall>v. r = Inr v \<longrightarrow> wk_server wk' \<noteq> None"
  shows "count_ok wk' \<and> (\<forall>v. r = Inr v \<longrightarrow> count_exact wk')"
proof -
  obtain g wk1 where g: "execute_once operation document wk = (g, wk1)" by fastforce
  obtain r2 wk2 where r2: "(case g of Inl e \<Rightarrow> if restartable e \<and> may_retry
         then execute_once operation document (record_failure e True wk1) else (Inl e, wk1)
      | Inr v \<Rightarrow> (Inr v, wk1)) = (r2, wk2)" by fastforce
  have final: "r = r2" "wk' = (case r2 of Inr _ \<Rightarrow> record_success wk2 | Inl e \<Rightarrow> record_failure e False wk2)"
    using assms(1) g r2 by (auto simp: execute_with_restart_def Let_def split: sum.splits)
  note first = execute_once_count [OF g assms(2)]
  have "count_mid wk2"
  proof (cases "\<exists>e. g = Inl e \<and> restartable e \<and> may_retry")
    case True
    then obtain e where e: "g = Inl e" "restartable e" may_retry by blast
    with r2 have "execute_once operation document (record_failure e True wk1) = (r2, wk2)" by simp
    from execute_once_count [OF this record_failure_count [OF first]] show ?thesis .
  next
    case False
    with r2 have "wk2 = wk1" by (auto split: sum.splits if_splits)
    with first show ?thesis by simp
  qed
  then show ?thesis
    using record_failure_count [of wk2] record_success_count [of wk2] final assms(3) by (cases r2) auto
qed

lemma run_command_count:
  assumes "run_command c wk = (r, wk')" "count_ok wk" "\<forall>v. r = Inr v \<longrightarrow> wk_server wk' \<noteq> None"
  shows "count_ok wk' \<and> (\<forall>v. r = Inr v \<longrightarrow> count_exact wk')"
proof (cases "cm_stopping c \<or> cm_expired c")
  case True
  with assms(1,2) show ?thesis by (auto simp: run_command_def split: if_splits)
next
  case False
  obtain g wk1 where g: "execute_with_restart (cm_operation c) (cm_document c) (cm_may_retry c) wk = (g, wk1)"
    by fastforce
  with False assms(1) have w: "r = g" "wk' = update_status (record_latency (cm_elapsed_ms c)) wk1"
    by (simp_all add: run_command_def)
  have l: "wk_server wk' = wk_server wk1" "wst_document_count (wk_status wk') = wst_document_count (wk_status wk1)"
    by (simp_all add: w update_status_def record_latency_def Let_def)
  from execute_with_restart_count [OF g assms(2)] assms(3) w l show ?thesis
    by (simp add: count_ok_def count_mid_def count_exact_def)
qed

section \<open>Properties\<close>

definition worker_new :: "request_context \<Rightarrow> (nat \<Rightarrow> spawn_outcome) \<Rightarrow> worker" where
  "worker_new ctx spawns =
     \<lparr>wk_context = ctx, wk_server = None, wk_status = worker_status_new ReadyLazy, wk_spawns = spawns, wk_spawned = 0\<rparr>"

lemma worker_new_ok: "worker_ok sha (worker_new ctx spawns)"
  by (simp add: worker_ok_def worker_new_def worker_status_new_def)

lemma run_worker_ok:
  assumes "run_worker cs wk = (rs, wk')" "worker_ok sha wk"
    and "\<forall>c \<in> set cs. dsn_hash (cm_document c) = content_hash sha (dsn_content (cm_document c))"
  shows "worker_ok sha wk' \<and> length rs = length cs
    \<and> wst_restart_count (wk_status wk') \<le> wst_restart_count (wk_status wk) + length cs"
  using assms
proof (induction cs arbitrary: wk rs)
  case (Cons c cs)
  obtain r wk1 where r: "run_command c wk = (r, wk1)" by fastforce
  obtain rs1 where rs: "run_worker cs wk1 = (rs1, wk')" "rs = r # rs1"
    using Cons.prems(1) r by (auto split: prod.splits)
  from run_command_ok [OF r Cons.prems(2)] Cons.prems(3)
  have "worker_ok sha wk1" "wst_restart_count (wk_status wk1) \<le> wst_restart_count (wk_status wk) + 1" by auto
  with Cons.IH [OF rs(1)] Cons.prems(3) rs(2) show ?case by fastforce
qed simp

lemma last_answer_server:
  assumes "run_worker cs wk = (rs, wk')" "worker_ok sha wk"
    and "\<forall>c \<in> set cs. dsn_hash (cm_document c) = content_hash sha (dsn_content (cm_document c))"
    and "rs \<noteq> []" "last rs = Inr v"
  shows "wk_server wk' \<noteq> None"
  using assms
proof (induction cs arbitrary: wk rs)
  case (Cons c cs)
  obtain r wk1 where r: "run_command c wk = (r, wk1)" by fastforce
  obtain rs1 where rs: "run_worker cs wk1 = (rs1, wk')" "rs = r # rs1"
    using Cons.prems(1) r by (auto split: prod.splits)
  have h: "dsn_hash (cm_document c) = content_hash sha (dsn_content (cm_document c))" using Cons.prems(3) by simp
  note ok = run_command_ok [OF r Cons.prems(2) h]
  show ?case
  proof (cases cs)
    case Nil
    with rs Cons.prems(5) ok show ?thesis by (auto simp: answers_def)
  next
    case Cons2: (Cons d ds)
    with rs(1) have "rs1 \<noteq> []" by (auto split: prod.splits)
    with Cons.IH [OF rs(1) ok [THEN conjunct1]] Cons.prems(3,5) rs(2) show ?thesis by simp
  qed
qed simp

lemma run_worker_count:
  assumes "run_worker cs wk = (rs, wk')" "worker_ok sha wk" "count_ok wk"
    and "\<forall>c \<in> set cs. dsn_hash (cm_document c) = content_hash sha (dsn_content (cm_document c))"
  shows "count_ok wk' \<and> (rs \<noteq> [] \<longrightarrow> (\<forall>v. last rs = Inr v \<longrightarrow> count_exact wk'))"
  using assms
proof (induction cs arbitrary: wk rs)
  case (Cons c cs)
  obtain r wk1 where r: "run_command c wk = (r, wk1)" by fastforce
  obtain rs1 where rs: "run_worker cs wk1 = (rs1, wk')" "rs = r # rs1"
    using Cons.prems(1) r by (auto split: prod.splits)
  have h: "dsn_hash (cm_document c) = content_hash sha (dsn_content (cm_document c))" using Cons.prems(4) by simp
  note ok = run_command_ok [OF r Cons.prems(2) h]
  then have "\<forall>v. r = Inr v \<longrightarrow> wk_server wk1 \<noteq> None" by (auto simp: answers_def)
  note count = run_command_count [OF r Cons.prems(3) this]
  have "cs = [] \<Longrightarrow> wk' = wk1 \<and> rs1 = []" using rs(1) by simp
  moreover have "cs \<noteq> [] \<Longrightarrow> rs1 \<noteq> []" using rs(1) by (cases cs) (auto split: prod.splits)
  ultimately show ?case
    using Cons.IH [OF rs(1) ok [THEN conjunct1] count [THEN conjunct1]] Cons.prems(4) rs(2) count
    by (cases "cs = []") auto
qed simp

text \<open>C38. The reported status agrees with the server. After any run of requests, on documents that
  carry the hash of their content, whatever the server process does, the worker is ready exactly when it holds a server, then with that server's
  capabilities, and reports none otherwise; a request is answered once and restarts the server
  at most once; and the messages written to a held server replay to the documents on record. The
  reported number of documents is never more than that of the server, zero without one, and exact
  after a request that was answered; after an error of a server that is kept it may fall behind.\<close>

theorem worker_status_matches_server:
  assumes "run_worker cs (worker_new ctx spawns) = (rs, wk)"
    and "\<forall>c \<in> set cs. dsn_hash (cm_document c) = content_hash sha (dsn_content (cm_document c))"
  shows "length rs = length cs
    \<and> (wst_readiness (wk_status wk) = ReadyReady \<longleftrightarrow> wk_server wk \<noteq> None)
    \<and> wst_capabilities (wk_status wk) = map_option sv_capabilities (wk_server wk)
    \<and> wst_restart_count (wk_status wk) \<le> length cs
    \<and> (\<forall>sv. wk_server wk = Some sv \<longrightarrow> server_synced sha sv
         \<and> wst_document_count (wk_status wk) \<le> length (sv_documents sv))
    \<and> (wk_server wk = None \<longrightarrow> wst_document_count (wk_status wk) = 0)
    \<and> (\<forall>v. rs \<noteq> [] \<and> last rs = Inr v \<longrightarrow>
         (\<exists>sv. wk_server wk = Some sv \<and> wst_document_count (wk_status wk) = length (sv_documents sv)))"
proof -
  have new: "count_ok (worker_new ctx spawns)"
    by (simp add: count_ok_def count_mid_def worker_new_def worker_status_new_def)
  from run_worker_ok [OF assms(1) worker_new_ok assms(2)]
  have ok: "worker_ok sha wk" "length rs = length cs" "wst_restart_count (wk_status wk) \<le> length cs"
    by (auto simp: worker_new_def worker_status_new_def)
  have server: "wk_server wk \<noteq> None" if "rs \<noteq> []" "last rs = Inr v" for v
    by (rule last_answer_server [OF assms(1) worker_new_ok assms(2) that])
  from run_worker_count [OF assms(1) worker_new_ok new assms(2)] server
  have "(\<forall>sv. wk_server wk = Some sv \<longrightarrow> wst_document_count (wk_status wk) \<le> length (sv_documents sv))
    \<and> (wk_server wk = None \<longrightarrow> wst_document_count (wk_status wk) = 0)
    \<and> (\<forall>v. rs \<noteq> [] \<and> last rs = Inr v \<longrightarrow>
         (\<exists>sv. wk_server wk = Some sv \<and> wst_document_count (wk_status wk) = length (sv_documents sv)))"
    by (auto simp: count_ok_def count_mid_def count_exact_def split: option.splits)
  with ok show ?thesis by (auto simp: worker_ok_def split: option.splits)
qed

text \<open>C39. An answer is about the text that was asked about. Whatever happened on the worker before,
  failures and a restart included, a request that is answered carries the hash of its own
  document, and the server that answered holds, by the messages written to it, a text of that
  hash at the version the answer names.\<close>

theorem worker_answers_are_synchronized:
  assumes "run_worker cs (worker_new ctx spawns) = (rs, wk)"
    and "\<forall>c \<in> set (c # cs). dsn_hash (cm_document c) = content_hash sha (dsn_content (cm_document c))"
    and "run_command c wk = (Inr v, wk')"
  shows "sd_hash (wr_synchronized v) = dsn_hash (cm_document c)
    \<and> (\<exists>sv view d. wk_server wk' = Some sv \<and> replay Map.empty (sv_sent sv) = Some view
         \<and> view (dsn_uri (cm_document c)) = Some d
         \<and> content_hash sha (sdoc_text d) = dsn_hash (cm_document c)
         \<and> sdoc_version d = sd_version (wr_synchronized v))"
proof -
  have "worker_ok sha wk" using run_worker_ok [OF assms(1) worker_new_ok] assms(2) by auto
  from run_command_ok [OF assms(3) this] assms(2) have "answers sha (cm_document c) (Inr v) wk'" by simp
  then show ?thesis by (auto simp: answers_def server_has_def)
qed

section \<open>A concrete run\<close>

definition sample_context :: request_context where
  "sample_context = \<lparr>rx_root = ''/w'', rx_codec = uri_codec_new ''/w'' None, rx_language = ''rust'',
     rx_process_id = 7, rx_version = ''1''\<rparr>"

text \<open>The first server dies while initializing; the second answers.\<close>

definition sample_spawns :: "nat \<Rightarrow> spawn_outcome" where
  "sample_spawns n =
     (if n = 0 then Inr ([], [PollError TransportDisconnected None], 5)
      else Inr ([], [PollMessage (JObj [(''id'', JNum 1), (''result'', JObj [(''capabilities'', JObj
              [(''diagnosticProvider'', JBool True), (''textDocumentSync'', JNum 1)])])]),
            PollSlice, PollMessage (JObj [(''id'', JNum 2), (''result'', JArr [])])], 5))"

definition sample_command :: "string \<Rightarrow> command" where
  "sample_command uri = \<lparr>cm_operation = WorkDiagnostics, cm_document = document_snapshot_new sample_sha uri ''rust'' ''x'',
     cm_stopping = False, cm_expired = False, cm_may_retry = True, cm_elapsed_ms = 3\<rparr>"

lemma sample_run:
  "\<exists>v wk. run_command (sample_command uri) (worker_new sample_context sample_spawns) = (Inr v, wk)
     \<and> wr_result v = JArr [] \<and> wst_restart_count (wk_status wk) = 1 \<and> wk_server wk \<noteq> None"
proof -
  note request = server_request_def server_notify_def request_loop.simps server_receive_def Let_def
  let ?wk = "worker_new sample_context sample_spawns"
  let ?op = "cm_operation (sample_command uri)" and ?doc = "cm_document (sample_command uri)"
  have spawn0: "sample_spawns 0 = Inr ([], [PollError TransportDisconnected None], 5)" by (simp add: sample_spawns_def)
  have init0: "fst (server_initialize sample_context [] [PollError TransportDisconnected None] 5)
      = Inl (ServerExited ''rust'' None)"
    by (simp add: server_initialize_def request sample_context_def)
  then obtain sx where init0: "server_initialize sample_context [] [PollError TransportDisconnected None] 5
      = (Inl (ServerExited ''rust'' None), sx)" by (metis prod.collapse)
  obtain wk1 where one: "execute_once ?op ?doc ?wk = (Inl (ServerExited ''rust'' None), wk1)"
    and w1: "wk_server wk1 = None" "wk_spawned wk1 = Suc 0" "wk_spawns wk1 = sample_spawns"
      "wk_context wk1 = sample_context" "wst_restart_count (wk_status wk1) = 0"
    by (simp add: execute_once_def worker_new_def spawn0 init0 Let_def update_status_def worker_status_new_def)
  let ?wk2 = "record_failure (ServerExited ''rust'' None) True wk1"
  have w2: "wk_spawns ?wk2 = sample_spawns" "wk_context ?wk2 = sample_context"
    using w1 by (simp_all add: record_failure_def update_status_def)
  let ?polls = "[PollMessage (JObj [(''id'', JNum 1), (''result'', JObj [(''capabilities'', JObj
              [(''diagnosticProvider'', JBool True), (''textDocumentSync'', JNum 1)])])]),
            PollSlice, PollMessage (JObj [(''id'', JNum 2), (''result'', JArr [])])]"
  have spawn1: "sample_spawns (Suc 0) = Inr ([], ?polls, 5)" by (simp add: sample_spawns_def)
  obtain sv sy where init1: "server_initialize sample_context [] ?polls 5 = (Inr sv, sy)"
    and sv: "sv_polls sv = [PollSlice, PollMessage (JObj [(''id'', JNum 2), (''result'', JArr [])])]"
      "sv_sends sv = []" "sv_next_id sv = 2" "sv_documents sv = []" "sv_diagnostics sv = Map.empty"
      "cap_pull_diagnostics (sv_capabilities sv)" "cap_diagnostics (sv_capabilities sv)"
      "cap_sync_kind (sv_capabilities sv) = SyncFull"
    by (simp add: server_initialize_def request json_get_def json_as_u64_def parse_initialize_result_def
        provider_enabled_def sync_kind_parse_def)
  obtain v sv' where exec: "server_execute sample_context ?op ?doc sv = (Inr v, sv')" and v: "wr_result v = JArr []"
    using sv by (simp add: server_execute_def server_sync_def server_answer_def diagnostics_for_def plan_sync_def
        capabilities_support_def sample_command_def request json_get_def json_as_u64_def diagnostic_report_items_def)
  obtain wk3 where two: "execute_once ?op ?doc ?wk2 = (Inr v, wk3)" and w3: "wk_server wk3 = Some sv'"
      "wst_restart_count (wk_status wk3) = 1"
    using w1 w2 init1 spawn1 exec
    by (simp add: execute_once_def run_server_def Let_def update_status_def)
  have may: "cm_may_retry (sample_command uri)" "\<not> cm_stopping (sample_command uri)" "\<not> cm_expired (sample_command uri)"
    by (simp_all add: sample_command_def)
  have "execute_with_restart ?op ?doc True ?wk = (Inr v, record_success wk3)"
    by (simp add: execute_with_restart_def one two)
  then show ?thesis using v w3 may
    by (simp add: run_command_def update_status_def record_success_def record_latency_def Let_def)
qed

lemma sample_command_hash:
  "dsn_hash (cm_document (sample_command uri)) = content_hash sample_sha (dsn_content (cm_document (sample_command uri)))"
  by (simp add: sample_command_def document_snapshot_new_def)

theorem worker_status_matches_server_witness:
  "\<exists>r wk. run_worker [sample_command ''u''] (worker_new sample_context sample_spawns) = ([r], wk)
     \<and> wst_readiness (wk_status wk) = ReadyReady"
proof -
  from sample_run obtain v wk where "run_command (sample_command ''u'') (worker_new sample_context sample_spawns) = (Inr v, wk)"
    "wk_server wk \<noteq> None" by blast
  moreover from this have w: "run_worker [sample_command ''u''] (worker_new sample_context sample_spawns) = ([Inr v], wk)" by simp
  ultimately show ?thesis
    using worker_status_matches_server [OF w] sample_command_hash by auto
qed

theorem worker_answers_are_synchronized_witness:
  "\<exists>v wk sv view d. run_command (sample_command ''u'') (worker_new sample_context sample_spawns) = (Inr v, wk)
     \<and> wk_server wk = Some sv \<and> replay Map.empty (sv_sent sv) = Some view \<and> view ''u'' = Some d
     \<and> content_hash sample_sha (sdoc_text d) = content_hash sample_sha ''x''"
proof -
  have new: "run_worker [] (worker_new sample_context sample_spawns) = ([], worker_new sample_context sample_spawns)" by simp
  have hash: "\<forall>c \<in> set [sample_command ''u'']. dsn_hash (cm_document c) = content_hash sample_sha (dsn_content (cm_document c))"
    using sample_command_hash by simp
  from sample_run obtain v wk where r: "run_command (sample_command ''u'') (worker_new sample_context sample_spawns) = (Inr v, wk)"
    by blast
  have "dsn_uri (cm_document (sample_command ''u'')) = ''u''"
    "dsn_hash (cm_document (sample_command ''u'')) = content_hash sample_sha ''x''"
    by (simp_all add: sample_command_def document_snapshot_new_def)
  with worker_answers_are_synchronized [OF new hash r] r show ?thesis by auto
qed

end
