(* ===== verification/Index_Scan.thy ===== *)
theory Index_Scan
  imports Workspace_State Text_Util
begin

text \<open>
  Building the index from a walk of the workspace (\<open>src/index/scan.rs\<close>) and the persistent cache
  of parsed symbols (\<open>src/index/cache.rs\<close>). The directory walk with its ignore files, the
  resolution of paths, the file operations on the cache directory and the JSON text of the
  cache document are parameters.
\<close>

section \<open>The symbol cache\<close>

definition cache_schema :: string where "cache_schema = ''codeweave-index-cache-v2''"

record cache_key =
  ck_root :: string
  ck_max_file_bytes :: nat
  ck_artifact_paths :: "string list"
  ck_exclude_paths :: "string list"

record cached_file =
  cd_path :: string
  cd_hash :: string
  cd_symbols :: "symbol list"

record cache_document =
  cx_schema :: string
  cx_key :: cache_key
  cx_files :: "cached_file list"

text \<open>\<open>SymbolCache\<close>: the later of two files with one path wins.\<close>

definition symbol_cache_of :: "cached_file list \<Rightarrow> string \<Rightarrow> cached_file option" where
  "symbol_cache_of files = foldl (\<lambda>m f. m(cd_path f \<mapsto> f)) Map.empty files"

definition symbols_for :: "(string \<Rightarrow> cached_file option) \<Rightarrow> symbol_cache" where
  "symbols_for cache path hash =
     (case cache path of
        None \<Rightarrow> None
      | Some cached \<Rightarrow> if cd_hash cached = hash then Some (cd_symbols cached) else None)"

text \<open>The file operations below the cache directory, and the JSON of a document.\<close>

record 'c cache_ops =
  co_read :: "'c \<Rightarrow> string \<Rightarrow> io_error + u8 list"
  co_create_dir_all :: "'c \<Rightarrow> component list \<Rightarrow> (io_error + unit) \<times> 'c"
  co_create :: "'c \<Rightarrow> component list \<Rightarrow> (io_error + unit) \<times> 'c"
  co_write :: "'c \<Rightarrow> component list \<Rightarrow> u8 list \<Rightarrow> (io_error + unit) \<times> 'c"
  co_sync :: "'c \<Rightarrow> component list \<Rightarrow> (io_error + unit) \<times> 'c"
  co_rename :: "'c \<Rightarrow> component list \<Rightarrow> string \<Rightarrow> (io_error + unit) \<times> 'c"
  co_remove :: "'c \<Rightarrow> component list \<Rightarrow> (io_error + unit) \<times> 'c"
  co_encode :: "cache_document \<Rightarrow> app_error + u8 list"
  co_decode :: "u8 list \<Rightarrow> cache_document option"
  co_pid :: nat

definition cache_load :: "'c cache_ops \<Rightarrow> 'c \<Rightarrow> string \<Rightarrow> cache_key \<Rightarrow> symbol_cache option" where
  "cache_load ops c path key =
     (case co_read ops c path of
        Inl _ \<Rightarrow> None
      | Inr bytes \<Rightarrow>
          (case co_decode ops bytes of
             None \<Rightarrow> None
           | Some document \<Rightarrow>
               if cx_schema document = cache_schema \<and> cx_key document = key
               then Some (symbols_for (symbol_cache_of (cx_files document)))
               else None))"

definition cache_document_of :: "cache_key \<Rightarrow> code_index \<Rightarrow> cache_document" where
  "cache_document_of key ci =
     \<lparr>cx_schema = cache_schema, cx_key = key,
      cx_files = map (\<lambda>f. \<lparr>cd_path = fe_path f, cd_hash = fe_hash f, cd_symbols = fe_symbols f\<rparr>)
        (ci_files ci)\<rparr>"

text \<open>One file operation after another; the first error ends the sequence.\<close>

definition cache_then ::
    "(app_error + unit) \<times> 'c \<Rightarrow> ('c \<Rightarrow> (app_error + unit) \<times> 'c) \<Rightarrow> (app_error + unit) \<times> 'c" where
  "cache_then r k = (case r of (Inl e, c) \<Rightarrow> (Inl e, c) | (Inr _, c) \<Rightarrow> k c)"

definition io_step :: "(io_error + unit) \<times> 'c \<Rightarrow> (app_error + unit) \<times> 'c" where
  "io_step r = (map_sum error_from_io id (fst r), snd r)"

definition write_synced ::
    "'c cache_ops \<Rightarrow> 'c \<Rightarrow> component list \<Rightarrow> cache_document \<Rightarrow> (app_error + unit) \<times> 'c" where
  "write_synced ops c path document =
     cache_then (io_step (co_create ops c path)) (\<lambda>c.
       case co_encode ops document of
         Inl e \<Rightarrow> (Inl e, c)
       | Inr bytes \<Rightarrow>
           cache_then (io_step (co_write ops c path bytes)) (\<lambda>c. io_step (co_sync ops c path)))"

definition cache_temp_path :: "'c cache_ops \<Rightarrow> string \<Rightarrow> component list" where
  "cache_temp_path ops path =
     with_file_name path
       ((case path_file_name path of None \<Rightarrow> [] | Some n \<Rightarrow> n) @ ''.'' @ show_nat (co_pid ops) @ ''.tmp'')"

definition cache_store ::
    "'c cache_ops \<Rightarrow> 'c \<Rightarrow> string \<Rightarrow> cache_key \<Rightarrow> code_index \<Rightarrow> (app_error + unit) \<times> 'c" where
  "cache_store ops c path key ci =
     cache_then (case path_parent path of
                   Some parent \<Rightarrow> io_step (co_create_dir_all ops c parent)
                 | None \<Rightarrow> (Inr (), c)) (\<lambda>c.
       let temp = cache_temp_path ops path;
           written = cache_then (write_synced ops c temp (cache_document_of key ci))
                       (\<lambda>c. io_step (co_rename ops c temp path))
       in case written of
            (Inl e, c) \<Rightarrow> (Inl e, snd (co_remove ops c temp))
          | (Inr _, c) \<Rightarrow> (Inr (), c))"

section \<open>The scan\<close>

text \<open>What the walk below a directory yields, with or without the ignore files and cut at the
  entries the filter rejects: each path with whether it is a regular file.\<close>

record 'd walk_ops =
  wk_walk :: "'d \<Rightarrow> string \<Rightarrow> bool \<Rightarrow> (string \<Rightarrow> bool \<Rightarrow> bool) \<Rightarrow> (string \<times> bool) list"
  wk_exists :: "'d \<Rightarrow> string \<Rightarrow> bool"
  wk_canonicalize :: "'d \<Rightarrow> string \<Rightarrow> io_error + string"

definition scan_filter :: "'d scan_env \<Rightarrow> string \<Rightarrow> bool \<Rightarrow> bool" where
  "scan_filter env path is_dir \<longleftrightarrow> \<not> excluded_dir path \<and> \<not> is_ignored (sc_exclusions env) path is_dir"

definition scan_files :: "'d scan_env \<Rightarrow> 'd walk_ops \<Rightarrow> 'd \<Rightarrow> string \<Rightarrow> bool \<Rightarrow> string list" where
  "scan_files env wk d scan_root respect_ignores =
     map fst (filter (\<lambda>(path, is_file). is_file \<and> \<not> excluded_path path
                        \<and> \<not> is_ignored (sc_exclusions env) path False)
       (wk_walk wk d scan_root respect_ignores (scan_filter env)))"

text \<open>The entries of all paths; of several errors the first.\<close>

fun read_entries ::
    "'d scan_env \<Rightarrow> symbol_cache \<Rightarrow> 'd \<Rightarrow> string list \<Rightarrow> app_error + file_entry list" where
  "read_entries env cache d [] = Inr []"
| "read_entries env cache d (p # ps) =
     (case read_entry env cache d p of
        Inl e \<Rightarrow> Inl e
      | Inr found \<Rightarrow>
          (case read_entries env cache d ps of
             Inl e \<Rightarrow> Inl e
           | Inr entries \<Rightarrow> Inr ((case found of None \<Rightarrow> [] | Some e \<Rightarrow> [e]) @ entries)))"

definition scan_directory ::
    "'d scan_env \<Rightarrow> 'd walk_ops \<Rightarrow> symbol_cache \<Rightarrow> 'd \<Rightarrow> code_index \<Rightarrow> string \<Rightarrow> bool
     \<Rightarrow> app_error + code_index" where
  "scan_directory env wk cache d ci scan_root respect_ignores =
     (case read_entries env cache d (scan_files env wk d scan_root respect_ignores) of
        Inl e \<Rightarrow> Inl e
      | Inr entries \<Rightarrow> Inr (foldl (index_insert (sc_sha env)) ci entries))"

fun scan_artifacts ::
    "'d scan_env \<Rightarrow> 'd walk_ops \<Rightarrow> symbol_cache \<Rightarrow> 'd \<Rightarrow> code_index \<Rightarrow> string list
     \<Rightarrow> app_error + code_index" where
  "scan_artifacts env wk cache d ci [] = Inr ci"
| "scan_artifacts env wk cache d ci (artifact # artifacts) =
     (case rel_path_new artifact of
        Inl e \<Rightarrow> Inl e
      | Inr relative \<Rightarrow>
          let candidate = root_join (sc_root env) relative
          in if \<not> wk_exists wk d candidate then scan_artifacts env wk cache d ci artifacts
             else (case wk_canonicalize wk d candidate of
                     Inl e \<Rightarrow> Inl (error_from_io e)
                   | Inr resolved \<Rightarrow>
                       if \<not> path_starts_with resolved (sc_root env)
                       then Inl (error_new OutsideRoot ''Artifact path resolves outside workspace'')
                       else (case scan_directory env wk cache d ci resolved False of
                               Inl e \<Rightarrow> Inl e
                             | Inr ci \<Rightarrow> scan_artifacts env wk cache d ci artifacts)))"

definition scan_workspace ::
    "'d scan_env \<Rightarrow> 'd walk_ops \<Rightarrow> symbol_cache \<Rightarrow> 'd \<Rightarrow> string list \<Rightarrow> app_error + code_index" where
  "scan_workspace env wk cache d artifact_paths =
     (case scan_directory env wk cache d index_default (sc_root env) True of
        Inl e \<Rightarrow> Inl e
      | Inr ci \<Rightarrow> scan_artifacts env wk cache d ci artifact_paths)"

definition index_scan :: "'d scan_env \<Rightarrow> 'd walk_ops \<Rightarrow> 'd \<Rightarrow> string list \<Rightarrow> app_error + code_index" where
  "index_scan env wk d artifact_paths = scan_workspace env wk (\<lambda>_ _. None) d artifact_paths"

definition scan_key :: "'d scan_env \<Rightarrow> string list \<Rightarrow> string list \<Rightarrow> cache_key" where
  "scan_key env artifact_paths patterns =
     \<lparr>ck_root = sc_root env, ck_max_file_bytes = sc_max_file_bytes env,
      ck_artifact_paths = artifact_paths, ck_exclude_paths = patterns\<rparr>"

text \<open>The index and whether a cache was used; the cache file is rewritten.\<close>

definition index_scan_cached ::
    "'d scan_env \<Rightarrow> 'd walk_ops \<Rightarrow> 'c cache_ops \<Rightarrow> 'd \<Rightarrow> 'c \<Rightarrow> string list \<Rightarrow> string list \<Rightarrow> string
     \<Rightarrow> (app_error + code_index \<times> bool) \<times> 'c" where
  "index_scan_cached env wk ops d c artifact_paths patterns cache_file =
     (let key = scan_key env artifact_paths patterns;
          cached = cache_load ops c cache_file key
      in case scan_workspace env wk (case cached of None \<Rightarrow> (\<lambda>_ _. None) | Some s \<Rightarrow> s) d artifact_paths of
           Inl e \<Rightarrow> (Inl e, c)
         | Inr ci \<Rightarrow>
             (case cache_store ops c cache_file key ci of
                (Inl e, c) \<Rightarrow> (Inl e, c)
              | (Inr _, c) \<Rightarrow> (Inr (ci, cached \<noteq> None), c)))"

section \<open>A scan with the cache\<close>

text \<open>The symbols of an index are current when each entry carries the hash of a content and the
  symbols parsed from it; \<open>g\<close> is the parser on relative paths.\<close>

definition symbols_current ::
    "(string \<Rightarrow> string \<Rightarrow> symbol list) \<Rightarrow> sha256 \<Rightarrow> code_index \<Rightarrow> bool" where
  "symbols_current g sha ci \<longleftrightarrow>
     (\<forall>f \<in> set (ci_files ci). \<exists>content. fe_hash f = content_hash sha content
        \<and> fe_symbols f = g (fe_path f) content)"

definition cache_sound :: "(string \<Rightarrow> string \<Rightarrow> symbol list) \<Rightarrow> sha256 \<Rightarrow> symbol_cache \<Rightarrow> bool" where
  "cache_sound g sha cache \<longleftrightarrow>
     (\<forall>path content symbols. cache path (content_hash sha content) = Some symbols \<longrightarrow> symbols = g path content)"

definition extracts_by :: "(string \<Rightarrow> string \<Rightarrow> symbol list) \<Rightarrow> 'd scan_env \<Rightarrow> bool" where
  "extracts_by g env \<longleftrightarrow>
     (\<forall>path rel content. rel_path_new (relative_string (sc_root env) path) = Inr rel
        \<longrightarrow> sc_extract env path content = g rel content)"

lemma no_cache_sound [simp]: "cache_sound g sha (\<lambda>_ _. None)"
  by (simp add: cache_sound_def)

lemma symbol_cache_of_Some:
  "symbol_cache_of files path = Some f \<Longrightarrow> f \<in> set files \<and> cd_path f = path"
proof (induction files rule: rev_induct)
  case (snoc x xs)
  then show ?case by (auto simp: symbol_cache_of_def split: if_splits)
qed (simp add: symbol_cache_of_def)

lemma stored_cache_sound:
  assumes "symbols_current g sha ci" "inj (content_hash sha)"
  shows "cache_sound g sha (symbols_for (symbol_cache_of (cx_files (cache_document_of key ci))))"
  using assms symbol_cache_of_Some
  by (fastforce simp: cache_sound_def symbols_for_def symbols_current_def cache_document_of_def inj_eq
      split: option.splits if_splits)

lemma read_entry_cached:
  assumes "extracts_by g env" "cache_sound g (sc_sha env) cache"
  shows "read_entry env cache d p = read_entry env (\<lambda>_ _. None) d p"
  using assms
  by (auto simp: read_entry_def Let_def extracts_by_def cache_sound_def split: sum.splits option.splits)

lemma read_entry_current:
  assumes "extracts_by g env" "read_entry env (\<lambda>_ _. None) d p = Inr (Some f)"
  shows "\<exists>content. fe_hash f = content_hash (sc_sha env) content \<and> fe_symbols f = g (fe_path f) content"
  using assms
  by (auto simp: read_entry_def Let_def extracts_by_def entry_with_symbols_def split: sum.splits option.splits if_splits)

lemma read_entries_cached:
  assumes "extracts_by g env" "cache_sound g (sc_sha env) cache"
  shows "read_entries env cache d ps = read_entries env (\<lambda>_ _. None) d ps"
  by (induction ps) (simp_all add: read_entry_cached [OF assms] split: sum.split)

lemma read_entries_current:
  assumes "extracts_by g env" "read_entries env (\<lambda>_ _. None) d ps = Inr entries" "f \<in> set entries"
  shows "\<exists>content. fe_hash f = content_hash (sc_sha env) content \<and> fe_symbols f = g (fe_path f) content"
  using assms(2,3)
  by (induction ps arbitrary: entries)
    (auto dest: read_entry_current [OF assms(1)] split: sum.splits option.splits)

lemma insert_all_files:
  "f \<in> set (ci_files (foldl (index_insert sha) ci entries)) \<Longrightarrow> f \<in> set (ci_files ci) \<union> set entries"
  by (induction entries arbitrary: ci) (fastforce simp: index_insert_files)+

lemma scan_directory_cached:
  assumes "extracts_by g env" "cache_sound g (sc_sha env) cache"
  shows "scan_directory env wk cache d ci root respect = scan_directory env wk (\<lambda>_ _. None) d ci root respect"
  by (simp add: scan_directory_def read_entries_cached [OF assms])

lemma scan_directory_current:
  assumes "extracts_by g env" "symbols_current g (sc_sha env) ci"
    and "scan_directory env wk (\<lambda>_ _. None) d ci root respect = Inr ci'"
  shows "symbols_current g (sc_sha env) ci'"
  using assms(2,3) read_entries_current [OF assms(1)] insert_all_files
  by (fastforce simp: scan_directory_def symbols_current_def split: sum.splits)

lemma scan_artifacts_cached:
  assumes "extracts_by g env" "cache_sound g (sc_sha env) cache"
  shows "scan_artifacts env wk cache d ci artifacts = scan_artifacts env wk (\<lambda>_ _. None) d ci artifacts"
  by (induction artifacts arbitrary: ci)
    (auto simp: scan_directory_cached [OF assms] Let_def split: sum.split)

lemma scan_artifacts_current:
  assumes "extracts_by g env"
  shows "symbols_current g (sc_sha env) ci \<Longrightarrow>
    scan_artifacts env wk (\<lambda>_ _. None) d ci artifacts = Inr ci' \<Longrightarrow> symbols_current g (sc_sha env) ci'"
  by (induction artifacts arbitrary: ci)
    (auto simp: Let_def split: sum.splits if_splits dest: scan_directory_current [OF assms])

lemma scan_workspace_cached:
  assumes "extracts_by g env" "cache_sound g (sc_sha env) cache"
  shows "scan_workspace env wk cache d artifacts = index_scan env wk d artifacts"
  by (simp add: scan_workspace_def index_scan_def scan_directory_cached [OF assms] scan_artifacts_cached [OF assms]
      split: sum.split)

lemma index_scan_current:
  assumes "extracts_by g env" "index_scan env wk d artifacts = Inr ci"
  shows "symbols_current g (sc_sha env) ci"
proof -
  have "symbols_current g (sc_sha env) index_default" by (simp add: symbols_current_def index_default_def)
  with assms show ?thesis
    by (auto simp: index_scan_def scan_workspace_def split: sum.splits
        dest: scan_directory_current [OF assms(1)] scan_artifacts_current [OF assms(1)])
qed

text \<open>The cache only saves parsing: when the cache file holds a document an earlier scan stored
  (over any earlier tree), or nothing usable, a cached scan returns the index a plain scan of the
  tree as it is now returns, and what it stores is again such a document.\<close>

theorem cached_scan_equals_scan:
  assumes "inj (content_hash (sc_sha env))" "extracts_by g env"
    and "\<And>bytes document. co_read ops c cache_file = Inr bytes \<Longrightarrow> co_decode ops bytes = Some document
      \<Longrightarrow> \<exists>key old. document = cache_document_of key old \<and> symbols_current g (sc_sha env) old"
    and "index_scan_cached env wk ops d c artifacts patterns cache_file = (Inr (ci, hit), c')"
  shows "index_scan env wk d artifacts = Inr ci \<and> symbols_current g (sc_sha env) ci"
proof -
  have "cache_sound g (sc_sha env)
      (case cache_load ops c cache_file (scan_key env artifacts patterns) of None \<Rightarrow> (\<lambda>_ _. None) | Some s \<Rightarrow> s)"
    using assms(3) stored_cache_sound [OF _ assms(1)]
    by (fastforce simp: cache_load_def split: sum.splits option.splits)
  from scan_workspace_cached [OF assms(2) this]
  have "index_scan env wk d artifacts = Inr ci"
    using assms(4) by (auto simp: index_scan_cached_def Let_def split: sum.splits prod.splits)
  with index_scan_current [OF assms(2)] show ?thesis by blast
qed

lemma hex_digit_inj: "a < 16 \<Longrightarrow> b < 16 \<Longrightarrow> hex_digit a = hex_digit b \<Longrightarrow> a = b"
  by (auto simp: hex_digit_def char_of_eq_iff of_char_of take_bit_eq_mod split: if_splits)

lemma hex_inj: "hex bs = hex bs' \<Longrightarrow> bs = bs'"
proof (induction bs arbitrary: bs')
  case Nil
  then show ?case by (cases bs') (simp_all add: hex_def)
next
  case (Cons b bs)
  then obtain c cs where c: "bs' = c # cs" by (cases bs') (simp_all add: hex_def)
  have l: "unat x div 16 < 16" for x :: u8
  proof -
    have "unat x < 2 ^ LENGTH(8)" by (rule unsigned_less)
    then show ?thesis by simp
  qed
  with Cons.prems have "unat b div 16 = unat c div 16" "unat b mod 16 = unat c mod 16" "hex bs = hex cs"
    by (auto simp: c hex_def intro: hex_digit_inj)
  then have "unat b = unat c" by (metis div_mult_mod_eq)
  moreover have "bs = cs" by (rule Cons.IH) fact
  ultimately show ?case by (simp add: c word_unat_eq_iff)
qed

definition sample_walk :: "mem_dir walk_ops" where
  "sample_walk = \<lparr>wk_walk = (\<lambda>_ _ _ _. [(''/w/a'', True)]), wk_exists = (\<lambda>_ _. False),
     wk_canonicalize = (\<lambda>_ p. Inr p)\<rparr>"

definition sample_cache :: "cache_document \<Rightarrow> unit cache_ops" where
  "sample_cache document = \<lparr>co_read = (\<lambda>_ _. Inr []), co_create_dir_all = (\<lambda>c _. (Inr (), c)),
     co_create = (\<lambda>c _. (Inr (), c)), co_write = (\<lambda>c _ _. (Inr (), c)), co_sync = (\<lambda>c _. (Inr (), c)),
     co_rename = (\<lambda>c _ _. (Inr (), c)), co_remove = (\<lambda>c _. (Inr (), c)), co_encode = (\<lambda>_. Inr []),
     co_decode = (\<lambda>_. Some document), co_pid = 1\<rparr>"

definition sample_hashing :: "mem_dir scan_env" where
  "sample_hashing = sample_scan\<lparr>sc_sha := map (\<lambda>c. word_of_nat (of_char c))\<rparr>"

lemma byte_of_char_inj: "(word_of_nat (of_char c) :: u8) = word_of_nat (of_char c') \<Longrightarrow> c = c'"
proof -
  assume "(word_of_nat (of_char c) :: u8) = word_of_nat (of_char c')"
  then have "unat (word_of_nat (of_char c) :: u8) = unat (word_of_nat (of_char c') :: u8)" by simp
  then have "(of_char c :: nat) mod 256 = of_char c' mod 256"
    by (simp add: unsigned_of_nat take_bit_eq_mod)
  then have "char_of (of_char c mod 256 :: nat) = char_of (of_char c' mod 256 :: nat)" by simp
  then show "c = c'" by simp
qed

theorem cached_scan_equals_scan_witness:
  "\<exists>ci. index_scan_cached sample_hashing sample_walk
       (sample_cache (cache_document_of (scan_key sample_hashing [] []) index_default))
       \<lparr>mem_files = [[Normal ''a''] \<mapsto> ''x''], mem_faults = [], mem_uuids = 0\<rparr> () [] [] ''c''
       = (Inr (ci, True), ())
     \<and> index_scan sample_hashing sample_walk
       \<lparr>mem_files = [[Normal ''a''] \<mapsto> ''x''], mem_faults = [], mem_uuids = 0\<rparr> [] = Inr ci"
  (is "\<exists>ci. ?cached = (Inr (ci, True), ()) \<and> ?plain = Inr ci")
proof -
  let ?g = "\<lambda>_ _. []"
  have inj: "inj (content_hash (sc_sha sample_hashing))"
    by (auto simp: inj_def content_hash_def sample_hashing_def dest!: hex_inj
        intro: map_injective byte_of_char_inj injI)
  have ext: "extracts_by ?g sample_hashing"
    by (simp add: extracts_by_def sample_hashing_def sample_scan_def)
  have cur: "symbols_current ?g (sc_sha sample_hashing) index_default"
    by (simp add: symbols_current_def index_default_def)
  let ?d = "\<lparr>mem_files = [[Normal ''a''] \<mapsto> ''x''], mem_faults = [], mem_uuids = 0\<rparr>"
  have path: "\<not> excluded_path ''/w/a''" "\<not> is_ignored (sc_exclusions sample_hashing) ''/w/a'' False"
    by code_simp+
  have env: "sc_root sample_hashing = ''/w''" "sc_ops sample_hashing = mem_ops"
    "sc_max_file_bytes sample_hashing = 100" by (simp_all add: sample_hashing_def sample_scan_def)
  have read: "read_file mem_ops ?d ''a'' 100 = Inr (Some \<lparr>wf_bytes = [0x78], wf_size = 1, wf_modified_ns = 0\<rparr>)"
    by (simp add: read_file_def open_regular_def mem_ops_def mem_metadata_def sample_components read_bounded_def
        usize_max_def)
  have utf8: "from_utf8 [0x78] = Inr [0x78]" by code_simp
  have entry: "\<exists>e. read_entry sample_hashing cache ?d ''/w/a'' = Inr (Some e)" for cache
    by (simp add: read_entry_def env sample_relative sample_rel_path read utf8 Let_def del: from_utf8.simps)
  have hit: "\<exists>ci. ?cached = (Inr (ci, True), ())"
  proof -
    obtain e where e: "read_entry sample_hashing
        (case cache_load (sample_cache (cache_document_of (scan_key sample_hashing [] []) index_default)) ()
           ''c'' (scan_key sample_hashing [] []) of None \<Rightarrow> (\<lambda>_ _. None) | Some s \<Rightarrow> s) ?d ''/w/a'' = Inr (Some e)"
      using entry by blast
    show ?thesis
      using e by (simp add: index_scan_cached_def scan_workspace_def scan_directory_def scan_files_def env path
          sample_walk_def Let_def cache_store_def write_synced_def cache_then_def io_step_def cache_load_def
          cache_document_of_def sample_cache_def split: option.split)
  qed
  then obtain ci where hit: "?cached = (Inr (ci, True), ())" ..
  show ?thesis
    using hit cached_scan_equals_scan [OF inj ext _ hit] cur by (force simp: sample_cache_def)
qed

end
