(* ===== verification/Workspace_Report.thy ===== *)
theory Workspace_Report
  imports Index_Scan Bash_Supervisor
begin

text \<open>
  What a workspace reports of itself (\<open>src/workspace/summary.rs\<close>, \<open>src/workspace/mod.rs\<close>):
  changed-path summaries (\<open>src/workspace/util.rs\<close>), diagnostics, the summary with its dirty
  ownership, the rescan, the log of mutations; and the Bash tool with the changes it
  attributes to a run (\<open>src/workspace/run.rs\<close>). The elapsed times of the phases are an
  argument; what happens while a run is awaited is an argument too.
\<close>

section \<open>Changed paths\<close>

definition max_observed_changed_paths :: nat where "max_observed_changed_paths = 30"
definition max_changed_path_groups :: nat where "max_changed_path_groups = 20"

record changed_path_group =
  cg_path :: string
  cg_count :: nat

record changed_path_summary =
  cs_paths :: "string list"
  cs_count :: nat
  cs_truncated :: bool
  cs_groups :: "changed_path_group list"

definition changed_path_group_of :: "string \<Rightarrow> string" where
  "changed_path_group_of path =
     (case filter (\<lambda>part. part \<noteq> []) (split_on CHR ''/'' (replace_backslash path)) of
        [] \<Rightarrow> ''(root)''
      | [_] \<Rightarrow> ''(root)''
      | [directory, _] \<Rightarrow> directory
      | first # second # _ \<Rightarrow> first @ ''/'' @ second)"

text \<open>The groups of the sorted paths, the most frequent first and by name among equals.\<close>

definition changed_path_groups :: "string list \<Rightarrow> changed_path_group list" where
  "changed_path_groups paths =
     sort_key (\<lambda>g. - int (cg_count g))
       (map (\<lambda>name. \<lparr>cg_path = name,
                     cg_count = length (filter (\<lambda>p. changed_path_group_of p = name) paths)\<rparr>)
          (sorted_list_of_set (changed_path_group_of ` set paths)))"

definition limit_groups :: "changed_path_group list \<Rightarrow> changed_path_group list" where
  "limit_groups groups =
     (if length groups > max_changed_path_groups
      then let other_index = max_changed_path_groups - 1
           in take other_index groups
              @ [\<lparr>cg_path = ''(other)'', cg_count = sum_list (map cg_count (drop other_index groups))\<rparr>]
      else groups)"

definition summarize_changed_paths :: "string set \<Rightarrow> changed_path_summary" where
  "summarize_changed_paths paths =
     (let out = sorted_list_of_set (Set.filter (\<lambda>p. \<not> ignored_workspace_path p) paths)
      in \<lparr>cs_paths = take max_observed_changed_paths out, cs_count = length out,
          cs_truncated = (length out > max_observed_changed_paths),
          cs_groups = limit_groups (changed_path_groups out)\<rparr>)"

section \<open>The workspace\<close>

record ws_config =
  wc_id :: string
  wc_name :: string
  wc_max_context_chars :: nat
  wc_max_search_results :: nat
  wc_artifact_paths :: "string list"
  wc_exclude_patterns :: "string list"

text \<open>The fixed part of a workspace. Its mutable parts are the reconciled state, the time of
  the last reconcile and the Bash supervisor.\<close>

record 'd ws_params =
  wp_env :: "'d workspace_env"
  wp_walk :: "'d walk_ops"
  wp_config :: ws_config
  wp_opened_dirty :: changed_path_summary
  wp_open_diagnostics :: json

record 'd actor =
  ac_ws :: "'d workspace_state"
  ac_bash :: supervisor
  ac_last_reconcile :: nat

definition index_file_count :: "code_index \<Rightarrow> nat" where
  "index_file_count ci = length (ci_files ci)"

definition index_languages :: "code_index \<Rightarrow> string list" where
  "index_languages ci =
     sorted_list_of_set (set (filter (\<lambda>l. l \<noteq> ''text'') (map fe_language (ci_files ci))))"

definition add_phase_metrics :: "json \<Rightarrow> (string \<times> nat) list \<Rightarrow> json" where
  "add_phase_metrics v phases =
     (case v of
        JObj kvs \<Rightarrow> JObj (obj_insert ''phase_ms'' (JObj (map (\<lambda>(n, ms). (n, JNum (int ms))) phases)) kvs)
      | _ \<Rightarrow> v)"

definition workspace_snapshot_id ::
    "'d workspace_env \<Rightarrow> nat \<Rightarrow> 'd workspace_state \<Rightarrow> (app_error + string) \<times> 'd workspace_state" where
  "workspace_snapshot_id env now ws =
     (case reconcile_pending env now ws of
        (Inl e, ws') \<Rightarrow> (Inl e, ws')
      | (Inr _, ws') \<Rightarrow> (Inr (st_snapshot_id (read_stamp (ws_rc ws'))), ws'))"

definition json_strings :: "string list \<Rightarrow> json" where
  "json_strings ss = JArr (map JStr ss)"

definition bash_config_json :: "bash_config \<Rightarrow> json" where
  "bash_config_json c =
     JObj [(''executable'', JStr (bc_executable c)),
           (''defaultTimeoutMs'', JNum (int (bc_default_timeout_ms c))),
           (''foregroundBudgetMs'', JNum (int (bc_foreground_budget_ms c))),
           (''maxTimeoutMs'', JNum (int (bc_max_timeout_ms c))),
           (''maxOutputChars'', JNum (int (bc_max_output_chars c)))]"

definition diagnostics :: "'d ws_params \<Rightarrow> 'd actor \<Rightarrow> json" where
  "diagnostics wp ac =
     (let ws = ac_ws ac; rc = ws_rc ws; env = we_scan (wp_env wp)
      in JObj
       [(''workspace_id'', JStr (wc_id (wp_config wp))),
        (''root'', JStr (sc_root env)),
        (''generation'', JNum (int (rc_generation rc))),
        (''snapshot_id'', JStr (rc_snapshot_id rc)),
        (''file_count'', JNum (int (index_file_count (rc_index rc)))),
        (''languages'', json_strings (index_languages (rc_index rc))),
        (''reconcile_pending'', JBool (lg_needs_reconcile (ws_ledger ws))),
        (''pending_path_count'', JNum (int (length (lg_pending (ws_ledger ws))))),
        (''running_bash_count'', JNum (int (running_count (ac_bash ac)))),
        (''execution'', JObj [(''bash'', readiness_json (sv_readiness (ac_bash ac)))]),
        (''policy'', JObj
           [(''max_file_bytes'', JNum (int (sc_max_file_bytes env))),
            (''max_context_chars'', JNum (int (wc_max_context_chars (wp_config wp)))),
            (''max_search_results'', JNum (int (wc_max_search_results (wp_config wp)))),
            (''bash'', bash_config_json (sv_policy (ac_bash ac)))])])"

section \<open>Rescan\<close>

definition rescan ::
    "'d ws_params \<Rightarrow> 'd workspace_state \<Rightarrow> (app_error + unit) \<times> 'd workspace_state" where
  "rescan wp ws =
     (let env = wp_env wp; ws1 = ws\<lparr>ws_ledger := clear_pending (ws_ledger ws)\<rparr>
      in case index_scan (we_scan env) (wp_walk wp) (ws_disk ws) (wc_artifact_paths (wp_config wp)) of
           Inl e \<Rightarrow> (Inl e, ws1)
         | Inr ci \<Rightarrow>
             let rc1 = (ws_rc ws1)\<lparr>rc_index := ci\<rparr>;
                 rc2 = snd (apply_repo_status rc1 (we_git_status env (ws_disk ws)))
             in (Inr (), ws1\<lparr>ws_rc := recompute_snapshot (sc_sha (we_scan env)) (bump_generation rc2)\<rparr>))"

section \<open>The summary\<close>

definition instruction_inline_cap :: nat where "instruction_inline_cap = 4096"

text \<open>The inlined part of an instruction file: whole lines within the cap when there are any.\<close>

definition instruction_prefix :: "string \<Rightarrow> string" where
  "instruction_prefix content =
     (let safe_cap = floor_char_boundary content instruction_inline_cap;
          head = take safe_cap content
      in case rfind [nl] head of None \<Rightarrow> head | Some i \<Rightarrow> take (i + 1) head)"

definition instruction_json :: "string \<Rightarrow> string \<Rightarrow> json" where
  "instruction_json path content =
     (if length content > instruction_inline_cap
      then JObj [(''path'', JStr path), (''content'', JStr (instruction_prefix content)),
                 (''content_truncated'', JBool True), (''content_bytes'', JNum (int (length content))),
                 (''guidance'', JStr ''Instruction file truncated; use code_retrieve with operation=read and target=path.'')]
      else JObj [(''path'', JStr path), (''content'', JStr content)])"

definition instructions :: "code_index \<Rightarrow> json list" where
  "instructions ci =
     List.map_filter (\<lambda>path. map_option (\<lambda>f. instruction_json path (fe_content f)) (index_get ci path))
       [''AGENTS.md'', ''CLAUDE.md'']"

definition group_json :: "changed_path_group \<Rightarrow> json" where
  "group_json g = JObj [(''path'', JStr (cg_path g)), (''count'', JNum (int (cg_count g)))]"

definition groups_json :: "changed_path_summary \<Rightarrow> json" where
  "groups_json s = JArr (map group_json (cs_groups s))"

definition dirty_set :: "'d workspace_env \<Rightarrow> reconciled \<Rightarrow> string list" where
  "dirty_set env rc =
     remdups (filter (\<lambda>p. \<not> is_ignored (sc_exclusions (we_scan env)) p False) (rs_dirty_files (rc_repo_status rc)))"

definition dirty_ownership :: "changed_path_summary \<Rightarrow> changed_path_summary \<Rightarrow> changed_path_summary \<Rightarrow> json" where
  "dirty_ownership preexisting mcp_changed external =
     (let row = (\<lambda>f. JObj [(''preexisting_at_open'', f preexisting), (''changed_by_mcp'', f mcp_changed),
                          (''observed_external'', f external)])
      in JObj ([(''preexisting_at_open'', json_strings (cs_paths preexisting)),
                (''changed_by_mcp'', json_strings (cs_paths mcp_changed)),
                (''observed_external'', json_strings (cs_paths external))]
             @ [(''counts'', row (\<lambda>s. JNum (int (cs_count s)))),
                (''truncated'', row (\<lambda>s. JBool (cs_truncated s))),
                (''groups'', row groups_json)]))"

definition repository_json :: "repo_status \<Rightarrow> changed_path_summary \<Rightarrow> json" where
  "repository_json repo dirty =
     JObj [(''is_git'', JBool (rs_is_git repo)), (''head'', JStr (rs_head repo)),
           (''branch'', JStr (rs_branch repo)), (''dirty_files'', json_strings (cs_paths dirty)),
           (''dirty_file_count'', JNum (int (cs_count dirty))),
           (''dirty_files_truncated'', JBool (cs_truncated dirty)),
           (''dirty_file_groups'', groups_json dirty)]"

definition validation_guidance :: "bool \<Rightarrow> string" where
  "validation_guidance bash_available =
     (if bash_available
      then ''Write-tool validate fields accept Bash command strings. Use bash(command='' @ [CHR 0x27]
           @ ''<command>'' @ [CHR 0x27] @ '') for standalone execution.''
      else ''No usable Bash implementation passed readiness checks. Fix policy.bash.executable or install Git Bash/MSYS2/Cygwin Bash.'')"

definition bash_warnings :: "bash_readiness \<Rightarrow> string list" where
  "bash_warnings bash =
     (if readiness_is_ready bash then []
      else [''Bash execution and write-tool validation commands are unavailable: ''
            @ (case br_failure_reason bash of Some r \<Rightarrow> r | None \<Rightarrow> ''No usable Bash implementation found'')])"

definition summary ::
    "'d ws_params \<Rightarrow> (string \<Rightarrow> nat) \<Rightarrow> nat \<Rightarrow> 'd actor \<Rightarrow> (app_error + json) \<times> 'd actor" where
  "summary wp elapsed now ac =
     (case reconcile_pending (wp_env wp) now (ac_ws ac) of
        (Inl e, ws) \<Rightarrow> (Inl e, ac\<lparr>ac_ws := ws\<rparr>)
      | (Inr _, ws) \<Rightarrow>
          let rc = ws_rc ws; config = wp_config wp; env = we_scan (wp_env wp);
              dirty = dirty_set (wp_env wp) rc;
              mcp_changed = summarize_changed_paths (set (edited_paths_within (ws_ledger ws) dirty));
              external = summarize_changed_paths (set (external_paths_within (ws_ledger ws) dirty));
              bash = sv_readiness (ac_bash ac);
              guidance = validation_guidance (readiness_is_ready bash);
              body = [(''workspace_id'', JStr (wc_id config)), (''name'', JStr (wc_name config)),
                (''root'', JStr (sc_root env)), (''generation'', JNum (int (rc_generation rc))),
                (''snapshot_id'', JStr (rc_snapshot_id rc)),
                (''file_count'', JNum (int (index_file_count (rc_index rc)))),
                (''languages'', json_strings (index_languages (rc_index rc))),
                (''repository'', repository_json (rc_repo_status rc) (summarize_changed_paths (set dirty))),
                (''instructions'', JArr (instructions (rc_index rc))),
                (''capabilities'', JObj
                   [(''bash_available'', JBool (readiness_is_ready bash)), (''bash'', readiness_json bash),
                    (''validation_guidance'', JStr guidance)]),
                (''warnings'', json_strings (bash_warnings bash)),
                (''open_diagnostics'', wp_open_diagnostics wp),
                (''dirty_ownership'', dirty_ownership (wp_opened_dirty wp) mcp_changed external),
                (''tool_guidance'', JStr (''This runtime has one active repository. Context and edits read cached state; call workspace refresh only after suspected missed external changes. '' @ guidance))]
          in (Inr (add_phase_metrics (JObj body)
                [(''reconcile'', elapsed ''reconcile''), (''total_local'', elapsed ''total_local'')]),
              ac\<lparr>ac_ws := ws\<rparr>))"

definition workspace_refresh ::
    "'d ws_params \<Rightarrow> (string \<Rightarrow> nat) \<Rightarrow> nat \<Rightarrow> bool \<Rightarrow> 'd actor \<Rightarrow> (app_error + json) \<times> 'd actor" where
  "workspace_refresh wp elapsed now force ac =
     (case (if force then rescan wp (ac_ws ac)
            else map_prod (map_sum id (\<lambda>_. ())) id (reconcile_pending (wp_env wp) now (ac_ws ac))) of
        (Inl e, ws) \<Rightarrow> (Inl e, ac\<lparr>ac_ws := ws\<rparr>)
      | (Inr _, ws) \<Rightarrow> summary wp elapsed now (ac\<lparr>ac_ws := ws\<rparr>))"

definition mutation_json :: "(nat \<Rightarrow> string) \<Rightarrow> mutation_record \<Rightarrow> json" where
  "mutation_json show_time r =
     (let opt = (\<lambda>h. case h of None \<Rightarrow> JNull | Some h \<Rightarrow> JStr h)
      in JObj [(''mutation_id'', JStr (mu_id r)), (''path'', JStr (mu_path r)),
               (''before_hash'', opt (mu_before_hash r)), (''after_hash'', opt (mu_after_hash r)),
               (''source'', JStr (mutation_source_as_str (mu_source r))),
               (''request_id'', JStr (mu_request_id r)), (''timestamp'', JStr (show_time (mu_timestamp r))),
               (''generation'', JNum (int (mu_generation r)))])"

definition workspace_changes ::
    "'d ws_params \<Rightarrow> (nat \<Rightarrow> string) \<Rightarrow> (string \<Rightarrow> nat) \<Rightarrow> nat \<Rightarrow> nat \<Rightarrow> string option \<Rightarrow> nat
     \<Rightarrow> 'd workspace_state \<Rightarrow> (app_error + json) \<times> 'd workspace_state" where
  "workspace_changes wp show_time elapsed now since_generation source limit ws =
     (case reconcile_pending (wp_env wp) now ws of
        (Inl e, ws') \<Rightarrow> (Inl e, ws')
      | (Inr _, ws') \<Rightarrow>
          let records = records_since (ws_ledger ws') since_generation source limit;
              stamp = read_stamp (ws_rc ws')
          in (Inr (add_phase_metrics (JObj
                [(''workspace_id'', JStr (wc_id (wp_config wp))),
                 (''generation'', JNum (int (st_generation stamp))),
                 (''snapshot_id'', JStr (st_snapshot_id stamp)),
                 (''mutations'', JArr (map (mutation_json show_time) records))])
                [(''reconcile'', elapsed ''reconcile''), (''total_local'', elapsed ''total_local'')]), ws'))"

section \<open>The Bash tool\<close>

datatype run_reply =
    StartReply start_reply
  | StatusReply bash_run_view
  | OutputReply output_view
  | CancelReply cancel_reply

fun start_reply_view :: "start_reply \<Rightarrow> bash_run_view" where
  "start_reply_view (Finished v) = v"
| "start_reply_view (InBackground v) = v"
| "start_reply_view (QueuedBehind v) = v"
| "start_reply_view (Detached v) = v"

text \<open>The \<open>status\<close> and \<open>run_id\<close> fields of a reply.\<close>

fun reply_status :: "run_reply \<Rightarrow> run_status" where
  "reply_status (StartReply s) = bv_status (start_reply_view s)"
| "reply_status (StatusReply v) = bv_status v"
| "reply_status (OutputReply v) = ov_status v"
| "reply_status (CancelReply (EndedView v)) = bv_status v"
| "reply_status (CancelReply (CancelRequested _ _)) = Cancelling"

fun reply_run_id :: "run_reply \<Rightarrow> string" where
  "reply_run_id (StartReply s) = bv_run_id (start_reply_view s)"
| "reply_run_id (StatusReply v) = bv_run_id v"
| "reply_run_id (OutputReply v) = ov_run_id v"
| "reply_run_id (CancelReply (EndedView v)) = bv_run_id v"
| "reply_run_id (CancelReply (CancelRequested run_id _)) = run_id"

definition reconcile_pending_async ::
    "'d workspace_env \<Rightarrow> nat \<Rightarrow> 'd actor \<Rightarrow> (app_error + string list) \<times> 'd actor" where
  "reconcile_pending_async env now ac =
     (if \<not> lg_needs_reconcile (ws_ledger (ac_ws ac)) then (Inr [], ac)
      else case reconcile_pending env now (ac_ws ac) of
             (r, ws) \<Rightarrow> (r, ac\<lparr>ac_ws := ws, ac_last_reconcile := now\<rparr>))"

definition reconcile_poll ::
    "'d workspace_env \<Rightarrow> nat \<Rightarrow> bool \<Rightarrow> 'd actor \<Rightarrow> (app_error + string list) \<times> 'd actor" where
  "reconcile_poll env now terminal ac =
     (if \<not> lg_needs_reconcile (ws_ledger (ac_ws ac)) then (Inr [], ac)
      else if \<not> terminal \<and> now - ac_last_reconcile ac < poll_reconcile_debounce then (Inr [], ac)
      else reconcile_pending_async env now ac)"

definition current_baseline :: "reconciled \<Rightarrow> change_baseline" where
  "current_baseline rc =
     \<lparr>cb_generation = rc_generation rc, cb_dirty = set (rs_dirty_files (rc_repo_status rc))\<rparr>"

text \<open>The changes attributed to a run: start and end generation and the paths.\<close>

definition attribute_run_changes ::
    "'d ws_params \<Rightarrow> 'd actor \<Rightarrow> string \<Rightarrow> bool \<Rightarrow> (app_error + nat \<times> nat \<times> string set) \<times> 'd actor" where
  "attribute_run_changes wp ac run_id terminal =
     (let ws = ac_ws ac; current = current_baseline (ws_rc ws)
      in case supervisor_change_window (ac_bash ac) run_id current of
           (Inl e, sv) \<Rightarrow> (Inl e, ac\<lparr>ac_bash := sv\<rparr>)
         | (Inr window, sv) \<Rightarrow>
             let start_generation = cb_generation (cw_baseline window)
             in case cw_frozen window of
                  Some frozen \<Rightarrow>
                    (Inr (start_generation, fc_generation frozen, fc_paths frozen), ac\<lparr>ac_bash := sv\<rparr>)
                | None \<Rightarrow>
                    let paths = set (attribute_since (we_ledger (wp_env wp)) (sc_ops (we_scan (wp_env wp)))
                          (ws_disk ws) (ws_ledger ws)
                          \<lparr>rw_start_generation = start_generation, rw_end_generation = cb_generation current,
                           rw_ended_at = (if terminal then cw_ended_at window else None),
                           rw_baseline_dirty = sorted_list_of_set (cb_dirty (cw_baseline window)),
                           rw_current_dirty = sorted_list_of_set (cb_dirty current)\<rparr>)
                    in if \<not> terminal then (Inr (start_generation, cb_generation current, paths), ac\<lparr>ac_bash := sv\<rparr>)
                       else (case supervisor_freeze_changes sv run_id
                                   \<lparr>fc_generation = cb_generation current, fc_paths = paths\<rparr> of
                               (Inl e, sv') \<Rightarrow> (Inl e, ac\<lparr>ac_bash := sv'\<rparr>)
                             | (Inr frozen, sv') \<Rightarrow>
                                 (Inr (start_generation, fc_generation frozen, fc_paths frozen), ac\<lparr>ac_bash := sv'\<rparr>)))"

text \<open>What surrounds one call: the times of its reconciles, the clock and fresh id of the
  supervisor, and what the tasks and the disk do while a start is awaited.\<close>

record 'd run_env =
  re_now_before :: nat
  re_instant :: instant
  re_run_id :: string
  re_await :: "'d actor \<Rightarrow> 'd actor"
  re_finished :: "string + (app_error + unit)"
  re_elapses :: "nat \<Rightarrow> bool"
  re_now_after :: nat

definition run_start ::
    "'d ws_params \<Rightarrow> 'd run_env \<Rightarrow> start_request \<Rightarrow> 'd actor \<Rightarrow> (app_error + run_reply) option \<times> 'd actor" where
  "run_start wp re q ac =
     (let env = we_scan (wp_env wp); baseline = current_baseline (ws_rc (ac_ws ac))
      in case start_admit (sc_ops env) (ws_disk (ac_ws ac)) (sc_root env) (re_instant re) (re_run_id re)
                (ac_bash ac) q of
           (Inl e, sv) \<Rightarrow> (Some (Inl e), ac\<lparr>ac_bash := sv\<rparr>)
         | (Inr p, sv) \<Rightarrow>
             let ac2 = re_await re (ac\<lparr>ac_bash := sv\<rparr>)
             in (case start_reply_of (ac_bash ac2) (re_run_id re) False p (re_finished re) (re_elapses re) of
                   None \<Rightarrow> (None, ac2)
                 | Some (Inl e) \<Rightarrow> (Some (Inl e), ac2)
                 | Some (Inr r) \<Rightarrow>
                     (Some (Inr (StartReply r)),
                      ac2\<lparr>ac_bash := set_change_baseline (ac_bash ac2) (reply_run_id (StartReply r)) baseline\<rparr>)))"

definition run_request ::
    "'d ws_params \<Rightarrow> 'd run_env \<Rightarrow> bash_request \<Rightarrow> 'd actor \<Rightarrow> (app_error + run_reply) option \<times> 'd actor" where
  "run_request wp re request ac =
     (case request of
        BashStart q \<Rightarrow> run_start wp re q ac
      | BashStatus run_id \<Rightarrow> (map_option (map_sum id StatusReply) (run_status_view (ac_bash ac) run_id), ac)
      | BashOutput run_id stream continuation \<Rightarrow>
          (map_option (map_sum id OutputReply) (output_stream_view (ac_bash ac) run_id continuation stream), ac)
      | BashCancel run_id \<Rightarrow>
          (case cancel_run (re_instant re) (ac_bash ac) run_id of
             (r, sv) \<Rightarrow> (map_option (map_sum id CancelReply) r, ac\<lparr>ac_bash := sv\<rparr>)))"

record run_report =
  rp_reply :: run_reply
  rp_generation_before :: nat
  rp_generation_after :: nat
  rp_observed :: changed_path_summary

definition workspace_run ::
    "'d ws_params \<Rightarrow> 'd run_env \<Rightarrow> bash_request \<Rightarrow> 'd actor \<Rightarrow> (app_error + run_report) option \<times> 'd actor" where
  "workspace_run wp re request ac =
     (case (if is_poll request then (Inr [], ac)
            else reconcile_pending_async (wp_env wp) (re_now_before re) ac) of
        (Inl e, ac1) \<Rightarrow> (Some (Inl e), ac1)
      | (Inr _, ac1) \<Rightarrow>
          (case run_request wp re request ac1 of
             (None, ac2) \<Rightarrow> (None, ac2)
           | (Some (Inl e), ac2) \<Rightarrow> (Some (Inl e), ac2)
           | (Some (Inr reply), ac2) \<Rightarrow>
               let terminal = is_terminal (reply_status reply)
               in (case (if is_poll request then reconcile_poll (wp_env wp) (re_now_after re) terminal ac2
                         else reconcile_pending_async (wp_env wp) (re_now_after re) ac2) of
                     (Inl e, ac3) \<Rightarrow> (Some (Inl e), ac3)
                   | (Inr _, ac3) \<Rightarrow>
                       (case attribute_run_changes wp ac3 (reply_run_id reply) terminal of
                          (Inl e, ac4) \<Rightarrow> (Some (Inl e), ac4)
                        | (Inr (before, after, paths), ac4) \<Rightarrow>
                            (Some (Inr \<lparr>rp_reply = reply, rp_generation_before = before,
                               rp_generation_after = after, rp_observed = summarize_changed_paths paths\<rparr>), ac4)))))"

section \<open>Opening a workspace\<close>

text \<open>The rest of \<open>open\<close>: the opened root and exclusions and the directory of the cache are set up by
  the caller of this function; \<open>watch\<close> is how starting the file watcher ended.\<close>

definition open_workspace ::
    "'d workspace_env \<Rightarrow> 'd walk_ops \<Rightarrow> 'c cache_ops \<Rightarrow> ws_config \<Rightarrow> string
     \<Rightarrow> app_error + unit \<Rightarrow> (string \<Rightarrow> string + unit) \<Rightarrow> string list \<Rightarrow> bash_config \<Rightarrow> (bool \<Rightarrow> json)
     \<Rightarrow> nat \<Rightarrow> 'd \<Rightarrow> 'c
     \<Rightarrow> (app_error + 'd ws_params \<times> 'd actor) \<times> 'c" where
  "open_workspace env wk ops config index_cache watch probe candidates policy open_diagnostics now d c =
     (let repo_status = we_git_status env d;
          opened_dirty = set (filter (\<lambda>p. \<not> is_ignored (sc_exclusions (we_scan env)) p False)
             (case repo_status of Inl _ \<Rightarrow> [] | Inr s \<Rightarrow> rs_dirty_files s))
      in case index_scan_cached (we_scan env) wk ops d c (wc_artifact_paths config)
                (wc_exclude_patterns config) index_cache of
           (Inl e, c) \<Rightarrow> (Inl e, c)
         | (Inr (ci, hit), c) \<Rightarrow>
             (case (case watch of Inl e \<Rightarrow> Inl e | Inr _ \<Rightarrow> supervisor_new probe candidates policy) of
                Inl e \<Rightarrow> (Inl e, c)
              | Inr sv \<Rightarrow>
                  (Inr (\<lparr>wp_env = env, wp_walk = wk, wp_config = config,
                         wp_opened_dirty = summarize_changed_paths opened_dirty,
                         wp_open_diagnostics = open_diagnostics hit\<rparr>,
                        \<lparr>ac_ws = \<lparr>ws_disk = d, ws_ledger = ledger_new,
                                  ws_rc = reconciled_new (sc_sha (we_scan env)) ci repo_status, ws_uuids = 0\<rparr>,
                         ac_bash = sv, ac_last_reconcile = now\<rparr>), c)))"

section \<open>Lemmas\<close>

lemma group_counts: "sum_list (map (\<lambda>name. length (filter (\<lambda>p. f p = name) xs)) names)
    = length (filter (\<lambda>p. f p \<in> set names) xs)" if "distinct names"
  using that
proof (induction names)
  case (Cons n names)
  have "length (filter (\<lambda>p. f p = n \<or> f p \<in> set names) xs)
      = length (filter (\<lambda>p. f p = n) xs) + length (filter (\<lambda>p. f p \<in> set names) xs)"
    using Cons.prems by (induction xs) auto
  with Cons show ?case by simp
qed simp

lemma sum_list_sort_key: "sum_list (map f (sort_key k xs)) = sum_list (map f xs)" for f :: "'a \<Rightarrow> nat"
  by (metis mset_map mset_sort sum_mset_sum_list)

lemma sum_changed_path_groups: "sum_list (map cg_count (changed_path_groups paths)) = length paths"
  by (simp add: changed_path_groups_def sum_list_sort_key o_def group_counts)

lemma sum_limit_groups: "sum_list (map cg_count (limit_groups gs)) = sum_list (map cg_count gs)"
proof (cases "length gs > max_changed_path_groups")
  case True
  have "sum_list (map cg_count gs) = sum_list (map cg_count (take n gs)) + sum_list (map cg_count (drop n gs))" for n
    by (metis append_take_drop_id map_append sum_list_append)
  with True show ?thesis by (simp add: limit_groups_def Let_def)
qed (simp add: limit_groups_def)

lemma length_limit_groups: "length (limit_groups gs) \<le> max_changed_path_groups"
  by (simp add: limit_groups_def Let_def max_changed_path_groups_def)

section \<open>Properties\<close>

text \<open>A changed-path summary accounts for every path: it counts exactly the paths outside
  the ignored directories, lists the first thirty of them in order, says so when there are more, and its
  at most twenty groups add up to the full count.\<close>

theorem changed_path_summary_accounts:
  "let s = summarize_changed_paths (set paths); kept = {p \<in> set paths. \<not> ignored_workspace_path p}
   in cs_count s = card kept \<and> cs_paths s = take 30 (sorted_list_of_set kept)
      \<and> cs_truncated s = (30 < card kept)
      \<and> length (cs_groups s) \<le> 20 \<and> sum_list (map cg_count (cs_groups s)) = card kept"
proof -
  have "Set.filter (\<lambda>p. \<not> ignored_workspace_path p) (set paths) = {p \<in> set paths. \<not> ignored_workspace_path p}"
    by auto
  then show ?thesis
    using length_limit_groups
    by (auto simp: summarize_changed_paths_def Let_def sum_limit_groups sum_changed_path_groups
        max_observed_changed_paths_def max_changed_path_groups_def)
qed

text \<open>A rescan replaces the index by a fresh scan of the disk and drops the queued paths; the
  generation moves on and the snapshot identifier is current. When the scan fails the error is
  reported and the state is as before, except that the queued paths are dropped all the same.\<close>

theorem rescan_indexes_disk:
  "case rescan wp ws of (r, ws') \<Rightarrow>
     ws_disk ws' = ws_disk ws \<and> lg_pending (ws_ledger ws') = [] \<and> \<not> lg_needs_reconcile (ws_ledger ws')
   \<and> (case r of
        Inr _ \<Rightarrow>
          index_scan (we_scan (wp_env wp)) (wp_walk wp) (ws_disk ws) (wc_artifact_paths (wp_config wp))
            = Inr (rc_index (ws_rc ws'))
          \<and> rc_generation (ws_rc ws') = Suc (rc_generation (ws_rc ws))
          \<and> stamp_current (sc_sha (we_scan (wp_env wp))) (ws_rc ws')
          \<and> rc_repo_status (ws_rc ws') = (case we_git_status (wp_env wp) (ws_disk ws) of
               Inr status \<Rightarrow> status | Inl _ \<Rightarrow> rc_repo_status (ws_rc ws))
      | Inl e \<Rightarrow>
          index_scan (we_scan (wp_env wp)) (wp_walk wp) (ws_disk ws) (wc_artifact_paths (wp_config wp)) = Inl e
          \<and> ws_rc ws' = ws_rc ws)"
  by (auto simp: rescan_def Let_def clear_pending_def apply_repo_status_def split: sum.split)

lemma record_steps_keep_frozen:
  "record_step\<^sup>*\<^sup>* r r' \<Longrightarrow> rr_frozen_changes r = Some f \<Longrightarrow> rr_frozen_changes r' = Some f"
  by (induction rule: rtranclp_induct) (auto dest: record_step_frozen)

lemma table_get_update: "table_get (AList.update k r runs) k = Inr r"
  by (simp add: table_get_def update_conv')

lemma attribute_freezes:
  assumes "attribute_run_changes wp ac run_id True = (Inr (s, g, ps), ac')"
    and "table_get (sv_runs (ac_bash ac')) run_id = Inr r"
  shows "rr_frozen_changes r = Some \<lparr>fc_generation = g, fc_paths = ps\<rparr>"
proof (cases "table_get (sv_runs (ac_bash ac)) run_id")
  case (Inl e)
  with assms show ?thesis by (simp add: attribute_run_changes_def supervisor_change_window_def on_record_def Let_def)
next
  case (Inr r0)
  with assms show ?thesis
    by (auto simp: attribute_run_changes_def supervisor_change_window_def supervisor_freeze_changes_def
        on_record_def Let_def change_window_def freeze_changes_def table_get_update split: option.splits)
qed

lemma attribute_frozen:
  assumes "table_get (sv_runs (ac_bash ac)) run_id = Inr r" "rr_frozen_changes r = Some f"
  shows "\<exists>s. fst (attribute_run_changes wp ac run_id terminal) = Inr (s, fc_generation f, fc_paths f)"
  using assms
  by (simp add: attribute_run_changes_def supervisor_change_window_def on_record_def Let_def change_window_def)

text \<open>The changes reported with the end of a run are final: whatever happens to the record,
  the disk and the log of mutations afterwards, every later report names the same paths up to
  the same generation.\<close>

theorem reported_changes_are_final:
  assumes "attribute_run_changes wp ac run_id True = (Inr (s, g, ps), ac1)"
    and "table_get (sv_runs (ac_bash ac1)) run_id = Inr r"
    and "record_step\<^sup>*\<^sup>* r r'"
    and "table_get (sv_runs (ac_bash ac2)) run_id = Inr r'"
  shows "\<exists>s'. fst (attribute_run_changes wp ac2 run_id terminal) = Inr (s', g, ps)"
  using attribute_frozen [OF assms(4) record_steps_keep_frozen [OF assms(3) attribute_freezes [OF assms(1,2)]]]
  by simp

lemma rfind_Some:
  assumes "rfind [c] s = Some i"
  shows "i < length s \<and> s ! i = c"
proof -
  from assms obtain others where "filter (\<lambda>i. starts_with (drop i s) [c]) (rev [0..<Suc (length s)]) = i # others"
    unfolding rfind_def by (auto split: list.splits)
  then have "i \<in> set (filter (\<lambda>i. starts_with (drop i s) [c]) (rev [0..<Suc (length s)]))" by simp
  then obtain r where "drop i s = c # r" by (auto simp: starts_with_iff)
  then show ?thesis
    by (metis drop_eq_Nil hd_drop_conv_nth list.distinct(1) list.sel(1) not_le_imp_less)
qed

lemma rfind_None:
  assumes "rfind [c] s = None"
  shows "c \<notin> set s"
proof
  assume "c \<in> set s"
  then obtain i where i: "i < length s" "s ! i = c" by (auto simp: in_set_conv_nth)
  then have "starts_with (drop i s) [c]" by (simp add: starts_with_iff flip: Cons_nth_drop_Suc)
  with i have "i \<in> set (filter (\<lambda>i. starts_with (drop i s) [c]) (rev [0..<Suc (length s)]))" by simp
  moreover have "filter (\<lambda>i. starts_with (drop i s) [c]) (rev [0..<Suc (length s)]) = []"
    using assms unfolding rfind_def by (simp del: upt_Suc split: list.splits)
  ultimately show False by simp
qed

text \<open>The inlined part of a long instruction file is a prefix of it within the cap that ends
  in a line feed, unless its first line alone is longer than the cap.\<close>

theorem instruction_prefix_whole_lines:
  "\<exists>rest. content = instruction_prefix content @ rest
     \<and> length (instruction_prefix content) \<le> 4096
     \<and> (ends_with (instruction_prefix content) [nl]
        \<or> nl \<notin> set (instruction_prefix content)
          \<and> instruction_prefix content = take (floor_char_boundary content 4096) content)"
proof -
  let ?h = "take (floor_char_boundary content 4096) content"
  have len: "length ?h \<le> 4096" using floor_char_boundary_le [of content 4096] by simp
  show ?thesis
  proof (cases "rfind [nl] ?h")
    case None
    then have "instruction_prefix content = ?h" by (simp add: instruction_prefix_def Let_def instruction_inline_cap_def)
    with len rfind_None [OF None] show ?thesis by (metis append_take_drop_id)
  next
    case (Some i)
    then have h: "instruction_prefix content = take (i + 1) ?h"
      by (simp add: instruction_prefix_def Let_def instruction_inline_cap_def)
    have "take (Suc i) ?h = take i ?h @ [?h ! i]" using rfind_Some [OF Some] by (intro take_Suc_conv_app_nth) simp
    then have "take (i + 1) ?h = take i ?h @ [nl]" using rfind_Some [OF Some] by simp
    with h have "ends_with (instruction_prefix content) [nl]" by (simp add: ends_with_iff)
    moreover have "content = take (i + 1) ?h @ drop (i + 1) ?h @ drop (floor_char_boundary content 4096) content"
      by (metis append_assoc append_take_drop_id)
    moreover have "length (take (i + 1) ?h) \<le> 4096" using len by simp
    ultimately show ?thesis unfolding h by blast
  qed
qed

definition sample_params_of :: "mem_dir ws_params" where
  "sample_params_of =
     \<lparr>wp_env = sample_env_of mem_ops,
      wp_walk = \<lparr>wk_walk = (\<lambda>_ _ _ _. []), wk_exists = (\<lambda>_ _. False), wk_canonicalize = (\<lambda>_ p. Inr p)\<rparr>,
      wp_config = \<lparr>wc_id = ''w'', wc_name = ''w'', wc_max_context_chars = 9, wc_max_search_results = 9,
        wc_artifact_paths = [], wc_exclude_patterns = []\<rparr>,
      wp_opened_dirty = summarize_changed_paths {}, wp_open_diagnostics = JNull\<rparr>"

definition sample_actor :: "mem_dir actor" where
  "sample_actor =
     \<lparr>ac_ws = \<lparr>ws_disk = \<lparr>mem_files = Map.empty, mem_faults = [], mem_uuids = 0\<rparr>, ws_ledger = ledger_new,
        ws_rc = reconciled_new (sc_sha sample_scan) index_default (Inr repo_status_default), ws_uuids = 0\<rparr>,
      ac_bash = sample_supervisor\<lparr>sv_runs := [(''run_1'', run_queued 1 ''run_1'' 0 ''ls'' ''/w'' 10)]\<rparr>,
      ac_last_reconcile = 0\<rparr>"

theorem reported_changes_are_final_witness:
  "\<exists>ac s g ps. attribute_run_changes sample_params_of sample_actor ''run_1'' True = (Inr (s, g, ps), ac)
     \<and> (\<exists>s'. fst (attribute_run_changes sample_params_of ac ''run_1'' True) = Inr (s', g, ps))"
proof -
  have get: "table_get (sv_runs (ac_bash sample_actor)) ''run_1'' = Inr (run_queued 1 ''run_1'' 0 ''ls'' ''/w'' 10)"
    by (simp add: table_get_def sample_actor_def)
  obtain s g ps ac where a: "attribute_run_changes sample_params_of sample_actor ''run_1'' True = (Inr (s, g, ps), ac)"
    by (simp add: attribute_run_changes_def supervisor_change_window_def supervisor_freeze_changes_def
        on_record_def Let_def change_window_def freeze_changes_def get table_get_update run_queued_def)
  then obtain r where r: "table_get (sv_runs (ac_bash ac)) ''run_1'' = Inr r"
    by (auto simp: attribute_run_changes_def supervisor_change_window_def supervisor_freeze_changes_def
        on_record_def Let_def change_window_def freeze_changes_def get table_get_update run_queued_def)
  from reported_changes_are_final [OF a r rtranclp.rtrancl_refl r] a show ?thesis by blast
qed

end
