(* ===== verification/Edit_Tool.thy ===== *)
theory Edit_Tool
  imports Edit_Commit Edit_Validation Workspace_Report Request_Contract
begin

text \<open>
  The edit tools from their requests to their responses: the change lists and the narrow
  single-change requests (\<open>src/requests/edit.rs\<close>), and \<open>code_edit\<close> with its diff view and its
  validation report (\<open>src/workspace/edit.rs\<close>, \<open>diff_stat\<close> of \<open>src/workspace/io_helpers.rs\<close>). The
  deserialization of one change is the parameter \<open>de\<close>, the line diff of the \<open>similar\<close> package the
  parameter \<open>et_line_diff\<close>; the validation commands run on the runner of \<open>Edit_Validation\<close> over the
  whole workspace actor, which they may change.
\<close>

section \<open>Requests\<close>

datatype response_detail = DetailCompact | DetailStandard | DetailDebug

text \<open>\<open>EditRequest\<close>: the part the planner reads, then the rest.\<close>

record typed_edit = edit_request +
  er_validate :: "string list"
  er_response_detail :: response_detail

definition change_contract :: "(string \<times> json) list \<Rightarrow> contract option" where
  "change_contract branch =
     Option.bind (map_of branch ''properties'') (\<lambda>properties.
     Option.bind (json_get properties ''kind'') (\<lambda>kind.
     Option.bind (json_get kind ''enum'') (\<lambda>values.
     Option.bind (json_as_array values) (\<lambda>items.
       (case items of
          v # _ \<Rightarrow> map_option (\<lambda>name. contract_from_schema name branch) (json_as_str v)
        | [] \<Rightarrow> None)))))"

definition change_contracts :: "json \<Rightarrow> contract list" where
  "change_contracts generated =
     List.map_filter change_contract
       (List.map_filter json_as_object
          (case Option.bind (map_of (input_schema generated) ''oneOf'') json_as_array of
             None \<Rightarrow> [] | Some branches \<Rightarrow> branches))"

definition change_not_object :: app_error where
  "change_not_object = error_with_details InvalidChangeField ''transaction changes must be objects''
     (JObj [(''field'', JStr ''changes'')])"

definition change_requires_kind :: app_error where
  "change_requires_kind = error_with_details MissingChangeField ''change requires kind''
     (JObj [(''field'', JStr ''kind'')])"

definition unsupported_kind :: "contract list \<Rightarrow> string \<Rightarrow> app_error" where
  "unsupported_kind contracts kind =
     error_with_details UnsupportedChangeKind
       (''unsupported change kind '' @ [CHR 0x27] @ kind @ [CHR 0x27])
       (JObj [(''kind'', JStr kind), (''supported'', json_strs (map co_name contracts))])"

definition change_parse ::
    "(json \<Rightarrow> (string \<times> string) + change) \<Rightarrow> contract list \<Rightarrow> json \<Rightarrow> app_error + change" where
  "change_parse de contracts v =
     (if json_as_object v = None then Inl change_not_object
      else case Option.bind (json_get v ''kind'') json_as_str of
        None \<Rightarrow> Inl change_requires_kind
      | Some kind \<Rightarrow>
          if is_blank kind then Inl change_requires_kind
          else (case find (\<lambda>c. co_name c = kind) contracts of
                  None \<Rightarrow> Inl (unsupported_kind contracts kind)
                | Some c \<Rightarrow>
                    (case contract_parse de c v RejectChangeItem of
                       Inl e \<Rightarrow> Inl e
                     | Inr change \<Rightarrow> map_sum id (\<lambda>_. change) (change_validate change))))"

text \<open>The first item that is refused refuses the list.\<close>

fun changes_parse ::
    "(json \<Rightarrow> (string \<times> string) + change) \<Rightarrow> contract list \<Rightarrow> json list \<Rightarrow> app_error + change list" where
  "changes_parse de contracts [] = Inr []"
| "changes_parse de contracts (v # vs) =
     (case change_parse de contracts v of
        Inl e \<Rightarrow> Inl e
      | Inr c \<Rightarrow> map_sum id ((#) c) (changes_parse de contracts vs))"

definition edit_single :: "change \<Rightarrow> string list option \<Rightarrow> response_detail \<Rightarrow> app_error + typed_edit" where
  "edit_single change validate detail =
     map_sum id (\<lambda>_. \<lparr>er_changes = [change], er_snapshot_id = None, er_preview = False,
                      er_validate = (case validate of None \<Rightarrow> [] | Some cs \<Rightarrow> cs),
                      er_response_detail = detail\<rparr>)
       (change_validate change)"

definition edit_batch ::
    "(json \<Rightarrow> (string \<times> string) + change) \<Rightarrow> contract list \<Rightarrow> json list \<Rightarrow> string option \<Rightarrow> bool
     \<Rightarrow> string list option \<Rightarrow> response_detail \<Rightarrow> app_error + typed_edit" where
  "edit_batch de contracts changes snapshot_id preview validate detail =
     map_sum id (\<lambda>cs. \<lparr>er_changes = cs, er_snapshot_id = snapshot_id, er_preview = preview,
                       er_validate = (case validate of None \<Rightarrow> [] | Some vs \<Rightarrow> vs),
                       er_response_detail = detail\<rparr>)
       (changes_parse de contracts changes)"

record code_write_request =
  cwr_path :: string
  cwr_content :: string
  cwr_overwrite :: bool
  cwr_expected_hash :: "string option"
  cwr_validate :: "string list option"
  cwr_response_detail :: response_detail

definition write_into_edit :: "code_write_request \<Rightarrow> app_error + typed_edit" where
  "write_into_edit r =
     edit_single (Create (cwr_path r) (cwr_content r) (cwr_overwrite r) (cwr_expected_hash r))
       (cwr_validate r) (cwr_response_detail r)"

record code_replace_request =
  crr_path :: string
  crr_old_text :: string
  crr_new_text :: string
  crr_expected_replacements :: nat
  crr_expected_hash :: "string option"
  crr_handle :: "string option"
  crr_validate :: "string list option"
  crr_response_detail :: response_detail

definition replace_into_edit :: "code_replace_request \<Rightarrow> app_error + typed_edit" where
  "replace_into_edit r =
     edit_single (Replace (crr_path r) (crr_old_text r) (crr_new_text r) (crr_expected_replacements r)
                    (crr_expected_hash r) (crr_handle r))
       (crr_validate r) (crr_response_detail r)"

record code_replace_range_request =
  crg_path :: string
  crg_handle :: string
  crg_new_text :: string
  crg_validate :: "string list option"
  crg_response_detail :: response_detail

definition replace_range_into_edit :: "code_replace_range_request \<Rightarrow> app_error + typed_edit" where
  "replace_range_into_edit r =
     edit_single (ReplaceRange (crg_path r) (crg_handle r) (crg_new_text r)) (crg_validate r) (crg_response_detail r)"

record code_insert_request =
  cin_path :: string
  cin_content :: string
  cin_anchor_symbol :: string
  cin_position :: insert_position
  cin_expected_hash :: "string option"
  cin_validate :: "string list option"
  cin_response_detail :: response_detail

definition insert_into_edit :: "code_insert_request \<Rightarrow> app_error + typed_edit" where
  "insert_into_edit r =
     edit_single (Insert (cin_path r) (cin_content r) (cin_anchor_symbol r) (cin_position r) (cin_expected_hash r))
       (cin_validate r) (cin_response_detail r)"

record code_delete_request =
  cdl_path :: string
  cdl_expected_hash :: "string option"
  cdl_validate :: "string list option"
  cdl_response_detail :: response_detail

definition delete_into_edit :: "code_delete_request \<Rightarrow> app_error + typed_edit" where
  "delete_into_edit r =
     edit_single (Delete (cdl_path r) (cdl_expected_hash r)) (cdl_validate r) (cdl_response_detail r)"

record code_rename_request =
  crn_path :: string
  crn_to :: string
  crn_expected_hash :: "string option"
  crn_validate :: "string list option"
  crn_response_detail :: response_detail

definition rename_into_edit :: "code_rename_request \<Rightarrow> app_error + typed_edit" where
  "rename_into_edit r =
     edit_single (Rename (crn_path r) (crn_to r) (crn_expected_hash r)) (crn_validate r) (crn_response_detail r)"

record code_preview_request =
  cpv_changes :: "json list"
  cpv_snapshot_id :: "string option"

definition preview_into_edit ::
    "(json \<Rightarrow> (string \<times> string) + change) \<Rightarrow> contract list \<Rightarrow> code_preview_request \<Rightarrow> app_error + typed_edit" where
  "preview_into_edit de contracts r =
     edit_batch de contracts (cpv_changes r) (cpv_snapshot_id r) True None DetailStandard"

record code_transaction_request =
  ctr_changes :: "json list"
  ctr_snapshot_id :: "string option"
  ctr_validate :: "string list option"
  ctr_response_detail :: response_detail

definition transaction_into_edit ::
    "(json \<Rightarrow> (string \<times> string) + change) \<Rightarrow> contract list \<Rightarrow> code_transaction_request \<Rightarrow> app_error + typed_edit" where
  "transaction_into_edit de contracts r =
     edit_batch de contracts (ctr_changes r) (ctr_snapshot_id r) False (ctr_validate r) (ctr_response_detail r)"

section \<open>The diff view\<close>

datatype line_tag = TagInsert | TagDelete | TagEqual

definition diff_stat :: "(string \<Rightarrow> string \<Rightarrow> line_tag list) \<Rightarrow> planned_file list \<Rightarrow> (string \<times> nat \<times> nat) list" where
  "diff_stat line_diff plan =
     map (\<lambda>item.
        let before = (case pf_before item of None \<Rightarrow> [] | Some s \<Rightarrow> s);
            after = (case pf_after item of None \<Rightarrow> [] | Some s \<Rightarrow> s);
            tags = line_diff before after
        in (pf_path item, length (filter (\<lambda>t. t = TagInsert) tags), length (filter (\<lambda>t. t = TagDelete) tags)))
       plan"

record diff_view =
  dv_diff :: json
  dv_stat :: json
  dv_truncated :: bool
  dv_omitted :: bool

text \<open>The prefix of the diff, cut after a whole line where there is one.\<close>

definition capped_diff :: "string \<Rightarrow> nat \<Rightarrow> string" where
  "capped_diff diff cap =
     (let safe_cap = floor_char_boundary diff cap
      in take (case rfind [nl] (take safe_cap diff) of None \<Rightarrow> safe_cap | Some i \<Rightarrow> i + 1) diff)"

definition stat_json :: "(string \<times> nat \<times> nat) list \<Rightarrow> json" where
  "stat_json stats = JArr (map (\<lambda>(path, added, removed).
     JObj [(''path'', JStr path), (''added'', JNum (int added)), (''removed'', JNum (int removed))]) stats)"

definition diff_view_build ::
    "(string \<Rightarrow> string \<Rightarrow> line_tag list) \<Rightarrow> string \<Rightarrow> planned_file list \<Rightarrow> response_detail \<Rightarrow> nat \<Rightarrow> diff_view" where
  "diff_view_build line_diff diff planned detail cap =
     (let stat = stat_json (diff_stat line_diff planned)
      in case detail of
           DetailCompact \<Rightarrow> \<lparr>dv_diff = JNull, dv_stat = stat, dv_truncated = False, dv_omitted = True\<rparr>
         | DetailDebug \<Rightarrow> \<lparr>dv_diff = JStr diff, dv_stat = stat, dv_truncated = False, dv_omitted = False\<rparr>
         | DetailStandard \<Rightarrow>
             if 0 < cap \<and> cap < length diff
             then \<lparr>dv_diff = JStr (capped_diff diff cap), dv_stat = stat, dv_truncated = True, dv_omitted = False\<rparr>
             else \<lparr>dv_diff = JStr diff, dv_stat = stat, dv_truncated = False, dv_omitted = False\<rparr>)"

section \<open>The tool\<close>

text \<open>What one edit meets: the line diff, the runner of its validation commands, the times of its
  reconciles and how long its phases took.\<close>

record 'd edit_tool_env =
  et_params :: edit_params
  et_line_diff :: "string \<Rightarrow> string \<Rightarrow> line_tag list"
  et_runner :: "'d actor runner"
  et_show_time :: "nat \<Rightarrow> string"
  et_now :: nat
  et_now_after :: nat
  et_prepare_ms :: nat
  et_commit_ms :: nat

definition syntax_check_json :: "string \<times> string \<Rightarrow> json" where
  "syntax_check_json check = JObj [(''path'', JStr (fst check)), (''syntax_check'', JStr (snd check))]"

definition opt_str_json :: "string option \<Rightarrow> json" where
  "opt_str_json s = (case s of None \<Rightarrow> JNull | Some t \<Rightarrow> JStr t)"

definition preview_json ::
    "edit_params \<Rightarrow> stamp \<Rightarrow> string option \<Rightarrow> string \<Rightarrow> (string \<times> string) list \<Rightarrow> string list \<Rightarrow> json" where
  "preview_json ep stamp rebased diff checks files = JObj
     [(''preview'', JBool True), (''workspace_id'', JStr (ep_id ep)),
      (''generation'', JNum (int (st_generation stamp))), (''snapshot_id'', JStr (st_snapshot_id stamp)),
      (''snapshot_rebased_from'', opt_str_json rebased), (''diff'', JStr diff),
      (''syntax_checks'', JArr (map syntax_check_json checks)), (''files'', JArr (map JStr files))]"

definition pending_guidance :: "bool \<Rightarrow> string" where
  "pending_guidance deferred =
     (if deferred
      then ''Post-apply validation is running in the background. The edit remains applied. Poll bash_status ''
         @ ''for every ID in validation_run_ids; validation_run_id is the leading validator and ''
         @ ''deferred_validation_run_id is queued behind it.''
      else ''Post-apply validation is running in the background. The edit remains applied. Poll bash_status ''
         @ ''with validation_run_id.'')"

definition failed_guidance :: string where
  "failed_guidance = ''Post-apply validation failed, but the edit remains applied so the reported failure can be ''
     @ ''fixed in a follow-up edit.''"

text \<open>The fields every response of an applied edit ends with.\<close>

definition applied_fields ::
    "'d edit_tool_env \<Rightarrow> string option \<Rightarrow> diff_view \<Rightarrow> (string \<times> string) list \<Rightarrow> json list \<Rightarrow> stamp
     \<Rightarrow> mutation_record list \<Rightarrow> (string \<times> json) list" where
  "applied_fields et rebased view checks validation stamp records =
     [(''snapshot_rebased_from'', opt_str_json rebased), (''diff'', dv_diff view), (''diff_stat'', dv_stat view),
      (''diff_truncated'', JBool (dv_truncated view)), (''diff_omitted'', JBool (dv_omitted view)),
      (''syntax_checks'', JArr (map syntax_check_json checks)), (''validation'', JArr validation),
      (''generation'', JNum (int (st_generation stamp))), (''snapshot_id'', JStr (st_snapshot_id stamp)),
      (''mutations'', JArr (map (mutation_json (et_show_time et)) records)),
      (''phase_ms'', JObj [(''prepare_and_commit'', JNum (int (et_prepare_ms et))),
                          (''commit'', JNum (int (et_commit_ms et)))])]"

definition pending_response :: "string \<Rightarrow> string option \<Rightarrow> bool \<Rightarrow> (string \<times> json) list \<Rightarrow> json" where
  "pending_response run_id deferred failed rest = JObj
     ([(''applied'', JBool True), (''validation_failed'', JBool failed), (''validation_pending'', JBool True),
       (''validation_status'', JStr ''pending''), (''validation_run_id'', JStr run_id),
       (''validation_run_ids'', JArr (map JStr (run_id # (case deferred of None \<Rightarrow> [] | Some d \<Rightarrow> [d])))),
       (''guidance'', JStr (pending_guidance (deferred \<noteq> None)))]
      @ rest
      @ (case deferred of None \<Rightarrow> [] | Some d \<Rightarrow> [(''deferred_validation_run_id'', JStr d)])
      @ (if failed then [(''reason'', JStr ''validation_failed'')] else []))"

definition settled_response :: "bool \<Rightarrow> (string \<times> json) list \<Rightarrow> json" where
  "settled_response failed rest = JObj
     ([(''applied'', JBool True), (''validation_failed'', JBool failed),
       (''validation_status'', JStr (if failed then ''failed'' else ''passed''))]
      @ rest
      @ (if failed
         then [(''reason'', JStr ''validation_failed''), (''guidance'', JStr failed_guidance)] else []))"

text \<open>The permit is held over the validation and released before the reconcile: no other mutation
  of the workspace comes between the steps up to there.\<close>

definition finish_edit ::
    "'d ws_params \<Rightarrow> 'd edit_tool_env \<Rightarrow> typed_edit \<Rightarrow> planned_file list \<Rightarrow> mutation_record list \<Rightarrow> string
     \<Rightarrow> string option \<Rightarrow> (string \<times> string) list \<Rightarrow> 'd actor \<Rightarrow> (app_error + json) \<times> 'd actor" where
  "finish_edit wp et request planned records diff rebased checks ac =
     (let view = diff_view_build (et_line_diff et) diff planned (er_response_detail request)
                   (wc_max_context_chars (wp_config wp));
          (outcome, ac1) = run_edit_validation app_error_json (et_runner et) ac (er_validate request)
      in case reconcile_pending_async (wp_env wp) (et_now_after et) ac1 of
           (Inl e, ac2) \<Rightarrow> (Inl e, ac2)
         | (Inr _, ac2) \<Rightarrow>
             let rest = applied_fields et rebased view checks (vo_validation outcome)
                            (read_stamp (ws_rc (ac_ws ac2))) records
             in (Inr (case vo_pending_run_id outcome of
                   Some run_id \<Rightarrow> pending_response run_id (vo_deferred_run_id outcome) (vo_failed outcome) rest
                 | None \<Rightarrow> settled_response (vo_failed outcome) rest), ac2))"

definition code_edit ::
    "'d ws_params \<Rightarrow> 'd edit_tool_env \<Rightarrow> typed_edit \<Rightarrow> 'd actor \<Rightarrow> (app_error + json) \<times> 'd actor" where
  "code_edit wp et request ac =
     (case (if er_validate request = [] then Inr [] else launcher_of (ac_bash ac)) of
        Inl e \<Rightarrow> (Inl e, ac)
      | Inr _ \<Rightarrow>
          (case prepare_edit (wp_env wp) (et_params et) (et_now et) (ac_ws ac) (edit_request.truncate request) of
             (Inl e, ws) \<Rightarrow> (Inl e, ac\<lparr>ac_ws := ws\<rparr>)
           | (Inr prepared, ws) \<Rightarrow>
               (case prepared of
                  Preview stamp rebased diff checks files \<Rightarrow>
                    (Inr (preview_json (et_params et) stamp rebased diff checks files), ac\<lparr>ac_ws := ws\<rparr>)
                | Applied planned records diff rebased checks \<Rightarrow>
                    finish_edit wp et request planned records diff rebased checks (ac\<lparr>ac_ws := ws\<rparr>))))"

section \<open>Lemmas\<close>

lemma error_code_of [simp]:
  "ae_code (error_with_details c m d) = c" "ae_code (error_new c m) = c"
  by (simp_all add: error_with_details_def error_new_def error_build_def)

lemma prepare_preview_disk:
  assumes "prepare_edit env ep now ws request = (r, ws')" "er_preview request"
  shows "ws_disk ws' = ws_disk ws \<and> (\<forall>planned records diff rebased checks. r \<noteq> Inr (Applied planned records diff rebased checks))"
  using assms reconcile_disk
  by (auto simp: prepare_edit_def Let_def split: prod.splits sum.splits)

lemma reject_code:
  "ae_code (reject_unknown RejectChangeItem c unknown) = UnknownChangeField"
  "ae_code (reject_missing RejectChangeItem c missing) = MissingChangeField"
  "ae_code (reject_invalid RejectChangeItem message details) = InvalidChangeField"
  by (simp_all add: reject_unknown_def reject_missing_def reject_invalid_def)

text \<open>What is wrong with a refused item, read from the item and from the fields its kind's contract
  allows and requires: the first of the faults in the order a reader of the documentation meets them.\<close>

definition change_fault :: "contract list \<Rightarrow> json \<Rightarrow> error_code" where
  "change_fault contracts v =
     (case v of
        JObj fs \<Rightarrow>
          (case map_of fs ''kind'' of
             Some (JStr kind) \<Rightarrow>
               if is_blank kind then MissingChangeField
               else (case find (\<lambda>c. co_name c = kind) contracts of
                       None \<Rightarrow> UnsupportedChangeKind
                     | Some c \<Rightarrow>
                         if \<exists>(f, w) \<in> set fs. w \<noteq> JNull \<and> f \<notin> set (co_allowed c) then UnknownChangeField
                         else if \<exists>f \<in> set (co_required c). \<forall>(g, w) \<in> set fs. f = g \<longrightarrow> w = JNull
                              then MissingChangeField
                              else InvalidChangeField)
           | _ \<Rightarrow> MissingChangeField)
      | _ \<Rightarrow> InvalidChangeField)"

lemma change_error_codes:
  "ae_code change_not_object = InvalidChangeField" "ae_code change_requires_kind = MissingChangeField"
  "ae_code (unsupported_kind contracts kind) = UnsupportedChangeKind"
  by (simp_all add: change_not_object_def change_requires_kind_def unsupported_kind_def)

lemma kept_None:
  "map_of (filter (\<lambda>(_, v). \<not> json_is_null v) fs) f = None \<longleftrightarrow> (\<forall>(g, w) \<in> set fs. f = g \<longrightarrow> w = JNull)"
  by (force simp: map_of_eq_None_iff json_is_null_iff)

lemma contract_check_code:
  assumes "contract_check c RejectChangeItem fs = Inl e"
  shows "ae_code e = (if \<exists>(f, w) \<in> set fs. w \<noteq> JNull \<and> f \<notin> set (co_allowed c) then UnknownChangeField
                      else if \<exists>f \<in> set (co_required c). \<forall>(g, w) \<in> set fs. f = g \<longrightarrow> w = JNull
                           then MissingChangeField else InvalidChangeField)"
proof -
  let ?obj = "filter (\<lambda>(_, v). \<not> json_is_null v) fs"
  let ?unknown = "filter (\<lambda>f. f \<notin> set (co_allowed c)) (map fst ?obj)"
  let ?missing = "filter (\<lambda>f. map_of ?obj f = None) (co_required c)"
  have u: "?unknown = [] \<longleftrightarrow> \<not> (\<exists>(f, w) \<in> set fs. w \<noteq> JNull \<and> f \<notin> set (co_allowed c))"
    by (auto simp: filter_empty_conv json_is_null_iff)
  have m: "?missing = [] \<longleftrightarrow> \<not> (\<exists>f \<in> set (co_required c). \<forall>(g, w) \<in> set fs. f = g \<longrightarrow> w = JNull)"
    by (simp add: filter_empty_conv kept_None)
  consider "?unknown \<noteq> []" | "?unknown = []" "?missing \<noteq> []" | "?unknown = []" "?missing = []" by blast
  then show ?thesis
  proof cases
    case 1
    then have "contract_check c RejectChangeItem fs = Inl (reject_unknown RejectChangeItem c ?unknown)"
      unfolding contract_check_def Let_def by (rule if_P)
    with assms have "ae_code e = UnknownChangeField" using reject_code(1) by (metis sum.inject(1))
    with 1 u show ?thesis by (simp only: not_not if_True)
  next
    case 2
    then have "contract_check c RejectChangeItem fs = Inl (reject_missing RejectChangeItem c ?missing)"
      unfolding contract_check_def Let_def by (simp only: if_P not_False_eq_True simp_thms if_False)
    with assms have "ae_code e = MissingChangeField" using reject_code(2) by (metis sum.inject(1))
    with 2 u m show ?thesis by (simp only: not_not if_True if_False simp_thms)
  next
    case 3
    have "\<exists>x y. e = reject_invalid RejectChangeItem x y"
      using assms unfolding contract_check_def Let_def 3
      by (simp only: simp_thms if_False split: option.splits prod.splits) blast+
    then have "ae_code e = InvalidChangeField" by (auto simp only: reject_code)
    with 3 u m show ?thesis by (simp only: not_not if_False simp_thms)
  qed
qed

lemma contract_passed:
  assumes "contract_check c rj fs = Inr obj"
  shows "\<not> (\<exists>(f, w) \<in> set fs. w \<noteq> JNull \<and> f \<notin> set (co_allowed c))
     \<and> \<not> (\<exists>f \<in> set (co_required c). \<forall>(g, w) \<in> set fs. f = g \<longrightarrow> w = JNull)"
proof -
  let ?obj = "filter (\<lambda>(_, v). \<not> json_is_null v) fs"
  have "in_contract c ?obj" using assms unfolding contract_check_iff by blast
  then have a: "\<forall>(f, v) \<in> set ?obj. f \<in> set (co_allowed c)"
    and r: "\<forall>f \<in> set (co_required c). \<not> (\<forall>(g, w) \<in> set fs. f = g \<longrightarrow> w = JNull)"
    unfolding in_contract_def kept_None by blast+
  have "f \<in> set (co_allowed c)" if "(f, w) \<in> set fs" "w \<noteq> JNull" for f w
    using a that by (auto simp: json_is_null_iff)
  with r show ?thesis by blast
qed

lemma contract_parse_code:
  "contract_parse de c (JObj fs) RejectChangeItem = Inl e \<Longrightarrow>
     ae_code e = (if \<exists>(f, w) \<in> set fs. w \<noteq> JNull \<and> f \<notin> set (co_allowed c) then UnknownChangeField
                  else if \<exists>f \<in> set (co_required c). \<forall>(g, w) \<in> set fs. f = g \<longrightarrow> w = JNull
                       then MissingChangeField else InvalidChangeField)"
proof (cases "contract_check c RejectChangeItem fs")
  case (Inl a)
  moreover assume "contract_parse de c (JObj fs) RejectChangeItem = Inl e"
  ultimately have "a = e" by (simp add: contract_parse_def)
  with Inl show ?thesis using contract_check_code by blast
next
  case (Inr obj)
  moreover assume "contract_parse de c (JObj fs) RejectChangeItem = Inl e"
  ultimately have "ae_code e = InvalidChangeField"
    by (auto simp: contract_parse_def reject_code split: sum.splits)
  with contract_passed [OF Inr] show ?thesis by (simp only: if_False)
qed

lemma change_validate_code: "change_validate c = Inl e \<Longrightarrow> ae_code e = InvalidChangeField"
  by (auto simp: change_validate_def Let_def split: option.splits)

lemma change_parse_code: "change_parse de contracts v = Inl e \<Longrightarrow> ae_code e = change_fault contracts v"
proof (cases v)
  case (JObj fs)
  assume e: "change_parse de contracts v = Inl e"
  show ?thesis
  proof (cases "\<exists>kind. map_of fs ''kind'' = Some (JStr kind) \<and> \<not> is_blank kind")
    case False
    with e JObj show ?thesis
      by (auto simp: change_parse_def change_fault_def json_as_object_def json_get_def json_as_str_def
          change_error_codes split: option.splits json.splits if_splits)
  next
    case True
    then obtain kind where k: "map_of fs ''kind'' = Some (JStr kind)" "\<not> is_blank kind" by blast
    show ?thesis
    proof (cases "find (\<lambda>c. co_name c = kind) contracts")
      case None
      with e JObj k show ?thesis
        by (auto simp: change_parse_def change_fault_def json_as_object_def json_get_def json_as_str_def change_error_codes)
    next
      case (Some c)
      let ?parsed = "contract_parse de c (JObj fs) RejectChangeItem"
      have p: "(case ?parsed of Inl e \<Rightarrow> Inl e | Inr change \<Rightarrow> map_sum id (\<lambda>_. change) (change_validate change)) = Inl e"
        using e JObj k Some by (simp add: change_parse_def json_as_object_def json_get_def json_as_str_def)
      have f: "change_fault contracts v
          = (if \<exists>(f, w) \<in> set fs. w \<noteq> JNull \<and> f \<notin> set (co_allowed c) then UnknownChangeField
             else if \<exists>f \<in> set (co_required c). \<forall>(g, w) \<in> set fs. f = g \<longrightarrow> w = JNull
                  then MissingChangeField else InvalidChangeField)"
        using JObj k Some by (simp add: change_fault_def)
      show ?thesis
      proof (cases ?parsed)
        case (Inl a)
        with p have "?parsed = Inl e" by simp
        from contract_parse_code [OF this] show ?thesis unfolding f .
      next
        case (Inr change)
        then obtain obj where "contract_check c RejectChangeItem fs = Inr obj"
          by (auto simp: contract_parse_def split: sum.splits)
        moreover from p Inr have "change_validate change = Inl e"
          by (cases "change_validate change") simp_all
        ultimately show ?thesis using contract_passed change_validate_code unfolding f by metis
      qed
    qed
  qed
qed (auto simp: change_parse_def change_fault_def json_as_object_def change_error_codes)

lemma changes_parse_Inl:
  "changes_parse de contracts vs = Inl e \<Longrightarrow>
     \<exists>pre v post. vs = pre @ v # post \<and> change_parse de contracts v = Inl e
        \<and> (\<forall>u \<in> set pre. \<exists>c. change_parse de contracts u = Inr c)"
proof (induction vs)
  case (Cons v vs)
  show ?case
  proof (cases "change_parse de contracts v")
    case (Inl e')
    with Cons.prems show ?thesis by (intro exI [of _ "[]"]) simp
  next
    case (Inr c)
    with Cons.prems have "changes_parse de contracts vs = Inl e"
      by (cases "changes_parse de contracts vs") simp_all
    from Cons.IH [OF this] obtain pre u post where "vs = pre @ u # post" "change_parse de contracts u = Inl e"
      "\<forall>u \<in> set pre. \<exists>c. change_parse de contracts u = Inr c" by blast
    with Inr show ?thesis by (intro exI [of _ "v # pre"] exI [of _ u] exI [of _ post]) simp
  qed
qed simp

lemma response_fields:
  "json_get (settled_response failed rest) ''applied'' = Some (JBool True)"
  "json_get (pending_response run_id deferred failed rest) ''applied'' = Some (JBool True)"
  "json_get (settled_response failed rest) ''validation_status'' = Some (JStr (if failed then ''failed'' else ''passed''))"
  "json_get (pending_response run_id deferred failed rest) ''validation_status'' = Some (JStr ''pending'')"
  "json_get (pending_response run_id deferred failed rest) ''validation_run_id'' = Some (JStr run_id)"
  by (simp_all add: json_get_def settled_response_def pending_response_def)

lemma applied_response_fields:
  "json_get (settled_response failed (applied_fields et rebased view checks validation stamp records)) ''validation_run_id'' = None"
  "json_get (settled_response failed (applied_fields et rebased view checks validation stamp records)) ''validation''
     = Some (JArr validation)"
  "json_get (settled_response failed (applied_fields et rebased view checks validation stamp records)) ''mutations''
     = Some (JArr (map (mutation_json (et_show_time et)) records))"
  "json_get (pending_response run_id deferred failed (applied_fields et rebased view checks validation stamp records)) ''mutations''
     = Some (JArr (map (mutation_json (et_show_time et)) records))"
  by (simp_all add: json_get_def settled_response_def pending_response_def applied_fields_def split: option.splits)

lemma preview_fields:
  "json_get (preview_json ep stamp rebased diff checks files) ''preview'' = Some (JBool True)"
  "json_get (preview_json ep stamp rebased diff checks files) ''applied'' = None"
  by (simp_all add: json_get_def preview_json_def)

lemma truncate_edit [simp]:
  "er_preview (edit_request.truncate r) = er_preview r" "er_changes (edit_request.truncate r) = er_changes r"
  "er_snapshot_id (edit_request.truncate r) = er_snapshot_id r"
  by (simp_all add: edit_request.truncate_def)

lemma code_edit_applied:
  assumes "code_edit wp et request ac = (Inr v, ac')" "\<not> er_preview request"
  obtains planned records diff rebased checks ws ac1 where
    "prepare_edit (wp_env wp) (et_params et) (et_now et) (ac_ws ac) (edit_request.truncate request)
       = (Inr (Applied planned records diff rebased checks), ws)"
    "finish_edit wp et request planned records diff rebased checks (ac\<lparr>ac_ws := ws\<rparr>) = (Inr v, ac')"
proof -
  from assms(1) obtain prepared ws where
    p: "prepare_edit (wp_env wp) (et_params et) (et_now et) (ac_ws ac) (edit_request.truncate request) = (Inr prepared, ws)"
    and r: "(case prepared of
        Preview stamp rebased diff checks files \<Rightarrow>
          (Inr (preview_json (et_params et) stamp rebased diff checks files), ac\<lparr>ac_ws := ws\<rparr>)
      | Applied planned records diff rebased checks \<Rightarrow>
          finish_edit wp et request planned records diff rebased checks (ac\<lparr>ac_ws := ws\<rparr>)) = (Inr v, ac')"
    by (auto simp: code_edit_def split: sum.splits prod.splits)
  have "\<forall>a b c d e. prepared \<noteq> Preview a b c d e"
    using p assms(2) by (auto simp: prepare_edit_def Let_def split: sum.splits prod.splits if_splits)
  with r obtain planned records diff rebased checks where "prepared = Applied planned records diff rebased checks"
    by (cases prepared) auto
  with p r that show thesis by simp
qed

lemma code_edit_preview:
  assumes "code_edit wp et request ac = (result, ac')" "er_preview request"
  shows "ws_disk (ac_ws ac') = ws_disk (ac_ws ac) \<and> ac_bash ac' = ac_bash ac
    \<and> (\<forall>v. result = Inr v \<longrightarrow> json_get v ''preview'' = Some (JBool True) \<and> json_get v ''applied'' = None)"
proof -
  obtain q ws where q: "prepare_edit (wp_env wp) (et_params et) (et_now et) (ac_ws ac) (edit_request.truncate request) = (q, ws)"
    by fastforce
  with prepare_preview_disk [OF q] assms show ?thesis
    by (auto simp: code_edit_def preview_fields split: sum.splits prepared_edit.splits if_splits)
qed

lemma preview_into_edit_preview: "preview_into_edit de contracts r = Inr request \<Longrightarrow> er_preview request"
  by (auto simp: preview_into_edit_def edit_batch_def map_sum_def split: sum.splits)

section \<open>Properties\<close>

text \<open>C26. A change list is refused at its first bad item, with the code that says what is wrong with
  it. Every item before it was accepted, and the code of the error is the fault of the item: an item
  that is no object is invalid, one without a \<open>kind\<close> misses a field, a kind no contract has is
  unsupported, then a field its kind does not allow is unknown, a field it requires and does not
  find is missing, and what is left is a value out of bounds or of the wrong form.\<close>

theorem batch_error_is_first_bad_change:
  assumes "edit_batch de contracts changes snapshot preview validate detail = Inl e"
  shows "\<exists>pre v post. changes = pre @ v # post \<and> change_parse de contracts v = Inl e
      \<and> (\<forall>u \<in> set pre. \<exists>c. change_parse de contracts u = Inr c)
      \<and> ae_code e = change_fault contracts v"
proof -
  from assms have "changes_parse de contracts changes = Inl e"
    by (cases "changes_parse de contracts changes") (simp_all add: edit_batch_def)
  from changes_parse_Inl [OF this] show ?thesis using change_parse_code by blast
qed

text \<open>C4. The report of an applied edit is true. A response to an edit that is no preview says
  \<open>applied\<close> exactly because the commit succeeded, with the records of that commit; it says
  \<open>passed\<close> only when every validation command was started, in order, and succeeded, and \<open>pending\<close>
  exactly when it names the run to poll.\<close>

theorem applied_edit_is_reported_truly:
  assumes "code_edit wp et request ac = (Inr v, ac')" "\<not> er_preview request"
  shows "json_get v ''applied'' = Some (JBool True)
    \<and> (\<exists>planned records diff rebased checks ws.
         prepare_edit (wp_env wp) (et_params et) (et_now et) (ac_ws ac) (edit_request.truncate request)
           = (Inr (Applied planned records diff rebased checks), ws)
         \<and> json_get v ''mutations'' = Some (JArr (map (mutation_json (et_show_time et)) records)))
    \<and> (json_get v ''validation_status'' = Some (JStr ''passed'') \<longrightarrow>
         (\<exists>items. json_get v ''validation'' = Some (JArr items) \<and> list_all2 passed_item (er_validate request) items))
    \<and> (json_get v ''validation_status'' = Some (JStr ''pending'') \<longleftrightarrow> json_get v ''validation_run_id'' \<noteq> None)"
proof -
  obtain planned records diff rebased checks ws where
    p: "prepare_edit (wp_env wp) (et_params et) (et_now et) (ac_ws ac) (edit_request.truncate request)
       = (Inr (Applied planned records diff rebased checks), ws)"
    and f: "finish_edit wp et request planned records diff rebased checks (ac\<lparr>ac_ws := ws\<rparr>) = (Inr v, ac')"
    by (rule code_edit_applied [OF assms])
  obtain outcome ac1 where o: "run_edit_validation app_error_json (et_runner et) (ac\<lparr>ac_ws := ws\<rparr>) (er_validate request)
      = (outcome, ac1)" by fastforce
  have passed: "\<not> vo_failed outcome \<Longrightarrow> vo_pending_run_id outcome = None \<Longrightarrow>
      list_all2 passed_item (er_validate request) (vo_validation outcome)"
    using validate_loop_passed [of app_error_json "et_runner et" "ac\<lparr>ac_ws := ws\<rparr>" "[]" "er_validate request" outcome] o
    by (simp add: run_edit_validation_def)
  from f o obtain view stamp where
    v: "v = (case vo_pending_run_id outcome of
        Some run_id \<Rightarrow> pending_response run_id (vo_deferred_run_id outcome) (vo_failed outcome)
          (applied_fields et rebased view checks (vo_validation outcome) stamp records)
      | None \<Rightarrow> settled_response (vo_failed outcome)
          (applied_fields et rebased view checks (vo_validation outcome) stamp records))"
    by (auto simp: finish_edit_def Let_def split: prod.splits sum.splits)
  show ?thesis
    by (cases "vo_pending_run_id outcome"; use v p passed in \<open>auto simp: response_fields applied_response_fields\<close>)
qed

section \<open>Concrete edits\<close>

definition sample_edit_tool :: "mem_dir edit_tool_env" where
  "sample_edit_tool = \<lparr>et_params = sample_params, et_line_diff = (\<lambda>_ _. []),
     et_runner = \<lparr>vr_start = (\<lambda>s c. (Inr (JObj [(''run_id'', JStr ''run_1''), (''status'', JStr ''succeeded'')]), s)),
       vr_queue = (\<lambda>s c. (Inr (JObj []), s)), vr_over_budget = (\<lambda>s. False)\<rparr>,
     et_show_time = (\<lambda>_. []), et_now = 5, et_now_after = 6, et_prepare_ms = 1, et_commit_ms = 1\<rparr>"

definition sample_edit_actor :: "mem_dir actor" where
  "sample_edit_actor = \<lparr>ac_ws = idle_ws \<lparr>mem_files = Map.empty, mem_faults = [], mem_uuids = 0\<rparr>,
     ac_bash = sample_supervisor, ac_last_reconcile = 0\<rparr>"

definition sample_typed_edit :: typed_edit where
  "sample_typed_edit = \<lparr>er_changes = [Create ''a'' ''x'' False None], er_snapshot_id = None, er_preview = False,
     er_validate = [''cargo check''], er_response_detail = DetailStandard\<rparr>"

lemma sample_code_edit:
  "\<exists>v ac'. code_edit sample_params_of sample_edit_tool sample_typed_edit sample_edit_actor = (Inr v, ac')
     \<and> json_get v ''validation_status'' = Some (JStr ''passed'')"
proof -
  obtain f records ws' where p: "prepare_edit (sample_env_of mem_ops) sample_params 5
       (idle_ws \<lparr>mem_files = Map.empty, mem_faults = [], mem_uuids = 0\<rparr>)
       \<lparr>er_changes = [Create ''a'' ''x'' False None], er_snapshot_id = None, er_preview = False\<rparr>
     = (Inr (Applied [f] records ''diff'' None [(''a'', ''skipped'')]), ws')"
    and n: "\<not> lg_needs_reconcile (ws_ledger ws')"
    using sample_edit_prepares by blast
  have t: "edit_request.truncate sample_typed_edit
      = \<lparr>er_changes = [Create ''a'' ''x'' False None], er_snapshot_id = None, er_preview = False\<rparr>"
    by (simp add: edit_request.truncate_def sample_typed_edit_def)
  have v: "er_validate sample_typed_edit = [''cargo check'']" by (simp add: sample_typed_edit_def)
  have l: "\<exists>l. launcher_of (ac_bash sample_edit_actor) = Inr l"
    by (simp add: launcher_of_def sample_edit_actor_def sample_supervisor_def supervisor_with_parts_def)
  have "wp_env sample_params_of = sample_env_of mem_ops" by (simp add: sample_params_of_def)
  with p l n v show ?thesis
    by (auto simp: code_edit_def t sample_edit_actor_def sample_edit_tool_def finish_edit_def run_edit_validation_def
        view_status_def json_get_def json_as_str_def reconcile_pending_async_def settled_response_def Let_def)
qed

theorem applied_edit_is_reported_truly_witness:
  "\<exists>v ac' items. code_edit sample_params_of sample_edit_tool sample_typed_edit sample_edit_actor = (Inr v, ac')
     \<and> json_get v ''applied'' = Some (JBool True)
     \<and> json_get v ''validation'' = Some (JArr items) \<and> list_all2 passed_item [''cargo check''] items"
proof -
  obtain v ac' where e: "code_edit sample_params_of sample_edit_tool sample_typed_edit sample_edit_actor = (Inr v, ac')"
    and s: "json_get v ''validation_status'' = Some (JStr ''passed'')" using sample_code_edit by blast
  have "\<not> er_preview sample_typed_edit" "er_validate sample_typed_edit = [''cargo check'']"
    by (simp_all add: sample_typed_edit_def)
  with applied_edit_is_reported_truly [OF e] s e show ?thesis by auto
qed

definition sample_contract :: contract where
  "sample_contract = contract_from_schema ''delete'' [(''properties'', JObj [(''kind'', JObj []), (''path'', JObj [])]),
     (''required'', JArr [JStr ''path''])]"

theorem batch_error_is_first_bad_change_witness:
  "\<exists>e. edit_batch (\<lambda>_. Inr (Delete ''a'' None)) [sample_contract]
       [JObj [(''kind'', JStr ''delete''), (''path'', JStr ''a'')], JObj [(''path'', JStr ''b'')], JNull] None True None DetailCompact = Inl e
     \<and> ae_code e = MissingChangeField"
proof -
  let ?a = "JObj [(''kind'', JStr ''delete''), (''path'', JStr ''a'')]" and ?b = "JObj [(''path'', JStr ''b'')]"
  let ?de = "\<lambda>_ :: json. Inr (Delete ''a'' None) :: (string \<times> string) + change"
  have k: "is_blank ''delete'' = False" "is_blank ''a'' = False" by (simp_all add: is_blank_def)
  have c: "co_name sample_contract = ''delete''" "set (co_allowed sample_contract) = {''kind'', ''path''}"
    "co_required sample_contract = [''path'']" "co_integers sample_contract = []" "co_min_lengths sample_contract = []"
    by (simp_all add: sample_contract_def contract_from_schema_def json_as_object_def json_as_array_def
        json_get_def json_as_str_def List.map_filter_def Let_def)
  have a: "change_parse ?de [sample_contract] ?a = Inr (Delete ''a'' None)"
    by (simp add: change_parse_def json_as_object_def json_get_def json_as_str_def k c contract_parse_def
        contract_check_def json_is_null_def change_validate_def Let_def)
  have b: "change_parse ?de [sample_contract] ?b = Inl change_requires_kind"
    by (simp add: change_parse_def json_as_object_def json_get_def)
  have e: "edit_batch ?de [sample_contract] [?a, ?b, JNull] None True None DetailCompact = Inl change_requires_kind"
    by (simp add: edit_batch_def a b)
  have f: "change_fault [sample_contract] ?b = MissingChangeField" "change_fault [sample_contract] ?a = InvalidChangeField"
    by (simp_all add: change_fault_def k c)
  from batch_error_is_first_bad_change [OF e] obtain pre v post where
    p: "[?a, ?b, JNull] = pre @ v # post" "change_parse ?de [sample_contract] v = Inl change_requires_kind"
      "ae_code change_requires_kind = change_fault [sample_contract] v"
      "\<forall>u \<in> set pre. \<exists>c. change_parse ?de [sample_contract] u = Inr c" by blast
  then have "pre \<noteq> []" using a by auto
  then obtain pre' where "pre = ?a # pre'" using p(1) by (cases pre) auto
  moreover have "pre' = []" using p(1,4) b calculation by (cases pre') auto
  ultimately have "v = ?b" using p(1) by simp
  with p(3) f e show ?thesis by auto
qed

end
