(* ===== verification/Lsp_Service.thy ===== *)
theory Lsp_Service
  imports Lsp_Worker Reference_Search Edit_Tool
begin

text \<open>
  \<open>code_intelligence\<close>: the typed request (\<open>src/requests/intelligence.rs\<close>,
  \<open>src/intelligence/request.rs\<close>), the backends and the choice among them
  (\<open>src/intelligence/backend.rs\<close>), the fallback answers (\<open>src/intelligence/fallback.rs\<close>) and the
  service (\<open>src/intelligence/service.rs\<close>). The state \<open>'b\<close> of the backends is theirs; what the
  session relies on of one is the locale \<open>semantic_backend\<close>, which the worker of
  \<open>Lsp_Worker\<close> provides. A reference answer keeps its typed form; its serialization is derived.
\<close>

section \<open>Requests\<close>

definition intelligence_default_max_results :: nat where "intelligence_default_max_results = 20"

definition intelligence_max_results :: nat where "intelligence_max_results = 200"

datatype intelligence_operation_name = NameDefinition | NameReferences | NameDiagnostics | NameRenamePreview

record code_intelligence_request =
  cir_operation :: intelligence_operation_name
  cir_path :: "string option"
  cir_line :: "nat option"
  cir_column :: "nat option"
  cir_new_name :: "string option"
  cir_max_results :: nat

datatype intelligence_operation =
    IntDefinition lsp_cursor
  | IntReferences lsp_cursor nat
  | IntDiagnostics nat
  | IntRenamePreview lsp_cursor string

record intelligence_request =
  ir_path :: rel_path
  ir_operation :: intelligence_operation

definition request_cursor :: "code_intelligence_request \<Rightarrow> app_error + lsp_cursor" where
  "request_cursor r =
     (case cir_line r of
        None \<Rightarrow> Inl (error_invalid ''This code_intelligence operation requires line'')
      | Some line \<Rightarrow> Inr \<lparr>cu_line = line, cu_column = (case cir_column r of None \<Rightarrow> 0 | Some c \<Rightarrow> c)\<rparr>)"

definition intelligence_request_of :: "code_intelligence_request \<Rightarrow> app_error + intelligence_request" where
  "intelligence_request_of r =
     (case cir_path r of
        None \<Rightarrow> Inl (error_invalid ''code_intelligence requires path'')
      | Some path0 \<Rightarrow>
          (case rel_path_new path0 of
             Inl e \<Rightarrow> Inl e
           | Inr path \<Rightarrow>
               map_sum id (\<lambda>operation. \<lparr>ir_path = path, ir_operation = operation\<rparr>)
                 (case cir_operation r of
                    NameDefinition \<Rightarrow> map_sum id IntDefinition (request_cursor r)
                  | NameReferences \<Rightarrow> map_sum id (\<lambda>p. IntReferences p (cir_max_results r)) (request_cursor r)
                  | NameDiagnostics \<Rightarrow> Inr (IntDiagnostics (cir_max_results r))
                  | NameRenamePreview \<Rightarrow>
                      (case request_cursor r of
                         Inl e \<Rightarrow> Inl e
                       | Inr p \<Rightarrow>
                           (case cir_new_name r of
                              None \<Rightarrow> Inl (error_invalid ''rename_preview requires new_name'')
                            | Some name \<Rightarrow> Inr (IntRenamePreview p name))))))"

section \<open>Backends\<close>

definition backend_for_path :: "'b backend list \<Rightarrow> string \<Rightarrow> 'b backend option" where
  "backend_for_path bks relative =
     (case preset_for_path relative of
        None \<Rightarrow> None
      | Some preset \<Rightarrow> find (\<lambda>bk. bk_preset bk = preset \<and> bk_configured bk) bks)"

record backend_capabilities =
  bcp_languages :: "json list"
  bcp_restart_state :: "(string \<times> json) list"
  bcp_semantic_available :: bool

definition backends_capabilities :: "'b backend list \<Rightarrow> 'b \<Rightarrow> backend_capabilities" where
  "backends_capabilities bks b =
     \<lparr>bcp_languages = map (\<lambda>bk. bk_status bk b) bks,
      bcp_restart_state = foldl (\<lambda>m bk. obj_insert (preset_key (bk_preset bk)) (bk_status bk b) m) [] bks,
      bcp_semantic_available = list_ex bk_configured bks\<rparr>"

definition service_capabilities :: "'b backend list \<Rightarrow> 'b \<Rightarrow> json" where
  "service_capabilities bks b =
     (let c = backends_capabilities bks b
      in JObj
       [(''supported_operations'', JArr [JStr ''definition'', JStr ''references'', JStr ''diagnostics'', JStr ''rename_preview'']),
        (''languages'', JArr (bcp_languages c)), (''restart_state'', JObj (bcp_restart_state c)),
        (''semantic_available'', JBool (bcp_semantic_available c)),
        (''fallback_status'', JStr ''operation_specific''), (''reference_backend'', JStr ''shared_reference_service''),
        (''worker_model'', JStr ''one_thread_per_configured_backend''),
        (''document_sync'', JStr ''full_text_hash_versioned''),
        (''public_position_contract'', JObj
          [(''line'', JStr ''one_based''), (''column'', JStr ''zero_based_utf16_code_units'')])])"

section \<open>Fallback answers\<close>

record 'd service_env =
  iv_session :: "'d session_env"
  iv_symbols :: symbol_env
  iv_search :: search_env
  iv_workspace_id :: string
  iv_snapshots :: "nat \<Rightarrow> string"

definition live_index_at :: "'d service_env \<Rightarrow> nat \<Rightarrow> code_index" where
  "live_index_at env t = lw_index (sn_history (iv_session env) t)"

definition insert_reason :: "json \<Rightarrow> fallback_reason option \<Rightarrow> bool \<Rightarrow> json" where
  "insert_reason response reason with_backend =
     (case reason of
        None \<Rightarrow> response
      | Some r \<Rightarrow>
          let response1 = json_set ''fallback_reason'' (app_error_json (fbr_error r)) response
          in if with_backend then json_set ''semantic_backend'' (fbr_backend_status r) response1 else response1)"

definition fallback_definition ::
    "'d service_env \<Rightarrow> session \<Rightarrow> nat \<Rightarrow> fallback_reason option \<Rightarrow> json" where
  "fallback_definition env x line reason =
     (let symbol = find (\<lambda>s. sy_start_line s \<le> line \<and> line \<le> sy_end_line s)
                     (extract_symbols (iv_symbols env) (sx_relative x) (sx_content x))
      in insert_reason
           (JObj [(''operation'', JStr ''definition''), (''backend'', JStr ''fallback''), (''evidence'', JStr ''syntactic''),
             (''result'', JObj [(''evidence'', JStr ''syntactic''),
               (''result'', case symbol of None \<Rightarrow> JNull
                  | Some s \<Rightarrow> JObj [(''path'', JStr (sx_relative x)), (''symbol'', symbol_json s)])])])
           reason False)"

record limited_diagnostics =
  ld_items :: "json list"
  ld_total_count :: nat

definition limited_diagnostics_new :: "json list \<Rightarrow> nat \<Rightarrow> limited_diagnostics" where
  "limited_diagnostics_new items max_results =
     \<lparr>ld_items = take max_results items, ld_total_count = length items\<rparr>"

definition limited_truncated :: "limited_diagnostics \<Rightarrow> bool" where
  "limited_truncated l \<longleftrightarrow> length (ld_items l) < ld_total_count l"

definition fallback_diagnostics ::
    "'d service_env \<Rightarrow> session \<Rightarrow> nat \<Rightarrow> fallback_reason option \<Rightarrow> json" where
  "fallback_diagnostics env x max_results reason =
     (let syntax_error = (parse_has_error (iv_symbols env) (sx_relative x) (sx_content x) = Some True);
          limited = limited_diagnostics_new
            (if syntax_error
             then [JObj [(''severity'', JStr ''error''), (''message'', JStr ''Tree-sitter reported a syntax error'')]]
             else []) max_results;
          semantic_available = (reason = None)
      in insert_reason
           (JObj [(''operation'', JStr ''diagnostics''), (''backend'', JStr ''fallback''), (''evidence'', JStr ''syntactic''),
             (''status'', JStr (if semantic_available then ''available'' else ''partial'')),
             (''diagnostics_available'', JBool semantic_available),
             (''semantic_diagnostics_available'', JBool False), (''diagnostic_scope'', JStr ''syntax_only''),
             (''total_count'', JNum (int (ld_total_count limited))),
             (''result_count'', JNum (int (length (ld_items limited)))),
             (''truncated'', JBool (limited_truncated limited)),
             (''result'', JObj [(''evidence'', JStr ''syntactic''), (''diagnostics'', JArr (ld_items limited))])])
           reason True)"

text \<open>The snapshot at \<open>t\<close>, then the index.\<close>

definition fallback_references ::
    "'d service_env \<Rightarrow> nat \<Rightarrow> session \<Rightarrow> nat \<Rightarrow> nat \<Rightarrow> app_error + reference_response" where
  "fallback_references env t x line max_results =
     fallback_at_position (iv_symbols env) (iv_search env) (live_index_at env (t + 1)) (iv_workspace_id env)
       (iv_snapshots env t) (sx_relative x) line max_results"

section \<open>The service\<close>

definition reference_caveat :: string where
  "reference_caveat = ''Language-server locations were produced from a full-text synchronized document hash ''
     @ ''that still matches disk and the live index.''"

datatype intelligence_response =
    Report json
  | SemanticReferences reference_response json
  | FallbackReferences reference_response "fallback_reason option"
  | RenamePreview json "rename_change list"

definition synchronization :: "worker_response \<Rightarrow> json" where
  "synchronization response = JObj
     [(''freshness'', JStr ''current''), (''synchronized_hash'', JStr (sd_hash (wr_synchronized response))),
      (''document_version'', JNum (sd_version (wr_synchronized response))),
      (''server'', capabilities_json (wr_capabilities response))]"

definition semantic_fields :: "string \<Rightarrow> (string \<times> json) list" where
  "semantic_fields operation =
     [(''operation'', JStr operation), (''backend'', JStr ''semantic''), (''semantic'', JBool True),
      (''evidence'', JStr ''semantic'')]"

definition execute_definition ::
    "'d service_env \<Rightarrow> 'b backend option \<Rightarrow> session \<Rightarrow> lsp_cursor \<Rightarrow> 'b \<Rightarrow> nat \<Rightarrow> intelligence_response \<times> 'b" where
  "execute_definition env bk x p b t =
     (case session_attempt (iv_session env) bk x (WorkDefinition p)
             (\<lambda>r. normalize_locations (iv_session env) (cap_encoding (wr_capabilities r)) (wr_result r)) b t of
        (SemanticAnswer v response, b', _) \<Rightarrow>
          (Report (JObj (semantic_fields ''definition''
             @ [(''results'', JArr v), (''synchronization'', synchronization response)])), b')
      | (FallbackAnswer reason, b', _) \<Rightarrow> (Report (fallback_definition env x (cu_line p) reason), b'))"

definition interpret_diagnostics :: "nat \<Rightarrow> worker_response \<Rightarrow> limited_diagnostics rf" where
  "interpret_diagnostics max_results r =
     (case json_as_array (wr_result r) of
        None \<Rightarrow> rf_lift (Inl (error_new LspProtocolError ''Diagnostic result is not an array''))
      | Some items \<Rightarrow> rf_return (limited_diagnostics_new items max_results))"

definition execute_diagnostics ::
    "'d service_env \<Rightarrow> 'b backend option \<Rightarrow> session \<Rightarrow> nat \<Rightarrow> 'b \<Rightarrow> nat \<Rightarrow> intelligence_response \<times> 'b" where
  "execute_diagnostics env bk x max_results b t =
     (case session_attempt (iv_session env) bk x WorkDiagnostics (interpret_diagnostics max_results) b t of
        (SemanticAnswer v response, b', _) \<Rightarrow>
          (Report (JObj (semantic_fields ''diagnostics''
             @ [(''status'', JStr ''available''), (''diagnostics_available'', JBool True),
                (''semantic_diagnostics_available'', JBool True),
                (''total_count'', JNum (int (ld_total_count v))),
                (''result_count'', JNum (int (length (ld_items v)))),
                (''truncated'', JBool (limited_truncated v)), (''diagnostics'', JArr (ld_items v)),
                (''synchronization'', synchronization response)])), b')
      | (FallbackAnswer reason, b', _) \<Rightarrow> (Report (fallback_diagnostics env x max_results reason), b'))"

text \<open>The locations, then the declaration the index has at the position.\<close>

definition interpret_references ::
    "'d service_env \<Rightarrow> session \<Rightarrow> nat \<Rightarrow> worker_response
     \<Rightarrow> (reference_target_selection \<times> semantic_reference_location list) rf" where
  "interpret_references env x line r =
     rf_bind (normalize_reference_locations (iv_session env) (cap_encoding (wr_capabilities r)) (wr_result r))
       (\<lambda>locations s.
          case resolve_position (iv_symbols env) (live_index_at env (rs_time s)) (sx_relative x) line of
            Inl e \<Rightarrow> (Inl e, s\<lparr>rs_time := rs_time s + 1\<rparr>)
          | Inr target \<Rightarrow> (Inr (target, locations), s\<lparr>rs_time := rs_time s + 1\<rparr>))"

definition execute_references ::
    "'d service_env \<Rightarrow> 'b backend option \<Rightarrow> session \<Rightarrow> lsp_cursor \<Rightarrow> nat \<Rightarrow> 'b \<Rightarrow> nat
     \<Rightarrow> (app_error + intelligence_response) \<times> 'b" where
  "execute_references env bk x p max_results b t =
     (case session_attempt (iv_session env) bk x (WorkReferences p) (interpret_references env x (cu_line p)) b t of
        (SemanticAnswer (target, locations) response, b', t') \<Rightarrow>
          (Inr (SemanticReferences
             (semantic (iv_search env) (live_index_at env (t' + 1)) (iv_workspace_id env) (iv_snapshots env t')
                target locations max_results \<lparr>md_freshness = Current, md_evidence_caveat = reference_caveat\<rparr>)
             (synchronization response)), b')
      | (FallbackAnswer reason, b', t') \<Rightarrow>
          (map_sum id (\<lambda>r. FallbackReferences r reason) (fallback_references env t' x (cu_line p) max_results), b'))"

definition execute_rename ::
    "'d service_env \<Rightarrow> 'b backend option \<Rightarrow> session \<Rightarrow> lsp_cursor \<Rightarrow> string \<Rightarrow> 'b \<Rightarrow> nat
     \<Rightarrow> (app_error + intelligence_response) \<times> 'b" where
  "execute_rename env bk x p new_name b t =
     (case session_attempt (iv_session env) bk x (WorkRename p new_name)
             (\<lambda>r. workspace_edit_changes (iv_session env) (cap_encoding (wr_capabilities r)) (wr_result r)) b t of
        (SemanticAnswer v response, b', _) \<Rightarrow>
          (Inr (RenamePreview (JObj (semantic_fields ''rename_preview''
             @ [(''changes'', JArr (map rename_change_json v)), (''synchronization'', synchronization response)])) v), b')
      | (FallbackAnswer (Some reason), b', _) \<Rightarrow> (Inl (fbr_error reason), b')
      | (FallbackAnswer None, b', _) \<Rightarrow>
          (Inl (error_new SemanticBackendUnavailable ''No enabled LSP backend supports this file''), b'))"

definition service_execute ::
    "'d service_env \<Rightarrow> 'b backend list \<Rightarrow> intelligence_request \<Rightarrow> 'b \<Rightarrow> nat
     \<Rightarrow> (app_error + intelligence_response) \<times> 'b" where
  "service_execute env bks r b t =
     (case session_open (iv_session env) t (ir_path r) of
        Inl e \<Rightarrow> (Inl e, b)
      | Inr x \<Rightarrow>
          let bk = backend_for_path bks (ir_path r); t' = t + 2 in
          case ir_operation r of
            IntDefinition p \<Rightarrow> (case execute_definition env bk x p b t' of (v, b') \<Rightarrow> (Inr v, b'))
          | IntDiagnostics n \<Rightarrow> (case execute_diagnostics env bk x n b t' of (v, b') \<Rightarrow> (Inr v, b'))
          | IntReferences p n \<Rightarrow> execute_references env bk x p n b t'
          | IntRenamePreview p name \<Rightarrow> execute_rename env bk x p name b t')"

text \<open>The preview of a rename, for the edit engine.\<close>

definition rename_edit_request :: "rename_change list \<Rightarrow> string option \<Rightarrow> typed_edit" where
  "rename_edit_request changes snapshot_id =
     \<lparr>er_changes = map to_change changes, er_snapshot_id = snapshot_id, er_preview = True, er_validate = [],
      er_response_detail = DetailStandard\<rparr>"

section \<open>What a session relies on\<close>

locale semantic_backend =
  fixes execute :: "worker_operation \<Rightarrow> document_snapshot \<Rightarrow> 'b \<Rightarrow> nat \<Rightarrow> (app_error + worker_response) \<times> 'b \<times> nat"
    and ok :: "'b \<Rightarrow> bool"
    and sha :: sha256
  assumes execute_keeps: "execute operation document b t = (r, b', t') \<Longrightarrow> ok b \<Longrightarrow>
      dsn_hash document = content_hash sha (dsn_content document) \<Longrightarrow> ok b'"
    and execute_answers: "execute operation document b t = (Inr v, b', t') \<Longrightarrow> ok b \<Longrightarrow>
      dsn_hash document = content_hash sha (dsn_content document) \<Longrightarrow>
      sd_hash (wr_synchronized v) = dsn_hash document"
begin

text \<open>A backend's answer is dropped as stale only because the disk or the index moved.\<close>

lemma unchanged_is_verified:
  assumes "execute operation document b t = (Inr v, b', t1)" "ok b"
    and "document = document_snapshot_new sha uri language_id (sx_content x)"
    and "sn_sha env = sha" "sx_hash x = content_hash sha (sx_content x)"
    and "read_text env t1 (sx_relative x) (length (sx_content x) + 1) = Inr (Some (sx_content x))"
    and "live_hash env (t1 + 1) (sx_relative x) = Some (sx_hash x)"
  shows "verify_after_request env t1 x (sd_hash (wr_synchronized v)) = Inr ()"
proof -
  have "sd_hash (wr_synchronized v) = sx_hash x"
    using execute_answers [OF assms(1,2)] assms(3,5) by (simp add: document_snapshot_new_def)
  with assms(4-7) show ?thesis by (simp add: verify_after_request_def)
qed

end

text \<open>What one request meets at the worker, and the moment it returns.\<close>

record worker_moment =
  wm_submission :: "unit submission"
  wm_stopping :: bool
  wm_expired :: bool
  wm_may_retry :: bool
  wm_elapsed_ms :: nat
  wm_return :: nat

definition worker_execute ::
    "lsp_worker \<Rightarrow> (nat \<Rightarrow> worker_moment) \<Rightarrow> worker_operation \<Rightarrow> document_snapshot \<Rightarrow> worker \<Rightarrow> nat
     \<Rightarrow> (app_error + worker_response) \<times> worker \<times> nat" where
  "worker_execute w moments operation document wk t =
     (let m = moments t;
          (r, wk1) = run_command \<lparr>cm_operation = operation, cm_document = document, cm_stopping = wm_stopping m,
             cm_expired = wm_expired m, cm_may_retry = wm_may_retry m, cm_elapsed_ms = wm_elapsed_ms m\<rparr> wk;
          accepted = (lw_running w \<and> (case wm_submission m of submission.Queued _ \<Rightarrow> True | _ \<Rightarrow> False))
      in (map_sum to_app_error id (worker_submit w (map_submission (\<lambda>_. r) (wm_submission m))),
          if accepted then wk1 else wk, wm_return m))"

definition lsp_backend :: "lsp_worker \<Rightarrow> (nat \<Rightarrow> worker_moment) \<Rightarrow> worker backend" where
  "lsp_backend w moments =
     \<lparr>bk_preset = lw_preset w, bk_configured = lw_running w,
      bk_status = (\<lambda>wk. worker_status_json (w\<lparr>lw_status := wk_status wk\<rparr>)),
      bk_execute = worker_execute w moments\<rparr>"

lemma worker_submit_result:
  "map_sum to_app_error id (worker_submit w (map_submission (\<lambda>_. r) s)) = Inr v \<Longrightarrow> r = Inr v"
proof (cases s)
  case (Queued a)
  then show "map_sum to_app_error id (worker_submit w (map_submission (\<lambda>_. r) s)) = Inr v \<Longrightarrow> r = Inr v"
    by (cases a; cases r; simp add: worker_submit_def Let_def split: if_splits)
qed (auto simp: worker_submit_def Let_def split: if_splits)

interpretation lsp: semantic_backend "worker_execute w moments" "worker_ok sha" sha
  for w moments sha
proof unfold_locales
  fix operation document b t r b' t'
  let ?c = "\<lparr>cm_operation = operation, cm_document = document, cm_stopping = wm_stopping (moments t),
     cm_expired = wm_expired (moments t), cm_may_retry = wm_may_retry (moments t),
     cm_elapsed_ms = wm_elapsed_ms (moments t)\<rparr>"
  assume e: "worker_execute w moments operation document b t = (r, b', t')" "worker_ok sha b"
    "dsn_hash document = content_hash sha (dsn_content document)"
  obtain g wk1 where g: "run_command ?c b = (g, wk1)" by fastforce
  from run_command_ok [OF g e(2)] e(3) have "worker_ok sha wk1" by simp
  with e g show "worker_ok sha b'" by (auto simp: worker_execute_def Let_def)
next
  fix operation document b t v b' t'
  let ?c = "\<lparr>cm_operation = operation, cm_document = document, cm_stopping = wm_stopping (moments t),
     cm_expired = wm_expired (moments t), cm_may_retry = wm_may_retry (moments t),
     cm_elapsed_ms = wm_elapsed_ms (moments t)\<rparr>"
  assume e: "worker_execute w moments operation document b t = (Inr v, b', t')" "worker_ok sha b"
    "dsn_hash document = content_hash sha (dsn_content document)"
  obtain g wk1 where g: "run_command ?c b = (g, wk1)" by fastforce
  with e(1) have "map_sum to_app_error id (worker_submit w (map_submission (\<lambda>_. g) (wm_submission (moments t)))) = Inr v"
    by (simp add: worker_execute_def Let_def)
  then have "g = Inr v" by (rule worker_submit_result)
  with run_command_ok [OF g e(2)] e(3) show "sd_hash (wr_synchronized v) = dsn_hash document"
    by (simp add: answers_def)
qed

section \<open>An unchanged target is answered\<close>

lemma run_worker_context:
  "run_worker cs (worker_new ctx spawns) = (rs, wk) \<Longrightarrow>
   \<forall>c \<in> set cs. dsn_hash (cm_document c) = content_hash sha (dsn_content (cm_document c)) \<Longrightarrow> worker_ok sha wk"
  using run_worker_ok [OF _ worker_new_ok] by blast

text \<open>C40. A semantic answer is not thrown away for nothing. When the worker, after any earlier
  requests, answers, and at that moment the disk still has the text the session was opened with
  and the index its hash, the attempt is the semantic answer exactly when its result can be
  interpreted. When it cannot (a file of the result is stale, a URI lies outside the root), the attempt
  is the fallback with the error of the interpretation and the status of the worker.\<close>

theorem unchanged_target_is_answered:
  assumes "run_worker cs (worker_new ctx spawns) = (rs, b)"
    and "\<forall>c \<in> set cs. dsn_hash (cm_document c) = content_hash (sn_sha env) (dsn_content (cm_document c))"
    and "worker_execute w moments operation
           (document_snapshot_new (sn_sha env) (document_uri (sn_codec env) (sx_relative x))
              (preset_language_id (lw_preset w)) (sx_content x)) b t = (Inr response, b', t1)"
    and "sx_hash x = content_hash (sn_sha env) (sx_content x)"
    and "read_text env t1 (sx_relative x) (length (sx_content x) + 1) = Inr (Some (sx_content x))"
    and "live_hash env (t1 + 1) (sx_relative x) = Some (sx_hash x)"
  shows "session_attempt env (Some (lsp_backend w moments)) x operation interpret b t
           = (case interpret response \<lparr>rs_cache = Map.empty, rs_time = t1 + 2\<rparr> of
                (Inr v, s) \<Rightarrow> (SemanticAnswer v response, b', rs_time s)
              | (Inl e, s) \<Rightarrow>
                  (FallbackAnswer (Some \<lparr>fbr_error = e, fbr_backend_status = worker_status_json (w\<lparr>lw_status := wk_status b'\<rparr>)\<rparr>),
                   b', rs_time s))"
proof -
  from assms(1,2) have "worker_ok (sn_sha env) b" by (rule run_worker_context)
  from lsp.unchanged_is_verified [OF assms(3) this refl refl assms(4-6)] assms(3) show ?thesis
    by (simp add: session_attempt_def session_semantic_def lsp_backend_def Let_def split: prod.split sum.split)
qed

section \<open>A concrete service\<close>

definition sample_worker :: lsp_worker where
  "sample_worker = \<lparr>lw_preset = RustPreset, lw_command = ''ra'', lw_args = [], lw_timeout_ms = 5, lw_running = True, lw_status = worker_status_new ReadyLazy\<rparr>"

definition sample_moment :: "nat \<Rightarrow> worker_moment" where
  "sample_moment t = \<lparr>wm_submission = submission.Queued (ReplyResult ()), wm_stopping = False, wm_expired = False,
     wm_may_retry = True, wm_elapsed_ms = 3, wm_return = 9\<rparr>"

theorem unchanged_target_is_answered_witness:
  "\<exists>response b' s. session_attempt sample_session_env (Some (lsp_backend sample_worker sample_moment)) sample_session
       WorkDiagnostics (interpret_diagnostics 4) (worker_new sample_context sample_spawns) 5
     = (SemanticAnswer (limited_diagnostics_new [] 4) response, b', s)"
proof -
  let ?u = "document_uri (sn_codec sample_session_env) ''a''"
  have sha: "sn_sha sample_session_env = sample_sha" by (simp add: sample_session_env_def)
  have new: "run_worker [] (worker_new sample_context sample_spawns) = ([], worker_new sample_context sample_spawns)" by simp
  obtain v wk where r: "run_command (sample_command ?u) (worker_new sample_context sample_spawns) = (Inr v, wk)"
    and v: "wr_result v = JArr []" using sample_run by blast
  have c: "sample_command ?u = \<lparr>cm_operation = WorkDiagnostics,
      cm_document = document_snapshot_new sample_sha ?u ''rust'' ''x'', cm_stopping = False, cm_expired = False,
      cm_may_retry = True, cm_elapsed_ms = 3\<rparr>" by (simp add: sample_command_def)
  have e: "worker_execute sample_worker sample_moment WorkDiagnostics
      (document_snapshot_new sample_sha ?u ''rust'' ''x'') (worker_new sample_context sample_spawns) 5 = (Inr v, wk, 9)"
    using r unfolding c by (simp add: worker_execute_def Let_def sample_worker_def sample_moment_def worker_submit_def)
  have i: "interpret_diagnostics 4 v \<lparr>rs_cache = Map.empty, rs_time = 9 + 2\<rparr>
      = (Inr (limited_diagnostics_new [] 4), \<lparr>rs_cache = Map.empty, rs_time = 9 + 2\<rparr>)"
    by (simp add: interpret_diagnostics_def v json_as_array_def rf_return_def)
  have x: "sx_relative sample_session = ''a''" "sx_content sample_session = ''x''"
    "sx_hash sample_session = content_hash sample_sha ''x''" by (simp_all add: sample_session_def)
  have p: "preset_language_id (lw_preset sample_worker) = ''rust''" by (simp add: sample_worker_def)
  from unchanged_target_is_answered [of "[]" sample_context sample_spawns "[]" _ sample_session_env
      sample_worker sample_moment WorkDiagnostics sample_session 5 v wk 9 "interpret_diagnostics 4",
      OF new]
  show ?thesis using e i by (simp add: sha x p sample_read_text sample_live)
qed

end
