(* ===== verification/Git_Tool.thy ===== *)
theory Git_Tool
  imports Git_Repository Workspace_Report Edit_Commit
begin

text \<open>
  The Git tools of a workspace: their requests and actions (\<open>src/requests/git.rs\<close>), the backend
  interface (\<open>src/repository/mod.rs\<close>), and the actions themselves with the paging of diffs
  (\<open>src/workspace/git.rs\<close>). The text of a continuation payload (base64 of JSON) is a parameter; a
  backend operation that changes files returns the changed disk.
\<close>

section \<open>Requests\<close>

record git_diff_request =
  dq_paths :: "string list option"
  dq_staged :: "bool option"
  dq_max_chars :: "nat option"
  dq_start_line :: "nat option"
  dq_end_line :: "nat option"
  dq_symbol :: "string option"
  dq_hunk_ids :: "string list option"
  dq_continuation :: "string option"

definition has_scope :: "git_diff_request \<Rightarrow> bool" where
  "has_scope q \<longleftrightarrow> dq_paths q \<noteq> None \<or> dq_staged q \<noteq> None \<or> dq_symbol q \<noteq> None
     \<or> dq_start_line q \<noteq> None \<or> dq_end_line q \<noteq> None \<or> dq_hunk_ids q \<noteq> None"

definition default_log_limit :: nat where "default_log_limit = 20"
definition default_ref :: string where "default_ref = ''HEAD''"

record git_show_request =
  gsq_reference :: string
  gsq_max_chars :: "nat option"

record git_blame_request =
  gbq_paths :: "string list"
  gbq_start_line :: "nat option"
  gbq_end_line :: "nat option"
  gbq_max_chars :: "nat option"

record git_restore_request =
  grq_paths :: "string list"
  grq_staged :: bool
  grq_confirm :: bool

record git_push_request =
  gpq_remote :: "string option"
  gpq_branch :: "string option"
  gpq_confirm :: bool

datatype git_action =
    GitStatus
  | GitDiff git_diff_request
  | GitLog nat
  | GitShow git_show_request
  | GitBlame git_blame_request
  | GitPreflight
  | GitStage "string list"
  | GitCommit string
  | GitRestore git_restore_request
  | GitPush git_push_request

fun git_action_name :: "git_action \<Rightarrow> string" where
  "git_action_name GitStatus = ''status''"
| "git_action_name (GitDiff _) = ''diff''"
| "git_action_name (GitLog _) = ''log''"
| "git_action_name (GitShow _) = ''show''"
| "git_action_name (GitBlame _) = ''blame''"
| "git_action_name GitPreflight = ''preflight''"
| "git_action_name (GitStage _) = ''stage''"
| "git_action_name (GitCommit _) = ''commit''"
| "git_action_name (GitRestore _) = ''restore''"
| "git_action_name (GitPush _) = ''push''"

fun is_mutating :: "git_action \<Rightarrow> bool" where
  "is_mutating (GitStage _) = True"
| "is_mutating (GitCommit _) = True"
| "is_mutating (GitRestore _) = True"
| "is_mutating _ = False"

section \<open>The backend\<close>

text \<open>The operations of \<open>RepositoryBackend\<close>; the status is the one of the workspace.\<close>

record 'd repository_backend =
  rb_diff :: "'d \<Rightarrow> bool \<Rightarrow> rel_path list \<Rightarrow> nat \<Rightarrow> app_error + diff"
  rb_log :: "'d \<Rightarrow> nat \<Rightarrow> app_error + string"
  rb_show :: "'d \<Rightarrow> string \<Rightarrow> nat \<Rightarrow> app_error + string"
  rb_blame :: "'d \<Rightarrow> rel_path \<Rightarrow> nat option \<Rightarrow> nat option \<Rightarrow> nat \<Rightarrow> app_error + string"
  rb_stage :: "'d \<Rightarrow> rel_path list \<Rightarrow> (app_error + string) \<times> 'd"
  rb_commit :: "'d \<Rightarrow> string \<Rightarrow> (app_error + string) \<times> 'd"
  rb_restore :: "'d \<Rightarrow> rel_path list \<Rightarrow> bool \<Rightarrow> (app_error + string) \<times> 'd"
  rb_push :: "'d \<Rightarrow> string \<Rightarrow> string \<Rightarrow> (app_error + string) \<times> 'd"

text \<open>The backend over the git command line: what a run answers on a disk, and its effect.\<close>

definition cli_backend ::
    "('d \<Rightarrow> git_exec) \<Rightarrow> ('d \<Rightarrow> string list \<Rightarrow> 'd) \<Rightarrow> sha256 \<Rightarrow> 'd dir_ops \<Rightarrow> 'd repository_backend" where
  "cli_backend git eff sha ops =
     \<lparr>rb_diff = (\<lambda>d staged paths n. git_diff (git d) sha ops d staged paths n),
      rb_log = (\<lambda>d limit. git_log (git d) limit),
      rb_show = (\<lambda>d reference n. git_show (git d) reference n),
      rb_blame = (\<lambda>d path a b n. git_blame (git d) path a b n),
      rb_stage = (\<lambda>d paths. (git_stage (git d) paths,
         if paths = [] then d else eff d ([''add'', ''--''] @ paths))),
      rb_commit = (\<lambda>d message. (git_commit (git d) message,
         if trim message = [] then d else eff d [''commit'', ''-m'', message])),
      rb_restore = (\<lambda>d paths staged. (git_restore (git d) paths staged,
         if paths = [] then d
         else eff d ([''restore''] @ (if staged then [''--staged''] else []) @ [''--''] @ paths))),
      rb_push = (\<lambda>d remote branch. (git_push (git d) remote branch, eff d (push_args remote branch)))\<rparr>"

section \<open>Paging a diff\<close>

record git_diff_scope =
  gs_staged :: bool
  gs_paths :: "string list"
  gs_symbol :: "string option"
  gs_start_line :: "nat option"
  gs_end_line :: "nat option"
  gs_hunk_ids :: "string list"

definition scope_from_request :: "git_diff_request \<Rightarrow> git_diff_scope" where
  "scope_from_request q =
     \<lparr>gs_staged = (case dq_staged q of None \<Rightarrow> False | Some b \<Rightarrow> b),
      gs_paths = (case dq_paths q of None \<Rightarrow> [] | Some ps \<Rightarrow> ps),
      gs_symbol = dq_symbol q, gs_start_line = dq_start_line q, gs_end_line = dq_end_line q,
      gs_hunk_ids = (case dq_hunk_ids q of None \<Rightarrow> [] | Some hs \<Rightarrow> hs)\<rparr>"

record git_diff_continuation =
  gc_snapshot_id :: string
  gc_offset :: nat
  gc_scope :: git_diff_scope

record continuation_codec =
  cc_encode :: "git_diff_continuation \<Rightarrow> app_error + string"
  cc_decode :: "string \<Rightarrow> git_diff_continuation option"

definition encode_git_diff_continuation ::
    "continuation_codec \<Rightarrow> git_diff_continuation \<Rightarrow> app_error + string" where
  "encode_git_diff_continuation cc v =
     (case cc_encode cc v of Inl e \<Rightarrow> Inl e | Inr payload \<Rightarrow> Inr (''git-diff:'' @ payload))"

definition decode_git_diff_continuation ::
    "continuation_codec \<Rightarrow> string \<Rightarrow> app_error + git_diff_continuation" where
  "decode_git_diff_continuation cc v =
     (case Option.bind (strip_prefix ''git-diff:'' v) (cc_decode cc) of
        None \<Rightarrow> Inl (error_invalid ''Invalid git diff continuation'')
      | Some c \<Rightarrow> Inr c)"

definition validate_paths :: "string list \<Rightarrow> app_error + rel_path list" where
  "validate_paths paths = fold_res (\<lambda>acc p. case rel_path_new p of Inl e \<Rightarrow> Inl e | Inr q \<Rightarrow> Inr (acc @ [q])) [] paths"

section \<open>The push target\<close>

definition is_control :: "uchar \<Rightarrow> bool" where
  "is_control c \<longleftrightarrow> c < 32 \<or> 127 \<le> c \<and> c < 160"

definition is_white :: "uchar \<Rightarrow> bool" where
  "is_white c \<longleftrightarrow> encode_char c \<in> set white_encodings"

definition invalid_ref_chars :: string where
  "invalid_ref_chars = ''~^:'' @ [CHR 0x3F] @ ''*['' @ [CHR 0x5C]"

definition validated_push_target ::
    "git_push_request \<Rightarrow> string \<Rightarrow> app_error + string \<times> string" where
  "validated_push_target q current_branch =
     (let remote = (case gpq_remote q of None \<Rightarrow> ''origin'' | Some r \<Rightarrow> r)
      in if remote = [] \<or> trim remote \<noteq> remote \<or> starts_with remote ''-'' \<or> starts_with remote ''+''
            \<or> CHR '':'' \<in> set remote
         then Inl (error_invalid ''git push remote must be a non-empty remote name, not an option or URL'')
         else let branch = (case gpq_branch q of None \<Rightarrow> current_branch | Some b \<Rightarrow> b);
                  invalid_ref_character = list_ex (\<lambda>c. is_control c \<or> is_white c) (str_chars branch)
                    \<or> list_ex (\<lambda>c. c \<in> set invalid_ref_chars) branch;
                  invalid_component = list_ex (\<lambda>component. component = [] \<or> starts_with component ''.''
                    \<or> ends_with component ''.lock'') (split_on CHR ''/'' branch)
              in if branch = [] \<or> starts_with branch ''-'' \<or> starts_with branch ''+'' \<or> branch = ''@''
                    \<or> contains branch ''..'' \<or> contains branch [CHR 0x40, CHR 0x7B] \<or> ends_with branch ''.''
                    \<or> invalid_ref_character \<or> invalid_component
                 then Inl (error_invalid ''git push branch must be a valid branch name, not an option or refspec'')
                 else Inr (remote, branch))"

section \<open>The diff action\<close>

text \<open>\<open>char_budget\<close>: the requested output size, capped by policy.\<close>

definition char_budget :: "ws_config \<Rightarrow> nat option \<Rightarrow> nat" where
  "char_budget config requested =
     min (case requested of None \<Rightarrow> wc_max_context_chars config | Some n \<Rightarrow> n) (wc_max_context_chars config)"

definition symbol_candidate_json :: "symbol_definition \<Rightarrow> json" where
  "symbol_candidate_json found =
     (case found of (path, s, _) \<Rightarrow> JObj [(''path'', JStr path), (''symbol'', JStr (sy_name s))])"

text \<open>The line ranges a scope asks for: its symbol's, then its own.\<close>

definition scope_ranges ::
    "code_index \<Rightarrow> git_diff_scope \<Rightarrow> rel_path list \<Rightarrow> app_error + (nat \<times> nat) list" where
  "scope_ranges ci scope paths =
     (let lines = (case (gs_start_line scope, gs_end_line scope) of
                     (Some a, Some b) \<Rightarrow> [(a, b)] | _ \<Rightarrow> [])
      in case gs_symbol scope of
           None \<Rightarrow> Inr lines
         | Some symbol \<Rightarrow>
             if length paths \<noteq> 1 then Inl (error_invalid ''git_diff symbol focus requires exactly one path'')
             else let symbols = find_symbols ci (Some (hd paths)) symbol
                  in if length symbols \<noteq> 1
                     then Inl (error_with_details (if symbols = [] then SymbolNotFound else AmbiguousSymbol)
                            ''git_diff symbol focus requires one indexed declaration''
                            (JObj [(''path'', JStr (hd (gs_paths scope))), (''symbol'', JStr symbol),
                                   (''candidates'', JArr (map symbol_candidate_json symbols))]))
                     else let s = fst (snd (hd symbols)) in Inr ((sy_start_line s, sy_end_line s) # lines))"

text \<open>The hunks a scope selects from the diff of its paths.\<close>

definition scope_hunks ::
    "'d repository_backend \<Rightarrow> ws_config \<Rightarrow> 'd \<Rightarrow> code_index \<Rightarrow> git_diff_scope \<Rightarrow> app_error + diff_hunk list" where
  "scope_hunks rb config d ci scope =
     (case validate_paths (gs_paths scope) of
        Inl e \<Rightarrow> Inl e
      | Inr paths \<Rightarrow>
          (case rb_diff rb d (gs_staged scope) paths (wc_max_context_chars config) of
             Inl e \<Rightarrow> Inl e
           | Inr df \<Rightarrow>
               (case scope_ranges ci scope paths of
                  Inl e \<Rightarrow> Inl e
                | Inr ranges \<Rightarrow> Inr (diff_select df ranges (gs_hunk_ids scope)))))"

text \<open>One page: whole hunks from \<open>index\<close> while they fit; a first hunk that is too large is a page
  of its own. The last component is the index the next page starts at.\<close>

fun diff_page ::
    "nat \<Rightarrow> nat \<Rightarrow> string \<Rightarrow> diff_hunk list \<Rightarrow> diff_hunk list \<Rightarrow> string \<times> diff_hunk list \<times> nat option" where
  "diff_page applied index out selected [] = (out, selected, None)"
| "diff_page applied index out selected (h # hs) =
     (if out \<noteq> [] \<and> applied < saturating_add (length out) (length (dh_text h))
      then (out, selected, Some index)
      else if applied < length (dh_text h)
      then (out @ dh_text h, selected @ [h], if hs \<noteq> [] then Some (index + 1) else None)
      else diff_page applied (index + 1) (out @ dh_text h) (selected @ [h]) hs)"

record git_diff_view =
  gv_output :: string
  gv_hunks :: "diff_hunk list"
  gv_truncated :: bool
  gv_continuation :: "string option"
  gv_scope :: git_diff_scope
  gv_requested_chars :: nat
  gv_applied_chars :: nat
  gv_configured_max_chars :: nat
  gv_stamp :: stamp

text \<open>The scope and offset of a request: its own, or those of its continuation.\<close>

definition diff_position ::
    "continuation_codec \<Rightarrow> string \<Rightarrow> git_diff_request \<Rightarrow> app_error + git_diff_scope \<times> nat" where
  "diff_position cc snapshot q =
     (let requested_scope = scope_from_request q
      in case dq_continuation q of
           None \<Rightarrow> Inr (requested_scope, 0)
         | Some token \<Rightarrow>
             (case decode_git_diff_continuation cc token of
                Inl e \<Rightarrow> Inl e
              | Inr c \<Rightarrow>
                  if gc_snapshot_id c \<noteq> snapshot
                  then Inl (error_with_details StaleContinuation
                         ''Repository changed after the diff continuation was created''
                         (JObj [(''expected_snapshot'', JStr (gc_snapshot_id c)),
                                (''current_snapshot'', JStr snapshot)]))
                  else if has_scope q \<and> requested_scope \<noteq> gc_scope c
                  then Inl (error_new ContinuationScopeMismatch
                         ''Git diff continuation scope does not match the supplied filters'')
                  else Inr (gc_scope c, gc_offset c)))"

definition git_diff_tool ::
    "'d repository_backend \<Rightarrow> continuation_codec \<Rightarrow> ws_config \<Rightarrow> 'd \<Rightarrow> reconciled \<Rightarrow> git_diff_request
     \<Rightarrow> app_error + git_diff_view" where
  "git_diff_tool rb cc config d rc q =
     (case validate_paths (case dq_paths q of None \<Rightarrow> [] | Some ps \<Rightarrow> ps) of
        Inl e \<Rightarrow> Inl e
      | Inr _ \<Rightarrow>
          let stamp = read_stamp rc; snapshot = st_snapshot_id stamp;
              requested = (case dq_max_chars q of None \<Rightarrow> wc_max_context_chars config | Some n \<Rightarrow> n);
              applied = min requested (wc_max_context_chars config)
          in (case diff_position cc snapshot q of
                Inl e \<Rightarrow> Inl e
              | Inr (scope, offset) \<Rightarrow>
                  (case scope_hunks rb config d (rc_index rc) scope of
                     Inl e \<Rightarrow> Inl e
                   | Inr hunks \<Rightarrow>
                       (case diff_page applied offset [] [] (drop offset hunks) of
                          (out, selected, next) \<Rightarrow>
                            let view = (\<lambda>continuation.
                                  \<lparr>gv_output = out, gv_hunks = selected, gv_truncated = (continuation \<noteq> None),
                                   gv_continuation = continuation, gv_scope = scope,
                                   gv_requested_chars = requested, gv_applied_chars = applied,
                                   gv_configured_max_chars = wc_max_context_chars config, gv_stamp = stamp\<rparr>)
                            in (case next of
                                  None \<Rightarrow> Inr (view None)
                                | Some index \<Rightarrow>
                                    (case encode_git_diff_continuation cc
                                            \<lparr>gc_snapshot_id = snapshot, gc_offset = index, gc_scope = scope\<rparr> of
                                       Inl e \<Rightarrow> Inl e
                                     | Inr token \<Rightarrow> Inr (view (Some token))))))))"

section \<open>The actions\<close>

datatype git_reply =
    DiffReply git_diff_view
  | GitStatusReply repo_status stamp
  | PreflightReply "string list" "string list" string stamp
  | OutputReply string string stamp bool

text \<open>\<open>git_mutation\<close>: stage, commit and restore.\<close>

definition git_mutation ::
    "'d ws_params \<Rightarrow> 'd repository_backend \<Rightarrow> git_action \<Rightarrow> 'd workspace_state
     \<Rightarrow> (app_error + string) option \<times> 'd workspace_state" where
  "git_mutation wp rb action ws =
     (let refreshed = (\<lambda>result. case result of
            (Inl e, d) \<Rightarrow> (Some (Inl e), ws\<lparr>ws_disk := d\<rparr>)
          | (Inr out, d) \<Rightarrow>
              (Some (Inr out), snd (refresh_repo_status (wp_env wp) (ws\<lparr>ws_disk := d\<rparr>))))
      in case action of
           GitStage paths \<Rightarrow>
             (case validate_paths paths of
                Inl e \<Rightarrow> (Some (Inl e), ws)
              | Inr paths \<Rightarrow> refreshed (rb_stage rb (ws_disk ws) paths))
         | GitCommit message \<Rightarrow> refreshed (rb_commit rb (ws_disk ws) message)
         | GitRestore q \<Rightarrow>
             (case validate_paths (grq_paths q) of
                Inl e \<Rightarrow> (Some (Inl e), ws)
              | Inr paths \<Rightarrow>
                  if \<not> grq_confirm q
                  then (Some (Inl (error_new ConfirmationRequired ''git restore requires confirm=true'')), ws)
                  else (case rb_restore rb (ws_disk ws) paths (grq_staged q) of
                          (Inl e, d) \<Rightarrow> (Some (Inl e), ws\<lparr>ws_disk := d\<rparr>)
                        | (Inr out, d) \<Rightarrow>
                            (case rescan wp (ws\<lparr>ws_disk := d\<rparr>) of
                               (Inl e, ws') \<Rightarrow> (Some (Inl e), ws')
                             | (Inr _, ws') \<Rightarrow> (Some (Inr out), ws'))))
         | _ \<Rightarrow> (None, ws))"

text \<open>The text output of the actions that have one; \<open>None\<close> is the unreachable case.\<close>

definition git_output ::
    "'d ws_params \<Rightarrow> 'd repository_backend \<Rightarrow> bool \<Rightarrow> git_action \<Rightarrow> 'd workspace_state
     \<Rightarrow> (app_error + string) option \<times> 'd workspace_state" where
  "git_output wp rb permit action ws =
     (case action of
        GitLog limit \<Rightarrow> (Some (rb_log rb (ws_disk ws) limit), ws)
      | GitShow q \<Rightarrow>
          (Some (rb_show rb (ws_disk ws) (gsq_reference q) (char_budget (wp_config wp) (gsq_max_chars q))), ws)
      | GitBlame q \<Rightarrow>
          (Some (case validate_paths (gbq_paths q) of
                   Inl e \<Rightarrow> Inl e
                 | Inr [] \<Rightarrow> Inl (error_invalid ''git blame requires one path'')
                 | Inr (path # _) \<Rightarrow>
                     rb_blame rb (ws_disk ws) path (gbq_start_line q) (gbq_end_line q)
                       (char_budget (wp_config wp) (gbq_max_chars q))), ws)
      | GitPush q \<Rightarrow>
          if \<not> gpq_confirm q
          then (Some (Inl (error_new ConfirmationRequired ''git push requires confirm=true'')), ws)
          else (case we_git_status (wp_env wp) (ws_disk ws) of
                  Inl e \<Rightarrow> (Some (Inl e), ws)
                | Inr status \<Rightarrow>
                    (case validated_push_target q (rs_branch status) of
                       Inl e \<Rightarrow> (Some (Inl e), ws)
                     | Inr (remote, branch) \<Rightarrow>
                         (case rb_push rb (ws_disk ws) remote branch of
                            (r, d) \<Rightarrow> (Some r, ws\<lparr>ws_disk := d\<rparr>))))
      | _ \<Rightarrow>
          if \<not> permit
          then (Some (Inl (error_internal (''git '' @ git_action_name action @ '' requires the mutation permit''))), ws)
          else git_mutation wp rb action ws)"

definition git_blocking ::
    "'d ws_params \<Rightarrow> 'd repository_backend \<Rightarrow> continuation_codec \<Rightarrow> nat \<Rightarrow> bool \<Rightarrow> git_action
     \<Rightarrow> 'd workspace_state \<Rightarrow> (app_error + git_reply) option \<times> 'd workspace_state" where
  "git_blocking wp rb cc now permit action ws =
     (case reconcile_pending (wp_env wp) now ws of
        (Inl e, ws1) \<Rightarrow> (Some (Inl e), ws1)
      | (Inr _, ws1) \<Rightarrow>
          (case action of
             GitDiff q \<Rightarrow>
               (Some (map_sum id DiffReply (git_diff_tool rb cc (wp_config wp) (ws_disk ws1) (ws_rc ws1) q)), ws1)
           | GitStatus \<Rightarrow>
               (case refresh_repo_status (wp_env wp) ws1 of
                  (Inl e, ws2) \<Rightarrow> (Some (Inl e), ws2)
                | (Inr _, ws2) \<Rightarrow>
                    (Some (Inr (GitStatusReply (rc_repo_status (ws_rc ws2)) (read_stamp (ws_rc ws2)))), ws2))
           | GitPreflight \<Rightarrow>
               (case refresh_repo_status (wp_env wp) ws1 of
                  (Inl e, ws2) \<Rightarrow> (Some (Inl e), ws2)
                | (Inr _, ws2) \<Rightarrow>
                    let status = rc_repo_status (ws_rc ws2)
                    in (case rb_diff rb (ws_disk ws2) True [] (wc_max_context_chars (wp_config wp)) of
                          Inl e \<Rightarrow> (Some (Inl e), ws2)
                        | Inr df \<Rightarrow>
                            (Some (Inr (PreflightReply (rs_staged_files status) (rs_partially_staged_files status)
                               (df_text df) (read_stamp (ws_rc ws2)))), ws2)))
           | _ \<Rightarrow>
               (case git_output wp rb permit action ws1 of
                  (None, ws2) \<Rightarrow> (None, ws2)
                | (Some (Inl e), ws2) \<Rightarrow> (Some (Inl e), ws2)
                | (Some (Inr out), ws2) \<Rightarrow>
                    (Some (Inr (OutputReply (git_action_name action) out (read_stamp (ws_rc ws2))
                       (rc_repo_status_stale (ws_rc ws2)))), ws2))))"

text \<open>The permit is taken for the mutating actions.\<close>

definition workspace_git ::
    "'d ws_params \<Rightarrow> 'd repository_backend \<Rightarrow> continuation_codec \<Rightarrow> nat \<Rightarrow> git_action
     \<Rightarrow> 'd workspace_state \<Rightarrow> (app_error + git_reply) option \<times> 'd workspace_state" where
  "workspace_git wp rb cc now action ws = git_blocking wp rb cc now (is_mutating action) action ws"

section \<open>Lemmas: pages\<close>

lemma diff_page_spec:
  "diff_page applied i out sel hs = (out', sel', next) \<Longrightarrow>
    \<exists>k \<le> length hs. sel' = sel @ take k hs \<and> out' = out @ concat (map dh_text (take k hs))
      \<and> next = (if k < length hs then Some (i + k) else None) \<and> (out = [] \<and> hs \<noteq> [] \<longrightarrow> 0 < k)"
proof (induction applied i out sel hs rule: diff_page.induct)
  case (2 applied i out sel h hs)
  consider (stop) "out \<noteq> []" "applied < saturating_add (length out) (length (dh_text h))"
    | (big) "\<not> (out \<noteq> [] \<and> applied < saturating_add (length out) (length (dh_text h)))" "applied < length (dh_text h)"
    | (fits) "\<not> (out \<noteq> [] \<and> applied < saturating_add (length out) (length (dh_text h)))" "\<not> applied < length (dh_text h)"
    by blast
  then show ?case
  proof cases
    case stop
    then show ?thesis using 2(2) by (intro exI [of _ 0]) auto
  next
    case big
    then show ?thesis using 2(2) by (intro exI [of _ 1]) (auto split: if_splits)
  next
    case fits
    with 2(2) have "diff_page applied (i + 1) (out @ dh_text h) (sel @ [h]) hs = (out', sel', next)" by auto
    from 2(1) [OF fits this] obtain k where "k \<le> length hs" "sel' = (sel @ [h]) @ take k hs"
      "out' = (out @ dh_text h) @ concat (map dh_text (take k hs))"
      "next = (if k < length hs then Some (i + 1 + k) else None)" by blast
    then show ?thesis by (intro exI [of _ "Suc k"]) auto
  qed
qed simp

lemma diff_page_bound:
  shows "diff_page applied i out sel hs = (out', sel', next) \<Longrightarrow> length out \<le> applied \<Longrightarrow> applied < usize_max \<Longrightarrow>
    length out' \<le> applied \<or> (\<exists>h \<in> set sel'. out' = dh_text h)"
proof (induction applied i out sel hs rule: diff_page.induct)
  case (2 applied i out sel h hs)
  consider (stop) "out \<noteq> []" "applied < saturating_add (length out) (length (dh_text h))"
    | (big) "\<not> (out \<noteq> [] \<and> applied < saturating_add (length out) (length (dh_text h)))" "applied < length (dh_text h)"
    | (fits) "\<not> (out \<noteq> [] \<and> applied < saturating_add (length out) (length (dh_text h)))" "\<not> applied < length (dh_text h)"
    by blast
  then show ?case
  proof cases
    case stop
    then show ?thesis using 2 by simp
  next
    case big
    have "out = []"
    proof (rule ccontr)
      assume "out \<noteq> []"
      with big have "saturating_add (length out) (length (dh_text h)) \<le> applied" by simp
      then have "min (length out + length (dh_text h)) usize_max \<le> applied" by (simp add: saturating_add_def)
      with 2(4) big(2) show False by (simp add: min_def split: if_splits)
    qed
    then show ?thesis using big 2(2) by (auto split: if_splits)
  next
    case fits
    then have "length (out @ dh_text h) \<le> applied"
      using 2(4) by (cases "out = []") (auto simp: saturating_add_def)
    with 2(1) [OF fits] 2(2,4) fits show ?thesis by auto
  qed
qed simp

text \<open>Reading all pages of a diff by its continuations, at most \<open>n\<close> of them.\<close>

primrec read_diff_pages ::
    "nat \<Rightarrow> 'd repository_backend \<Rightarrow> continuation_codec \<Rightarrow> ws_config \<Rightarrow> 'd \<Rightarrow> reconciled \<Rightarrow> git_diff_request
     \<Rightarrow> (diff_hunk list \<times> string) option" where
  "read_diff_pages 0 rb cc config d rc q = None"
| "read_diff_pages (Suc n) rb cc config d rc q =
     (case git_diff_tool rb cc config d rc q of
        Inl e \<Rightarrow> None
      | Inr v \<Rightarrow>
          (case gv_continuation v of
             None \<Rightarrow> Some (gv_hunks v, gv_output v)
           | Some token \<Rightarrow>
               (case read_diff_pages n rb cc config d rc (q\<lparr>dq_continuation := Some token\<rparr>) of
                  None \<Rightarrow> None
                | Some (hunks, text) \<Rightarrow> Some (gv_hunks v @ hunks, gv_output v @ text))))"

text \<open>A payload decodes to what it encodes, for the continuations of one diff.\<close>

definition codec_ok :: "continuation_codec \<Rightarrow> string \<Rightarrow> git_diff_scope \<Rightarrow> bool" where
  "codec_ok cc snapshot scope \<longleftrightarrow>
     (\<forall>offset. \<exists>payload.
        cc_encode cc \<lparr>gc_snapshot_id = snapshot, gc_offset = offset, gc_scope = scope\<rparr> = Inr payload
        \<and> cc_decode cc payload = Some \<lparr>gc_snapshot_id = snapshot, gc_offset = offset, gc_scope = scope\<rparr>)"

lemma continuation_roundtrip:
  assumes "codec_ok cc snapshot scope" "c = \<lparr>gc_snapshot_id = snapshot, gc_offset = offset, gc_scope = scope\<rparr>"
  shows "\<exists>t. encode_git_diff_continuation cc c = Inr t \<and> decode_git_diff_continuation cc t = Inr c"
proof -
  from assms obtain payload where p: "cc_encode cc c = Inr payload" "cc_decode cc payload = Some c"
    unfolding codec_ok_def by blast
  then show ?thesis
    by (intro exI [of _ "''git-diff:'' @ payload"])
      (simp add: encode_git_diff_continuation_def decode_git_diff_continuation_def strip_prefix_append del: append_Cons append.simps)
qed

lemma scope_from_request_continuation [simp]:
  "scope_from_request (q\<lparr>dq_continuation := c\<rparr>) = scope_from_request q"
  by (simp add: scope_from_request_def)

lemma read_diff_pages_from:
  assumes cc: "codec_ok cc (rc_snapshot_id rc) (scope_from_request q)"
    and paths: "validate_paths (case dq_paths q of None \<Rightarrow> [] | Some ps \<Rightarrow> ps) = Inr ps"
    and hunks: "scope_hunks rb config d (rc_index rc) (scope_from_request q) = Inr hunks"
  shows "diff_position cc (rc_snapshot_id rc) (q\<lparr>dq_continuation := c\<rparr>) = Inr (scope_from_request q, offset)
    \<Longrightarrow> length hunks - offset < n
    \<Longrightarrow> read_diff_pages n rb cc config d rc (q\<lparr>dq_continuation := c\<rparr>)
          = Some (drop offset hunks, concat (map dh_text (drop offset hunks)))"
proof (induction n arbitrary: c offset)
  case (Suc n)
  let ?q = "q\<lparr>dq_continuation := c\<rparr>" and ?hs = "drop offset hunks"
  let ?applied = "min (case dq_max_chars q of None \<Rightarrow> wc_max_context_chars config | Some n \<Rightarrow> n)
    (wc_max_context_chars config)"
  obtain out sel next' where pg: "diff_page ?applied offset [] [] ?hs = (out, sel, next')"
    by (metis prod_cases3)
  from diff_page_spec [OF pg] obtain k where k: "k \<le> length ?hs" "sel = take k ?hs"
    "out = concat (map dh_text (take k ?hs))"
    "next' = (if k < length ?hs then Some (offset + k) else None)" "?hs \<noteq> [] \<longrightarrow> 0 < k" by auto
  show ?case
  proof (cases "k < length ?hs")
    case False
    with k have "git_diff_tool rb cc config d rc ?q = Inr v \<Longrightarrow> gv_continuation v = None \<and> gv_hunks v = ?hs
        \<and> gv_output v = concat (map dh_text ?hs)" for v
      using paths hunks pg Suc.prems(1) by (auto simp: git_diff_tool_def Let_def read_stamp_def)
    moreover have "\<exists>v. git_diff_tool rb cc config d rc ?q = Inr v"
      using False k paths hunks pg Suc.prems(1) by (auto simp: git_diff_tool_def Let_def read_stamp_def)
    ultimately show ?thesis by auto
  next
    case True
    let ?c = "\<lparr>gc_snapshot_id = rc_snapshot_id rc, gc_offset = offset + k, gc_scope = scope_from_request q\<rparr>"
    from continuation_roundtrip [OF cc refl, of "offset + k"] obtain t where
      t: "encode_git_diff_continuation cc ?c = Inr t" "decode_git_diff_continuation cc t = Inr ?c" by blast
    obtain v where v: "git_diff_tool rb cc config d rc ?q = Inr v" "gv_continuation v = Some t"
        "gv_hunks v = take k ?hs" "gv_output v = concat (map dh_text (take k ?hs))"
      using True k paths hunks pg Suc.prems(1) t by (simp add: git_diff_tool_def Let_def read_stamp_def)
    have "diff_position cc (rc_snapshot_id rc) (q\<lparr>dq_continuation := Some t\<rparr>) = Inr (scope_from_request q, offset + k)"
      by (simp add: diff_position_def Let_def t)
    moreover have "length hunks - (offset + k) < n" using True k(5) Suc.prems(2) by auto
    ultimately have "read_diff_pages n rb cc config d rc (q\<lparr>dq_continuation := Some t\<rparr>)
        = Some (drop (offset + k) hunks, concat (map dh_text (drop (offset + k) hunks)))"
      by (rule Suc.IH)
    moreover have "?hs = take k ?hs @ drop (offset + k) hunks" by (simp add: add.commute flip: drop_drop)
    ultimately show ?thesis using v by (simp flip: map_append concat_append)
  qed
qed simp

section \<open>Properties\<close>

text \<open>Following the continuations of a diff reads every selected hunk exactly once and in order, and
  ends: as many pages as there are hunks, and one, are enough.\<close>

theorem diff_pages_cover_selection:
  assumes "codec_ok cc (rc_snapshot_id rc) (scope_from_request q)" "dq_continuation q = None"
    and "validate_paths (case dq_paths q of None \<Rightarrow> [] | Some ps \<Rightarrow> ps) = Inr ps"
    and "scope_hunks rb config d (rc_index rc) (scope_from_request q) = Inr hunks"
  shows "read_diff_pages (Suc (length hunks)) rb cc config d rc q = Some (hunks, concat (map dh_text hunks))"
proof -
  have q: "q\<lparr>dq_continuation := None\<rparr> = q" using assms(2) by (cases q) simp
  have "diff_position cc (rc_snapshot_id rc) (q\<lparr>dq_continuation := None\<rparr>) = Inr (scope_from_request q, 0)"
    by (simp add: diff_position_def)
  from read_diff_pages_from [OF assms(1,3,4) this, of "Suc (length hunks)"] show ?thesis
    by (simp add: q)
qed

definition sample_hunk :: "nat \<Rightarrow> string \<Rightarrow> diff_hunk" where
  "sample_hunk n text = \<lparr>dh_id = show_nat n, dh_path = ''a'', dh_old = \<lparr>ls_start = n, ls_count = 1\<rparr>,
     dh_new = \<lparr>ls_start = n, ls_count = 1\<rparr>, dh_text = text\<rparr>"

definition sample_request :: git_diff_request where
  "sample_request = \<lparr>dq_paths = Some [''a''], dq_staged = None, dq_max_chars = Some 3, dq_start_line = None,
     dq_end_line = None, dq_symbol = None, dq_hunk_ids = None, dq_continuation = None\<rparr>"

definition sample_codec :: continuation_codec where
  "sample_codec = \<lparr>cc_encode = (\<lambda>c. Inr (replicate (gc_offset c) CHR ''1'')),
     cc_decode = (\<lambda>s. Some \<lparr>gc_snapshot_id = rc_snapshot_id (ws_rc (ac_ws sample_actor)),
        gc_offset = length s, gc_scope = scope_from_request sample_request\<rparr>)\<rparr>"

definition sample_backend :: "mem_dir repository_backend" where
  "sample_backend = (cli_backend (\<lambda>_ _ _. Inr []) (\<lambda>d _. d) (sc_sha sample_scan) mem_ops)
     \<lparr>rb_diff := (\<lambda>_ _ _ _. Inr \<lparr>df_text = ''abcd'', df_hunks = [sample_hunk 1 ''ab'', sample_hunk 9 ''cd'']\<rparr>)\<rparr>"

lemma validate_sample: "validate_paths [''a''] = Inr [''a'']"
  by (simp add: validate_paths_def sample_rel_path)

theorem diff_pages_cover_selection_witness:
  "read_diff_pages 3 sample_backend sample_codec (wp_config sample_params_of) (ws_disk (ac_ws sample_actor))
      (ws_rc (ac_ws sample_actor)) sample_request
    = Some ([sample_hunk 1 ''ab'', sample_hunk 9 ''cd''], ''abcd'')"
proof -
  let ?rc = "ws_rc (ac_ws sample_actor)" and ?hs = "[sample_hunk 1 ''ab'', sample_hunk 9 ''cd'']"
  have c: "codec_ok sample_codec (rc_snapshot_id ?rc) (scope_from_request sample_request)"
    by (simp add: codec_ok_def sample_codec_def)
  have h: "scope_hunks sample_backend (wp_config sample_params_of) (ws_disk (ac_ws sample_actor)) (rc_index ?rc)
      (scope_from_request sample_request) = Inr ?hs"
    by (simp add: scope_hunks_def scope_from_request_def sample_request_def validate_sample sample_backend_def
        scope_ranges_def diff_select_def)
  show ?thesis
    using diff_pages_cover_selection [OF c _ _ h, of "[''a'']"]
    by (simp add: sample_request_def validate_sample sample_hunk_def numeral_3_eq_3 del: read_diff_pages.simps)
qed

text \<open>A page of a diff keeps to its limit, or is a single hunk that alone exceeds it.\<close>

theorem diff_page_within_limit:
  assumes "git_diff_tool rb cc config d rc q = Inr v" "wc_max_context_chars config < usize_max"
  shows "gv_applied_chars v \<le> wc_max_context_chars config
    \<and> (length (gv_output v) \<le> gv_applied_chars v \<or> (\<exists>h \<in> set (gv_hunks v). gv_output v = dh_text h))"
proof -
  let ?applied = "min (case dq_max_chars q of None \<Rightarrow> wc_max_context_chars config | Some n \<Rightarrow> n)
    (wc_max_context_chars config)"
  from assms(1) obtain offset hs next' where
    "diff_page ?applied offset [] [] hs = (gv_output v, gv_hunks v, next')" "gv_applied_chars v = ?applied"
    by (auto simp: git_diff_tool_def Let_def split: sum.splits prod.splits option.splits)
  with diff_page_bound [of ?applied offset "[]" "[]" hs] assms(2) show ?thesis by simp
qed

theorem diff_page_within_limit_witness:
  "\<exists>v. git_diff_tool sample_backend sample_codec (wp_config sample_params_of) (ws_disk (ac_ws sample_actor))
      (ws_rc (ac_ws sample_actor)) sample_request = Inr v \<and> length (gv_output v) \<le> 3"
proof -
  let ?rc = "ws_rc (ac_ws sample_actor)"
  have small: "wc_max_context_chars (wp_config sample_params_of) = 9" by (simp add: sample_params_of_def)
  obtain v where v: "git_diff_tool sample_backend sample_codec (wp_config sample_params_of)
      (ws_disk (ac_ws sample_actor)) ?rc sample_request = Inr v" "gv_hunks v = [sample_hunk 1 ''ab'']"
      "gv_applied_chars v = 3"
    by (simp add: git_diff_tool_def Let_def diff_position_def scope_hunks_def scope_from_request_def
        sample_request_def validate_sample sample_backend_def scope_ranges_def diff_select_def small
        encode_git_diff_continuation_def sample_codec_def saturating_add_def sample_hunk_def usize_max_def)
  with diff_page_within_limit [OF v(1)] show ?thesis
    by (auto simp: small usize_max_def sample_hunk_def)
qed

text \<open>The options git sees: arguments with a dash before the separator.\<close>

definition option_args :: "string list \<Rightarrow> string list" where
  "option_args args = filter (\<lambda>a. starts_with a ''-'') (takeWhile (\<lambda>a. a \<noteq> ''--'') args)"

text \<open>What a request names never reaches git as an option: the arguments of a diff, a blame, a
  stage and a restore before the separator are the program's own, and a validated push target starts
  with neither a dash nor a plus and holds no colon and no control or white space character.\<close>

theorem names_are_not_options:
  "set (option_args (diff_args staged paths)) \<subseteq> {''--no-ext-diff'', ''--unified=3'', ''--cached''}
   \<and> set (option_args (blame_args path a b))
       \<subseteq> {''--date=short''} \<union> {''-L'' @ show_nat s @ '','' @ show_nat e | s e. a = Some s \<and> b = Some e}
   \<and> option_args ([''add'', ''--''] @ paths) = []
   \<and> set (option_args ([''restore''] @ (if staged then [''--staged''] else []) @ [''--''] @ paths)) \<subseteq> {''--staged''}
   \<and> (case validated_push_target q current_branch of
        Inl _ \<Rightarrow> True
      | Inr (remote, branch) \<Rightarrow>
          option_args (push_args remote branch) = []
          \<and> \<not> starts_with branch ''+'' \<and> \<not> starts_with remote ''+''
          \<and> CHR '':'' \<notin> set remote \<and> CHR '':'' \<notin> set branch \<and> remote \<noteq> [] \<and> branch \<noteq> [])"
proof -
  have push: "validated_push_target q current_branch = Inr (remote, branch) \<Longrightarrow>
      \<not> starts_with remote ''-'' \<and> \<not> starts_with branch ''-'' \<and> \<not> starts_with branch ''+'' \<and> \<not> starts_with remote ''+''
      \<and> CHR '':'' \<notin> set remote \<and> CHR '':'' \<notin> set branch \<and> remote \<noteq> [] \<and> branch \<noteq> []" for remote branch
  proof -
    assume v: "validated_push_target q current_branch = Inr (remote, branch)"
    then have no: "\<not> list_ex (\<lambda>c. c \<in> set invalid_ref_chars) branch" "\<not> starts_with remote ''-''"
      "\<not> starts_with branch ''-''" "\<not> starts_with branch ''+''" "\<not> starts_with remote ''+''"
      "CHR '':'' \<notin> set remote" "remote \<noteq> []" "branch \<noteq> []"
      unfolding validated_push_target_def Let_def by (simp_all split: if_split_asm)
    moreover have "CHR '':'' \<in> set invalid_ref_chars" by (simp add: invalid_ref_chars_def)
    ultimately show ?thesis by (auto simp: list_ex_iff)
  qed
  then have push_ok: "case validated_push_target q current_branch of Inl _ \<Rightarrow> True
      | Inr (remote, branch) \<Rightarrow> option_args (push_args remote branch) = []
          \<and> \<not> starts_with branch ''+'' \<and> \<not> starts_with remote ''+''
          \<and> CHR '':'' \<notin> set remote \<and> CHR '':'' \<notin> set branch \<and> remote \<noteq> [] \<and> branch \<noteq> []"
    by (auto simp: option_args_def push_args_def starts_with_def split: sum.split)
  have "set (option_args (diff_args staged paths)) \<subseteq> {''--no-ext-diff'', ''--unified=3'', ''--cached''}"
    by (simp add: option_args_def diff_args_def starts_with_def)
  moreover have "set (option_args (blame_args path a b))
       \<subseteq> {''--date=short''} \<union> {''-L'' @ show_nat s @ '','' @ show_nat e | s e. a = Some s \<and> b = Some e}"
    by (simp add: option_args_def blame_args_def starts_with_def split: option.split)
  moreover have "option_args ([''add'', ''--''] @ paths) = []"
    by (simp add: option_args_def starts_with_def)
  moreover have "set (option_args ([''restore''] @ (if staged then [''--staged''] else []) @ [''--''] @ paths)) \<subseteq> {''--staged''}"
    by (simp add: option_args_def starts_with_def)
  ultimately show ?thesis using push_ok by blast
qed

text \<open>C27. A restore or a push without confirmation is refused and changes no file.\<close>

theorem unconfirmed_git_changes_nothing:
  "(case workspace_git wp rb cc now (GitRestore (q\<lparr>grq_confirm := False\<rparr>)) ws of
      (r, ws') \<Rightarrow> ws_disk ws' = ws_disk ws \<and> (\<exists>e. r = Some (Inl e)))
   \<and> (case workspace_git wp rb cc now (GitPush (p\<lparr>gpq_confirm := False\<rparr>)) ws of
      (r, ws') \<Rightarrow> ws_disk ws' = ws_disk ws \<and> (\<exists>e. r = Some (Inl e)))"
proof -
  obtain r ws1 where r: "reconcile_pending (wp_env wp) now ws = (r, ws1)" by fastforce
  then have "ws_disk ws1 = ws_disk ws"
    by (auto simp: reconcile_pending_def dest: reconcile_disk split: if_splits)
  note disk = this
  show ?thesis
  proof (cases r)
    case (Inl e)
    with r disk show ?thesis by (simp add: workspace_git_def git_blocking_def)
  next
    case (Inr changed)
    with r disk have "case workspace_git wp rb cc now (GitPush (p\<lparr>gpq_confirm := False\<rparr>)) ws of
        (r, ws') \<Rightarrow> ws_disk ws' = ws_disk ws \<and> (\<exists>e. r = Some (Inl e))"
      by (simp add: workspace_git_def git_blocking_def git_output_def)
    moreover have "case workspace_git wp rb cc now (GitRestore (q\<lparr>grq_confirm := False\<rparr>)) ws of
        (r, ws') \<Rightarrow> ws_disk ws' = ws_disk ws \<and> (\<exists>e. r = Some (Inl e))"
      using r disk Inr
      by (cases "validate_paths (grq_paths q)")
        (simp_all add: workspace_git_def git_blocking_def git_output_def git_mutation_def)
    ultimately show ?thesis by blast
  qed
qed

text \<open>The reference of \<open>git_show\<close> is an option when it looks like one: it reaches git unchecked and
  before any separator, so \<open>--output=FILE\<close> makes the read-only action write a file. And a path that is a
  magic pathspec (\<open>:/\<close>, the top of the repository) passes the validation of paths.\<close>

theorem show_reference_may_be_option:
  "git_output wp rb permit (GitShow \<lparr>gsq_reference = ''--output='' @ file, gsq_max_chars = n\<rparr>) ws
     = (Some (rb_show rb (ws_disk ws) (''--output='' @ file) (char_budget (wp_config wp) n)), ws)
   \<and> rb_show (cli_backend git eff sha ops) d (''--output='' @ file) m
     = git_run (git d) (show_args (''--output='' @ file)) m
   \<and> ''--output='' @ file \<in> set (option_args (show_args (''--output='' @ file)))
   \<and> validate_paths ['':/''] = Inr ['':/'']"
proof -
  have "rel_path_new '':/'' = Inr '':/''" by (rule rel_path_new_idem)
    (simp add: path_ok_def normalize_path_text_def path_components_def path_is_absolute_def component_of_def
        backslash_def starts_with_def Let_def)
  then show ?thesis
    by (simp add: git_output_def cli_backend_def git_show_def option_args_def show_args_def starts_with_def
        validate_paths_def)
qed

text \<open>The parser of diffs takes an added line that starts with \<open>++ b/\<close> for a file header: the hunk is
  reported, and selected, under the path named in the text of the change.\<close>

theorem hunk_path_from_content:
  "map dh_path (parse_hunks (\<lambda>_. [])
      (''diff --git a/f b/f'' @ [nl] @ ''--- a/f'' @ [nl] @ ''+++ b/f'' @ [nl] @ ''@@ -1 +1 @@'' @ [nl]
       @ ''-x'' @ [nl] @ ''+++ b/etc'' @ [nl])) = [''etc'']"
proof -
  have lines: "split_inclusive (''diff --git a/f b/f'' @ [nl] @ ''--- a/f'' @ [nl] @ ''+++ b/f'' @ [nl] @ ''@@ -1 +1 @@'' @ [nl]
       @ ''-x'' @ [nl] @ ''+++ b/etc'' @ [nl])
     = [''diff --git a/f b/f'' @ [nl], ''--- a/f'' @ [nl], ''+++ b/f'' @ [nl], ''@@ -1 +1 @@'' @ [nl],
        ''-x'' @ [nl], ''+++ b/etc'' @ [nl]]" by (simp add: nl_def)
  have trims: "trim_end (''etc'' @ [nl]) = ''etc''" "trim_end (''f'' @ [nl]) = ''f''"
    using trim_end_white [of nl "''etc''"] trim_end_white [of nl "''f''"]
    by (simp_all add: trim_ends_id printable_def)
  show ?thesis
    unfolding parse_hunks_def lines using trims
    by (simp add: hunk_line_def starts_with_def finish_hunk_def Let_def)
qed

end
