(* ===== verification/Retrieval_Request.thy ===== *)
theory Retrieval_Request
  imports Reference_Search Request_Contract
begin

text \<open>
  The operations of \<open>code_retrieve\<close> (\<open>src/contracts.rs\<close>, \<open>src/retrieval/request.rs\<close>): the
  contract of each operation, the check of its fields, and the parser into typed requests. An
  operation is the association list of its fields in the order the map iterates them; the
  wording of a deserialization error is the parameter \<open>serde_error\<close>.
\<close>

section \<open>Contracts\<close>

definition max_retrieval_operations :: nat where "max_retrieval_operations = 12"

definition read_targets :: "string list" where
  "read_targets = [''path'', ''handle'', ''symbol'', ''metadata'', ''bash_status'', ''bash_log'', ''continuation'']"

record contract_spec =
  spec_name :: string
  spec_required :: "string list"
  spec_optional :: "string list"

definition allowed_fields :: "contract_spec \<Rightarrow> string list" where
  "allowed_fields spec = spec_required spec @ spec_optional spec"

definition retrieval_contracts :: "contract_spec list" where
  "retrieval_contracts =
     [\<lparr>spec_name = ''find_file'', spec_required = [''operation'', ''name''],
       spec_optional = [''id'', ''path'', ''paths'', ''max_results'', ''context_lines'', ''case_sensitive'',
         ''response_detail'']\<rparr>,
      \<lparr>spec_name = ''find_symbol'', spec_required = [''operation'', ''symbol''],
       spec_optional = [''id'', ''path'', ''paths'', ''max_results'', ''context_lines'', ''case_sensitive'',
         ''response_detail'']\<rparr>,
      \<lparr>spec_name = ''search_text'', spec_required = [''operation'', ''pattern''],
       spec_optional = [''id'', ''syntax'', ''path'', ''paths'', ''max_results'', ''context_lines'',
         ''case_sensitive'', ''response_detail'']\<rparr>,
      \<lparr>spec_name = ''find_references'', spec_required = [''operation'', ''symbol''],
       spec_optional = [''id'', ''path'', ''paths'', ''max_results'', ''context_lines'', ''case_sensitive'',
         ''reference_scope'', ''reference_kinds'', ''definition_path'', ''definition_line'', ''response_detail'']\<rparr>,
      \<lparr>spec_name = ''symbols_overview'', spec_required = [''operation''],
       spec_optional = [''id'', ''path'', ''paths'', ''max_results'', ''response_detail'']\<rparr>,
      \<lparr>spec_name = ''repo_map'', spec_required = [''operation''],
       spec_optional = [''id'', ''path'', ''paths'', ''max_results'', ''response_detail'']\<rparr>,
      \<lparr>spec_name = ''read'', spec_required = [''operation'', ''target'', ''value''],
       spec_optional = [''id'', ''path'', ''start_line'', ''end_line'', ''surrounding_lines'', ''include_imports'',
         ''max_chars'', ''response_detail'']\<rparr>]"

definition retrieval_contract :: "string \<Rightarrow> contract_spec option" where
  "retrieval_contract name = find (\<lambda>c. spec_name c = name) retrieval_contracts"

definition retrieval_operation_names :: "string list" where
  "retrieval_operation_names = map spec_name retrieval_contracts"

definition text_list :: "string list \<Rightarrow> json" where
  "text_list ss = JArr (map JStr ss)"

type_synonym json_object = "(string \<times> json) list"

definition validate_fields ::
    "contract_spec \<Rightarrow> json_object \<Rightarrow> error_code \<Rightarrow> error_code \<Rightarrow> string \<Rightarrow> app_error + unit" where
  "validate_fields spec obj missing_code unknown_code ctx =
     (let allowed = allowed_fields spec;
          unknown = filter (\<lambda>k. k \<notin> set allowed) (map fst obj);
          missing = filter (\<lambda>k. case map_of obj k of None \<Rightarrow> True | Some v \<Rightarrow> json_is_null v) (spec_required spec)
      in if unknown \<noteq> []
         then Inl (error_with_details unknown_code (ctx @ '' received unsupported fields'')
                (JObj [(''contract'', JStr (spec_name spec)), (''unknown'', text_list unknown),
                       (''allowed'', text_list (sort (remdups allowed)))]))
         else if missing \<noteq> []
         then Inl (error_with_details missing_code (ctx @ '' is missing required fields'')
                (JObj [(''contract'', JStr (spec_name spec)), (''missing'', text_list missing),
                       (''required'', text_list (spec_required spec))]))
         else Inr ())"

definition non_empty_string :: "json option \<Rightarrow> bool" where
  "non_empty_string v \<longleftrightarrow> (case Option.bind v json_as_str of None \<Rightarrow> False | Some s \<Rightarrow> trim s \<noteq> [])"

definition require_non_empty_string ::
    "json_object \<Rightarrow> string \<Rightarrow> error_code \<Rightarrow> string \<Rightarrow> app_error + unit" where
  "require_non_empty_string obj field code ctx =
     (if non_empty_string (map_of obj field) then Inr ()
      else Inl (error_with_details code
             (ctx @ '' field '' @ [CHR 0x27] @ field @ [CHR 0x27] @ '' must be a non-empty string'')
             (JObj [(''field'', JStr field)])))"

definition string_array :: "json \<Rightarrow> bool" where
  "string_array v \<longleftrightarrow> (case json_as_array v of None \<Rightarrow> False | Some xs \<Rightarrow> list_all json_is_string xs)"

definition response_details :: "string list" where
  "response_details = [''compact'', ''standard'', ''debug'']"

text \<open>The checks of one operation after its fields: the overview's scope, the paths, the detail.\<close>

definition overview_scope_given :: "json_object \<Rightarrow> bool" where
  "overview_scope_given op \<longleftrightarrow>
     non_empty_string (map_of op ''path'')
     \<or> (case Option.bind (map_of op ''paths'') json_as_array of None \<Rightarrow> False | Some xs \<Rightarrow> xs \<noteq> [])"

definition unsupported_operation :: "string \<Rightarrow> app_error" where
  "unsupported_operation kind =
     error_with_details UnsupportedRetrievalOperation
       (''unsupported retrieval operation '' @ [CHR 0x27] @ kind @ [CHR 0x27])
       (JObj [(''operation'', JStr kind), (''supported'', text_list retrieval_operation_names)])"

definition validate_retrieval_operation :: "string \<Rightarrow> json_object \<Rightarrow> app_error + unit" where
  "validate_retrieval_operation kind op =
     (case retrieval_contract kind of
        None \<Rightarrow> Inl (unsupported_operation kind)
      | Some spec \<Rightarrow>
          (case validate_fields spec op MissingOperationField UnknownOperationField ''retrieval operation'' of
             Inl e \<Rightarrow> Inl e
           | Inr _ \<Rightarrow>
               (case fold_res (\<lambda>_ field. require_non_empty_string op field InvalidOperationField ''retrieval operation'')
                       () (filter (\<lambda>field. field \<noteq> ''operation'') (spec_required spec)) of
                  Inl e \<Rightarrow> Inl e
                | Inr _ \<Rightarrow>
                    if kind = ''symbols_overview'' \<and> \<not> overview_scope_given op
                    then Inl (error_with_details MissingOperationField ''symbols_overview requires path or paths''
                           (JObj [(''operation'', JStr kind), (''required_any'', text_list [''path'', ''paths''])]))
                    else if (case map_of op ''paths'' of None \<Rightarrow> False | Some v \<Rightarrow> \<not> string_array v)
                    then Inl (error_with_details InvalidOperationField
                           ''retrieval operation paths must be an array of strings''
                           (JObj [(''operation'', JStr kind), (''field'', JStr ''paths'')]))
                    else if (case map_of op ''response_detail'' of
                               None \<Rightarrow> False
                             | Some v \<Rightarrow> (case json_as_str v of None \<Rightarrow> True | Some d \<Rightarrow> d \<notin> set response_details))
                    then Inl (error_with_details InvalidOperationField
                           ''response_detail must be compact, standard, or debug''
                           (JObj [(''operation'', JStr kind), (''field'', JStr ''response_detail'')]))
                    else Inr ())))"

section \<open>Typed fields\<close>

definition default_max_results :: nat where "default_max_results = 20"
definition protocol_max_results :: nat where "protocol_max_results = 200"
definition default_context_lines :: nat where "default_context_lines = 2"
definition max_context_lines :: nat where "max_context_lines = 20"
definition default_read_max_chars :: nat where "default_read_max_chars = 30000"
definition max_read_max_chars :: nat where "max_read_max_chars = 200000"
definition max_surrounding_lines :: nat where "max_surrounding_lines = 200"

record retrieval_input =
  ri_id :: "string option"
  ri_operation :: string
  ri_name :: "string option"
  ri_symbol :: "string option"
  ri_pattern :: "string option"
  ri_syntax :: "string option"
  ri_target :: "string option"
  ri_value :: "string option"
  ri_path :: "string option"
  ri_paths :: "string list option"
  ri_max_results :: "nat option"
  ri_context_lines :: "nat option"
  ri_case_sensitive :: "bool option"
  ri_reference_scope :: "string option"
  ri_reference_kinds :: "string list option"
  ri_definition_path :: "string option"
  ri_definition_line :: "nat option"
  ri_start_line :: "nat option"
  ri_end_line :: "nat option"
  ri_surrounding_lines :: "nat option"
  ri_include_imports :: "bool option"
  ri_max_chars :: "nat option"
  ri_response_detail :: "string option"

definition empty_input :: retrieval_input where
  "empty_input =
     \<lparr>ri_id = None, ri_operation = [], ri_name = None, ri_symbol = None, ri_pattern = None, ri_syntax = None,
      ri_target = None, ri_value = None, ri_path = None, ri_paths = None, ri_max_results = None,
      ri_context_lines = None, ri_case_sensitive = None, ri_reference_scope = None, ri_reference_kinds = None,
      ri_definition_path = None, ri_definition_line = None, ri_start_line = None, ri_end_line = None,
      ri_surrounding_lines = None, ri_include_imports = None, ri_max_chars = None, ri_response_detail = None\<rparr>"

text \<open>A vector of strings, or the path of its first element of another type.\<close>

fun string_items :: "nat \<Rightarrow> json list \<Rightarrow> nat + string list" where
  "string_items n [] = Inr []"
| "string_items n (v # vs) =
     (case json_as_str v of
        None \<Rightarrow> Inl n
      | Some s \<Rightarrow> (case string_items (Suc n) vs of Inl k \<Rightarrow> Inl k | Inr ss \<Rightarrow> Inr (s # ss)))"

definition strings_field :: "string \<Rightarrow> json \<Rightarrow> string + string list" where
  "strings_field field v =
     (case json_as_array v of
        None \<Rightarrow> Inl field
      | Some vs \<Rightarrow> (case string_items 0 vs of
            Inl k \<Rightarrow> Inl (field @ ''['' @ show_nat k @ '']'') | Inr ss \<Rightarrow> Inr ss))"

text \<open>One field of the input, or the path of the value that has the wrong type.\<close>

definition typed_field :: "string \<Rightarrow> json \<Rightarrow> retrieval_input \<Rightarrow> string + retrieval_input" where
  "typed_field field v ri =
     (let text = (\<lambda>set. case json_as_str v of None \<Rightarrow> Inl field | Some s \<Rightarrow> Inr (set s));
          number = (\<lambda>set. case json_as_u64 v of None \<Rightarrow> Inl field | Some n \<Rightarrow> Inr (set n));
          flag = (\<lambda>set. case json_as_bool v of None \<Rightarrow> Inl field | Some b \<Rightarrow> Inr (set b));
          texts = (\<lambda>set. case strings_field field v of Inl p \<Rightarrow> Inl p | Inr ss \<Rightarrow> Inr (set ss))
      in if field = ''id'' then text (\<lambda>s. ri\<lparr>ri_id := Some s\<rparr>)
         else if field = ''operation'' then text (\<lambda>s. ri\<lparr>ri_operation := s\<rparr>)
         else if field = ''name'' then text (\<lambda>s. ri\<lparr>ri_name := Some s\<rparr>)
         else if field = ''symbol'' then text (\<lambda>s. ri\<lparr>ri_symbol := Some s\<rparr>)
         else if field = ''pattern'' then text (\<lambda>s. ri\<lparr>ri_pattern := Some s\<rparr>)
         else if field = ''syntax'' then text (\<lambda>s. ri\<lparr>ri_syntax := Some s\<rparr>)
         else if field = ''target'' then text (\<lambda>s. ri\<lparr>ri_target := Some s\<rparr>)
         else if field = ''value'' then text (\<lambda>s. ri\<lparr>ri_value := Some s\<rparr>)
         else if field = ''path'' then text (\<lambda>s. ri\<lparr>ri_path := Some s\<rparr>)
         else if field = ''paths'' then texts (\<lambda>ss. ri\<lparr>ri_paths := Some ss\<rparr>)
         else if field = ''max_results'' then number (\<lambda>n. ri\<lparr>ri_max_results := Some n\<rparr>)
         else if field = ''context_lines'' then number (\<lambda>n. ri\<lparr>ri_context_lines := Some n\<rparr>)
         else if field = ''case_sensitive'' then flag (\<lambda>b. ri\<lparr>ri_case_sensitive := Some b\<rparr>)
         else if field = ''reference_scope'' then text (\<lambda>s. ri\<lparr>ri_reference_scope := Some s\<rparr>)
         else if field = ''reference_kinds'' then texts (\<lambda>ss. ri\<lparr>ri_reference_kinds := Some ss\<rparr>)
         else if field = ''definition_path'' then text (\<lambda>s. ri\<lparr>ri_definition_path := Some s\<rparr>)
         else if field = ''definition_line'' then number (\<lambda>n. ri\<lparr>ri_definition_line := Some n\<rparr>)
         else if field = ''start_line'' then number (\<lambda>n. ri\<lparr>ri_start_line := Some n\<rparr>)
         else if field = ''end_line'' then number (\<lambda>n. ri\<lparr>ri_end_line := Some n\<rparr>)
         else if field = ''surrounding_lines'' then number (\<lambda>n. ri\<lparr>ri_surrounding_lines := Some n\<rparr>)
         else if field = ''include_imports'' then flag (\<lambda>b. ri\<lparr>ri_include_imports := Some b\<rparr>)
         else if field = ''max_chars'' then number (\<lambda>n. ri\<lparr>ri_max_chars := Some n\<rparr>)
         else if field = ''response_detail'' then text (\<lambda>s. ri\<lparr>ri_response_detail := Some s\<rparr>)
         else Inl field)"

type_synonym serde_error = "string \<Rightarrow> json_object \<Rightarrow> string"

definition typed_operation :: "serde_error \<Rightarrow> string \<Rightarrow> json_object \<Rightarrow> app_error + retrieval_input" where
  "typed_operation serde kind op =
     (let present = filter (\<lambda>(_, v). \<not> json_is_null v) op
      in case fold_res (\<lambda>ri (field, v). typed_field field v ri) empty_input present of
           Inr ri \<Rightarrow> Inr ri
         | Inl field \<Rightarrow>
             Inl (error_with_details InvalidOperationField
               (''retrieval operation field '' @ [CHR 0x27] @ field @ [CHR 0x27] @ '' is invalid: ''
                  @ serde field present)
               (JObj [(''operation'', JStr kind), (''field'', JStr field)])))"

section \<open>Requests\<close>

record filename_query =
  fq_name :: string
  fq_case_sensitive :: bool

datatype search_target =
    TextTarget text_query
  | FilenameTarget filename_query
  | SymbolTarget string
  | ReferencesTarget reference_query
  | OutlineTarget
  | RepoMapTarget

record search_request =
  sr_target :: search_target
  sr_paths :: "string list"
  sr_max_results :: nat

datatype read_target =
    ReadPath string "nat option" "nat option"
  | ReadHandle string
  | ReadSymbol string "string option" nat bool
  | ReadMetadata string
  | ReadBashStatus string
  | ReadBashLog string
  | ReadContinuation string

record read_operation =
  rd_target :: read_target
  rd_max_chars :: nat
  rd_compact :: bool

datatype prepared_operation = SearchOperation search_request | ReadOperation read_operation

definition scope_paths :: "retrieval_input \<Rightarrow> string list" where
  "scope_paths ri =
     (let paths = (case ri_paths ri of None \<Rightarrow> [] | Some ps \<Rightarrow> ps)
      in case ri_path ri of
           None \<Rightarrow> paths
         | Some path \<Rightarrow> if path \<in> set paths then paths else paths @ [path])"

text \<open>A required string field that must not be blank.\<close>

definition required_text :: "string \<Rightarrow> string option \<Rightarrow> app_error + string" where
  "required_text field v =
     (let blank = error_with_details InvalidOperationField
            (''retrieval operation field '' @ [CHR 0x27] @ field @ [CHR 0x27] @ '' must be a non-empty string'')
            (JObj [(''field'', JStr field)])
      in case v of
           None \<Rightarrow> Inl blank
         | Some s \<Rightarrow> if trim s \<noteq> [] then Inr s else Inl blank)"

definition or_default :: "'a \<Rightarrow> 'a option \<Rightarrow> 'a" where
  "or_default d v = (case v of None \<Rightarrow> d | Some x \<Rightarrow> x)"

fun parse_kinds :: "string list \<Rightarrow> app_error + reference_kind list" where
  "parse_kinds [] = Inr []"
| "parse_kinds (k # ks) =
     (case reference_kind_parse k of
        None \<Rightarrow> Inl (error_invalid ''reference_kinds contains an unsupported kind'')
      | Some kind \<Rightarrow> (case parse_kinds ks of Inl e \<Rightarrow> Inl e | Inr kinds \<Rightarrow> Inr (kind # kinds)))"

definition reference_query_of :: "retrieval_input \<Rightarrow> nat \<Rightarrow> app_error + reference_query" where
  "reference_query_of ri context_lines =
     (case required_text ''symbol'' (ri_symbol ri) of
        Inl e \<Rightarrow> Inl e
      | Inr symbol \<Rightarrow>
          (case (case ri_reference_scope ri of None \<Rightarrow> Some ScopeAll | Some v \<Rightarrow> reference_scope_parse v) of
             None \<Rightarrow> Inl (error_invalid ''reference_scope must be all, production, or tests'')
           | Some scope \<Rightarrow>
               (case parse_kinds (or_default [] (ri_reference_kinds ri)) of
                  Inl e \<Rightarrow> Inl e
                | Inr kinds \<Rightarrow>
                    Inr \<lparr>rq_symbol = symbol, rq_scope = scope, rq_kinds = kinds,
                         rq_definition_path = ri_definition_path ri,
                         rq_definition_line = ri_definition_line ri, rq_context_lines = context_lines\<rparr>)))"

definition read_target_of :: "retrieval_input \<Rightarrow> string \<Rightarrow> string \<Rightarrow> app_error + read_target" where
  "read_target_of ri target v =
     (if target = ''path'' then Inr (ReadPath v (ri_start_line ri) (ri_end_line ri))
      else if target = ''handle'' then Inr (ReadHandle v)
      else if target = ''symbol''
      then Inr (ReadSymbol v (ri_path ri) (min (or_default 0 (ri_surrounding_lines ri)) max_surrounding_lines)
                 (or_default False (ri_include_imports ri)))
      else if target = ''metadata'' then Inr (ReadMetadata v)
      else if target = ''bash_status'' then Inr (ReadBashStatus v)
      else if target = ''bash_log'' then Inr (ReadBashLog v)
      else if target = ''continuation'' then Inr (ReadContinuation v)
      else Inl (error_with_details UnsupportedReadTarget
             (''unsupported read target '' @ [CHR 0x27] @ target @ [CHR 0x27])
             (JObj [(''target'', JStr target), (''supported'', text_list read_targets)])))"

definition read_operation_of :: "retrieval_input \<Rightarrow> app_error + read_operation" where
  "read_operation_of ri =
     (case required_text ''target'' (ri_target ri) of
        Inl e \<Rightarrow> Inl e
      | Inr target \<Rightarrow>
          (case required_text ''value'' (ri_value ri) of
             Inl e \<Rightarrow> Inl e
           | Inr v \<Rightarrow>
               (case read_target_of ri target v of
                  Inl e \<Rightarrow> Inl e
                | Inr t \<Rightarrow>
                    Inr \<lparr>rd_target = t,
                         rd_max_chars = min (or_default default_read_max_chars (ri_max_chars ri)) max_read_max_chars,
                         rd_compact = (ri_response_detail ri = Some ''compact'')\<rparr>)))"

definition search_target_of ::
    "string \<Rightarrow> retrieval_input \<Rightarrow> nat \<Rightarrow> app_error + search_target" where
  "search_target_of kind ri context_lines =
     (let case_sensitive = or_default False (ri_case_sensitive ri)
      in if kind = ''find_file''
      then map_sum id (\<lambda>n. FilenameTarget \<lparr>fq_name = n, fq_case_sensitive = case_sensitive\<rparr>)
             (required_text ''name'' (ri_name ri))
      else if kind = ''find_symbol'' then map_sum id SymbolTarget (required_text ''symbol'' (ri_symbol ri))
      else if kind = ''search_text''
      then (case required_text ''pattern'' (ri_pattern ri) of
              Inl e \<Rightarrow> Inl e
            | Inr pattern \<Rightarrow>
                (case (case ri_syntax ri of None \<Rightarrow> Some Literal | Some v \<Rightarrow> text_syntax_parse v) of
                   None \<Rightarrow> Inl (error_with_details InvalidOperationField ''search_text syntax must be literal or regex''
                             (JObj [(''operation'', JStr kind), (''field'', JStr ''syntax'')]))
                 | Some syntax \<Rightarrow>
                     Inr (TextTarget \<lparr>tq_pattern = pattern, tq_syntax = syntax, tq_case_sensitive = case_sensitive,
                                      tq_context_lines = context_lines\<rparr>)))
      else if kind = ''find_references'' then map_sum id ReferencesTarget (reference_query_of ri context_lines)
      else if kind = ''symbols_overview''
      then (if scope_paths ri = [] then Inl (error_invalid ''symbols_overview requires path or paths'')
            else Inr OutlineTarget)
      else if kind = ''repo_map'' then Inr RepoMapTarget
      else Inl (unsupported_operation kind))"

definition parse_operation :: "string \<Rightarrow> retrieval_input \<Rightarrow> app_error + prepared_operation" where
  "parse_operation kind ri =
     (if kind = ''read'' then map_sum id ReadOperation (read_operation_of ri)
      else case search_target_of kind ri (min (or_default default_context_lines (ri_context_lines ri)) max_context_lines) of
             Inl e \<Rightarrow> Inl e
           | Inr target \<Rightarrow>
               Inr (SearchOperation \<lparr>sr_target = target, sr_paths = scope_paths ri,
                      sr_max_results = or_default default_max_results (ri_max_results ri)\<rparr>))"

definition prepare_retrieval_operation ::
    "serde_error \<Rightarrow> string \<Rightarrow> json_object \<Rightarrow> app_error + prepared_operation" where
  "prepare_retrieval_operation serde kind op =
     (case validate_retrieval_operation kind op of
        Inl e \<Rightarrow> Inl e
      | Inr _ \<Rightarrow>
          (case typed_operation serde kind op of
             Inl e \<Rightarrow> Inl e
           | Inr ri \<Rightarrow> parse_operation kind ri))"

section \<open>Properties\<close>

text \<open>What a prepared operation satisfies whatever the request said.\<close>

fun search_target_ok :: "search_target \<Rightarrow> string list \<Rightarrow> bool" where
  "search_target_ok (TextTarget q) paths \<longleftrightarrow> trim (tq_pattern q) \<noteq> [] \<and> tq_context_lines q \<le> 20"
| "search_target_ok (FilenameTarget q) paths \<longleftrightarrow> trim (fq_name q) \<noteq> []"
| "search_target_ok (SymbolTarget n) paths \<longleftrightarrow> trim n \<noteq> []"
| "search_target_ok (ReferencesTarget q) paths \<longleftrightarrow> trim (rq_symbol q) \<noteq> [] \<and> rq_context_lines q \<le> 20"
| "search_target_ok OutlineTarget paths \<longleftrightarrow> paths \<noteq> []"
| "search_target_ok RepoMapTarget paths \<longleftrightarrow> True"

fun read_target_ok :: "read_target \<Rightarrow> bool" where
  "read_target_ok (ReadPath v _ _) \<longleftrightarrow> trim v \<noteq> []"
| "read_target_ok (ReadSymbol v _ n _) \<longleftrightarrow> trim v \<noteq> [] \<and> n \<le> 200"
| "read_target_ok (ReadHandle v) \<longleftrightarrow> trim v \<noteq> []"
| "read_target_ok (ReadMetadata v) \<longleftrightarrow> trim v \<noteq> []"
| "read_target_ok (ReadBashStatus v) \<longleftrightarrow> trim v \<noteq> []"
| "read_target_ok (ReadBashLog v) \<longleftrightarrow> trim v \<noteq> []"
| "read_target_ok (ReadContinuation v) \<longleftrightarrow> trim v \<noteq> []"

fun prepared_ok :: "string \<Rightarrow> prepared_operation \<Rightarrow> bool" where
  "prepared_ok kind (SearchOperation r) \<longleftrightarrow> kind \<noteq> ''read'' \<and> search_target_ok (sr_target r) (sr_paths r)"
| "prepared_ok kind (ReadOperation r) \<longleftrightarrow>
     kind = ''read'' \<and> read_target_ok (rd_target r) \<and> rd_max_chars r \<le> 200000"

lemma required_text_Inr: "required_text field v = Inr s \<longleftrightarrow> v = Some s \<and> trim s \<noteq> []"
  by (auto simp: required_text_def Let_def split: option.splits if_splits)

lemma map_sum_Inr: "map_sum id g r = Inr y \<longleftrightarrow> (\<exists>x. r = Inr x \<and> y = g x)"
  by (cases r) auto

lemma reference_query_ofD:
  "reference_query_of ri c = Inr q \<Longrightarrow> trim (rq_symbol q) \<noteq> [] \<and> rq_context_lines q = c"
  by (auto simp: reference_query_of_def required_text_Inr split: sum.splits option.splits)

lemma read_operation_ofD:
  "read_operation_of ri = Inr r \<Longrightarrow> read_target_ok (rd_target r) \<and> rd_max_chars r \<le> 200000"
  by (auto simp: read_operation_of_def read_target_of_def required_text_Inr max_read_max_chars_def
      max_surrounding_lines_def split: sum.splits if_splits)

lemma search_target_ofD:
  "search_target_of kind ri c = Inr t \<Longrightarrow> c \<le> 20 \<Longrightarrow> search_target_ok t (scope_paths ri)"
  by (auto simp: search_target_of_def Let_def map_sum_Inr required_text_Inr dest!: reference_query_ofD
      split: if_splits sum.splits option.splits)

lemma validate_fieldsD:
  "validate_fields spec obj c1 c2 ctx = Inr u \<Longrightarrow>
     set (map fst obj) \<subseteq> set (allowed_fields spec)
     \<and> (\<forall>k \<in> set (spec_required spec). \<exists>v. map_of obj k = Some v \<and> v \<noteq> JNull)"
  by (auto simp: validate_fields_def Let_def filter_empty_conv json_is_null_def
      split: if_splits option.splits json.splits)

text \<open>C30. A prepared retrieval operation stays within the published limits. It is an operation
  with a contract, all of its fields are fields of that contract and the required ones are
  present; a search has a query that is not blank and at most 20 context lines, an overview has
  a path, and a read has a value that is not blank, at most 200 surrounding lines and at most
  200,000 characters.\<close>

theorem prepared_operation_within_limits:
  assumes "prepare_retrieval_operation serde kind op = Inr p"
  shows "prepared_ok kind p \<and> (\<exists>spec. retrieval_contract kind = Some spec
     \<and> set (map fst op) \<subseteq> set (allowed_fields spec)
     \<and> (\<forall>k \<in> set (spec_required spec). \<exists>v. map_of op k = Some v \<and> v \<noteq> JNull))"
proof -
  from assms obtain ri where v: "validate_retrieval_operation kind op = Inr ()"
    and p: "parse_operation kind ri = Inr p"
    by (auto simp: prepare_retrieval_operation_def split: sum.splits)
  have "prepared_ok kind p"
    using p read_operation_ofD search_target_ofD
    by (auto simp: parse_operation_def map_sum_Inr max_context_lines_def split: if_splits sum.splits)
  moreover obtain spec u where "retrieval_contract kind = Some spec"
    "validate_fields spec op MissingOperationField UnknownOperationField ''retrieval operation'' = Inr u"
    using v by (auto simp: validate_retrieval_operation_def split: option.splits sum.splits)
  ultimately show ?thesis using validate_fieldsD by blast
qed

theorem prepared_operation_within_limits_witness:
  "let op = [(''context_lines'', JNum 99), (''operation'', JStr ''search_text''), (''pattern'', JStr ''x'')] in
   \<exists>p. prepare_retrieval_operation (\<lambda>_ _. []) ''search_text'' op = Inr p \<and> prepared_ok ''search_text'' p
     \<and> (\<exists>spec. retrieval_contract ''search_text'' = Some spec \<and> set (map fst op) \<subseteq> set (allowed_fields spec)
          \<and> (\<forall>k \<in> set (spec_required spec). \<exists>v. map_of op k = Some v \<and> v \<noteq> JNull))"
proof -
  have t: "trim ''x'' = ''x''" by (simp add: trim_printable_ends printable_def)
  let ?op = "[(''context_lines'', JNum 99), (''operation'', JStr ''search_text''), (''pattern'', JStr ''x'')]"
  have "validate_retrieval_operation ''search_text'' ?op = Inr ()"
    by (simp add: validate_retrieval_operation_def retrieval_contract_def retrieval_contracts_def
        validate_fields_def allowed_fields_def require_non_empty_string_def non_empty_string_def
        json_is_null_def json_as_str_def t)
  moreover have "typed_operation (\<lambda>_ _. []) ''search_text'' ?op
      = Inr (empty_input\<lparr>ri_context_lines := Some 99, ri_operation := ''search_text'', ri_pattern := Some ''x''\<rparr>)"
    by (simp add: typed_operation_def typed_field_def json_is_null_def json_as_str_def json_as_u64_def)
  ultimately have "prepare_retrieval_operation (\<lambda>_ _. []) ''search_text'' ?op
      = Inr (SearchOperation \<lparr>sr_target = TextTarget \<lparr>tq_pattern = ''x'', tq_syntax = Literal,
          tq_case_sensitive = False, tq_context_lines = 20\<rparr>, sr_paths = [], sr_max_results = 20\<rparr>)"
    by (simp add: prepare_retrieval_operation_def parse_operation_def search_target_of_def required_text_def
        or_default_def scope_paths_def empty_input_def default_context_lines_def max_context_lines_def
        default_max_results_def t)
  from this prepared_operation_within_limits [OF this] show ?thesis unfolding Let_def by blast
qed

text \<open>A null \<open>paths\<close> or \<open>response_detail\<close> is not counted as omitted: the contract check
  looks at the value before the nulls are dropped.\<close>

theorem null_paths_are_rejected:
  assumes "retrieval_contract kind = Some spec" "map_of op ''paths'' = Some JNull"
  shows "\<exists>e. prepare_retrieval_operation serde kind op = Inl e"
  using assms
  by (auto simp: prepare_retrieval_operation_def validate_retrieval_operation_def string_array_def
      json_as_array_def split: sum.splits option.splits if_splits)

theorem null_paths_are_rejected_witness:
  "\<exists>e. prepare_retrieval_operation (\<lambda>_ _. []) ''repo_map''
     [(''operation'', JStr ''repo_map''), (''paths'', JNull)] = Inl e"
  by (rule null_paths_are_rejected) (simp_all add: retrieval_contract_def retrieval_contracts_def)

end
