(* ===== verification/Workspace_Fetch.thy ===== *)
theory Workspace_Fetch
  imports Retrieval_Request Workspace_Report
begin

text \<open>
  Exact reads (\<open>src/workspace/fetch.rs\<close>): a file or a range of its lines, a symbol, metadata,
  a Bash run's status or log, and the next page of an earlier read. The payload of a handle
  and of a continuation (JSON in base64) and the rendering of a time are the fields of
  \<open>fetch_env\<close>. The reads of a batch under \<open>cfg(test)\<close> are left out.
\<close>

section \<open>Scopes and continuations\<close>

datatype fetch_scope = FullScope | LineScope nat nat

record fetch_continuation =
  fc_workspace_id :: string
  fc_path :: string
  fc_offset :: nat
  fc_content_hash :: string
  fc_scope :: fetch_scope

record fetch_precondition =
  pc_expected_hash :: string
  pc_missing_code :: error_code
  pc_missing_message :: string
  pc_stale_code :: error_code
  pc_stale_message :: string

text \<open>How a payload fails to decode: its base64, or the JSON in it.\<close>

datatype payload_fault = NotBase64 string | NotJson string

record fetch_env =
  fv_workspace_id :: string
  fv_handle_payload :: "range_handle \<Rightarrow> string"
  fv_handle_decode :: "string \<Rightarrow> string + range_handle"
  fv_payload :: "fetch_continuation \<Rightarrow> app_error + string"
  fv_decode :: "string \<Rightarrow> payload_fault + fetch_continuation"
  fv_show_time :: "nat \<Rightarrow> string"

definition encode_fetch_continuation :: "fetch_env \<Rightarrow> fetch_continuation \<Rightarrow> app_error + string" where
  "encode_fetch_continuation env c =
     (case fv_payload env c of Inl e \<Rightarrow> Inl e | Inr payload \<Rightarrow> Inr (''fetch:'' @ payload))"

definition decode_fetch_continuation :: "fetch_env \<Rightarrow> string \<Rightarrow> app_error + fetch_continuation" where
  "decode_fetch_continuation env v =
     (case strip_prefix ''fetch:'' v of
        None \<Rightarrow> Inl (error_new InvalidContinuation ''Unsupported continuation'')
      | Some payload \<Rightarrow>
          (case fv_decode env payload of
             Inl (NotBase64 m) \<Rightarrow> Inl (error_new InvalidContinuation m)
           | Inl (NotJson m) \<Rightarrow> Inl (error_new InvalidJson m)
           | Inr c \<Rightarrow> Inr c))"

definition scope_from_bounds :: "nat option \<Rightarrow> nat option \<Rightarrow> fetch_scope" where
  "scope_from_bounds start stop =
     (if start = None \<and> stop = None then FullScope
      else let start_line = max (or_default 1 start) 1
           in LineScope start_line (max (or_default usize_max stop) start_line))"

section \<open>Pages\<close>

text \<open>The bytes of a page, and where the next one begins.\<close>

definition page_bounds :: "string \<Rightarrow> nat \<Rightarrow> nat \<Rightarrow> nat \<times> nat" where
  "page_bounds content offset limit =
     (let start = floor_char_boundary content offset
      in (start, floor_char_boundary content (saturating_add start limit)))"

definition opt_json :: "('a \<Rightarrow> json) \<Rightarrow> 'a option \<Rightarrow> json" where
  "opt_json f v = (case v of None \<Rightarrow> JNull | Some x \<Rightarrow> f x)"

definition bounded_content ::
    "(string \<times> json) list \<Rightarrow> string \<Rightarrow> nat \<Rightarrow> nat \<Rightarrow> (nat \<Rightarrow> string option) option \<Rightarrow> json" where
  "bounded_content base content offset limit continuation =
     (case page_bounds content offset limit of (start, stop) \<Rightarrow>
        let next = (if stop < length content then Option.bind continuation (\<lambda>build. build stop) else None)
        in JObj (obj_insert ''continuation'' (opt_json JStr next)
             (obj_insert ''total_chars'' (JNum (int (length content)))
               (obj_insert ''offset'' (JNum (int start))
                 (obj_insert ''content'' (JStr (take (stop - start) (drop start content))) base)))))"

text \<open>The lines a scope selects, and their text.\<close>

definition file_lines :: "file_entry \<Rightarrow> nat" where
  "file_lines f = max (length (str_lines (fe_content f))) 1"

definition scope_content :: "file_entry \<Rightarrow> fetch_scope \<Rightarrow> string \<times> nat \<times> nat" where
  "scope_content f scope =
     (case scope of
        FullScope \<Rightarrow> (fe_content f, 1, file_lines f)
      | LineScope start_line end_line \<Rightarrow>
          let line_count = file_lines f;
              first = min (max start_line 1) line_count;
              final = min (max end_line first) line_count
          in (slice_lines (fe_content f) first final, first, final))"

definition build_fetch_response :: "fetch_env \<Rightarrow> file_entry \<Rightarrow> fetch_scope \<Rightarrow> nat \<Rightarrow> nat \<Rightarrow> json" where
  "build_fetch_response env f scope offset limit =
     (case scope_content f scope of (content, start_line, end_line) \<Rightarrow>
        let handle = encode_handle (fv_handle_payload env)
              \<lparr>rh_workspace_id = fv_workspace_id env, rh_path = fe_path f, rh_start_line = start_line,
               rh_end_line = end_line, rh_content_hash = fe_hash f\<rparr>;
            continuation = (\<lambda>next_offset.
              case encode_fetch_continuation env
                     \<lparr>fc_workspace_id = fv_workspace_id env, fc_path = fe_path f, fc_offset = next_offset,
                      fc_content_hash = fe_hash f, fc_scope = scope\<rparr> of
                Inl _ \<Rightarrow> None | Inr token \<Rightarrow> Some token)
        in bounded_content
             [(''path'', JStr (fe_path f)), (''hash'', JStr (fe_hash f)),
              (''line_ending'', JStr (line_ending_label (fe_content f))),
              (''start_line'', JNum (int start_line)), (''end_line'', JNum (int end_line)),
              (''handle'', JStr handle)]
             content offset limit (Some continuation))"

section \<open>Reads of a file\<close>

definition path_not_indexed :: "string \<Rightarrow> app_error" where
  "path_not_indexed path =
     error_with_details PathNotIndexed ''File is not indexed'' (JObj [(''path'', JStr path)])"

definition fetch_indexed_path ::
    "fetch_env \<Rightarrow> code_index \<Rightarrow> string \<Rightarrow> fetch_scope \<Rightarrow> nat \<Rightarrow> nat \<Rightarrow> fetch_precondition option
     \<Rightarrow> app_error + json" where
  "fetch_indexed_path env ci path scope offset limit precondition =
     (case index_get ci path of
        None \<Rightarrow> Inl (case precondition of
                  None \<Rightarrow> path_not_indexed path
                | Some c \<Rightarrow> error_new (pc_missing_code c) (pc_missing_message c))
      | Some f \<Rightarrow>
          (case precondition of
             None \<Rightarrow> Inr (build_fetch_response env f scope offset limit)
           | Some c \<Rightarrow>
               if fe_hash f \<noteq> pc_expected_hash c
               then Inl (error_with_details (pc_stale_code c) (pc_stale_message c)
                      (JObj [(''path'', JStr (fe_path f)), (''expected_hash'', JStr (pc_expected_hash c)),
                             (''actual_hash'', JStr (fe_hash f))]))
               else Inr (build_fetch_response env f scope offset limit)))"

definition document_type_json :: "document_type \<Rightarrow> json" where
  "document_type_json t = JStr (case t of
     Source \<Rightarrow> ''source'' | Test \<Rightarrow> ''test'' | Instruction \<Rightarrow> ''instruction''
   | RuntimeEvidence \<Rightarrow> ''runtime_evidence'' | Artifact \<Rightarrow> ''artifact'' | Log \<Rightarrow> ''log'')"

definition fetch_metadata :: "code_index \<Rightarrow> string \<Rightarrow> app_error + json" where
  "fetch_metadata ci path =
     (case index_get ci path of
        None \<Rightarrow> Inl (path_not_indexed path)
      | Some f \<Rightarrow> Inr (JObj
          [(''kind'', JStr ''metadata''), (''path'', JStr (fe_path f)), (''hash'', JStr (fe_hash f)),
           (''size'', JNum (int (fe_size f))), (''language'', JStr (fe_language f)),
           (''document_type'', document_type_json (fe_document_type f)),
           (''line_count'', JNum (int (file_lines f))), (''modified_ns'', JNum (int (fe_modified_ns f)))]))"

section \<open>Reads of a symbol\<close>

definition import_prefixes :: "string list" where
  "import_prefixes = [''use '', ''pub use '', ''extern crate '', ''import '', ''from '', ''package '']"

definition lexical_import_prelude :: "file_entry \<Rightarrow> nat \<Rightarrow> json list" where
  "lexical_import_prelude f before_line =
     map (\<lambda>(i, line). JObj [(''line'', JNum (int (i + 1))), (''text'', JStr line)])
       (filter (\<lambda>(_, line). list_ex (starts_with (trim_start line)) import_prefixes)
         (enumerate 0 (take (before_line - 1) (str_lines (fe_content f)))))"

text \<open>\<open>split_once("::")\<close>\<close>

definition split_path_selector :: "string \<Rightarrow> (string \<times> string) option" where
  "split_path_selector s =
     (case match_indices s ''::'' of [] \<Rightarrow> None | i # _ \<Rightarrow> Some (take i s, drop (i + 2) s))"

definition symbol_scope :: "code_index \<Rightarrow> string \<Rightarrow> string option \<Rightarrow> string option \<times> string" where
  "symbol_scope ci symbol_name requested_path =
     (case requested_path of
        Some path \<Rightarrow> (Some path, symbol_name)
      | None \<Rightarrow>
          (case split_path_selector symbol_name of
             None \<Rightarrow> (None, symbol_name)
           | Some (path, name) \<Rightarrow>
               if name \<noteq> [] \<and> index_get ci path \<noteq> None then (Some path, name) else (None, symbol_name)))"

definition fetch_candidate :: "fetch_env \<Rightarrow> symbol_definition \<Rightarrow> json" where
  "fetch_candidate env found = (case found of (path, s, hash) \<Rightarrow>
     JObj [(''path'', JStr path), (''symbol'', JStr (sy_name s)), (''kind'', JStr (sy_kind s)),
           (''start_line'', JNum (int (sy_start_line s))), (''end_line'', JNum (int (sy_end_line s))),
           (''signature'', JStr (sy_signature s)),
           (''handle'', JStr (encode_handle (fv_handle_payload env)
              \<lparr>rh_workspace_id = fv_workspace_id env, rh_path = path, rh_start_line = sy_start_line s,
               rh_end_line = sy_end_line s, rh_content_hash = hash\<rparr>))])"

definition fetch_symbol ::
    "fetch_env \<Rightarrow> code_index \<Rightarrow> string \<Rightarrow> string option \<Rightarrow> nat \<Rightarrow> nat \<Rightarrow> bool \<Rightarrow> app_error + json" where
  "fetch_symbol env ci name requested limit context_lines include_imports =
     (case symbol_scope ci name requested of (requested_path, symbol_name) \<Rightarrow>
        (case find_symbols ci requested_path symbol_name of
           [] \<Rightarrow> Inl (error_with_details SymbolNotFound ''Symbol not found''
                   (JObj [(''symbol'', JStr symbol_name), (''path'', opt_json JStr requested_path)]))
         | [(path, s, _)] \<Rightarrow>
             (case index_get ci path of
                None \<Rightarrow> Inl (error_with_details PathNotIndexed ''Symbol path is not indexed''
                          (JObj [(''path'', JStr path), (''symbol'', JStr symbol_name)]))
              | Some f \<Rightarrow>
                  let start_line = max (sy_start_line s - context_lines) 1;
                      end_line = min (saturating_add (sy_end_line s) context_lines) (file_lines f)
                  in (case build_fetch_response env f (LineScope start_line end_line) 0 limit of
                        JObj kvs \<Rightarrow>
                          let kvs1 = obj_insert ''symbol'' (symbol_json s) kvs
                          in Inr (JObj (if include_imports
                               then obj_insert ''imports'' (JArr (lexical_import_prelude f start_line)) kvs1
                               else kvs1))
                      | other \<Rightarrow> Inr other))
         | candidates \<Rightarrow>
             Inl (error_with_details AmbiguousSymbol
               ''Symbol name matches multiple declarations; specify path or fetch a candidate handle''
               (JObj [(''symbol'', JStr symbol_name),
                      (''candidates'', JArr (map (fetch_candidate env) (take 20 candidates)))]))))"

section \<open>Read targets\<close>

definition bash_view_json :: "fetch_env \<Rightarrow> bash_run_view \<Rightarrow> json" where
  "bash_view_json env v =
     JObj [(''run_id'', JStr (bv_run_id v)), (''status'', JStr (status_as_str (bv_status v))),
           (''command'', JStr (bv_command v)), (''cwd'', JStr (bv_cwd v)),
           (''started_at'', JStr (fv_show_time env (bv_started_at v))),
           (''ended_at'', opt_json (\<lambda>t. JStr (fv_show_time env t)) (bv_ended_at v)),
           (''exit_code'', opt_json JNum (bv_exit_code v)),
           (''output'', JStr (chars_str (bv_output v))), (''output_truncated'', JBool (bv_output_truncated v)),
           (''retention_policy'', JStr (bv_retention_policy v)),
           (''dropped_prefix_chars'', JNum (int (bv_dropped_prefix_chars v))),
           (''retained_start_offset'', JNum (int (bv_retained_start_offset v))),
           (''log_handle'', JStr (bv_log_handle v)), (''status_fetch'', bv_status_fetch v),
           (''pid'', opt_json (\<lambda>n. JNum (int n)) (bv_pid v))]"

definition handle_precondition :: "string \<Rightarrow> fetch_precondition" where
  "handle_precondition hash =
     \<lparr>pc_expected_hash = hash, pc_missing_code = StaleHandle,
      pc_missing_message = ''Handle path no longer exists'', pc_stale_code = StaleHandle,
      pc_stale_message = ''File changed after handle creation''\<rparr>"

definition continuation_precondition :: "string \<Rightarrow> fetch_precondition" where
  "continuation_precondition hash =
     \<lparr>pc_expected_hash = hash, pc_missing_code = StaleContinuation,
      pc_missing_message = ''Continuation path no longer exists'', pc_stale_code = StaleContinuation,
      pc_stale_message = ''File changed after continuation creation''\<rparr>"

definition without_prefix :: "string \<Rightarrow> string \<Rightarrow> string" where
  "without_prefix p v = (case strip_prefix p v of None \<Rightarrow> v | Some rest \<Rightarrow> rest)"

definition read_handle :: "fetch_env \<Rightarrow> code_index \<Rightarrow> string \<Rightarrow> nat \<Rightarrow> app_error + json" where
  "read_handle env ci v remaining =
     (case decode_handle (fv_handle_decode env) v of
        Inl e \<Rightarrow> Inl e
      | Inr h \<Rightarrow>
          if rh_workspace_id h \<noteq> fv_workspace_id env
          then Inl (error_new InvalidHandle ''Handle belongs to another workspace'')
          else fetch_indexed_path env ci (rh_path h) (LineScope (rh_start_line h) (rh_end_line h)) 0 remaining
                 (Some (handle_precondition (rh_content_hash h))))"

definition read_continuation :: "fetch_env \<Rightarrow> code_index \<Rightarrow> string \<Rightarrow> nat \<Rightarrow> app_error + json" where
  "read_continuation env ci v remaining =
     (case decode_fetch_continuation env v of
        Inl e \<Rightarrow> Inl e
      | Inr c \<Rightarrow>
          if fc_workspace_id c \<noteq> fv_workspace_id env
          then Inl (error_new InvalidContinuation ''Continuation belongs to another workspace'')
          else fetch_indexed_path env ci (fc_path c) (fc_scope c) (fc_offset c) remaining
                 (Some (continuation_precondition (fc_content_hash c))))"

text \<open>\<open>None\<close> where the view of a run panics.\<close>

fun workspace_read_target ::
    "fetch_env \<Rightarrow> code_index \<Rightarrow> supervisor \<Rightarrow> read_target \<Rightarrow> nat \<Rightarrow> (app_error + json) option" where
  "workspace_read_target env ci sv (ReadPath path start_line end_line) remaining =
     Some (fetch_indexed_path env ci path (scope_from_bounds start_line end_line) 0 remaining None)"
| "workspace_read_target env ci sv (ReadHandle v) remaining = Some (read_handle env ci v remaining)"
| "workspace_read_target env ci sv (ReadSymbol name path context_lines include_imports) remaining =
     Some (fetch_symbol env ci name path remaining context_lines include_imports)"
| "workspace_read_target env ci sv (ReadMetadata path) remaining = Some (fetch_metadata ci path)"
| "workspace_read_target env ci sv (ReadBashStatus v) remaining =
     map_option (map_sum id (bash_view_json env)) (status_with_limit sv (without_prefix ''bash:'' v) remaining)"
| "workspace_read_target env ci sv (ReadBashLog v) remaining =
     map_option (map_sum id (\<lambda>content. bounded_content
         [(''kind'', JStr ''bash_log''), (''run_id'', JStr (without_prefix ''bash-log:'' v))]
         (chars_str content) 0 remaining None))
       (read_output sv (without_prefix ''bash-log:'' v))"
| "workspace_read_target env ci sv (ReadContinuation v) remaining = Some (read_continuation env ci v remaining)"

definition compact_fields :: "string list" where
  "compact_fields = [''kind'', ''path'', ''hash'', ''content'', ''line_ending'', ''run_id'', ''status'', ''exit_code'',
     ''output'', ''output_truncated'', ''language'', ''document_type'', ''line_count'', ''size'', ''modified_ns'',
     ''imports'']"

definition compact_fetch_result :: "json \<Rightarrow> json" where
  "compact_fetch_result result =
     JObj (List.map_filter (\<lambda>field. map_option (Pair field) (json_get result field)) compact_fields)"

section \<open>Following the continuations\<close>

text \<open>Reading page after page: the text of the pages, or \<open>None\<close> when an error or the bound
  on the number of pages stops it.\<close>

primrec read_pages_of :: "nat \<Rightarrow> fetch_env \<Rightarrow> code_index \<Rightarrow> nat \<Rightarrow> app_error + json \<Rightarrow> string option" where
  "read_pages_of 0 env ci limit r = None"
| "read_pages_of (Suc n) env ci limit r =
     (case r of
        Inl e \<Rightarrow> None
      | Inr j \<Rightarrow>
          (case Option.bind (json_get j ''content'') json_as_str of
             None \<Rightarrow> None
           | Some text \<Rightarrow>
               (case Option.bind (json_get j ''continuation'') json_as_str of
                  None \<Rightarrow> Some text
                | Some token \<Rightarrow>
                    map_option (\<lambda>rest. text @ rest)
                      (read_pages_of n env ci limit (read_continuation env ci token limit)))))"

section \<open>Character boundaries\<close>








lemma encode_char_bytes:
  assumes "c < 0x110000"
  shows "\<not> is_continuation (encode_char c ! 0)"
    and "0 < i \<Longrightarrow> i < len_utf8 c \<Longrightarrow> is_continuation (encode_char c ! i)"
  using assms
  by (auto simp: encode_char_def is_continuation_def len_utf8_def Let_def nth_Cons' of_char_of split: if_splits)



section \<open>Properties\<close>

definition fetch_token_of :: "fetch_env \<Rightarrow> file_entry \<Rightarrow> fetch_scope \<Rightarrow> nat \<Rightarrow> fetch_continuation" where
  "fetch_token_of env f scope offset =
     \<lparr>fc_workspace_id = fv_workspace_id env, fc_path = fe_path f, fc_offset = offset,
      fc_content_hash = fe_hash f, fc_scope = scope\<rparr>"

text \<open>The payload of a continuation of this read decodes to it.\<close>

definition fetch_codec_ok :: "fetch_env \<Rightarrow> file_entry \<Rightarrow> fetch_scope \<Rightarrow> bool" where
  "fetch_codec_ok env f scope \<longleftrightarrow>
     (\<forall>offset. \<exists>payload. fv_payload env (fetch_token_of env f scope offset) = Inr payload
        \<and> fv_decode env payload = Inr (fetch_token_of env f scope offset))"

lemma json_get_insert: "json_get (JObj (obj_insert k v kvs)) k' = (if k' = k then Some v else json_get (JObj kvs) k')"
  by (simp add: json_get_def)

lemma fetch_page:
  assumes "page_bounds (fst (scope_content f scope)) offset limit = (start, stop)" "fetch_codec_ok env f scope"
  shows "json_get (build_fetch_response env f scope offset limit) ''content''
      = Some (JStr (take (stop - start) (drop start (fst (scope_content f scope)))))"
    and "stop < length (fst (scope_content f scope)) \<Longrightarrow>
      \<exists>payload. json_get (build_fetch_response env f scope offset limit) ''continuation''
          = Some (JStr (''fetch:'' @ payload))
        \<and> fv_decode env payload = Inr (fetch_token_of env f scope stop)"
    and "length (fst (scope_content f scope)) \<le> stop \<Longrightarrow>
      json_get (build_fetch_response env f scope offset limit) ''continuation'' = Some JNull"
proof -
  obtain content a b where sc: "scope_content f scope = (content, a, b)" by (metis prod_cases3)
  from assms(2) obtain payload where p: "fv_payload env (fetch_token_of env f scope stop) = Inr payload"
    "fv_decode env payload = Inr (fetch_token_of env f scope stop)"
    unfolding fetch_codec_ok_def by blast
  show "json_get (build_fetch_response env f scope offset limit) ''content''
      = Some (JStr (take (stop - start) (drop start (fst (scope_content f scope)))))"
    using assms(1) sc
    by (simp add: build_fetch_response_def bounded_content_def Let_def json_get_insert del: obj_insert.simps)
  show "\<exists>payload. json_get (build_fetch_response env f scope offset limit) ''continuation''
          = Some (JStr (''fetch:'' @ payload))
        \<and> fv_decode env payload = Inr (fetch_token_of env f scope stop)"
    if "stop < length (fst (scope_content f scope))"
    using that assms(1) sc p
    by (simp add: build_fetch_response_def bounded_content_def Let_def json_get_insert opt_json_def
        encode_fetch_continuation_def fetch_token_of_def del: obj_insert.simps)
  show "json_get (build_fetch_response env f scope offset limit) ''continuation'' = Some JNull"
    if "length (fst (scope_content f scope)) \<le> stop"
    using that assms(1) sc
    by (simp add: build_fetch_response_def bounded_content_def Let_def json_get_insert opt_json_def del: obj_insert.simps)
qed

lemma read_continuation_token:
  assumes "fv_decode env payload = Inr (fetch_token_of env f scope offset)" "index_get ci (fe_path f) = Some f"
  shows "read_continuation env ci (''fetch:'' @ payload) limit = Inr (build_fetch_response env f scope offset limit)"
  using assms
  by (simp add: read_continuation_def decode_fetch_continuation_def fetch_token_of_def fetch_indexed_path_def
      continuation_precondition_def del: append_Cons append.simps)


lemma index_get_own_path: "index_get ci path = Some f \<Longrightarrow> index_get ci (fe_path f) = Some f"
  using index_lookup_Some [of ci "normalize_path_text path" f] by (simp add: index_get_def)


definition sample_fetch_env :: fetch_env where
  "sample_fetch_env =
     \<lparr>fv_workspace_id = ''w'', fv_handle_payload = (\<lambda>_. ''h''), fv_handle_decode = (\<lambda>_. Inl ''bad''),
      fv_payload = (\<lambda>c. Inr (replicate (fc_offset c) CHR ''1'')),
      fv_decode = (\<lambda>s. Inr \<lparr>fc_workspace_id = ''w'', fc_path = ''a.rs'', fc_offset = length s,
        fc_content_hash = ''1'', fc_scope = FullScope\<rparr>),
      fv_show_time = show_nat\<rparr>"

definition sample_fetch_index :: code_index where
  "sample_fetch_index =
     \<lparr>ci_files = [entry_with_symbols ''a.rs'' ''abcdefghij'' ''1'' [] 0 0], ci_symbol_index = [], ci_snapshot_acc = []\<rparr>"

lemma sample_path_normal: "normalize_path_text ''a.rs'' = ''a.rs''"
  by code_simp


text \<open>A page narrower than the next character holds nothing, and its continuation leads back to
  itself.\<close>

theorem narrow_page_never_advances:
  assumes "index_get ci path = Some f" "fst (scope_content f scope) = encode_char c @ rest"
    and "c < 0x110000" "limit < len_utf8 c" "fetch_codec_ok env f scope"
  shows "read_pages_of n env ci limit (fetch_indexed_path env ci path scope 0 limit None) = None"
proof -
  let ?content = "fst (scope_content f scope)"
  have "floor_boundary ?content n = 0" if "n < len_utf8 c" for n
    using that encode_char_bytes(2) [OF assms(3)] unfolding assms(2)
    by (induction n) (auto simp: nth_append)
  moreover have "saturating_add 0 limit < len_utf8 c" using assms(4) by (simp add: saturating_add_def)
  ultimately have p: "page_bounds ?content 0 limit = (0, 0)"
    using assms(2) by (simp add: page_bounds_def floor_char_boundary_def)
  have l: "0 < length ?content" using assms(2) len_utf8_pos [of c] by simp
  from fetch_page(2) [OF p assms(5) l] obtain payload where
    t: "json_get (build_fetch_response env f scope 0 limit) ''continuation'' = Some (JStr (''fetch:'' @ payload))"
    "fv_decode env payload = Inr (fetch_token_of env f scope 0)" by blast
  have "read_pages_of n env ci limit (Inr (build_fetch_response env f scope 0 limit)) = None"
  proof (induction n)
    case (Suc n)
    then show ?case
      using fetch_page(1) [OF p assms(5)] t(1)
        read_continuation_token [OF t(2) index_get_own_path [OF assms(1)], of limit]
      by (simp add: json_as_str_def del: append_Cons append.simps)
  qed simp
  then show ?thesis using assms(1) by (simp add: fetch_indexed_path_def)
qed

theorem narrow_page_never_advances_witness:
  "\<forall>n. read_pages_of n sample_fetch_env
     (sample_fetch_index\<lparr>ci_files := [entry_with_symbols ''a.rs'' (encode_char 233) ''1'' [] 0 0]\<rparr>) 1
     (fetch_indexed_path sample_fetch_env
       (sample_fetch_index\<lparr>ci_files := [entry_with_symbols ''a.rs'' (encode_char 233) ''1'' [] 0 0]\<rparr>)
       ''a.rs'' FullScope 0 1 None) = None"
proof
  fix n
  let ?f = "entry_with_symbols ''a.rs'' (encode_char 233) ''1'' [] 0 0"
  have i: "index_get (sample_fetch_index\<lparr>ci_files := [?f]\<rparr>) ''a.rs'' = Some ?f"
    by (simp add: index_get_def index_lookup_def entry_with_symbols_def sample_path_normal)
  have c: "fst (scope_content ?f FullScope) = encode_char 233 @ []"
    by (simp add: scope_content_def entry_with_symbols_def)
  have k: "fetch_codec_ok sample_fetch_env ?f FullScope"
    by (simp add: fetch_codec_ok_def sample_fetch_env_def fetch_token_of_def entry_with_symbols_def)
  show "read_pages_of n sample_fetch_env (sample_fetch_index\<lparr>ci_files := [?f]\<rparr>) 1
     (fetch_indexed_path sample_fetch_env (sample_fetch_index\<lparr>ci_files := [?f]\<rparr>) ''a.rs'' FullScope 0 1 None) = None"
    by (rule narrow_page_never_advances [OF i c _ _ k]) (simp_all add: len_utf8_def)
qed

end
