(* ===== verification/Retrieval.thy ===== *)
theory Retrieval
  imports Workspace_Fetch Edit_Commit
begin

text \<open>
  \<open>code_retrieve\<close>: one search of the index with its result limits (\<open>src/retrieval/mod.rs\<close>), and
  the batch of operations of one call (\<open>src/workspace/retrieve.rs\<close>, the request of
  \<open>src/requests/retrieval.rs\<close>). Phase times are left out.
\<close>

section \<open>One search\<close>

record result_limits =
  lm_requested :: nat
  lm_applied :: nat
  lm_configured_max :: nat

definition result_limits_new :: "nat \<Rightarrow> nat \<Rightarrow> result_limits" where
  "result_limits_new requested configured_max =
     \<lparr>lm_requested = requested, lm_applied = min (min requested protocol_max_results) configured_max,
      lm_configured_max = configured_max\<rparr>"

definition limits_warning :: "result_limits \<Rightarrow> string option" where
  "limits_warning l =
     (if lm_applied l < lm_requested l
      then Some (if lm_configured_max l < protocol_max_results
             then ''Requested '' @ show_nat (lm_requested l) @ '' results; the effective configured maximum is ''
                    @ show_nat (lm_configured_max l) @ ''.''
             else ''Requested '' @ show_nat (lm_requested l) @ '' results; protocol maximum is ''
                    @ show_nat protocol_max_results @ ''.'')
      else None)"

record outline_error =
  oe_index :: nat
  oe_path :: string
  oe_error :: app_error

datatype outlines_reply =
    OneOutline outline_result
  | Outlines string "outline_result list" "outline_error list"

definition partial_success :: "'a list \<Rightarrow> 'b list \<Rightarrow> bool" where
  "partial_success results errors \<longleftrightarrow> results \<noteq> [] \<and> errors \<noteq> []"

definition outlines :: "code_index \<Rightarrow> string \<Rightarrow> string list \<Rightarrow> app_error + outlines_reply" where
  "outlines ci snapshot_id paths =
     (case paths of
        [] \<Rightarrow> Inl (error_with_details InvalidOutlinePath
                ''Outline requires a file path in query or exactly one paths entry''
                (JObj [(''paths_count'', JNum 0), (''retryable'', JBool True),
                       (''retry_kind'', JStr ''retry_with_changes''), (''suggested_calls'', JArr [])]))
      | [path] \<Rightarrow> map_sum id OneOutline (outline ci path)
      | _ \<Rightarrow>
          Inr (Outlines snapshot_id
            (List.map_filter (\<lambda>path. case outline ci path of Inl _ \<Rightarrow> None | Inr r \<Rightarrow> Some r) paths)
            (List.map_filter (\<lambda>(i, path). case outline ci path of
                Inl e \<Rightarrow> Some \<lparr>oe_index = i, oe_path = path, oe_error = e\<rparr> | Inr _ \<Rightarrow> None) (enumerate 0 paths))))"

datatype search_result =
    TextResult text_results
  | FilenamesResult filename_results
  | SymbolsResult "symbol_match list"
  | ReferencesResult reference_response
  | OutlineResult outlines_reply
  | RepoMapResult repo_map_result

record search_reply =
  sr_result :: search_result
  sr_reconcile_pending :: bool
  sr_limits :: result_limits
  sr_warning :: "string option"

definition search_result_of ::
    "symbol_env \<Rightarrow> search_env \<Rightarrow> code_index \<Rightarrow> search_scope \<Rightarrow> search_request \<Rightarrow> app_error + search_result" where
  "search_result_of senv env ci scope q =
     (case sr_target q of
        TextTarget t \<Rightarrow> map_sum id TextResult (search_text env ci scope t)
      | FilenameTarget t \<Rightarrow> map_sum id FilenamesResult (search_filenames env ci scope (fq_name t) (fq_case_sensitive t))
      | SymbolTarget name \<Rightarrow> Inr (SymbolsResult (search_symbols env ci scope name))
      | ReferencesTarget t \<Rightarrow> map_sum id ReferencesResult (fallback senv env ci scope t)
      | OutlineTarget \<Rightarrow> map_sum id OutlineResult (outlines ci (ss_snapshot_id scope) (sr_paths q))
      | RepoMapTarget \<Rightarrow> Inr (RepoMapResult (repo_map ci scope)))"

definition execute_index_search ::
    "symbol_env \<Rightarrow> search_env \<Rightarrow> code_index \<Rightarrow> string \<Rightarrow> string \<Rightarrow> search_request \<Rightarrow> nat \<Rightarrow> bool
     \<Rightarrow> app_error + search_reply" where
  "execute_index_search senv env ci workspace_id snapshot_id q configured_max pending =
     (let limits = result_limits_new (sr_max_results q) configured_max;
          scope = \<lparr>ss_workspace_id = workspace_id, ss_snapshot_id = snapshot_id, ss_paths = sr_paths q,
                   ss_max_results = lm_applied limits\<rparr>
      in map_sum id (\<lambda>r. \<lparr>sr_result = r, sr_reconcile_pending = pending, sr_limits = limits,
                            sr_warning = limits_warning limits\<rparr>)
           (search_result_of senv env ci scope q))"

section \<open>A batch\<close>

definition stale_snapshot :: "string \<Rightarrow> string \<Rightarrow> app_error" where
  "stale_snapshot expected actual = stale_snapshot_for_paths expected actual []"

record code_retrieve_request =
  cq_operations :: "json list"
  cq_fail_fast :: bool
  cq_snapshot_id :: "string option"

datatype retrieved = Searched search_reply | Read json

record retrieve_env =
  re_symbols :: symbol_env
  re_search :: search_env
  re_fetch :: fetch_env
  re_serde :: serde_error
  re_config :: ws_config

text \<open>The state a batch reads: the reconciled index and its stamp, the ledger, the Bash runs.\<close>

definition search_index ::
    "retrieve_env \<Rightarrow> 'd actor \<Rightarrow> search_request \<Rightarrow> app_error + search_reply" where
  "search_index env ac q =
     (let rc = ws_rc (ac_ws ac)
      in execute_index_search (re_symbols env) (re_search env) (rc_index rc) (wc_id (re_config env))
           (rc_snapshot_id rc) q (wc_max_search_results (re_config env)) (lg_needs_reconcile (ws_ledger (ac_ws ac))))"

definition execute_retrieval_operation ::
    "retrieve_env \<Rightarrow> 'd actor \<Rightarrow> string \<Rightarrow> json_object \<Rightarrow> (app_error + retrieved) option" where
  "execute_retrieval_operation env ac kind op =
     (case prepare_retrieval_operation (re_serde env) kind op of
        Inl e \<Rightarrow> Some (Inl e)
      | Inr (SearchOperation q) \<Rightarrow> Some (map_sum id Searched (search_index env ac q))
      | Inr (ReadOperation r) \<Rightarrow>
          map_option (map_sum id (\<lambda>j. Read (if rd_compact r then compact_fetch_result j else j)))
            (workspace_read_target (re_fetch env) (rc_index (ws_rc (ac_ws ac))) (ac_bash ac) (rd_target r) (rd_max_chars r)))"

text \<open>What the batch reports for one operation.\<close>

datatype 'r batch_entry =
    Answered (entry_id: string) string 'r
  | Refused (entry_id: string) json app_error

definition operation_id :: "nat \<Rightarrow> json_object \<Rightarrow> string" where
  "operation_id index op =
     (case Option.bind (map_of op ''id'') json_as_str of
        Some s \<Rightarrow> if trim s \<noteq> [] then s else ''op_'' @ show_nat (index + 1)
      | None \<Rightarrow> ''op_'' @ show_nat (index + 1))"

definition operation_kind :: "json_object \<Rightarrow> string option" where
  "operation_kind op =
     (case Option.bind (map_of op ''operation'') json_as_str of
        Some s \<Rightarrow> if trim s \<noteq> [] then Some s else None
      | None \<Rightarrow> None)"

definition duplicate_id :: "string \<Rightarrow> app_error" where
  "duplicate_id i =
     error_with_details DuplicateRetrievalOperationId
       (''duplicate retrieval operation id '' @ [CHR 0x27] @ i @ [CHR 0x27]) (JObj [(''id'', JStr i)])"

text \<open>One turn of the loop: the ids seen so far, and the entry (\<open>None\<close> for a panic). \<open>exec\<close> takes the
  position of the operation too, for each one reads the workspace at its own moment.\<close>

definition retrieve_one ::
    "(nat \<Rightarrow> string \<Rightarrow> json_object \<Rightarrow> (app_error + 'r) option) \<Rightarrow> nat \<Rightarrow> string set \<Rightarrow> json
     \<Rightarrow> (string set \<times> 'r batch_entry) option" where
  "retrieve_one exec index seen v =
     (case json_as_object v of
        None \<Rightarrow> Some (seen, Refused (''op_'' @ show_nat (index + 1)) JNull
                  (error_invalid ''retrieval operations must be objects''))
      | Some op \<Rightarrow>
          let i = operation_id index op;
              name = (case map_of op ''operation'' of None \<Rightarrow> JNull | Some n \<Rightarrow> n)
          in if i \<in> seen then Some (seen, Refused i name (duplicate_id i))
             else case operation_kind op of
               None \<Rightarrow> Some (insert i seen, Refused i JNull (error_invalid ''retrieval operation requires operation''))
             | Some kind \<Rightarrow>
                 (case exec index kind op of
                    None \<Rightarrow> None
                  | Some (Inl e) \<Rightarrow> Some (insert i seen, Refused i (JStr kind) e)
                  | Some (Inr r) \<Rightarrow> Some (insert i seen, Answered i kind r)))"

fun is_refused :: "'r batch_entry \<Rightarrow> bool" where
  "is_refused (Refused _ _ _) = True"
| "is_refused (Answered _ _ _) = False"

text \<open>The loop collects results and errors apart.\<close>

fun retrieve_loop ::
    "(nat \<Rightarrow> string \<Rightarrow> json_object \<Rightarrow> (app_error + 'r) option) \<Rightarrow> bool \<Rightarrow> nat \<Rightarrow> string set \<Rightarrow> json list
     \<Rightarrow> 'r batch_entry list \<Rightarrow> 'r batch_entry list \<Rightarrow> ('r batch_entry list \<times> 'r batch_entry list) option" where
  "retrieve_loop exec fail_fast index seen [] results errors = Some (results, errors)"
| "retrieve_loop exec fail_fast index seen (v # vs) results errors =
     (case retrieve_one exec index seen v of
        None \<Rightarrow> None
      | Some (seen', entry) \<Rightarrow>
          if is_refused entry
          then (if fail_fast then Some (results, errors @ [entry])
                else retrieve_loop exec fail_fast (Suc index) seen' vs results (errors @ [entry]))
          else retrieve_loop exec fail_fast (Suc index) seen' vs (results @ [entry]) errors)"

record 'r batch_reply =
  br_snapshot_id :: string
  br_operation_count :: nat
  br_executed_count :: nat
  br_partial_success :: bool
  br_results :: "'r batch_entry list"
  br_errors :: "'r batch_entry list"

definition retrieve_batch ::
    "(nat \<Rightarrow> string \<Rightarrow> json_object \<Rightarrow> (app_error + 'r) option) \<Rightarrow> string \<Rightarrow> code_retrieve_request
     \<Rightarrow> (app_error + 'r batch_reply) option" where
  "retrieve_batch exec snapshot q =
     (let ops = cq_operations q
      in if ops = [] then Some (Inl (error_invalid ''code_retrieve operations[] cannot be empty''))
         else if max_retrieval_operations < length ops
         then Some (Inl (error_with_details TooManyRetrievalOperations
                (''code_retrieve accepts at most '' @ show_nat max_retrieval_operations @ '' operations'')
                (JObj [(''requested'', JNum (int (length ops))), (''maximum'', JNum (int max_retrieval_operations))])))
         else case (case cq_snapshot_id q of
                      None \<Rightarrow> None
                    | Some expected \<Rightarrow> if expected \<noteq> snapshot then Some (stale_snapshot expected snapshot) else None) of
             Some e \<Rightarrow> Some (Inl e)
           | None \<Rightarrow>
               map_option (\<lambda>(results, errors). Inr
                   \<lparr>br_snapshot_id = snapshot, br_operation_count = length ops,
                    br_executed_count = length results + length errors,
                    br_partial_success = partial_success results errors, br_results = results, br_errors = errors\<rparr>)
                 (retrieve_loop exec (cq_fail_fast q) 0 {} ops [] []))"

text \<open>The stamp is read once, from the first state; the \<open>k\<close>-th operation reads the state \<open>later k\<close>.\<close>

definition code_retrieve ::
    "retrieve_env \<Rightarrow> 'd actor \<Rightarrow> (nat \<Rightarrow> 'd actor) \<Rightarrow> code_retrieve_request
     \<Rightarrow> (app_error + retrieved batch_reply) option" where
  "code_retrieve env ac later q =
     retrieve_batch (\<lambda>k. execute_retrieval_operation env (later k))
       (st_snapshot_id (read_stamp (ws_rc (ac_ws ac)))) q"

section \<open>Properties\<close>

text \<open>The entries of a batch follow its operations.\<close>

definition entries_follow ::
    "(nat \<Rightarrow> string \<Rightarrow> json_object \<Rightarrow> (app_error + 'r) option) \<Rightarrow> nat \<Rightarrow> json list \<Rightarrow> 'r batch_entry list \<Rightarrow> bool" where
  "entries_follow exec index ops entries \<longleftrightarrow>
     length entries \<le> length ops
     \<and> (\<forall>k < length entries. \<exists>seen seen'. retrieve_one exec (index + k) seen (ops ! k) = Some (seen', entries ! k))"

text \<open>Without an early stop every operation has its entry; with it, a refusal is the last one.\<close>

definition stops_as_asked :: "bool \<Rightarrow> nat \<Rightarrow> 'r batch_entry list \<Rightarrow> bool" where
  "stops_as_asked fail_fast n entries \<longleftrightarrow>
     (fail_fast \<longrightarrow> list_all (\<lambda>e. \<not> is_refused e) (butlast entries))
     \<and> (length entries < n \<longrightarrow> fail_fast \<and> entries \<noteq> [] \<and> is_refused (last entries))"

lemma retrieve_one_seen:
  "retrieve_one exec index seen v = Some (seen', entry) \<Longrightarrow>
     seen \<subseteq> seen' \<and> (\<not> is_refused entry \<longrightarrow> entry_id entry \<notin> seen \<and> entry_id entry \<in> seen')"
  by (auto simp: retrieve_one_def Let_def split: option.splits if_splits sum.splits)

lemma retrieve_loop_spec:
  "retrieve_loop exec fail_fast index seen vs results errors = Some (results', errors') \<Longrightarrow>
   \<exists>entries. results' = results @ filter (\<lambda>e. \<not> is_refused e) entries
     \<and> errors' = errors @ filter is_refused entries
     \<and> entries_follow exec index vs entries \<and> stops_as_asked fail_fast (length vs) entries
     \<and> distinct (map entry_id (filter (\<lambda>e. \<not> is_refused e) entries))
     \<and> entry_id ` set (filter (\<lambda>e. \<not> is_refused e) entries) \<inter> seen = {}"
proof (induction vs arbitrary: index seen results errors)
  case Nil
  then show ?case by (intro exI [of _ "[]"]) (simp add: entries_follow_def stops_as_asked_def)
next
  case (Cons v vs)
  from Cons.prems obtain seen1 entry where one: "retrieve_one exec index seen v = Some (seen1, entry)"
    by (auto split: option.splits)
  note seen = retrieve_one_seen [OF one]
  show ?case
  proof (cases "is_refused entry \<and> fail_fast")
    case True
    then show ?thesis using Cons.prems one
      by (intro exI [of _ "[entry]"]) (auto simp: entries_follow_def stops_as_asked_def)
  next
    case False
    then have "retrieve_loop exec fail_fast (Suc index) seen1 vs
        (results @ filter (\<lambda>e. \<not> is_refused e) [entry]) (errors @ filter is_refused [entry]) = Some (results', errors')"
      using Cons.prems one by (auto split: if_splits)
    from Cons.IH [OF this] obtain entries where e:
      "results' = results @ filter (\<lambda>e. \<not> is_refused e) (entry # entries)"
      "errors' = errors @ filter is_refused (entry # entries)"
      "entries_follow exec (Suc index) vs entries" "stops_as_asked fail_fast (length vs) entries"
      "distinct (map entry_id (filter (\<lambda>e. \<not> is_refused e) entries))"
      "entry_id ` set (filter (\<lambda>e. \<not> is_refused e) entries) \<inter> seen1 = {}"
      by (cases "is_refused entry") fastforce+
    have "entries_follow exec index (v # vs) (entry # entries)"
      using e(3) one by (auto simp: entries_follow_def nth_Cons' gr0_conv_Suc less_Suc_eq_0_disj)
    moreover have "stops_as_asked fail_fast (length (v # vs)) (entry # entries)"
      using e(4) False by (auto simp: stops_as_asked_def)
    ultimately show ?thesis using e seen
      by (intro exI [of _ "entry # entries"]) (auto simp: disjoint_iff)
  qed
qed

text \<open>C29. A batch answers its operations in their order. The results and errors of a reply are
  the answered and refused entries of one list whose k-th entry belongs to the k-th operation,
  its counts are theirs and no two results share an id; without \<open>fail_fast\<close> every operation has
  its entry, with it the first refusal is the last entry. A reply is made only for a batch of
  at most twelve operations whose snapshot, when it names one, is the one current at its start. The
  workspace may change between the operations: each entry is about the state its operation reads.\<close>

theorem batch_answers_in_order:
  assumes "code_retrieve env ac later q = Some (Inr b)"
  shows "\<exists>entries. entries_follow (\<lambda>k. execute_retrieval_operation env (later k)) 0 (cq_operations q) entries
     \<and> stops_as_asked (cq_fail_fast q) (length (cq_operations q)) entries
     \<and> br_results b = filter (\<lambda>e. \<not> is_refused e) entries \<and> br_errors b = filter is_refused entries
     \<and> br_executed_count b = length entries \<and> distinct (map entry_id (br_results b))
     \<and> length (cq_operations q) \<le> 12 \<and> cq_snapshot_id q \<in> {None, Some (br_snapshot_id b)}
     \<and> br_snapshot_id b = rc_snapshot_id (ws_rc (ac_ws ac))"
proof -
  let ?exec = "\<lambda>k. execute_retrieval_operation env (later k)"
  from assms have n: "length (cq_operations q) \<le> 12" "cq_snapshot_id q \<in> {None, Some (br_snapshot_id b)}"
    "br_snapshot_id b = rc_snapshot_id (ws_rc (ac_ws ac))"
    and "retrieve_loop ?exec (cq_fail_fast q) 0 {} (cq_operations q) [] [] = Some (br_results b, br_errors b)"
    and c: "br_executed_count b = length (br_results b) + length (br_errors b)"
    by (auto simp: code_retrieve_def retrieve_batch_def Let_def max_retrieval_operations_def read_stamp_def
        split: if_splits option.splits)
  from retrieve_loop_spec [OF this(4)] obtain entries where e:
    "br_results b = filter (\<lambda>e. \<not> is_refused e) entries" "br_errors b = filter is_refused entries"
    "entries_follow ?exec 0 (cq_operations q) entries"
    "stops_as_asked (cq_fail_fast q) (length (cq_operations q)) entries"
    "distinct (map entry_id (br_results b))" by auto
  have "br_executed_count b = length entries"
    using c e(1,2) sum_length_filter_compl [of is_refused entries] by simp
  with e n show ?thesis by blast
qed

definition sample_retrieve_env :: retrieve_env where
  "sample_retrieve_env =
     \<lparr>re_symbols = sample_symbol_env, re_search = sample_search_env, re_fetch = sample_fetch_env,
      re_serde = (\<lambda>_ _. []), re_config = wp_config sample_params_of\<rparr>"

definition sample_batch :: code_retrieve_request where
  "sample_batch =
     \<lparr>cq_operations = [JObj [(''operation'', JStr ''repo_map'')], JNull], cq_fail_fast = False, cq_snapshot_id = None\<rparr>"

theorem batch_answers_in_order_witness:
  "\<exists>b. code_retrieve sample_retrieve_env sample_actor (\<lambda>_. sample_actor) sample_batch = Some (Inr b)
     \<and> length (br_results b) = 1 \<and> length (br_errors b) = 1
     \<and> br_executed_count b = length (cq_operations sample_batch) \<and> distinct (map entry_id (br_results b))"
proof -
  let ?exec = "\<lambda>_ :: nat. execute_retrieval_operation sample_retrieve_env sample_actor"
    and ?op = "[(''operation'', JStr ''repo_map'')]"
  have "prepare_retrieval_operation (\<lambda>_ _. []) ''repo_map'' ?op
      = Inr (SearchOperation \<lparr>sr_target = RepoMapTarget, sr_paths = [], sr_max_results = 20\<rparr>)"
    by (simp add: prepare_retrieval_operation_def validate_retrieval_operation_def retrieval_contract_def
        retrieval_contracts_def validate_fields_def allowed_fields_def json_is_null_def typed_operation_def
        typed_field_def json_as_str_def parse_operation_def search_target_of_def empty_input_def
        scope_paths_def or_default_def default_max_results_def)
  then obtain r where r: "?exec 0 ''repo_map'' ?op = Some (Inr r)"
    by (simp add: execute_retrieval_operation_def sample_retrieve_env_def search_index_def
        execute_index_search_def search_result_of_def Let_def)
  have t: "trim ''repo_map'' \<noteq> []" by (simp add: trim_printable_ends printable_def)
  have "retrieve_loop ?exec False 0 {} (cq_operations sample_batch) [] []
      = Some ([Answered (''op_'' @ show_nat 1) ''repo_map'' r], [Refused (''op_'' @ show_nat (Suc 1)) JNull (error_invalid ''retrieval operations must be objects'')])"
    using r t
    by (simp add: sample_batch_def retrieve_one_def json_as_object_def operation_id_def operation_kind_def
        json_as_str_def Let_def)
  then obtain b where b: "code_retrieve sample_retrieve_env sample_actor (\<lambda>_. sample_actor) sample_batch = Some (Inr b)"
    "length (br_results b) = 1" "length (br_errors b) = 1"
    by (simp add: code_retrieve_def retrieve_batch_def sample_batch_def max_retrieval_operations_def)
  from batch_answers_in_order [OF b(1)] obtain entries where
    "stops_as_asked (cq_fail_fast sample_batch) (length (cq_operations sample_batch)) entries"
    "br_executed_count b = length entries" "distinct (map entry_id (br_results b))"
    "entries_follow ?exec 0 (cq_operations sample_batch) entries" by blast
  then show ?thesis using b
    by (intro exI [of _ b]) (auto simp: stops_as_asked_def sample_batch_def entries_follow_def)
qed

end
