(* ===== verification/Application.thy ===== *)
theory Application
  imports Lsp_Service Git_Tool Retrieval
begin

text \<open>
  The application over one repository (\<open>src/manager.rs\<close>), the typed configuration it starts from
  (\<open>src/model.rs\<close>), and the tools a client can call: the registry and the call
  (\<open>src/tools/mod.rs\<close>, \<open>src/tools/call.rs\<close>) and the binding of each request type to its operation
  (\<open>src/tools/bindings.rs\<close>, \<open>src/requests/workspace.rs\<close>). Here the workspace, its retrieval, edits,
  git and Bash tools and the language servers come together.
  The state is what \<open>Application\<close> holds: its instance id, and after an initialization the
  configuration, the workspace actor and the language-server workers. Operations share a gate that
  \<open>initialize\<close> takes alone, so an operation works on one repository from start to end: each operation is
  one step on the state, with what other tasks do to the workspace in between as an argument. What a call meets besides the state (times, what other tasks do meanwhile,
  the runners and the git process) is its \<open>call_env\<close>. Parameters: schema derivation and derived
  deserialization and serialization of the requests and replies.
\<close>

section \<open>Configuration\<close>

record policy_config =
  pc_max_file_bytes :: nat
  pc_max_context_chars :: nat
  pc_max_search_results :: nat
  pc_bash :: bash_config

record workspace_settings =
  wse_path :: string
  wse_artifact_paths :: "string list"
  wse_exclude_paths :: "string list"

record intelligence_settings =
  ins_rust :: server_settings
  ins_python :: server_settings
  ins_typescript :: server_settings

record daemon_config =
  dc_config_version :: nat
  dc_workspace :: workspace_settings
  dc_intelligence :: intelligence_settings
  dc_policy :: policy_config
  dc_cache_root :: string

text \<open>What \<open>serde\<close> fills in for absent fields.\<close>

definition default_bash_config :: bash_config where
  "default_bash_config =
     \<lparr>bc_executable = ''bash'', bc_default_timeout_ms = 120000, bc_foreground_budget_ms = 20000,
      bc_max_timeout_ms = 300000, bc_max_output_chars = 30000\<rparr>"

definition default_server_settings :: server_settings where
  "default_server_settings = \<lparr>lss_enabled = False, lss_command = [], lss_args = [], lss_timeout_ms = 10000\<rparr>"

text \<open>\<open>de\<close> is the deserializer, failing at a path of the document with a message.\<close>

definition parse_daemon_config ::
    "(json \<Rightarrow> (string \<times> string) + daemon_config) \<Rightarrow> json \<Rightarrow> app_error + daemon_config" where
  "parse_daemon_config de v =
     (case de v of
        Inr c \<Rightarrow> Inr c
      | Inl (path, m) \<Rightarrow>
          Inl (error_with_details InvalidConfig (''invalid configuration at '' @ path @ '': '' @ m)
                 (JObj [(''path'', JStr path), (''error'', JStr m)])))"

section \<open>The workers of the language servers\<close>

definition settings_of :: "intelligence_settings \<Rightarrow> lsp_preset \<Rightarrow> server_settings" where
  "settings_of s preset =
     (case preset of RustPreset \<Rightarrow> ins_rust s | PythonPreset \<Rightarrow> ins_python s | TypeScriptPreset \<Rightarrow> ins_typescript s)"

text \<open>\<open>Backends::spawn\<close>; \<open>threads\<close> gives the failure to start a worker's thread, if any.\<close>

definition backends_spawn ::
    "(lsp_preset \<Rightarrow> string option) \<Rightarrow> intelligence_settings \<Rightarrow> app_error + lsp_worker list" where
  "backends_spawn threads settings =
     fold_res (\<lambda>ws preset. map_sum id (\<lambda>w. ws @ [w]) (lsp_worker_spawn (threads preset) preset (settings_of settings preset)))
       [] preset_all"

text \<open>One backend of several: it works on the runtime of its own preset.\<close>

definition preset_backend ::
    "(lsp_preset \<Rightarrow> nat \<Rightarrow> worker_moment) \<Rightarrow> lsp_worker \<Rightarrow> (lsp_preset \<Rightarrow> worker) backend" where
  "preset_backend moments w =
     (let p = lw_preset w; one = lsp_backend w (moments p)
      in \<lparr>bk_preset = p, bk_configured = bk_configured one, bk_status = (\<lambda>b. bk_status one (b p)),
          bk_execute = (\<lambda>operation document b t.
             case bk_execute one operation document (b p) t of (r, wk, t') \<Rightarrow> (r, b(p := wk), t'))\<rparr>)"

record intelligence =
  it_workers :: "lsp_worker list"
  it_runtimes :: "lsp_preset \<Rightarrow> worker"

section \<open>The application\<close>

record 'd application =
  ap_instance_id :: string
  ap_config :: "daemon_config option"
  ap_actor :: "('d ws_params \<times> 'd actor) option"
  ap_intelligence :: "intelligence option"

definition application_default :: "string \<Rightarrow> 'd application" where
  "application_default instance_id =
     \<lparr>ap_instance_id = instance_id, ap_config = None, ap_actor = None, ap_intelligence = None\<rparr>"

text \<open>What an initialization meets: the file system around the root and the directory opened at it,
  \<open>DefaultHasher\<close>, git, the compiler of the exclude patterns, the operations the workspace at a root
  works with, the directory of the cache and its files, the watcher, and Bash.\<close>

record ('d, 'c) init_env =
  ie_canonicalize :: "string \<Rightarrow> string + string"
  ie_is_dir :: "string \<Rightarrow> bool"
  ie_hasher :: "string \<Rightarrow> nat"
  ie_git :: "string \<Rightarrow> git_exec"
  ie_open_dir :: "string \<Rightarrow> string + 'd"
  ie_add_line :: "string \<Rightarrow> string + unit"
  ie_build :: "string list \<Rightarrow> string + (string \<Rightarrow> bool \<Rightarrow> bool)"
  ie_env :: "string \<Rightarrow> 'd workspace_env \<times> 'd walk_ops"
  ie_cache_dir :: "string \<Rightarrow> app_error + unit"
  ie_cache_ops :: "'c cache_ops"
  ie_watch :: "app_error + unit"
  ie_probe :: "string \<Rightarrow> string + unit"
  ie_candidates :: "string list"
  ie_open_diagnostics :: "bool \<Rightarrow> json"
  ie_now :: nat
  ie_threads :: "lsp_preset \<Rightarrow> string option"
  ie_runtimes :: "lsp_preset \<Rightarrow> worker"

definition canonical_root :: "(string \<Rightarrow> string + string) \<Rightarrow> (string \<Rightarrow> bool) \<Rightarrow> string \<Rightarrow> app_error + string" where
  "canonical_root canonicalize is_dir path =
     (case canonicalize path of
        Inl e \<Rightarrow> Inl (error_with_details WorkspaceNotFound (''Cannot open workspace: '' @ e) (JObj [(''path'', JStr path)]))
      | Inr root \<Rightarrow>
          if is_dir root then Inr root
          else Inl (error_new WorkspaceNotDirectory ''Workspace root is not a directory''))"

text \<open>\<open>WorkspaceRoot::open\<close>: the canonical path, and the directory below it.\<close>

definition root_open :: "('d, 'c) init_env \<Rightarrow> string \<Rightarrow> app_error + string \<times> 'd" where
  "root_open ie path =
     (case canonical_root (ie_canonicalize ie) (ie_is_dir ie) path of
        Inl e \<Rightarrow> Inl e
      | Inr root \<Rightarrow>
          (case ie_open_dir ie root of
             Inl e \<Rightarrow> Inl (error_with_details WorkspaceNotFound (''Cannot open workspace: '' @ e) (JObj [(''path'', JStr root)]))
           | Inr d \<Rightarrow> Inr (root, d)))"

text \<open>\<open>WorkspaceExclusions::new\<close>; \<open>add_line\<close> and \<open>build\<close> are the compiler of the \<open>ignore\<close> package.\<close>

definition exclude_error :: "string \<Rightarrow> (string \<times> json) \<Rightarrow> app_error" where
  "exclude_error m detail = error_with_details InvalidExcludePattern m (JObj [detail])"

fun add_patterns :: "(string \<Rightarrow> string + unit) \<Rightarrow> string list \<Rightarrow> app_error + string list" where
  "add_patterns add_line [] = Inr []"
| "add_patterns add_line (p # ps) =
     (let normalized = replace_backslash p
      in if trim normalized = [] \<or> starts_with normalized ''!''
         then Inl (exclude_error ''Workspace exclude patterns must be non-empty exclusions'' (''pattern'', JStr p))
         else (case add_line normalized of
                 Inl e \<Rightarrow> Inl (exclude_error e (''pattern'', JStr p))
               | Inr _ \<Rightarrow> map_sum id ((#) normalized) (add_patterns add_line ps)))"

definition exclusions_new :: "('d, 'c) init_env \<Rightarrow> string \<Rightarrow> string list \<Rightarrow> app_error + exclusions" where
  "exclusions_new ie root patterns =
     (case add_patterns (ie_add_line ie) patterns of
        Inl e \<Rightarrow> Inl e
      | Inr lines \<Rightarrow>
          (case ie_build ie lines of
             Inl e \<Rightarrow> Inl (exclude_error e (''patterns'', json_strs patterns))
           | Inr matcher \<Rightarrow>
               Inr \<lparr>ex_normalized_root = normalized_absolute_path
                      (case ie_canonicalize ie root of Inl _ \<Rightarrow> root | Inr canonical \<Rightarrow> canonical),
                    ex_matcher = matcher,
                    ex_canonicalize = (\<lambda>p. case ie_canonicalize ie p of Inl _ \<Rightarrow> None | Inr canonical \<Rightarrow> Some canonical)\<rparr>))"

text \<open>The name is the last component, when there is one.\<close>

definition repository_name :: "string \<Rightarrow> string" where
  "repository_name root =
     (case rev (path_components root) of Normal name # _ \<Rightarrow> name | _ \<Rightarrow> ''Repository'')"

definition hex16 :: "nat \<Rightarrow> string" where
  "hex16 n = concat (map (\<lambda>i. [hex_digit (n div 16 ^ (15 - i) mod 16)]) [0..<16])"

definition single_repo_config :: "('d, 'c) init_env \<Rightarrow> daemon_config \<Rightarrow> app_error + string \<times> ws_config" where
  "single_repo_config ie config =
     (let requested = trim (wse_path (dc_workspace config))
      in if requested = []
         then Inl (error_invalid ''workspace.path is required (absolute path to the repository)'')
         else case canonical_root (ie_canonicalize ie) (ie_is_dir ie) requested of
                Inl e \<Rightarrow> Inl e
              | Inr root \<Rightarrow>
                  Inr (root, \<lparr>wc_id = ''repo-'' @ hex16 (ie_hasher ie root), wc_name = repository_name root,
                     wc_max_context_chars = pc_max_context_chars (dc_policy config),
                     wc_max_search_results = pc_max_search_results (dc_policy config),
                     wc_artifact_paths = wse_artifact_paths (dc_workspace config),
                     wc_exclude_patterns = wse_exclude_paths (dc_workspace config)\<rparr>))"

text \<open>\<open>Workspace::open\<close>: the root is opened again from the configured path, then come the directory
  of the cache and the exclusions, then what \<open>open_workspace\<close> does. The root, the exclusions and the
  file limit are those the workspace works with from then on.\<close>

definition workspace_cache :: "sha256 \<Rightarrow> string \<Rightarrow> string \<Rightarrow> string" where
  "workspace_cache sha cache_root root = path_joined (path_joined cache_root ''repos'') (content_hash sha root)"

definition index_cache_path :: "sha256 \<Rightarrow> string \<Rightarrow> string \<Rightarrow> string" where
  "index_cache_path sha cache_root root = path_joined (workspace_cache sha cache_root root) ''index.json''"

definition opened_env :: "'d workspace_env \<Rightarrow> string \<Rightarrow> exclusions \<Rightarrow> policy_config \<Rightarrow> 'd workspace_env" where
  "opened_env env root ex policy =
     env\<lparr>we_scan := (we_scan env)\<lparr>sc_root := root, sc_exclusions := ex,
                                    sc_max_file_bytes := pc_max_file_bytes policy\<rparr>\<rparr>"

definition actor_open ::
    "('d, 'c) init_env \<Rightarrow> daemon_config \<Rightarrow> string \<Rightarrow> ws_config \<Rightarrow> 'c
     \<Rightarrow> (app_error + 'd ws_params \<times> 'd actor) \<times> 'c" where
  "actor_open ie config path repo c =
     (case root_open ie path of
        Inl e \<Rightarrow> (Inl e, c)
      | Inr (root, d) \<Rightarrow>
          let (offered, wk) = ie_env ie root; sha = sc_sha (we_scan offered)
          in case ie_cache_dir ie (workspace_cache sha (dc_cache_root config) root) of
               Inl e \<Rightarrow> (Inl e, c)
             | Inr _ \<Rightarrow>
                 (case exclusions_new ie root (wc_exclude_patterns repo) of
                    Inl e \<Rightarrow> (Inl e, c)
                  | Inr ex \<Rightarrow>
                      open_workspace (opened_env offered root ex (dc_policy config)) wk (ie_cache_ops ie) repo
                        (index_cache_path sha (dc_cache_root config) root) (ie_watch ie) (ie_probe ie)
                        (ie_candidates ie) (pc_bash (dc_policy config)) (ie_open_diagnostics ie) (ie_now ie) d c))"

record init_info =
  ii_instance_id :: string
  ii_workspace_id :: string
  ii_name :: string
  ii_path :: string
  ii_index_ready :: bool
  ii_file_count :: nat
  ii_bash_available :: bool

text \<open>Everything is built before anything of the application changes.\<close>

definition initialize ::
    "('d, 'c) init_env \<Rightarrow> daemon_config \<Rightarrow> 'd application \<Rightarrow> 'c
     \<Rightarrow> (app_error + init_info) \<times> 'd application \<times> 'c" where
  "initialize ie config app c =
     (if dc_config_version config \<noteq> 2 then (Inl (error_invalid ''configVersion must be 2''), app, c)
      else case single_repo_config ie config of
        Inl e \<Rightarrow> (Inl e, app, c)
      | Inr (root, repo) \<Rightarrow>
          (case require_worktree (ie_git ie root) root of
             Inl e \<Rightarrow> (Inl e, app, c)
           | Inr _ \<Rightarrow>
               (case actor_open ie config root repo c of
                  (Inl e, c1) \<Rightarrow> (Inl e, app, c1)
                | (Inr (wp, ac), c1) \<Rightarrow>
                    (case backends_spawn (ie_threads ie) (dc_intelligence config) of
                       Inl e \<Rightarrow> (Inl e, app, c1)
                     | Inr workers \<Rightarrow>
                         (case launcher_of (ac_bash ac) of
                            Inl e \<Rightarrow> (Inl e, app, c1)
                          | Inr _ \<Rightarrow>
                              (Inr \<lparr>ii_instance_id = ap_instance_id app, ii_workspace_id = wc_id repo,
                                  ii_name = wc_name repo, ii_path = root, ii_index_ready = True,
                                  ii_file_count = index_file_count (rc_index (ws_rc (ac_ws ac))),
                                  ii_bash_available = True\<rparr>,
                               app\<lparr>ap_config := Some config, ap_actor := Some (wp, ac),
                                   ap_intelligence := Some \<lparr>it_workers = workers, it_runtimes = ie_runtimes ie\<rparr>\<rparr>,
                               c1))))))"

definition opt_nat_json :: "nat option \<Rightarrow> json" where
  "opt_nat_json n = (case n of None \<Rightarrow> JNull | Some k \<Rightarrow> JNum (int k))"

definition health :: "string \<Rightarrow> nat \<Rightarrow> 'd application \<Rightarrow> json" where
  "health version now app = JObj
     [(''ok'', JBool True), (''version'', JStr version), (''instance_id'', JStr (ap_instance_id app)),
      (''initialized'', JBool (ap_config app \<noteq> None)), (''index_ready'', JBool (ap_actor app \<noteq> None)),
      (''file_count'',
        opt_nat_json (map_option (\<lambda>(_, ac). index_file_count (rc_index (ws_rc (ac_ws ac)))) (ap_actor app))),
      (''last_reconcile_ms_ago'', opt_nat_json (map_option (\<lambda>(_, ac). now - ac_last_reconcile ac) (ap_actor app)))]"

section \<open>Operations\<close>

text \<open>The reply of an operation: JSON the code builds itself, or a typed reply that is serialized.\<close>

datatype reply =
    ReplyJson json
  | ReplyRetrieved "retrieved batch_reply"
  | ReplyGit git_reply
  | ReplyRun run_report
  | ReplyIntelligence intelligence_response

text \<open>What one call meets. \<open>cv_meanwhile\<close> is what other tasks do to the workspace while the language
  server works or between two operations of a batch; \<open>cv_panic\<close> is the text of a panic caught at the blocking task.\<close>

record 'd call_env =
  cv_now :: nat
  cv_elapsed :: "string \<Rightarrow> nat"
  cv_elapsed_ms :: nat
  cv_show_time :: "nat \<Rightarrow> string"
  cv_serialize :: "reply \<Rightarrow> json"
  cv_panic :: string
  cv_retrieve :: retrieve_env
  cv_edit :: "'d edit_tool_env"
  cv_service :: "'d service_env"
  cv_moments :: "lsp_preset \<Rightarrow> nat \<Rightarrow> worker_moment"
  cv_time :: nat
  cv_meanwhile :: "'d actor \<Rightarrow> 'd actor"
  cv_git :: "'d repository_backend"
  cv_codec :: continuation_codec
  cv_run :: "'d run_env"

definition reply_json :: "'d call_env \<Rightarrow> reply \<Rightarrow> json" where
  "reply_json cv r = (case r of ReplyJson v \<Rightarrow> v | _ \<Rightarrow> cv_serialize cv r)"

definition daemon_not_initialized :: app_error where
  "daemon_not_initialized = error_new NotInitialized ''Daemon has not been initialized with a repository''"

text \<open>An operation on the actor. \<open>None\<close> is a panic that reaches the caller.\<close>

definition on_actor ::
    "('d ws_params \<Rightarrow> 'd actor \<Rightarrow> (app_error + 'r) option \<times> 'd actor) \<Rightarrow> 'd application
     \<Rightarrow> (app_error + 'r) option \<times> 'd application" where
  "on_actor f app =
     (case ap_actor app of
        None \<Rightarrow> (Some (Inl daemon_not_initialized), app)
      | Some (wp, ac) \<Rightarrow> (case f wp ac of (r, ac') \<Rightarrow> (r, app\<lparr>ap_actor := Some (wp, ac')\<rparr>)))"

definition operation ::
    "'d call_env \<Rightarrow> (app_error + reply) option \<times> 'd application \<Rightarrow> (app_error + json) option \<times> 'd application" where
  "operation cv r =
     map_prod (map_option (map_sum id (\<lambda>v. json_set ''elapsed_ms'' (JNum (int (cv_elapsed_ms cv))) (reply_json cv v)))) id r"

text \<open>A panic of a blocking task is an internal error.\<close>

definition caught :: "'d call_env \<Rightarrow> (app_error + 'r) option \<Rightarrow> app_error + 'r" where
  "caught cv r = (case r of None \<Rightarrow> Inl (error_internal (cv_panic cv)) | Some x \<Rightarrow> x)"

datatype workspace_action = ActSummary | ActRefresh | ActChanges | ActDiagnostics

record workspace_request =
  wq_action :: workspace_action
  wq_force :: "bool option"
  wq_since_generation :: "nat option"
  wq_source :: "string option"
  wq_limit :: nat

definition default_changes_limit :: nat where "default_changes_limit = 200"

definition actor_workspace ::
    "'d call_env \<Rightarrow> workspace_request \<Rightarrow> 'd ws_params \<Rightarrow> 'd actor \<Rightarrow> (app_error + json) \<times> 'd actor" where
  "actor_workspace cv q wp ac =
     (case wq_action q of
        ActSummary \<Rightarrow> summary wp (cv_elapsed cv) (cv_now cv) ac
      | ActRefresh \<Rightarrow>
          workspace_refresh wp (cv_elapsed cv) (cv_now cv) (case wq_force q of None \<Rightarrow> False | Some f \<Rightarrow> f) ac
      | ActChanges \<Rightarrow>
          map_prod id (\<lambda>ws. ac\<lparr>ac_ws := ws\<rparr>)
            (workspace_changes wp (cv_show_time cv) (cv_elapsed cv) (cv_now cv)
               (case wq_since_generation q of None \<Rightarrow> 0 | Some g \<Rightarrow> g) (wq_source q) (wq_limit q) (ac_ws ac))
      | ActDiagnostics \<Rightarrow> (Inr (diagnostics wp ac), ac))"

definition app_workspace ::
    "'d call_env \<Rightarrow> workspace_request \<Rightarrow> 'd application \<Rightarrow> (app_error + json) option \<times> 'd application" where
  "app_workspace cv q app =
     map_prod (map_option (map_sum id (json_set ''instance_id'' (JStr (ap_instance_id app))))) id
       (operation cv (on_actor (\<lambda>wp ac. map_prod (Some \<circ> map_sum id ReplyJson) id (actor_workspace cv q wp ac)) app))"

definition app_code_retrieve ::
    "'d call_env \<Rightarrow> code_retrieve_request \<Rightarrow> 'd application \<Rightarrow> (app_error + json) option \<times> 'd application" where
  "app_code_retrieve cv q app =
     operation cv (on_actor (\<lambda>wp ac.
       let later = (\<lambda>k. (cv_meanwhile cv ^^ k) ac)
       in (Some (caught cv (map_option (map_sum id ReplyRetrieved) (code_retrieve (cv_retrieve cv) ac later q))),
           later (length (cq_operations q)))) app)"

text \<open>The snapshot id of the workspace after a reconcile.\<close>

definition actor_snapshot_id ::
    "'d call_env \<Rightarrow> 'd ws_params \<Rightarrow> 'd actor \<Rightarrow> (app_error + string) \<times> 'd actor" where
  "actor_snapshot_id cv wp ac =
     map_prod id (\<lambda>ws. ac\<lparr>ac_ws := ws\<rparr>) (workspace_snapshot_id (wp_env wp) (cv_now cv) (ac_ws ac))"

text \<open>The second part of \<open>code_intelligence\<close>: a rename preview goes through the edit engine.\<close>

definition rename_reply ::
    "'d call_env \<Rightarrow> json \<Rightarrow> rename_change list \<Rightarrow> 'd ws_params \<Rightarrow> 'd actor \<Rightarrow> (app_error + reply) \<times> 'd actor" where
  "rename_reply cv report changes wp ac =
     (case actor_snapshot_id cv wp ac of
        (Inl e, ac1) \<Rightarrow> (Inl e, ac1)
      | (Inr snapshot, ac1) \<Rightarrow>
          map_prod (map_sum id (\<lambda>v. ReplyJson (json_set ''intelligence'' report v))) id
            (code_edit wp (cv_edit cv) (rename_edit_request changes (Some snapshot)) ac1))"

definition actor_intelligence ::
    "'d call_env \<Rightarrow> intelligence \<Rightarrow> intelligence_request \<Rightarrow> 'd ws_params \<Rightarrow> 'd actor
     \<Rightarrow> (app_error + reply) \<times> 'd actor \<times> intelligence" where
  "actor_intelligence cv it q wp ac =
     (case service_execute (cv_service cv) (map (preset_backend (cv_moments cv)) (it_workers it)) q (it_runtimes it)
             (cv_time cv) of
        (r, b) \<Rightarrow>
          let ac1 = cv_meanwhile cv ac; it1 = it\<lparr>it_runtimes := b\<rparr>
          in case r of
               Inl e \<Rightarrow> (Inl e, ac1, it1)
             | Inr (RenamePreview report changes) \<Rightarrow>
                 (case rename_reply cv report changes wp ac1 of (r', ac2) \<Rightarrow> (r', ac2, it1))
             | Inr (Report v) \<Rightarrow> (Inr (ReplyJson v), ac1, it1)
             | Inr response \<Rightarrow> (Inr (ReplyIntelligence response), ac1, it1))"

definition app_code_intelligence ::
    "'d call_env \<Rightarrow> intelligence_request \<Rightarrow> 'd application \<Rightarrow> (app_error + json) option \<times> 'd application" where
  "app_code_intelligence cv q app =
     operation cv
       (case ap_actor app of
          None \<Rightarrow> (Some (Inl daemon_not_initialized), app)
        | Some (wp, ac) \<Rightarrow>
            (case actor_snapshot_id cv wp ac of
               (Inl e, ac1) \<Rightarrow> (Some (Inl e), app\<lparr>ap_actor := Some (wp, ac1)\<rparr>)
             | (Inr _, ac1) \<Rightarrow>
                 (case ap_intelligence app of
                    None \<Rightarrow> (Some (Inl (error_new NotInitialized ''Workspace has not been initialized'')),
                             app\<lparr>ap_actor := Some (wp, ac1)\<rparr>)
                  | Some it \<Rightarrow>
                      (case actor_intelligence cv it q wp ac1 of
                         (r, ac2, it1) \<Rightarrow>
                           (Some r, app\<lparr>ap_actor := Some (wp, ac2), ap_intelligence := Some it1\<rparr>)))))"

text \<open>An edit without a snapshot is planned against the current one.\<close>

definition with_snapshot ::
    "'d call_env \<Rightarrow> typed_edit \<Rightarrow> 'd ws_params \<Rightarrow> 'd actor \<Rightarrow> (app_error + typed_edit) \<times> 'd actor" where
  "with_snapshot cv request wp ac =
     (case er_snapshot_id request of
        Some _ \<Rightarrow> (Inr request, ac)
      | None \<Rightarrow> map_prod (map_sum id (\<lambda>s. request\<lparr>er_snapshot_id := Some s\<rparr>)) id (actor_snapshot_id cv wp ac))"

definition actor_edit ::
    "'d call_env \<Rightarrow> typed_edit \<Rightarrow> 'd ws_params \<Rightarrow> 'd actor \<Rightarrow> (app_error + json) \<times> 'd actor" where
  "actor_edit cv request wp ac =
     (case with_snapshot cv request wp ac of
        (Inl e, ac1) \<Rightarrow> (Inl e, ac1)
      | (Inr request1, ac1) \<Rightarrow> code_edit wp (cv_edit cv) request1 ac1)"

definition app_code_edit ::
    "'d call_env \<Rightarrow> typed_edit \<Rightarrow> 'd application \<Rightarrow> (app_error + json) option \<times> 'd application" where
  "app_code_edit cv request app =
     operation cv (on_actor (\<lambda>wp ac. map_prod (Some \<circ> map_sum id ReplyJson) id (actor_edit cv request wp ac)) app)"

definition app_git ::
    "'d call_env \<Rightarrow> git_action \<Rightarrow> 'd application \<Rightarrow> (app_error + json) option \<times> 'd application" where
  "app_git cv action app =
     operation cv (on_actor (\<lambda>wp ac.
       map_prod (\<lambda>r. Some (caught cv (map_option (map_sum id ReplyGit) r))) (\<lambda>ws. ac\<lparr>ac_ws := ws\<rparr>)
         (workspace_git wp (cv_git cv) (cv_codec cv) (cv_now cv) action (ac_ws ac))) app)"

definition app_bash ::
    "'d call_env \<Rightarrow> bash_request \<Rightarrow> 'd application \<Rightarrow> (app_error + json) option \<times> 'd application" where
  "app_bash cv request app =
     operation cv (on_actor (\<lambda>wp ac.
       map_prod (map_option (map_sum id ReplyRun)) id (workspace_run wp (cv_run cv) request ac)) app)"

section \<open>The registry of tools\<close>

text \<open>The request type of each tool.\<close>

datatype request_type =
    ReqWorkspace
  | ReqCodeRetrieve
  | ReqCodeIntelligence
  | ReqCodeWrite
  | ReqCodeReplace
  | ReqCodeReplaceRange
  | ReqCodeInsert
  | ReqCodeDelete
  | ReqCodeRename
  | ReqCodePreview
  | ReqCodeTransaction
  | ReqGitStatus
  | ReqGitDiff
  | ReqGitLog
  | ReqGitShow
  | ReqGitBlame
  | ReqGitPreflight
  | ReqGitStage
  | ReqGitCommit
  | ReqGitRestore
  | ReqGitPush
  | ReqBashStart
  | ReqBashStatus
  | ReqBashOutput
  | ReqBashCancel

text \<open>The safety class a tool is advertised with, and the hints that follow from it.\<close>

datatype tool_safety = SafetyRead | WriteClosed | DestructiveClosed | WriteOpen | DestructiveOpen

record tool_annotations =
  ta_read_only :: bool
  ta_destructive :: bool
  ta_idempotent :: bool
  ta_open_world :: bool

fun annotations :: "tool_safety \<Rightarrow> tool_annotations" where
  "annotations SafetyRead = \<lparr>ta_read_only = True, ta_destructive = False, ta_idempotent = True, ta_open_world = False\<rparr>"
| "annotations WriteClosed = \<lparr>ta_read_only = False, ta_destructive = False, ta_idempotent = False, ta_open_world = False\<rparr>"
| "annotations DestructiveClosed = \<lparr>ta_read_only = False, ta_destructive = True, ta_idempotent = False, ta_open_world = False\<rparr>"
| "annotations WriteOpen = \<lparr>ta_read_only = False, ta_destructive = False, ta_idempotent = False, ta_open_world = True\<rparr>"
| "annotations DestructiveOpen = \<lparr>ta_read_only = False, ta_destructive = True, ta_idempotent = False, ta_open_world = True\<rparr>"

record tool_definition =
  td_name :: string
  td_title :: string
  td_safety :: tool_safety
  td_request :: request_type

fun tool_description :: "request_type \<Rightarrow> string" where
  "tool_description ReqWorkspace =
     ''View this server''
     @ [CHR 0x27]
     @ ''s repository summary or process-local changes, refresh its index, or inspect diagnostics. ''
     @ ''The repository is fixed for the server''
     @ [CHR 0x27]
     @ ''s lifetime.''"
| "tool_description ReqCodeRetrieve =
     ''Use this single tool for all repository discovery and exact reads. Submit one or more ''
     @ ''explicit operations: find_file, find_symbol, search_text, find_references, ''
     @ ''symbols_overview, repo_map, or read.''"
| "tool_description ReqCodeIntelligence =
     ''Resolve definitions, references, diagnostics, or a rename preview through the optional ''
     @ ''semantic backend. Results always label semantic, syntactic, or lexical evidence.''"
| "tool_description ReqCodeWrite =
     ''Create or overwrite exactly one file. Use expected_hash when replacing an existing file.''"
| "tool_description ReqCodeReplace =
     ''Replace exact text in exactly one file. The replacement count is checked before writing.''"
| "tool_description ReqCodeReplaceRange =
     ''Replace the complete line range selected by a code_retrieve read handle in exactly one ''
     @ ''file.''"
| "tool_description ReqCodeInsert =
     ''Insert text before, after, or inside one named symbol in exactly one file.''"
| "tool_description ReqCodeDelete =
     ''Delete exactly one file with an optional content-hash precondition.''"
| "tool_description ReqCodeRename =
     ''Rename exactly one file with an optional content-hash precondition.''"
| "tool_description ReqCodePreview =
     ''Preview a multi-file edit transaction and return the diff without writing files.''"
| "tool_description ReqCodeTransaction =
     ''Apply a multi-file edit transaction through the same precondition, non-destructive ''
     @ ''validation reporting, diff, and internal atomic-recovery engine as the narrow write tools.''"
| "tool_description ReqGitStatus =
     ''Show the working tree status: staged, unstaged, untracked, and partially staged files.''"
| "tool_description ReqGitDiff =
     ''Show the diff for the working tree or, with staged=true, the staged index. Limit to ''
     @ ''specific paths when given.''"
| "tool_description ReqGitLog =
     ''Show recent commit history.''"
| "tool_description ReqGitShow =
     ''Show the patch for one commit ref (default HEAD).''"
| "tool_description ReqGitBlame =
     ''Show line-by-line authorship for one path, optionally bounded by start_line and end_line.''"
| "tool_description ReqGitPreflight =
     ''Return staged_files, partially_staged_files, and the cached staged diff without ''
     @ ''committing.''"
| "tool_description ReqGitStage =
     ''Stage the given paths into the index.''"
| "tool_description ReqGitCommit =
     ''Commit the currently staged changes with the given message.''"
| "tool_description ReqGitRestore =
     ''Discard changes for the given paths, restoring them from the index or HEAD. Requires ''
     @ ''confirm=true because it overwrites local changes.''"
| "tool_description ReqGitPush =
     ''Push commits to a remote (default origin) and optional branch. This reaches the network ''
     @ ''and requires confirm=true, matching git_restore, because it is the only network-facing ''
     @ ''write.''"
| "tool_description ReqBashStart =
     ''Run one Bash process as the CodeWeave OS user. This is trusted-client functionality, not ''
     @ ''a sandbox. Commands exceeding the foreground budget continue as the same background run; ''
     @ ''poll bash_status with its run_id instead of reissuing the command. Output is bounded and ''
     @ ''timeout terminates the process tree.''"
| "tool_description ReqBashStatus =
     ''Return live or completed state and the retained output tail for a Bash run, including how ''
     @ ''many prefix characters were discarded.''"
| "tool_description ReqBashOutput =
     ''Page retained combined, stdout, or stderr output for a Bash run. Continuations cover only ''
     @ ''the bounded tail; retention metadata reports any discarded prefix.''"
| "tool_description ReqBashCancel =
     ''Cancel a running background Bash run. Partial output is retained.''"

definition registry :: "tool_definition list" where
  "registry =
     [\<lparr>td_name = ''workspace'', td_title = ''Workspace'', td_safety = SafetyRead, td_request = ReqWorkspace\<rparr>,
      \<lparr>td_name = ''code_retrieve'', td_title = ''Code Retrieval'', td_safety = SafetyRead, td_request = ReqCodeRetrieve\<rparr>,
      \<lparr>td_name = ''code_intelligence'', td_title = ''Code Intelligence'', td_safety = SafetyRead, td_request = ReqCodeIntelligence\<rparr>,
      \<lparr>td_name = ''code_write'', td_title = ''Write One File'', td_safety = WriteClosed, td_request = ReqCodeWrite\<rparr>,
      \<lparr>td_name = ''code_replace'', td_title = ''Replace Text in One File'', td_safety = WriteClosed, td_request = ReqCodeReplace\<rparr>,
      \<lparr>td_name = ''code_replace_range'', td_title = ''Replace Fetched Range in One File'', td_safety = WriteClosed, td_request = ReqCodeReplaceRange\<rparr>,
      \<lparr>td_name = ''code_insert'', td_title = ''Insert Text in One File'', td_safety = WriteClosed, td_request = ReqCodeInsert\<rparr>,
      \<lparr>td_name = ''code_delete'', td_title = ''Delete One File'', td_safety = DestructiveClosed, td_request = ReqCodeDelete\<rparr>,
      \<lparr>td_name = ''code_rename'', td_title = ''Rename One File'', td_safety = WriteClosed, td_request = ReqCodeRename\<rparr>,
      \<lparr>td_name = ''code_preview'', td_title = ''Preview Code Transaction'', td_safety = SafetyRead, td_request = ReqCodePreview\<rparr>,
      \<lparr>td_name = ''code_transaction'', td_title = ''Apply Code Transaction'', td_safety = WriteClosed, td_request = ReqCodeTransaction\<rparr>,
      \<lparr>td_name = ''git_status'', td_title = ''Git Status'', td_safety = SafetyRead, td_request = ReqGitStatus\<rparr>,
      \<lparr>td_name = ''git_diff'', td_title = ''Git Diff'', td_safety = SafetyRead, td_request = ReqGitDiff\<rparr>,
      \<lparr>td_name = ''git_log'', td_title = ''Git Log'', td_safety = SafetyRead, td_request = ReqGitLog\<rparr>,
      \<lparr>td_name = ''git_show'', td_title = ''Git Show'', td_safety = SafetyRead, td_request = ReqGitShow\<rparr>,
      \<lparr>td_name = ''git_blame'', td_title = ''Git Blame'', td_safety = SafetyRead, td_request = ReqGitBlame\<rparr>,
      \<lparr>td_name = ''git_preflight'', td_title = ''Git Preflight'', td_safety = SafetyRead, td_request = ReqGitPreflight\<rparr>,
      \<lparr>td_name = ''git_stage'', td_title = ''Git Stage'', td_safety = WriteClosed, td_request = ReqGitStage\<rparr>,
      \<lparr>td_name = ''git_commit'', td_title = ''Git Commit'', td_safety = WriteClosed, td_request = ReqGitCommit\<rparr>,
      \<lparr>td_name = ''git_restore'', td_title = ''Git Restore'', td_safety = DestructiveClosed, td_request = ReqGitRestore\<rparr>,
      \<lparr>td_name = ''git_push'', td_title = ''Git Push'', td_safety = WriteOpen, td_request = ReqGitPush\<rparr>,
      \<lparr>td_name = ''bash'', td_title = ''Run Bash Command'', td_safety = DestructiveOpen, td_request = ReqBashStart\<rparr>,
      \<lparr>td_name = ''bash_status'', td_title = ''Bash Run Status'', td_safety = SafetyRead, td_request = ReqBashStatus\<rparr>,
      \<lparr>td_name = ''bash_output'', td_title = ''Bash Run Output'', td_safety = SafetyRead, td_request = ReqBashOutput\<rparr>,
      \<lparr>td_name = ''bash_cancel'', td_title = ''Cancel Bash Run'', td_safety = WriteClosed, td_request = ReqBashCancel\<rparr>]"

definition find_tool :: "string \<Rightarrow> tool_definition option" where
  "find_tool name = map_of (map (\<lambda>t. (td_name t, t)) registry) name"

section \<open>Calling a tool\<close>

text \<open>A deserialized request. The ones without fields carry nothing.\<close>

datatype tool_request =
    OfWorkspace workspace_request
  | OfCodeRetrieve code_retrieve_request
  | OfCodeIntelligence code_intelligence_request
  | OfCodeWrite code_write_request
  | OfCodeReplace code_replace_request
  | OfCodeReplaceRange code_replace_range_request
  | OfCodeInsert code_insert_request
  | OfCodeDelete code_delete_request
  | OfCodeRename code_rename_request
  | OfCodePreview code_preview_request
  | OfCodeTransaction code_transaction_request
  | OfGitStatus
  | OfGitDiff git_diff_request
  | OfGitLog nat
  | OfGitShow git_show_request
  | OfGitBlame git_blame_request
  | OfGitPreflight
  | OfGitStage "string list"
  | OfGitCommit string
  | OfGitRestore git_restore_request
  | OfGitPush git_push_request
  | OfBashStart bash_start_request
  | OfBashStatus string
  | OfBashOutput string "output_stream option" "string option"
  | OfBashCancel string

fun request_type_of :: "tool_request \<Rightarrow> request_type" where
  "request_type_of (OfWorkspace _) = ReqWorkspace"
| "request_type_of (OfCodeRetrieve _) = ReqCodeRetrieve"
| "request_type_of (OfCodeIntelligence _) = ReqCodeIntelligence"
| "request_type_of (OfCodeWrite _) = ReqCodeWrite"
| "request_type_of (OfCodeReplace _) = ReqCodeReplace"
| "request_type_of (OfCodeReplaceRange _) = ReqCodeReplaceRange"
| "request_type_of (OfCodeInsert _) = ReqCodeInsert"
| "request_type_of (OfCodeDelete _) = ReqCodeDelete"
| "request_type_of (OfCodeRename _) = ReqCodeRename"
| "request_type_of (OfCodePreview _) = ReqCodePreview"
| "request_type_of (OfCodeTransaction _) = ReqCodeTransaction"
| "request_type_of OfGitStatus = ReqGitStatus"
| "request_type_of (OfGitDiff _) = ReqGitDiff"
| "request_type_of (OfGitLog _) = ReqGitLog"
| "request_type_of (OfGitShow _) = ReqGitShow"
| "request_type_of (OfGitBlame _) = ReqGitBlame"
| "request_type_of OfGitPreflight = ReqGitPreflight"
| "request_type_of (OfGitStage _) = ReqGitStage"
| "request_type_of (OfGitCommit _) = ReqGitCommit"
| "request_type_of (OfGitRestore _) = ReqGitRestore"
| "request_type_of (OfGitPush _) = ReqGitPush"
| "request_type_of (OfBashStart _) = ReqBashStart"
| "request_type_of (OfBashStatus _) = ReqBashStatus"
| "request_type_of (OfBashOutput _ _ _) = ReqBashOutput"
| "request_type_of (OfBashCancel _) = ReqBashCancel"

text \<open>How a request type reports a rejected field.\<close>

definition rejection_of :: "request_type \<Rightarrow> rejection" where
  "rejection_of rt =
     (if rt \<in> {ReqCodeWrite, ReqCodeReplace, ReqCodeReplaceRange, ReqCodeInsert, ReqCodeDelete, ReqCodeRename}
      then RejectChange
      else if rt \<in> {ReqBashStart, ReqBashStatus, ReqBashOutput, ReqBashCancel} then RejectBash
      else RejectArgument)"

text \<open>The derived schemas and deserializers of the requests and of one change.\<close>

record wire =
  wi_schema :: "request_type \<Rightarrow> json"
  wi_parse :: "request_type \<Rightarrow> json \<Rightarrow> (string \<times> string) + tool_request"
  wi_change :: "json \<Rightarrow> (string \<times> string) + change"
  wi_change_schema :: json

definition edit_tool_handle ::
    "'d call_env \<Rightarrow> app_error + typed_edit \<Rightarrow> 'd application \<Rightarrow> (app_error + json) option \<times> 'd application" where
  "edit_tool_handle cv edit app = (case edit of Inl e \<Rightarrow> (Some (Inl e), app) | Inr request \<Rightarrow> app_code_edit cv request app)"

definition bash_tool_handle ::
    "'d call_env \<Rightarrow> app_error + bash_request \<Rightarrow> 'd application \<Rightarrow> (app_error + json) option \<times> 'd application" where
  "bash_tool_handle cv request app = (case request of Inl e \<Rightarrow> (Some (Inl e), app) | Inr r \<Rightarrow> app_bash cv r app)"

fun handle ::
    "wire \<Rightarrow> 'd call_env \<Rightarrow> tool_request \<Rightarrow> 'd application \<Rightarrow> (app_error + json) option \<times> 'd application" where
  "handle wi cv (OfWorkspace q) app = app_workspace cv q app"
| "handle wi cv (OfCodeRetrieve q) app = app_code_retrieve cv q app"
| "handle wi cv (OfCodeIntelligence q) app =
     (case intelligence_request_of q of
        Inl e \<Rightarrow> (Some (Inl e), app)
      | Inr r \<Rightarrow> app_code_intelligence cv r app)"
| "handle wi cv (OfCodeWrite q) app = edit_tool_handle cv (write_into_edit q) app"
| "handle wi cv (OfCodeReplace q) app = edit_tool_handle cv (replace_into_edit q) app"
| "handle wi cv (OfCodeReplaceRange q) app = edit_tool_handle cv (replace_range_into_edit q) app"
| "handle wi cv (OfCodeInsert q) app = edit_tool_handle cv (insert_into_edit q) app"
| "handle wi cv (OfCodeDelete q) app = edit_tool_handle cv (delete_into_edit q) app"
| "handle wi cv (OfCodeRename q) app = edit_tool_handle cv (rename_into_edit q) app"
| "handle wi cv (OfCodePreview q) app =
     edit_tool_handle cv (preview_into_edit (wi_change wi) (change_contracts (wi_change_schema wi)) q) app"
| "handle wi cv (OfCodeTransaction q) app =
     edit_tool_handle cv (transaction_into_edit (wi_change wi) (change_contracts (wi_change_schema wi)) q) app"
| "handle wi cv OfGitStatus app = app_git cv GitStatus app"
| "handle wi cv (OfGitDiff q) app = app_git cv (GitDiff q) app"
| "handle wi cv (OfGitLog n) app = app_git cv (GitLog n) app"
| "handle wi cv (OfGitShow q) app = app_git cv (GitShow q) app"
| "handle wi cv (OfGitBlame q) app = app_git cv (GitBlame q) app"
| "handle wi cv OfGitPreflight app = app_git cv GitPreflight app"
| "handle wi cv (OfGitStage paths) app = app_git cv (GitStage paths) app"
| "handle wi cv (OfGitCommit message) app = app_git cv (GitCommit message) app"
| "handle wi cv (OfGitRestore q) app = app_git cv (GitRestore q) app"
| "handle wi cv (OfGitPush q) app = app_git cv (GitPush q) app"
| "handle wi cv (OfBashStart q) app = bash_tool_handle cv (start_into_request q) app"
| "handle wi cv (OfBashStatus run_id) app = bash_tool_handle cv (status_into_request run_id) app"
| "handle wi cv (OfBashOutput run_id stream continuation) app =
     bash_tool_handle cv (output_into_request run_id stream continuation) app"
| "handle wi cv (OfBashCancel run_id) app = bash_tool_handle cv (cancel_into_request run_id) app"

definition tool_contract :: "wire \<Rightarrow> tool_definition \<Rightarrow> contract" where
  "tool_contract wi t = contract_from_schema (td_name t) (input_schema (wi_schema wi (td_request t)))"

definition tool_call ::
    "wire \<Rightarrow> 'd call_env \<Rightarrow> tool_definition \<Rightarrow> json \<Rightarrow> 'd application
     \<Rightarrow> (app_error + json) option \<times> 'd application" where
  "tool_call wi cv t arguments app =
     (case contract_parse (wi_parse wi (td_request t)) (tool_contract wi t) arguments (rejection_of (td_request t)) of
        Inl e \<Rightarrow> (Some (Inl e), app)
      | Inr request \<Rightarrow> handle wi cv request app)"

text \<open>One \<open>tools/call\<close>: the message of a protocol error, or the result of the tool.\<close>

definition call_tool ::
    "wire \<Rightarrow> 'd call_env \<Rightarrow> string \<Rightarrow> (string \<times> json) list option \<Rightarrow> 'd application
     \<Rightarrow> (string + tool_result) option \<times> 'd application" where
  "call_tool wi cv name arguments app =
     (case find_tool name of
        None \<Rightarrow> (Some (Inl (''Unknown tool: '' @ name)), app)
      | Some t \<Rightarrow>
          map_prod (map_option (\<lambda>r. Inr (case r of Inl e \<Rightarrow> tool_failure e | Inr v \<Rightarrow> tool_success v))) id
            (tool_call wi cv t (JObj (case arguments of None \<Rightarrow> [] | Some kvs \<Rightarrow> kvs)) app))"

record mcp_tool =
  mt_name :: string
  mt_title :: string
  mt_description :: string
  mt_input_schema :: "(string \<times> json) list"
  mt_annotations :: tool_annotations

definition to_mcp :: "wire \<Rightarrow> tool_definition \<Rightarrow> mcp_tool" where
  "to_mcp wi t =
     \<lparr>mt_name = td_name t, mt_title = td_title t, mt_description = tool_description (td_request t),
      mt_input_schema = input_schema (wi_schema wi (td_request t)), mt_annotations = annotations (td_safety t)\<rparr>"

definition mcp_tools :: "wire \<Rightarrow> mcp_tool list" where
  "mcp_tools wi = map (to_mcp wi) registry"


section \<open>Lemmas: files\<close>

lemma reconcile_pending_disk: "reconcile_pending env now ws = (r, ws1) \<Longrightarrow> ws_disk ws1 = ws_disk ws"
  by (auto simp: reconcile_pending_def dest: reconcile_disk split: if_splits)

lemma rescan_disk: "rescan wp ws = (r, ws1) \<Longrightarrow> ws_disk ws1 = ws_disk ws"
  by (auto simp: rescan_def Let_def split: sum.splits)

lemma summary_disk: "summary wp elapsed now ac = (r, ac') \<Longrightarrow> ws_disk (ac_ws ac') = ws_disk (ac_ws ac)"
  by (auto simp: summary_def Let_def dest: reconcile_pending_disk split: sum.splits prod.splits)

lemma refresh_disk:
  assumes "workspace_refresh wp elapsed now force ac = (r, ac')"
  shows "ws_disk (ac_ws ac') = ws_disk (ac_ws ac)"
proof -
  obtain q ws where q: "(if force then rescan wp (ac_ws ac)
      else map_prod (map_sum id (\<lambda>_. ())) id (reconcile_pending (wp_env wp) now (ac_ws ac))) = (q, ws)" by fastforce
  then have "ws_disk ws = ws_disk (ac_ws ac)"
    by (cases force) (auto simp: map_prod_def split: prod.splits dest: rescan_disk reconcile_pending_disk)
  with assms q show ?thesis
    by (auto simp: workspace_refresh_def dest: summary_disk split: sum.splits)
qed

lemma changes_disk:
  "workspace_changes wp show_time elapsed now since source limit ws = (r, ws') \<Longrightarrow> ws_disk ws' = ws_disk ws"
  by (auto simp: workspace_changes_def Let_def dest: reconcile_pending_disk split: sum.splits prod.splits)

lemma actor_workspace_disk:
  "actor_workspace cv q wp ac = (r, ac') \<Longrightarrow> ws_disk (ac_ws ac') = ws_disk (ac_ws ac)"
  by (auto simp: actor_workspace_def map_prod_def dest: summary_disk refresh_disk changes_disk
      split: workspace_action.splits prod.splits)

lemma reconcile_async_disk:
  "reconcile_pending_async env now ac = (r, ac') \<Longrightarrow> ws_disk (ac_ws ac') = ws_disk (ac_ws ac)"
  by (auto simp: reconcile_pending_async_def dest: reconcile_pending_disk split: if_splits prod.splits)

lemma reconcile_poll_disk:
  "reconcile_poll env now terminal ac = (r, ac') \<Longrightarrow> ws_disk (ac_ws ac') = ws_disk (ac_ws ac)"
  by (auto simp: reconcile_poll_def dest: reconcile_async_disk split: if_splits)

lemma attribute_ws: "attribute_run_changes wp ac run_id terminal = (r, ac') \<Longrightarrow> ac_ws ac' = ac_ws ac"
  by (auto simp: attribute_run_changes_def Let_def split: sum.splits prod.splits option.splits if_splits)

lemma poll_request_ws: "run_request wp re q ac = (r, ac') \<Longrightarrow> is_poll q \<Longrightarrow> ac_ws ac' = ac_ws ac"
  by (cases q) (auto simp: run_request_def is_poll_def split: prod.splits)

lemma poll_disk:
  assumes "workspace_run wp re q ac = (r, ac')" "is_poll q"
  shows "ws_disk (ac_ws ac') = ws_disk (ac_ws ac)"
proof -
  obtain x ac2 where x: "run_request wp re q ac = (x, ac2)" by fastforce
  from assms x poll_request_ws [OF x] show ?thesis
    by (auto simp: workspace_run_def Let_def dest!: attribute_ws reconcile_poll_disk
        split: option.splits sum.splits prod.splits)
qed

lemma actor_snapshot_disk:
  "actor_snapshot_id cv wp ac = (r, ac') \<Longrightarrow> ws_disk (ac_ws ac') = ws_disk (ac_ws ac)"
  by (auto simp: actor_snapshot_id_def workspace_snapshot_id_def map_prod_def dest: reconcile_pending_disk
      split: prod.splits sum.splits)

lemma with_snapshot_disk:
  "with_snapshot cv request wp ac = (r, ac') \<Longrightarrow> ws_disk (ac_ws ac') = ws_disk (ac_ws ac)
     \<and> (\<forall>q. r = Inr q \<longrightarrow> er_preview q = er_preview request \<and> er_snapshot_id q \<noteq> None)"
  by (auto simp: with_snapshot_def map_prod_def map_sum_def dest: actor_snapshot_disk
      split: option.splits prod.splits sum.splits)

lemma preview_edit_disk:
  assumes "actor_edit cv request wp ac = (r, ac')" "er_preview request"
  shows "ws_disk (ac_ws ac') = ws_disk (ac_ws ac)"
  using assms
  by (auto simp: actor_edit_def dest!: with_snapshot_disk code_edit_preview split: prod.splits sum.splits)

lemma rename_reply_disk:
  "rename_reply cv report changes wp ac = (r, ac') \<Longrightarrow> ws_disk (ac_ws ac') = ws_disk (ac_ws ac)"
  by (auto simp: rename_reply_def map_prod_def rename_edit_request_def
      dest!: actor_snapshot_disk code_edit_preview split: prod.splits sum.splits)

section \<open>Lemmas: the application\<close>

text \<open>The files of the repository, when there is one.\<close>

definition app_files :: "'d application \<Rightarrow> 'd option" where
  "app_files app = map_option (\<lambda>(_, ac). ws_disk (ac_ws ac)) (ap_actor app)"

lemma operation_app [simp]: "snd (operation cv (r, app)) = app"
  by (simp add: operation_def)

lemma on_actor_files:
  assumes "\<And>wp ac r ac'. f wp ac = (r, ac') \<Longrightarrow> ws_disk (ac_ws ac') = ws_disk (ac_ws ac)"
  shows "app_files (snd (operation cv (on_actor f app))) = app_files app"
  using assms by (auto simp: on_actor_def operation_def app_files_def split: option.splits prod.splits)

lemma map_prod_pair: "map_prod f g p = (a, b) \<longleftrightarrow> (\<exists>x y. p = (x, y) \<and> a = f x \<and> b = g y)"
  by (cases p) auto

lemma workspace_files: "app_files (snd (app_workspace cv q app)) = app_files app"
  unfolding app_workspace_def snd_map_prod id_apply
  by (rule on_actor_files) (auto simp: map_prod_pair dest: actor_workspace_disk)

lemma retrieve_files:
  assumes "\<And>a. ws_disk (ac_ws (cv_meanwhile cv a)) = ws_disk (ac_ws a)"
  shows "app_files (snd (app_code_retrieve cv q app)) = app_files app"
proof -
  have "ws_disk (ac_ws ((cv_meanwhile cv ^^ k) ac)) = ws_disk (ac_ws ac)" for k ac
    by (induction k) (simp_all add: assms)
  then show ?thesis unfolding app_code_retrieve_def Let_def by (intro on_actor_files) auto
qed

lemma preview_files: "er_preview request \<Longrightarrow> app_files (snd (app_code_edit cv request app)) = app_files app"
  unfolding app_code_edit_def by (rule on_actor_files) (auto simp: map_prod_pair dest: preview_edit_disk)

lemma bash_poll_files: "is_poll q \<Longrightarrow> app_files (snd (app_bash cv q app)) = app_files app"
  unfolding app_bash_def by (rule on_actor_files) (auto simp: map_prod_pair dest: poll_disk)

lemma actor_intelligence_disk:
  assumes "actor_intelligence cv it q wp ac = (r, ac', it')"
    and "\<And>a. ws_disk (ac_ws (cv_meanwhile cv a)) = ws_disk (ac_ws a)"
  shows "ws_disk (ac_ws ac') = ws_disk (ac_ws ac)"
  using assms
  by (auto simp: actor_intelligence_def Let_def dest: rename_reply_disk
      split: prod.splits sum.splits intelligence_response.splits)

lemma intelligence_files:
  assumes "\<And>a. ws_disk (ac_ws (cv_meanwhile cv a)) = ws_disk (ac_ws a)"
  shows "app_files (snd (app_code_intelligence cv q app)) = app_files app"
proof (cases "ap_actor app")
  case (Some p)
  obtain wp ac where p: "p = (wp, ac)" by fastforce
  obtain s ac1 where s: "actor_snapshot_id cv wp ac = (s, ac1)" by fastforce
  have "actor_intelligence cv it q wp ac1 = (r, ac2, it1) \<Longrightarrow> ws_disk (ac_ws ac2) = ws_disk (ac_ws ac)" for it r ac2 it1
    using actor_intelligence_disk [OF _ assms] actor_snapshot_disk [OF s] by metis
  with Some p s actor_snapshot_disk [OF s] show ?thesis
    by (auto simp: app_code_intelligence_def operation_def app_files_def split: sum.splits option.splits prod.splits)
qed (simp add: app_code_intelligence_def operation_def)


lemma registry_names: "distinct (map td_name registry)"
  by (simp add: registry_def)

lemma find_tool_registry: "find_tool name = Some t \<longleftrightarrow> t \<in> set registry \<and> td_name t = name"
proof -
  have "distinct (map fst (map (\<lambda>t. (td_name t, t)) registry))" using registry_names by (simp add: o_def)
  from map_of_eq_Some_iff [OF this] show ?thesis by (auto simp: find_tool_def)
qed

definition git_reads :: "request_type set" where
  "git_reads = {ReqGitStatus, ReqGitDiff, ReqGitLog, ReqGitShow, ReqGitBlame, ReqGitPreflight}"

lemma read_tool_requests:
  assumes "find_tool name = Some t" "td_safety t = SafetyRead" "td_request t \<notin> git_reads"
  shows "td_request t \<in> {ReqWorkspace, ReqCodeRetrieve, ReqCodeIntelligence, ReqCodePreview, ReqBashStatus, ReqBashOutput}"
proof -
  have "\<forall>t \<in> set registry. td_safety t = SafetyRead \<longrightarrow> td_request t \<notin> git_reads \<longrightarrow>
      td_request t \<in> {ReqWorkspace, ReqCodeRetrieve, ReqCodeIntelligence, ReqCodePreview, ReqBashStatus, ReqBashOutput}"
    by (simp add: registry_def git_reads_def)
  with assms find_tool_registry show ?thesis by blast
qed

lemma read_request_files:
  assumes "request_type_of r \<in> {ReqWorkspace, ReqCodeRetrieve, ReqCodeIntelligence, ReqCodePreview, ReqBashStatus, ReqBashOutput}"
    and "\<And>a. ws_disk (ac_ws (cv_meanwhile cv a)) = ws_disk (ac_ws a)"
  shows "app_files (snd (handle wi cv r app)) = app_files app"
  using assms(1)
  by (cases r) (auto simp: workspace_files retrieve_files [OF assms(2)] intelligence_files [OF assms(2)] edit_tool_handle_def bash_tool_handle_def
      status_into_request_def output_into_request_def is_poll_def
      intro!: preview_files bash_poll_files dest: preview_into_edit_preview split: sum.splits)

section \<open>Properties\<close>

text \<open>C6. Tools advertised as read-only leave the files alone. Whatever the arguments and whatever
  fails, a call of a tool of the class \<open>Read\<close> that is not a git tool ends with every file of the
  repository as it was: the summary, refresh, changes and diagnostics of the workspace, retrieval,
  semantic operations with their rename preview, the preview of a transaction, and the polls of Bash
  runs. The deserializer gives a request of its own type, and nobody else writes while the language
  server works or between the operations of a batch.\<close>

theorem read_tools_leave_files:
  assumes "find_tool name = Some t" "td_safety t = SafetyRead" "td_request t \<notin> git_reads"
    and "\<And>v r. wi_parse wi (td_request t) v = Inr r \<Longrightarrow> request_type_of r = td_request t"
    and "\<And>a. ws_disk (ac_ws (cv_meanwhile cv a)) = ws_disk (ac_ws a)"
  shows "app_files (snd (call_tool wi cv name arguments app)) = app_files app"
proof -
  let ?arguments = "JObj (case arguments of None \<Rightarrow> [] | Some kvs \<Rightarrow> kvs)"
  have c: "snd (call_tool wi cv name arguments app) = snd (tool_call wi cv t ?arguments app)"
    using assms(1) by (simp add: call_tool_def)
  show ?thesis
  proof (cases "contract_parse (wi_parse wi (td_request t)) (tool_contract wi t) ?arguments (rejection_of (td_request t))")
    case (Inl e)
    with c show ?thesis by (simp add: tool_call_def)
  next
    case (Inr r)
    then obtain v where "wi_parse wi (td_request t) v = Inr r"
      by (auto simp: contract_parse_def split: json.splits sum.splits)
    with assms(4) read_tool_requests [OF assms(1-3)] have "request_type_of r
        \<in> {ReqWorkspace, ReqCodeRetrieve, ReqCodeIntelligence, ReqCodePreview, ReqBashStatus, ReqBashOutput}"
      by simp
    from read_request_files [OF this assms(5)] c Inr show ?thesis by (simp add: tool_call_def)
  qed
qed

lemma backends_spawn_spec:
  "backends_spawn threads settings = Inr workers \<Longrightarrow>
     map lw_preset workers = preset_all
   \<and> map lw_running workers = map (\<lambda>p. lss_enabled (settings_of settings p)) preset_all"
  by (auto simp: backends_spawn_def preset_all_def lsp_worker_spawn_def map_sum_def Let_def
      split: sum.splits prod.splits option.splits bool.splits)

lemma open_workspace_spec:
  assumes "open_workspace env wk ops config index_cache watch probe candidates policy od now d c = (Inr (wp, ac), c')"
  shows "ws_disk (ac_ws ac) = d \<and> stamp_current (sc_sha (we_scan env)) (ws_rc (ac_ws ac)) \<and> wp_env wp = env
    \<and> wp_walk wp = wk \<and> wp_config wp = config \<and> sv_runs (ac_bash ac) = []
    \<and> (\<exists>hit. index_scan_cached (we_scan env) wk ops d c (wc_artifact_paths config) (wc_exclude_patterns config)
               index_cache = (Inr (rc_index (ws_rc (ac_ws ac)), hit), c'))"
  using assms
  by (auto simp: open_workspace_def reconciled_new_def supervisor_new_def supervisor_with_parts_def
      Let_def split: sum.splits prod.splits)

lemma actor_open_spec:
  assumes "actor_open ie config path repo c = (Inr (wp, ac), c')"
  shows "\<exists>root hit. ie_canonicalize ie path = Inr root \<and> ie_open_dir ie root = Inr (ws_disk (ac_ws ac))
    \<and> sc_root (we_scan (wp_env wp)) = root \<and> sc_max_file_bytes (we_scan (wp_env wp)) = pc_max_file_bytes (dc_policy config)
    \<and> exclusions_new ie root (wc_exclude_patterns repo) = Inr (sc_exclusions (we_scan (wp_env wp)))
    \<and> wp_config wp = repo \<and> sv_runs (ac_bash ac) = []
    \<and> index_scan_cached (we_scan (wp_env wp)) (wp_walk wp) (ie_cache_ops ie) (ws_disk (ac_ws ac)) c
        (wc_artifact_paths repo) (wc_exclude_patterns repo)
        (index_cache_path (sc_sha (we_scan (wp_env wp))) (dc_cache_root config) root)
      = (Inr (rc_index (ws_rc (ac_ws ac)), hit), c')
    \<and> stamp_current (sc_sha (we_scan (wp_env wp))) (ws_rc (ac_ws ac))"
proof -
  obtain root d where r: "root_open ie path = Inr (root, d)"
    using assms by (auto simp: actor_open_def split: sum.splits)
  obtain offered wk where e: "ie_env ie root = (offered, wk)" by fastforce
  let ?sha = "sc_sha (we_scan offered)"
  obtain u where u: "ie_cache_dir ie (workspace_cache ?sha (dc_cache_root config) root) = Inr u"
    using assms r e by (auto simp: actor_open_def Let_def split: sum.splits)
  obtain ex where ex: "exclusions_new ie root (wc_exclude_patterns repo) = Inr ex"
    using assms r e u by (auto simp: actor_open_def Let_def split: sum.splits)
  have o: "open_workspace (opened_env offered root ex (dc_policy config)) wk (ie_cache_ops ie) repo
      (index_cache_path ?sha (dc_cache_root config) root) (ie_watch ie) (ie_probe ie)
      (ie_candidates ie) (pc_bash (dc_policy config)) (ie_open_diagnostics ie) (ie_now ie) d c = (Inr (wp, ac), c')"
    using assms r e u ex by (simp add: actor_open_def Let_def)
  have env: "sc_sha (we_scan (opened_env offered root ex p)) = ?sha"
    "sc_root (we_scan (opened_env offered root ex p)) = root"
    "sc_exclusions (we_scan (opened_env offered root ex p)) = ex"
    "sc_max_file_bytes (we_scan (opened_env offered root ex p)) = pc_max_file_bytes p" for p
    by (simp_all add: opened_env_def)
  have "ie_canonicalize ie path = Inr root" "ie_open_dir ie root = Inr d"
    using r by (auto simp: root_open_def canonical_root_def split: sum.splits if_splits)
  with open_workspace_spec [OF o] ex show ?thesis by (auto simp: env)
qed

lemma single_repo_configD:
  assumes "single_repo_config ie config = Inr (path, repo)"
  shows "ie_canonicalize ie (trim (wse_path (dc_workspace config))) = Inr path" "ie_is_dir ie path"
    "wc_id repo = ''repo-'' @ hex16 (ie_hasher ie path)"
    "wc_artifact_paths repo = wse_artifact_paths (dc_workspace config)"
    "wc_exclude_patterns repo = wse_exclude_paths (dc_workspace config)"
  using assms by (auto simp: single_repo_config_def canonical_root_def Let_def split: if_splits sum.splits)

text \<open>C7. Initialization is all or nothing. When it fails, the application is the one it was, with
  its old repository. When it succeeds, the configuration had version two; the path it reports is the
  canonical form of the configured \<open>workspace.path\<close>, a directory that git takes for a worktree, and the
  workspace id is made from it; the application keeps its instance id and serves the directory opened
  at that path (canonicalized once more), with the configured file limit, exclusions and artifacts, the
  index of a scan of it and a stamp that names this index; no run has started and Bash is usable; one
  worker exists per language, running exactly when it is enabled; and the reported number of files is
  the index's.\<close>

theorem initialize_is_all_or_nothing:
  "case initialize ie config app c of (r, app', c') \<Rightarrow>
     (case r of
        Inl e \<Rightarrow> app' = app
      | Inr info \<Rightarrow>
          dc_config_version config = 2
        \<and> ie_canonicalize ie (trim (wse_path (dc_workspace config))) = Inr (ii_path info)
        \<and> ie_is_dir ie (ii_path info)
        \<and> require_worktree (ie_git ie (ii_path info)) (ii_path info) = Inr ()
        \<and> ii_workspace_id info = ''repo-'' @ hex16 (ie_hasher ie (ii_path info))
        \<and> ap_instance_id app' = ap_instance_id app \<and> ap_config app' = Some config
        \<and> (\<exists>wp ac root hit l. ap_actor app' = Some (wp, ac)
             \<and> ie_canonicalize ie (ii_path info) = Inr root \<and> sc_root (we_scan (wp_env wp)) = root
             \<and> ie_open_dir ie root = Inr (ws_disk (ac_ws ac))
             \<and> sc_max_file_bytes (we_scan (wp_env wp)) = pc_max_file_bytes (dc_policy config)
             \<and> exclusions_new ie root (wse_exclude_paths (dc_workspace config)) = Inr (sc_exclusions (we_scan (wp_env wp)))
             \<and> index_scan_cached (we_scan (wp_env wp)) (wp_walk wp) (ie_cache_ops ie) (ws_disk (ac_ws ac)) c
                 (wse_artifact_paths (dc_workspace config)) (wse_exclude_paths (dc_workspace config))
                 (index_cache_path (sc_sha (we_scan (wp_env wp))) (dc_cache_root config) root)
               = (Inr (rc_index (ws_rc (ac_ws ac)), hit), c')
             \<and> stamp_current (sc_sha (we_scan (wp_env wp))) (ws_rc (ac_ws ac))
             \<and> wc_id (wp_config wp) = ii_workspace_id info \<and> sv_runs (ac_bash ac) = []
             \<and> launcher_of (ac_bash ac) = Inr l
             \<and> ii_file_count info = length (ci_files (rc_index (ws_rc (ac_ws ac)))))
        \<and> (\<exists>it. ap_intelligence app' = Some it \<and> map lw_preset (it_workers it) = preset_all
             \<and> map lw_running (it_workers it)
               = map (\<lambda>p. lss_enabled (settings_of (dc_intelligence config) p)) preset_all))"
proof (cases "initialize ie config app c")
  case (fields r app' c')
  show ?thesis
  proof (cases r)
    case (Inl e)
    with fields show ?thesis
      by (auto simp: initialize_def split: if_splits sum.splits prod.splits)
  next
    case (Inr info)
    with fields obtain path repo wp ac workers l where
      v: "dc_config_version config = 2" and s: "single_repo_config ie config = Inr (path, repo)"
      and w: "require_worktree (ie_git ie path) path = Inr ()"
      and o: "actor_open ie config path repo c = (Inr (wp, ac), c')"
      and b: "backends_spawn (ie_threads ie) (dc_intelligence config) = Inr workers"
      and l: "launcher_of (ac_bash ac) = Inr l"
      and i: "ii_path info = path" "ii_workspace_id info = wc_id repo"
        "ii_file_count info = index_file_count (rc_index (ws_rc (ac_ws ac)))"
      and a: "app' = app\<lparr>ap_config := Some config, ap_actor := Some (wp, ac),
          ap_intelligence := Some \<lparr>it_workers = workers, it_runtimes = ie_runtimes ie\<rparr>\<rparr>"
      by (auto simp: initialize_def split: if_splits sum.splits prod.splits)
    note d = single_repo_configD [OF s]
    from actor_open_spec [OF o] v w b [THEN backends_spawn_spec] l i a d fields Inr show ?thesis
      by (auto simp: index_file_count_def)
  qed
qed


text \<open>Before the repository is served, every call of a known tool is refused and changes nothing.\<close>

lemma handle_uninitialized:
  "ap_actor app = None \<Longrightarrow> \<exists>e. handle wi cv r app = (Some (Inl e), app)"
  by (cases r) (auto simp: app_workspace_def app_code_retrieve_def app_code_intelligence_def app_code_edit_def
      app_git_def app_bash_def on_actor_def operation_def edit_tool_handle_def bash_tool_handle_def split: sum.splits)

theorem nothing_runs_before_initialize:
  assumes "ap_actor app = None" "find_tool name = Some t"
  shows "\<exists>e. call_tool wi cv name arguments app = (Some (Inr (tool_failure e)), app)"
proof -
  have "\<exists>e. tool_call wi cv t v app = (Some (Inl e), app)" for v
    using handle_uninitialized [OF assms(1), of wi cv] by (simp add: tool_call_def split: sum.split)
  then obtain e where "tool_call wi cv t (JObj (case arguments of None \<Rightarrow> [] | Some kvs \<Rightarrow> kvs)) app = (Some (Inl e), app)"
    by blast
  with assms(2) show ?thesis by (auto simp: call_tool_def)
qed

section \<open>A concrete application\<close>

definition sample_tree :: mem_dir where
  "sample_tree = \<lparr>mem_files = Map.empty, mem_faults = [], mem_uuids = 0\<rparr>"

definition sample_init :: "(mem_dir, unit) init_env" where
  "sample_init =
     \<lparr>ie_canonicalize = Inr, ie_is_dir = (\<lambda>_. True), ie_hasher = length,
      ie_git = (\<lambda>_ args _. Inr [0x74, 0x72, 0x75, 0x65]),
      ie_open_dir = (\<lambda>_. Inr sample_tree), ie_add_line = (\<lambda>_. Inr ()), ie_build = (\<lambda>_. Inr (\<lambda>_ _. False)),
      ie_env = (\<lambda>_. (sample_env_of mem_ops, wp_walk sample_params_of)), ie_cache_dir = (\<lambda>_. Inr ()),
      ie_cache_ops = sample_cache (cache_document_of (scan_key sample_hashing [] []) index_default),
      ie_watch = Inr (), ie_probe = (\<lambda>_. Inr ()), ie_candidates = [], ie_open_diagnostics = JBool,
      ie_now = 0, ie_threads = (\<lambda>_. None),
      ie_runtimes = (\<lambda>_. worker_new sample_context sample_spawns)\<rparr>"

definition sample_daemon_config :: daemon_config where
  "sample_daemon_config =
     \<lparr>dc_config_version = 2,
      dc_workspace = \<lparr>wse_path = ''/w'', wse_artifact_paths = [], wse_exclude_paths = []\<rparr>,
      dc_intelligence = \<lparr>ins_rust = default_server_settings\<lparr>lss_enabled := True\<rparr>, ins_python = default_server_settings,
        ins_typescript = default_server_settings\<rparr>,
      dc_policy = \<lparr>pc_max_file_bytes = 100, pc_max_context_chars = 50, pc_max_search_results = 9,
        pc_bash = default_bash_config\<rparr>,
      dc_cache_root = ''/c''\<rparr>"

lemma sample_git_true: "lossy_string [0x74, 0x72, 0x75, 0x65] = ''true''"
  by (simp add: lossy_string_def from_utf8_lossy_def utf8_next_ascii encode_char_def char_of_def bit_Suc_0_iff)

lemma sample_opens:
  "\<exists>wp ac. actor_open sample_init sample_daemon_config ''/w'' repo () = (Inr (wp, ac), ())
     \<and> (\<exists>l. launcher_of (ac_bash ac) = Inr l) \<and> ws_disk (ac_ws ac) = sample_tree"
  if "wc_artifact_paths repo = []" "wc_exclude_patterns repo = []"
  using that
  by (simp add: actor_open_def sample_init_def root_open_def canonical_root_def exclusions_new_def opened_env_def open_workspace_def sample_params_of_def index_scan_cached_def
      scan_workspace_def scan_directory_def scan_files_def Let_def cache_store_def write_synced_def cache_then_def
      io_step_def sample_cache_def supervisor_new_def validate_policy_def sample_daemon_config_def
      default_bash_config_def trim_printable_ends printable_def resolve_bash_def bash_readiness_of_def readiness_is_ready_def
      supervisor_with_parts_def launcher_of_def path_is_absolute_def starts_with_def split: option.split)

lemma sample_initializes:
  "\<exists>info app. initialize sample_init sample_daemon_config (application_default ''i'') () = (Inr info, app, ())
     \<and> app_files app = Some sample_tree"
proof -
  have s: "\<exists>repo. single_repo_config sample_init sample_daemon_config = Inr (''/w'', repo)
      \<and> wc_artifact_paths repo = [] \<and> wc_exclude_patterns repo = []"
    by (simp add: single_repo_config_def sample_daemon_config_def sample_init_def canonical_root_def Let_def
        trim_printable_ends printable_def)
  then obtain repo where s: "single_repo_config sample_init sample_daemon_config = Inr (''/w'', repo)"
    and a: "wc_artifact_paths repo = []" "wc_exclude_patterns repo = []" by blast
  have w: "require_worktree (ie_git sample_init ''/w'') ''/w'' = Inr ()"
    by (simp add: require_worktree_def sample_init_def Let_def sample_git_true trim_printable_ends printable_def)
  have "\<exists>w. lsp_worker_spawn None p settings = Inr w" for p settings
    by (cases "lss_enabled settings") (simp_all add: lsp_worker_spawn_def Let_def)
  then obtain f where "lsp_worker_spawn None p settings = Inr (f p settings)" for p settings by metis
  then have b: "\<exists>workers. backends_spawn (ie_threads sample_init) (dc_intelligence sample_daemon_config) = Inr workers"
    by (simp add: backends_spawn_def preset_all_def sample_init_def)
  obtain workers where b: "backends_spawn (ie_threads sample_init) (dc_intelligence sample_daemon_config) = Inr workers"
    using b ..
  obtain wp ac l where o: "actor_open sample_init sample_daemon_config ''/w'' repo () = (Inr (wp, ac), ())"
    and l: "launcher_of (ac_bash ac) = Inr l" and d: "ws_disk (ac_ws ac) = sample_tree"
    using sample_opens [OF a] by blast
  have v: "dc_config_version sample_daemon_config = 2" by (simp add: sample_daemon_config_def)
  show ?thesis by (simp add: initialize_def v s w o b l d app_files_def)
qed

definition sample_wire :: wire where
  "sample_wire =
     \<lparr>wi_schema = (\<lambda>_. JObj []),
      wi_parse = (\<lambda>_ _. Inr (OfWorkspace \<lparr>wq_action = ActRefresh, wq_force = Some True, wq_since_generation = None,
        wq_source = None, wq_limit = default_changes_limit\<rparr>)),
      wi_change = (\<lambda>_. Inl ([], [])), wi_change_schema = JNull\<rparr>"

theorem read_tools_leave_files_witness:
  "\<forall>cv. \<exists>info app. initialize sample_init sample_daemon_config (application_default ''i'') () = (Inr info, app, ())
     \<and> app_files (snd (call_tool sample_wire (cv\<lparr>cv_meanwhile := (\<lambda>a. a)\<rparr>) ''workspace'' None app))
       = Some sample_tree"
proof
  fix cv :: "mem_dir call_env"
  obtain info app where i: "initialize sample_init sample_daemon_config (application_default ''i'') () = (Inr info, app, ())"
    and f: "app_files app = Some sample_tree" using sample_initializes by blast
  let ?t = "\<lparr>td_name = ''workspace'', td_title = ''Workspace'', td_safety = SafetyRead, td_request = ReqWorkspace\<rparr>"
  have t: "find_tool ''workspace'' = Some ?t" by (simp add: find_tool_registry registry_def)
  have "app_files (snd (call_tool sample_wire (cv\<lparr>cv_meanwhile := (\<lambda>a. a)\<rparr>) ''workspace'' None app)) = app_files app"
    by (rule read_tools_leave_files [OF t]) (auto simp: git_reads_def sample_wire_def)
  with i f show "\<exists>info app. initialize sample_init sample_daemon_config (application_default ''i'') () = (Inr info, app, ())
     \<and> app_files (snd (call_tool sample_wire (cv\<lparr>cv_meanwhile := (\<lambda>a. a)\<rparr>) ''workspace'' None app))
       = Some sample_tree" by auto
qed

end
