(* ===== verification/Process_Group.thy ===== *)
theory Process_Group
  imports Run_Execution
begin

text \<open>
  The process groups of Bash runs and the process trees of Git and the language servers on Unix
  (\<open>src/process_runtime.rs\<close>), and the launch of a command (\<open>src/bash/launch.rs\<close>). A group is shared by
  its handles; what it did is the list of the signals sent, the latest first, each with its process
  group and time. Spawning itself is the operating system's: its outcome is an argument. Windows job
  objects are not modelled.
\<close>

section \<open>Adapters\<close>

datatype adapter = NoGroup | UnixGroup nat

datatype signal = SigTerm | SigKill

text \<open>A process id fits \<open>pid_t\<close>; group 0 is the own group, 1 belongs to init.\<close>

definition unix_group_new :: "nat \<Rightarrow> adapter option" where
  "unix_group_new pid = (if pid < 2 ^ 31 \<and> 1 < pid then Some (UnixGroup pid) else None)"

definition adapter_id :: "adapter \<Rightarrow> nat option" where
  "adapter_id a = (case a of NoGroup \<Rightarrow> None | UnixGroup pgid \<Rightarrow> Some pgid)"

definition adapter_signal :: "adapter \<Rightarrow> signal \<Rightarrow> nat \<Rightarrow> (nat \<times> signal \<times> nat) list" where
  "adapter_signal a s now = (case a of NoGroup \<Rightarrow> [] | UnixGroup pgid \<Rightarrow> [(pgid, s, now)])"

definition attach :: "nat option \<Rightarrow> adapter \<times> string option" where
  "attach pid =
     (case Option.bind pid unix_group_new of
        Some a \<Rightarrow> (a, None)
      | None \<Rightarrow> (NoGroup, Some ''CodeWeave warning: spawned task has no process group''))"

section \<open>A group and its handles\<close>

text \<open>The slot of the escalation task is never emptied: a task that ran still occupies it.\<close>

datatype escalation = NoEscalation | EscalationDue nat | Escalated

record group_inner =
  pg_adapter :: adapter
  pg_handles :: nat
  pg_escalation :: escalation
  pg_sent :: "(nat \<times> signal \<times> nat) list"

definition from_adapter :: "adapter \<Rightarrow> group_inner" where
  "from_adapter a = \<lparr>pg_adapter = a, pg_handles = 1, pg_escalation = NoEscalation, pg_sent = []\<rparr>"

definition send_signal :: "signal \<Rightarrow> nat \<Rightarrow> group_inner \<Rightarrow> group_inner" where
  "send_signal s now g = g\<lparr>pg_sent := adapter_signal (pg_adapter g) s now @ pg_sent g\<rparr>"

text \<open>\<open>terminate\<close>; \<open>runtime\<close> says whether it is called inside the asynchronous runtime.\<close>

definition terminate :: "bool \<Rightarrow> nat \<Rightarrow> nat \<Rightarrow> group_inner \<Rightarrow> group_inner" where
  "terminate runtime grace now g =
     (let g1 = send_signal SigTerm now g
      in if pg_escalation g \<noteq> NoEscalation then g1
         else if runtime then g1\<lparr>pg_escalation := EscalationDue (now + grace)\<rparr>
         else send_signal SigKill now g1)"

definition escalate :: "nat \<Rightarrow> group_inner \<Rightarrow> group_inner" where
  "escalate now g = (send_signal SigKill now g)\<lparr>pg_escalation := Escalated\<rparr>"

text \<open>The last handle takes the escalation and the group with it.\<close>

definition drop_handle :: "nat \<Rightarrow> group_inner \<Rightarrow> group_inner" where
  "drop_handle now g =
     (let g1 = g\<lparr>pg_handles := pg_handles g - 1\<rparr>
      in if pg_handles g1 = 0
         then send_signal SigKill now (g1\<lparr>pg_escalation := (case pg_escalation g of EscalationDue _ \<Rightarrow> NoEscalation | e \<Rightarrow> e)\<rparr>)
         else g1)"

text \<open>Handles act in any order, from any task; \<open>now\<close> is the moment of the step.\<close>

inductive group_step :: "group_inner \<Rightarrow> group_inner \<Rightarrow> bool" where
  stop: "0 < pg_handles g \<Longrightarrow> group_step g (terminate True grace now g)"
| stop_outside: "0 < pg_handles g \<Longrightarrow> group_step g (terminate False grace now g)"
| share: "0 < pg_handles g \<Longrightarrow> group_step g (g\<lparr>pg_handles := pg_handles g + 1\<rparr>)"
| due: "0 < pg_handles g \<Longrightarrow> pg_escalation g = EscalationDue t \<Longrightarrow> t \<le> now \<Longrightarrow> group_step g (escalate now g)"
| drop: "0 < pg_handles g \<Longrightarrow> group_step g (drop_handle now g)"

inductive_cases group_stepE: "group_step g g'"

section \<open>Launching\<close>

text \<open>What spawning gave: a failure, or the child's id and which of its pipes are there.\<close>

datatype spawned = SpawnFailed string | Spawned "nat option" bool bool

record launched =
  ln_group :: group_inner
  ln_warning :: "string option"

text \<open>The group of a launch that fails after the spawn is released, which kills it.\<close>

definition launch ::
    "string \<Rightarrow> nat \<Rightarrow> string \<Rightarrow> string \<Rightarrow> spawned \<Rightarrow> (app_error + launched) \<times> group_inner option" where
  "launch executable now command cwd outcome =
     (case outcome of
        SpawnFailed e \<Rightarrow>
          (Inl (error_with_details BashStartFailed e
             (JObj [(''bash_executable'', JStr executable), (''command'', JStr command), (''cwd'', JStr cwd)])), None)
      | Spawned pid has_stdout has_stderr \<Rightarrow>
          (case attach pid of (a, warning) \<Rightarrow>
             let g = from_adapter a;
                 pipe_error = (\<lambda>missing. error_new BashPipeFailed (''Bash '' @ missing @ '' pipe is unavailable''))
             in if \<not> has_stdout then (Inl (pipe_error ''stdout''), Some (drop_handle now g))
                else if \<not> has_stderr then (Inl (pipe_error ''stderr''), Some (drop_handle now g))
                else (Inr \<lparr>ln_group = g, ln_warning = warning\<rparr>, Some g)))"

section \<open>Process trees\<close>

text \<open>\<open>ProcessTree::terminate\<close> by the tree's process id: the signals that will be sent, in order.\<close>

definition tree_terminate :: "nat \<Rightarrow> nat \<Rightarrow> (nat \<times> signal \<times> nat) list" where
  "tree_terminate pid now =
     (case unix_group_new pid of
        None \<Rightarrow> []
      | Some a \<Rightarrow> adapter_signal a SigTerm now @ adapter_signal a SigKill (now + 2000))"

section \<open>Lemmas\<close>

text \<open>Signals go to the own group; an escalation is pending only while a handle exists and
  follows a polite stop; and a released group got its kill last.\<close>

definition group_inv :: "group_inner \<Rightarrow> bool" where
  "group_inv g \<longleftrightarrow>
     (\<forall>(pgid, s, t) \<in> set (pg_sent g). pg_adapter g = UnixGroup pgid)
   \<and> (\<forall>t. pg_escalation g = EscalationDue t \<longrightarrow> 0 < pg_handles g)
   \<and> (\<forall>pgid. pg_adapter g = UnixGroup pgid \<longrightarrow>
        (pg_escalation g \<noteq> NoEscalation \<longrightarrow> (\<exists>t. (pgid, SigTerm, t) \<in> set (pg_sent g)))
      \<and> (pg_handles g = 0 \<longrightarrow> (\<exists>t rest. pg_sent g = (pgid, SigKill, t) # rest)))"

lemma send_signal_simps [simp]:
  "pg_adapter (send_signal s now g) = pg_adapter g" "pg_handles (send_signal s now g) = pg_handles g"
  "pg_escalation (send_signal s now g) = pg_escalation g"
  "pg_sent (send_signal s now g) = adapter_signal (pg_adapter g) s now @ pg_sent g"
  by (simp_all add: send_signal_def)

lemma group_step_adapter: "group_step g g' \<Longrightarrow> pg_adapter g' = pg_adapter g"
  by (erule group_stepE) (simp_all add: terminate_def escalate_def drop_handle_def Let_def)

lemma group_step_inv:
  assumes "group_step g g'" "group_inv g"
  shows "group_inv g'"
  using assms
proof (cases rule: group_step.cases)
  case (drop now)
  then show ?thesis using assms(2)
    by (cases "pg_adapter g"; cases "pg_escalation g")
      (auto simp: group_inv_def drop_handle_def adapter_signal_def Let_def)
qed (auto simp: group_inv_def terminate_def escalate_def adapter_signal_def Let_def split: adapter.splits)

lemma group_reachable:
  assumes "group_step\<^sup>*\<^sup>* (from_adapter a) g"
  shows "group_inv g \<and> pg_adapter g = a"
  using assms
proof induction
  case base
  show ?case by (simp add: group_inv_def from_adapter_def)
next
  case (step g g')
  then show ?case using group_step_inv group_step_adapter by metis
qed

text \<open>Whatever the handles of a launched Bash process do and in whichever order, every signal goes to
  the group of that process, never to the own group or init's; a forced kill after a grace period
  is preceded by a polite stop; and once the last handle is gone the group got its kill and no further
  signal can follow, so a process id that is used again is never hit.\<close>

theorem released_group_is_killed_once:
  assumes "attach pid = (a, warning)" "group_step\<^sup>*\<^sup>* (from_adapter a) g"
  shows "(\<forall>(pgid, s, t) \<in> set (pg_sent g). pid = Some pgid \<and> 1 < pgid)
    \<and> (pg_handles g = 0 \<longrightarrow> (\<forall>g'. \<not> group_step g g')
         \<and> (warning = None \<longrightarrow> (\<exists>t rest. pg_sent g = (the pid, SigKill, t) # rest)))"
proof -
  have inv: "group_inv g" "pg_adapter g = a" using group_reachable [OF assms(2)] by auto
  have own: "a = UnixGroup pgid \<Longrightarrow> pid = Some pgid \<and> 1 < pgid" for pgid
    using assms(1) by (auto simp: attach_def unix_group_new_def bind_eq_Some_conv split: option.splits if_splits)
  have unix: "\<exists>pgid. a = UnixGroup pgid" if "warning = None"
    using assms(1) that by (auto simp: attach_def unix_group_new_def bind_eq_Some_conv split: option.splits if_splits)
  have stuck: "\<not> group_step g g'" if "pg_handles g = 0" for g' using that by (auto elim: group_stepE)
  have sent: "\<forall>(pgid, s, t) \<in> set (pg_sent g). pid = Some pgid \<and> 1 < pgid"
  proof clarify
    fix pgid s t
    assume "(pgid, s, t) \<in> set (pg_sent g)"
    then have "pg_adapter g = UnixGroup pgid" using inv(1) by (auto simp: group_inv_def)
    then show "pid = Some pgid \<and> 1 < pgid" using own inv(2) by simp
  qed
  have killed: "\<exists>t rest. pg_sent g = (the pid, SigKill, t) # rest" if w: "warning = None" and z: "pg_handles g = 0"
  proof -
    obtain pgid where p: "a = UnixGroup pgid" using unix [OF w] by blast
    have "\<exists>t rest. pg_sent g = (pgid, SigKill, t) # rest" using inv p z by (simp add: group_inv_def)
    with own [OF p] show ?thesis by simp
  qed
  show ?thesis
    by (intro conjI impI allI) (rule sent, erule stuck, erule (1) killed [rotated])
qed

theorem released_group_is_killed_once_witness:
  "pg_sent (drop_handle 9 (escalate 7 (terminate True 5 2 (from_adapter (UnixGroup 42)))))
     = [(42, SigKill, 9), (42, SigKill, 7), (42, SigTerm, 2)]
   \<and> (\<forall>g'. \<not> group_step (drop_handle 9 (escalate 7 (terminate True 5 2 (from_adapter (UnixGroup 42))))) g')"
proof -
  let ?a = "from_adapter (UnixGroup 42)" and ?b = "terminate True 5 2 (from_adapter (UnixGroup 42))"
  have 1: "group_step ?a ?b" by (rule group_step.stop) (simp add: from_adapter_def)
  have 2: "group_step ?b (escalate 7 ?b)"
    by (rule group_step.due [of _ 7]) (simp_all add: from_adapter_def terminate_def Let_def)
  have 3: "group_step (escalate 7 ?b) (drop_handle 9 (escalate 7 ?b))"
    by (rule group_step.drop) (simp add: from_adapter_def terminate_def escalate_def Let_def)
  have r: "group_step\<^sup>*\<^sup>* ?a (drop_handle 9 (escalate 7 ?b))"
    by (rule rtranclp.rtrancl_into_rtrancl [OF rtranclp.rtrancl_into_rtrancl [OF r_into_rtranclp [of group_step, OF 1] 2] 3])
  have a: "attach (Some 42) = (UnixGroup 42, None)" by (simp add: attach_def unix_group_new_def)
  from released_group_is_killed_once [OF a r] show ?thesis
    by (simp add: from_adapter_def terminate_def escalate_def drop_handle_def adapter_signal_def Let_def)
qed

text \<open>A launch that fails after the spawn leaves no group behind.\<close>

theorem failed_launch_kills_group:
  assumes "launch executable now command cwd outcome = (Inl e, Some g)"
  shows "pg_handles g = 0 \<and> (\<forall>pgid. pg_adapter g = UnixGroup pgid \<longrightarrow> pg_sent g = [(pgid, SigKill, now)])"
  using assms
  by (auto simp: launch_def drop_handle_def from_adapter_def adapter_signal_def Let_def
      split: spawned.splits prod.splits if_splits)

end
