(* ===== verification/Http_Server.thy ===== *)
theory Http_Server
  imports App_Error Text_Util Paths "HOL-Library.List_Lexorder" "HOL-Library.Char_ord"
begin

text \<open>
  The HTTP front of the server: its configuration (\<open>src/cli/config.rs\<close>), the bearer token and its
  file on Unix (\<open>src/token_file/mod.rs\<close>, \<open>src/token_file/unix.rs\<close>), the authorization and the start
  (\<open>src/cli/serve.rs\<close>), and the routes with their middleware (\<open>src/cli/mcp_transport.rs\<close>).
  Parameters: the deserialization of the configuration, the operating system's calls on the
  token file (\<open>token_ops\<close>), UUIDs, the initialization of the repository and the MCP service
  behind the routes. The header of a request is given as the text \<open>to_str\<close> makes of it, its body
  as the sizes of the pieces it arrives in. Requests interleave: \<open>http_step\<close> is one step of one
  of them.
\<close>

section \<open>Configuration\<close>

datatype auth_mode = AuthBearer | AuthNone

fun auth_mode_as_str :: "auth_mode \<Rightarrow> string" where
  "auth_mode_as_str AuthBearer = ''bearer''"
| "auth_mode_as_str AuthNone = ''none''"

record server_config =
  svc_host :: string
  svc_port :: nat
  svc_auth_mode :: auth_mode
  svc_token_file :: string
  svc_allowed_hosts :: "string list"
  svc_allowed_origins :: "string list"
  svc_idle_timeout_ms :: nat

definition default_host :: string where "default_host = ''127.0.0.1''"

definition default_port :: nat where "default_port = 8813"

definition default_auth :: auth_mode where "default_auth = AuthBearer"

definition default_token :: string where "default_token = ''.mcp-token''"

definition default_idle_timeout_ms :: nat where "default_idle_timeout_ms = 5000"

text \<open>What \<open>serde\<close> fills in for the fields a \<open>server\<close> section leaves out.\<close>

definition server_config_default :: server_config where
  "server_config_default =
     \<lparr>svc_host = default_host, svc_port = default_port, svc_auth_mode = default_auth,
      svc_token_file = default_token, svc_allowed_hosts = [], svc_allowed_origins = [],
      svc_idle_timeout_ms = default_idle_timeout_ms\<rparr>"

text \<open>\<open>Path::parent\<close>, up to repeated separators.\<close>

definition config_parent :: "string \<Rightarrow> string option" where
  "config_parent path =
     (case rev (path_components path) of
        [] \<Rightarrow> None
      | RootDir # _ \<Rightarrow> None
      | _ # rest \<Rightarrow>
          Some (case rev rest of
                  RootDir # cs \<Rightarrow> ''/'' @ join_with ''/'' (map component_text cs)
                | cs \<Rightarrow> join_with ''/'' (map component_text cs)))"

definition parent_or_dot :: "string \<Rightarrow> string" where
  "parent_or_dot path = (case config_parent path of None \<Rightarrow> ''.'' | Some p \<Rightarrow> p)"

text \<open>The document without the sections of the server, given to \<open>parse_daemon\<close>.\<close>

definition daemon_document :: "string \<Rightarrow> (string \<times> json) list \<Rightarrow> (string \<times> json) list" where
  "daemon_document path root =
     filter (\<lambda>kv. fst kv \<notin> {''server'', ''rust''})
       (case map_of root ''cacheRoot'' of
          Some _ \<Rightarrow> root
        | None \<Rightarrow> obj_insert ''cacheRoot'' (JStr (path_joined (parent_or_dot path) ''.codeweave-cache'')) root)"

definition load_config ::
    "(json \<Rightarrow> string + server_config) \<Rightarrow> (json \<Rightarrow> app_error + 'd) \<Rightarrow> ('d \<Rightarrow> nat) \<Rightarrow> string
     \<Rightarrow> string + json \<Rightarrow> string + server_config \<times> 'd" where
  "load_config parse_server parse_daemon config_version path document =
     (case document of
        Inl e \<Rightarrow> Inl e
      | Inr root \<Rightarrow>
          (case parse_server (case json_get root ''server'' of None \<Rightarrow> JObj [] | Some s \<Rightarrow> s) of
             Inl e \<Rightarrow> Inl (''invalid server configuration: '' @ e)
           | Inr server \<Rightarrow>
               (case root of
                  JObj obj \<Rightarrow>
                    (case parse_daemon (JObj (daemon_document path obj)) of
                       Inl e \<Rightarrow> Inl (ae_message e)
                     | Inr daemon \<Rightarrow>
                         if config_version daemon \<noteq> 2
                         then Inl (''unsupported configVersion '' @ show_nat (config_version daemon)
                                @ ''; configVersion must be 2'')
                         else Inr (server, daemon))
                | _ \<Rightarrow> Inl ''config root must be an object'')))"


section \<open>The bearer token file\<close>

datatype token_file_error =
    TokenIo string string string
  | TokenLink string
  | TokenNotPrivate string string

fun token_file_error_display :: "token_file_error \<Rightarrow> string" where
  "token_file_error_display (TokenIo action path source) = action @ '' bearer token file '' @ path @ '': '' @ source"
| "token_file_error_display (TokenLink path) =
     ''bearer token file '' @ path @ '' must not be a symlink or reparse point''"
| "token_file_error_display (TokenNotPrivate path reason) = ''bearer token file '' @ path @ '' '' @ reason"

text \<open>What opening a file for reading without following a final link found: nothing, a link, a
  failure, or a file with its mode (or the failure to read it) and its text (or that failure).\<close>

datatype opened = OpenMissing | OpenLink | OpenFailed string | OpenFile "string + nat" "string + string"

record 'd token_ops =
  to_open_nofollow :: "'d \<Rightarrow> string \<Rightarrow> opened"
  to_create_new :: "'d \<Rightarrow> string \<Rightarrow> nat \<Rightarrow> (string + unit) \<times> 'd"
  to_write_all :: "'d \<Rightarrow> string \<Rightarrow> string \<Rightarrow> (string + unit) \<times> 'd"
  to_create_dirs :: "'d \<Rightarrow> string \<Rightarrow> (string + unit) \<times> 'd"

definition create_private ::
    "'d token_ops \<Rightarrow> 'd \<Rightarrow> string \<Rightarrow> string \<Rightarrow> (token_file_error + unit) \<times> 'd" where
  "create_private ops d path contents =
     (case to_create_new ops d path 0x180 of
        (Inl e, d1) \<Rightarrow> (Inl (TokenIo ''creating'' path e), d1)
      | (Inr _, d1) \<Rightarrow>
          (case to_write_all ops d1 path contents of
             (Inl e, d2) \<Rightarrow> (Inl (TokenIo ''writing'' path e), d2)
           | (Inr _, d2) \<Rightarrow> (Inr (), d2)))"

text \<open>\<open>mode & 0o077\<close>: any access of the group or of others.\<close>

definition open_private :: "'d token_ops \<Rightarrow> 'd \<Rightarrow> string \<Rightarrow> token_file_error + (string + string) option" where
  "open_private ops d path =
     (case to_open_nofollow ops d path of
        OpenMissing \<Rightarrow> Inr None
      | OpenLink \<Rightarrow> Inl (TokenLink path)
      | OpenFailed e \<Rightarrow> Inl (TokenIo ''opening'' path e)
      | OpenFile (Inl e) _ \<Rightarrow> Inl (TokenIo ''inspecting'' path e)
      | OpenFile (Inr mode) text \<Rightarrow>
          if mode mod 64 \<noteq> 0
          then Inl (TokenNotPrivate path
                 (''must not be accessible by group or other users; run chmod 600 '' @ path))
          else Inr (Some text))"

definition read_private :: "'d token_ops \<Rightarrow> 'd \<Rightarrow> string \<Rightarrow> token_file_error + string option" where
  "read_private ops d path =
     (case open_private ops d path of
        Inl e \<Rightarrow> Inl e
      | Inr None \<Rightarrow> Inr None
      | Inr (Some (Inl e)) \<Rightarrow> Inl (TokenIo ''reading'' path e)
      | Inr (Some (Inr text)) \<Rightarrow> Inr (Some text))"

text \<open>The token is two UUIDs; \<open>uuid n\<close> is the \<open>n\<close>-th one in its simple form.\<close>

definition load_or_create_bearer_token ::
    "'d token_ops \<Rightarrow> (nat \<Rightarrow> string) \<Rightarrow> 'd \<Rightarrow> string \<Rightarrow> (string + string) \<times> 'd" where
  "load_or_create_bearer_token ops uuid d path =
     (case read_private ops d path of
        Inl e \<Rightarrow> (Inl (token_file_error_display e), d)
      | Inr (Some value) \<Rightarrow>
          (if trim value = [] then Inl (''bearer token file is empty: '' @ path) else Inr (trim value), d)
      | Inr None \<Rightarrow>
          (case (case config_parent path of
                   None \<Rightarrow> (Inr (), d)
                 | Some p \<Rightarrow> (case to_create_dirs ops d p of
                       (Inl e, d1) \<Rightarrow> (Inl (''creating bearer token directory '' @ p), d1)
                     | (Inr u, d1) \<Rightarrow> (Inr u, d1))) of
             (Inl e, d1) \<Rightarrow> (Inl e, d1)
           | (Inr _, d1) \<Rightarrow>
               let token = uuid 0 @ uuid 1
               in (case create_private ops d1 path token of
                     (Inl e, d2) \<Rightarrow> (Inl (token_file_error_display e), d2)
                   | (Inr _, d2) \<Rightarrow> (Inr token, d2))))"

section \<open>Starting\<close>



record app_state =
  as_server :: server_config
  as_token :: "string option"
  as_instance_id :: string




section \<open>Requests\<close>

definition authorized :: "string option \<Rightarrow> app_state \<Rightarrow> bool" where
  "authorized header st \<longleftrightarrow>
     (case as_token st of
        None \<Rightarrow> True
      | Some expected \<Rightarrow>
          (case Option.bind header (strip_prefix ''Bearer '') of None \<Rightarrow> [] | Some t \<Rightarrow> t) = expected)"

definition max_mcp_request_bytes :: nat where "max_mcp_request_bytes = 4 * 1024 * 1024"

definition max_buffered_mcp_request_bytes :: nat where "max_buffered_mcp_request_bytes = 16 * 1024 * 1024"

definition max_concurrent_mcp_body_collections :: nat where
  "max_concurrent_mcp_body_collections = max_buffered_mcp_request_bytes div max_mcp_request_bytes"

definition max_http_connections :: nat where "max_http_connections = 128"

text \<open>Where the router sends a request: to one of the two open handlers, through the two layers of
  the MCP routes, or to an answer of its own (no such route, no such method). Matching paths and
  methods is the router library's, so the route is part of the request.\<close>

datatype route = RouteLive | RouteHealth | RouteMcp | RouteUnknown

record http_request =
  hq_route :: route
  hq_authorization :: "string option"

datatype http_answer = AnswerLive | AnswerHealth | AnswerRouter | AnswerUnauthorized | AnswerBusy | AnswerTooLarge

text \<open>An admitted request holds one permit of the body budget: while its body arrives, with the
  bytes so far, and then while the MCP service works on it.\<close>

datatype admitted = Collecting nat | Serving nat

fun buffered :: "admitted \<Rightarrow> nat" where
  "buffered (Collecting n) = n"
| "buffered (Serving n) = n"

record http_state =
  hs_permits :: nat
  hs_active :: "(nat \<times> http_request \<times> admitted) list"
  hs_answered :: "(nat \<times> http_answer) list"

definition http_new :: http_state where
  "http_new = \<lparr>hs_permits = max_concurrent_mcp_body_collections, hs_active = [], hs_answered = []\<rparr>"

definition answer :: "nat \<Rightarrow> http_answer \<Rightarrow> http_state \<Rightarrow> http_state" where
  "answer n a s = s\<lparr>hs_answered := (n, a) # hs_answered s\<rparr>"

text \<open>The outer middleware first: \<open>require_auth\<close>, then \<open>limit_mcp_body\<close>.\<close>

definition http_arrive :: "app_state \<Rightarrow> nat \<Rightarrow> http_request \<Rightarrow> http_state \<Rightarrow> http_state" where
  "http_arrive st n r s =
     (case hq_route r of
        RouteLive \<Rightarrow> answer n AnswerLive s
      | RouteHealth \<Rightarrow> answer n AnswerHealth s
      | RouteUnknown \<Rightarrow> answer n AnswerRouter s
      | RouteMcp \<Rightarrow>
          if \<not> authorized (hq_authorization r) st then answer n AnswerUnauthorized s
          else if hs_permits s = 0 then answer n AnswerBusy s
          else s\<lparr>hs_permits := hs_permits s - 1, hs_active := (n, r, Collecting 0) # hs_active s\<rparr>)"

definition release :: "nat \<Rightarrow> http_state \<Rightarrow> http_state" where
  "release n s = s\<lparr>hs_permits := hs_permits s + 1, hs_active := filter (\<lambda>a. fst a \<noteq> n) (hs_active s)\<rparr>"

definition set_phase :: "nat \<Rightarrow> admitted \<Rightarrow> http_state \<Rightarrow> http_state" where
  "set_phase n p s = s\<lparr>hs_active := map (\<lambda>(m, r, q). (m, r, if m = n then p else q)) (hs_active s)\<rparr>"

text \<open>\<open>to_bytes\<close> fails with the piece that exceeds the limit; the permit is then returned.\<close>

definition http_chunk :: "nat \<Rightarrow> nat \<Rightarrow> nat \<Rightarrow> http_state \<Rightarrow> http_state" where
  "http_chunk n got piece s =
     (if max_mcp_request_bytes < got + piece then answer n AnswerTooLarge (release n s)
      else set_phase n (Collecting (got + piece)) s)"

inductive http_step :: "app_state \<Rightarrow> http_state \<Rightarrow> http_state \<Rightarrow> bool" for st where
  arrive: "n \<notin> fst ` set (hs_active s) \<Longrightarrow> http_step st s (http_arrive st n r s)"
| chunk: "(n, r, Collecting got) \<in> set (hs_active s) \<Longrightarrow> http_step st s (http_chunk n got piece s)"
| complete: "(n, r, Collecting got) \<in> set (hs_active s) \<Longrightarrow> http_step st s (set_phase n (Serving got) s)"
| closed: "(n, r, Collecting got) \<in> set (hs_active s) \<Longrightarrow> http_step st s (release n s)"
| served: "(n, r, Serving got) \<in> set (hs_active s) \<Longrightarrow> http_step st s (release n s)"

inductive_cases http_stepE: "http_step st s s'"

section \<open>Hosts and the accept loop\<close>

definition trim_char_start :: "char \<Rightarrow> string \<Rightarrow> string" where
  "trim_char_start c s = dropWhile (\<lambda>x. x = c) s"

definition trim_char_end :: "char \<Rightarrow> string \<Rightarrow> string" where
  "trim_char_end c s = rev (dropWhile (\<lambda>x. x = c) (rev s))"

definition bare_host :: "string \<Rightarrow> string" where
  "bare_host host = trim_char_end CHR '']'' (trim_char_start CHR ''['' host)"

definition is_ipv6_literal :: "string \<Rightarrow> bool" where
  "is_ipv6_literal host \<longleftrightarrow> CHR '':'' \<in> set (bare_host host)"

definition host_authorities :: "string \<Rightarrow> nat \<Rightarrow> string list" where
  "host_authorities host0 port =
     (let host = trim host0 in
      if host = [] then []
      else if is_ipv6_literal host
      then [''['' @ bare_host host @ '']'', ''['' @ bare_host host @ '']:'' @ show_nat port]
      else [host, host @ '':'' @ show_nat port])"

definition configured_allowed_hosts :: "server_config \<Rightarrow> string list" where
  "configured_allowed_hosts server =
     (if list_ex (\<lambda>host. trim host = ''*'') (svc_allowed_hosts server) then []
      else remdups_adj (sort (host_authorities (svc_host server) (svc_port server)
             @ host_authorities ''localhost'' (svc_port server) @ host_authorities ''127.0.0.1'' (svc_port server)
             @ host_authorities ''::1'' (svc_port server) @ svc_allowed_hosts server)))"

definition is_accept_resource_exhaustion :: "int option \<Rightarrow> bool" where
  "is_accept_resource_exhaustion raw_os_error \<longleftrightarrow> raw_os_error \<in> Some ` {4, 23, 24, 10024}"

text \<open>The pause after a failed \<open>accept\<close> and the next one, in milliseconds.\<close>

definition accept_backoff :: "int option \<Rightarrow> nat \<Rightarrow> nat \<times> nat" where
  "accept_backoff raw_os_error current =
     (let exhausted = is_accept_resource_exhaustion raw_os_error;
          min_backoff = (if exhausted then 100 else 10);
          max_backoff = (if exhausted then 5000 else 1000);
          pause = min (max current min_backoff) max_backoff
      in (pause, min (pause * 2) max_backoff))"

fun accept_pauses :: "nat \<Rightarrow> (int option) option list \<Rightarrow> nat list" where
  "accept_pauses current [] = []"
| "accept_pauses current (None # attempts) = accept_pauses 10 attempts"
| "accept_pauses current (Some e # attempts) =
     (case accept_backoff e current of (pause, next) \<Rightarrow> pause # accept_pauses next attempts)"

section \<open>Lemmas\<close>

text \<open>The permits that are not free are held by the admitted requests, each of them authorized and
  within the limit of one body.\<close>

definition http_inv :: "app_state \<Rightarrow> http_state \<Rightarrow> bool" where
  "http_inv st s \<longleftrightarrow>
     hs_permits s + length (hs_active s) = max_concurrent_mcp_body_collections
   \<and> distinct (map fst (hs_active s))
   \<and> (\<forall>(n, r, p) \<in> set (hs_active s). authorized (hq_authorization r) st \<and> buffered p \<le> max_mcp_request_bytes)"

lemma http_new_inv: "http_inv st http_new"
  by (simp add: http_inv_def http_new_def)

lemma answer_inv [simp]: "http_inv st (answer n a s) = http_inv st s"
  by (simp add: http_inv_def answer_def)

lemma filter_id_once:
  "distinct (map fst xs) \<Longrightarrow> (n, v) \<in> set xs \<Longrightarrow> Suc (length (filter (\<lambda>a. fst a \<noteq> n) xs)) = length xs"
proof (induction xs)
  case (Cons x xs)
  show ?case
  proof (cases "fst x = n")
    case True
    with Cons.prems(1) have "\<forall>a \<in> set xs. fst a \<noteq> n" by (metis distinct.simps(2) image_eqI list.simps(9) set_map)
    then have "filter (\<lambda>a. fst a \<noteq> n) xs = xs" by (rule filter_True)
    with True show ?thesis by simp
  next
    case False
    with Cons.prems(2) have "(n, v) \<in> set xs" by auto
    with False Cons.IH Cons.prems(1) show ?thesis by simp
  qed
qed simp


lemma release_inv:
  assumes "http_inv st s" "(n, v) \<in> set (hs_active s)"
  shows "http_inv st (release n s)"
proof -
  have "Suc (length (filter (\<lambda>a. fst a \<noteq> n) (hs_active s))) = length (hs_active s)"
    using assms by (intro filter_id_once) (auto simp: http_inv_def)
  with assms(1) show ?thesis
    by (auto simp: http_inv_def release_def intro: distinct_map_filter)
qed

lemma set_phase_inv:
  assumes "http_inv st s" "buffered p \<le> max_mcp_request_bytes"
  shows "http_inv st (set_phase n p s)"
proof -
  have "map fst (hs_active (set_phase n p s)) = map fst (hs_active s)"
    by (auto simp: set_phase_def)
  moreover have "hs_permits (set_phase n p s) = hs_permits s"
    "length (hs_active (set_phase n p s)) = length (hs_active s)" by (simp_all add: set_phase_def)
  moreover have "\<forall>(n, r, q) \<in> set (hs_active (set_phase n p s)).
      authorized (hq_authorization r) st \<and> buffered q \<le> max_mcp_request_bytes"
    using assms by (auto simp: set_phase_def http_inv_def)
  ultimately show ?thesis using assms(1) by (simp add: http_inv_def)
qed

lemma http_arrive_inv:
  assumes "http_inv st s" "n \<notin> fst ` set (hs_active s)"
  shows "http_inv st (http_arrive st n r s)"
proof (cases "hq_route r = RouteMcp \<and> authorized (hq_authorization r) st \<and> hs_permits s \<noteq> 0")
  case True
  with assms show ?thesis by (auto simp: http_arrive_def http_inv_def)
next
  case False
  with assms(1) show ?thesis by (auto simp: http_arrive_def split: route.splits)
qed

lemma http_chunk_inv:
  assumes "http_inv st s" "(n, r, Collecting got) \<in> set (hs_active s)"
  shows "http_inv st (http_chunk n got piece s)"
  using release_inv [OF assms] set_phase_inv [OF assms(1)] by (simp add: http_chunk_def)

lemma http_step_inv: "http_step st s s' \<Longrightarrow> http_inv st s \<Longrightarrow> http_inv st s'"
proof (induction rule: http_step.induct)
  case (complete n r got s)
  then have "got \<le> max_mcp_request_bytes" by (force simp: http_inv_def)
  with complete show ?case by (simp add: set_phase_inv)
qed (blast intro: http_arrive_inv http_chunk_inv release_inv)+

lemma http_reachable_inv: "(http_step st)\<^sup>*\<^sup>* http_new s \<Longrightarrow> http_inv st s"
  by (induction rule: rtranclp_induct) (auto intro: http_step_inv http_new_inv)

lemma sum_list_le_length: "\<forall>x \<in> set xs. f x \<le> (b :: nat) \<Longrightarrow> sum_list (map f xs) \<le> length xs * b"
  by (induction xs) auto






text \<open>The pauses of the accept loop stay between ten milliseconds and five seconds.\<close>

lemma accept_pauses_bounded: "\<forall>p \<in> set (accept_pauses current attempts). 10 \<le> p \<and> p \<le> 5000"
proof (induction current attempts rule: accept_pauses.induct)
  case (3 current e attempts)
  have "10 \<le> fst (accept_backoff e current) \<and> fst (accept_backoff e current) \<le> 5000"
    by (cases "is_accept_resource_exhaustion e") (simp_all add: accept_backoff_def Let_def)
  with 3 show ?case by (cases "accept_backoff e current") simp
qed simp_all

lemma loopback_hosts_allowed:
  assumes "\<not> list_ex (\<lambda>host. trim host = ''*'') (svc_allowed_hosts server)"
  shows "set (host_authorities ''127.0.0.1'' (svc_port server) @ host_authorities ''localhost'' (svc_port server)
      @ svc_allowed_hosts server) \<subseteq> set (configured_allowed_hosts server)"
  using assms by (auto simp: configured_allowed_hosts_def)

text \<open>A token the server created is the token it loads when it starts again, if the file system
  gives back what was written under the mode it was created with.\<close>

lemma created_token_is_loaded:
  assumes "load_or_create_bearer_token ops uuid d path = (Inr token, d')" "read_private ops d path = Inr None"
    and "\<And>d1 d2 contents. to_write_all ops d1 path contents = (Inr (), d2) \<Longrightarrow>
           to_open_nofollow ops d2 path = OpenFile (Inr 0x180) (Inr contents)"
    and "\<And>n. uuid n \<noteq> [] \<and> printable (hd (uuid n)) \<and> printable (last (uuid n))"
  shows "load_or_create_bearer_token ops uuid' d' path = (Inr token, d')"
proof -
  from assms(1,2) obtain d1 where t: "token = uuid 0 @ uuid 1" and "to_write_all ops d1 path token = (Inr (), d')"
    by (auto simp: load_or_create_bearer_token_def create_private_def Let_def split: sum.splits prod.splits)
  then have "read_private ops d' path = Inr (Some token)"
    using assms(3) by (simp add: read_private_def open_private_def)
  moreover have "trim token = token" "token \<noteq> []"
    using assms(4) [of 0] assms(4) [of 1] t by (auto intro!: trim_printable_ends)
  ultimately show ?thesis by (simp add: load_or_create_bearer_token_def)
qed

section \<open>Properties\<close>


text \<open>C9. The bodies in memory are bounded. However requests interleave, the four permits of the body
  budget are free or each held by one admitted request, no body exceeds four MiB and all of them
  together never exceed sixteen MiB; a fifth request is refused, not queued.\<close>

theorem buffered_bodies_are_bounded:
  assumes "(http_step st)\<^sup>*\<^sup>* http_new s"
  shows "hs_permits s + length (hs_active s) = 4
    \<and> (\<forall>(n, r, p) \<in> set (hs_active s). buffered p \<le> max_mcp_request_bytes)
    \<and> sum_list (map (\<lambda>(n, r, p). buffered p) (hs_active s)) \<le> max_buffered_mcp_request_bytes
    \<and> (length (hs_active s) = 4 \<longrightarrow> hs_active (http_arrive st m q s) = hs_active s)"
proof -
  have inv: "http_inv st s" by (rule http_reachable_inv [OF assms])
  then have four: "hs_permits s + length (hs_active s) = 4"
    by (simp add: http_inv_def max_concurrent_mcp_body_collections_def max_buffered_mcp_request_bytes_def
        max_mcp_request_bytes_def)
  have each: "\<forall>x \<in> set (hs_active s). (\<lambda>(n, r, p). buffered p) x \<le> max_mcp_request_bytes"
    using inv by (auto simp: http_inv_def)
  have "sum_list (map (\<lambda>(n, r, p). buffered p) (hs_active s)) \<le> length (hs_active s) * max_mcp_request_bytes"
    by (rule sum_list_le_length [OF each])
  also have "\<dots> \<le> 4 * max_mcp_request_bytes" using four by simp
  also have "\<dots> = max_buffered_mcp_request_bytes"
    by (simp add: max_buffered_mcp_request_bytes_def max_mcp_request_bytes_def)
  finally show ?thesis using four each by (auto simp: http_arrive_def answer_def split: route.splits)
qed

section \<open>A concrete server\<close>



definition sample_app :: app_state where
  "sample_app = \<lparr>as_server = server_config_default, as_token = Some ''aa'', as_instance_id = ''i''\<rparr>"

definition sample_http_request :: http_request where
  "sample_http_request = \<lparr>hq_route = RouteMcp, hq_authorization = Some ''Bearer aa''\<rparr>"


lemma sample_admits:
  "(http_step sample_app)\<^sup>*\<^sup>* http_new (http_arrive sample_app 3 sample_http_request http_new)"
  "hs_active (http_arrive sample_app 3 sample_http_request http_new) = [(3, sample_http_request, Collecting 0)]"
  by (rule r_into_rtranclp, rule http_step.arrive, simp add: http_new_def)
    (simp add: http_arrive_def sample_http_request_def authorized_def sample_app_def http_new_def
      max_concurrent_mcp_body_collections_def max_buffered_mcp_request_bytes_def max_mcp_request_bytes_def)


theorem buffered_bodies_are_bounded_witness:
  "hs_permits (http_arrive sample_app 3 sample_http_request http_new)
     + length (hs_active (http_arrive sample_app 3 sample_http_request http_new)) = 4
   \<and> length (hs_active (http_arrive sample_app 3 sample_http_request http_new)) = 1"
  using buffered_bodies_are_bounded [OF sample_admits(1)] sample_admits(2) by simp

end
