(* ===== verification/Spec2Isabelle.thy ===== *)
theory Spec2Isabelle
  imports Run_Execution Edit_Commit Search_Windows Index_Search Bash_Supervisor
    Request_Contract Edit_Validation Application Process_Group Http_Server
begin

text \<open>
  CodeWeave serves one Git repository to clients of the Model Context Protocol: an in-memory index
  answers searches and reads, edits are planned and committed under preconditions, Git and Bash run
  as child processes, and language servers give semantic answers. This development models its
  Rust sources under \<open>src/\<close> and proves what makes each part correct; this theory collects it.

  \<^bold>\<open>Conventions.\<close> A struct is a record, an enum a datatype, an operation a function from the state
  to its result and the next state. An error is the left side of a sum (\<open>app_error\<close>), an outer
  option is \<open>None\<close> where the code would panic. Text the code handles by bytes is a \<open>string\<close> of
  bytes; text it handles by characters is a list of Unicode scalar values (\<open>ustr\<close>). Sizes and
  counters are natural numbers, with the saturating or refused operations of the code written out;
  the generation, a 64-bit counter that only grows by one, is not wrapped.
  Times are numbers, and UUIDs and clocks are arguments. A disk is a value of a type \<open>'d\<close> that only
  the operations of a \<open>dir_ops\<close> record read or change, so every fault of the file system is an
  answer of these operations; \<open>mem_ops\<close> is a concrete disk with scripted faults that obeys the
  contract \<open>dir_contract\<close>. Code that is not part of the repository is an argument: SHA-256, the
  regular-expression engine, the ignore matcher, the Tree-sitter parsers, the line diff, serde's
  derived serializers and the schema derivation, Git's process and the language servers.

  \<^bold>\<open>Foundations.\<close> \<open>Prelude\<close> and \<open>Text_Util\<close> hold the shared vocabulary on text; \<open>App_Error\<close> the
  error codes, their policies and the results of tools (\<open>error.rs\<close>, \<open>tools/call.rs\<close>); \<open>Paths\<close> and
  \<open>Workspace_Root\<close> the workspace-relative paths and the confined root with its atomic writes
  (\<open>security.rs\<close>, \<open>index/path_filter.rs\<close>), with the locales \<open>dir_contract\<close> and \<open>file_store\<close> for what
  the commit of an edit relies on. Proved: a path stays below the root, an atomic write replaces its
  file or changes nothing.

  \<^bold>\<open>Index.\<close> \<open>Code_Index\<close>, \<open>Index_Scan\<close>, \<open>Symbols\<close>, \<open>Search_Windows\<close>, \<open>Index_Search\<close> and
  \<open>Reference_Search\<close> model \<open>index/\<close>, \<open>symbols.rs\<close> and \<open>reference_service/\<close>: the files with their
  symbol postings and digest, scan, refresh and cache, identifier occurrences, result windows and
  the searches. Proved: the index with its postings and digest refines a map from paths to entries; its snapshot id depends on
  the files alone; the prefilter of text search loses nothing; windows partition the hits;
  occurrences and untruncated reference answers (without the declaration as an extra result) are complete.

  \<^bold>\<open>Workspace.\<close> \<open>Change_Ledger\<close> and \<open>Workspace_State\<close> model the pending paths, the log of
  mutations, and the reconcile that brings index and repository status up to date
  (\<open>workspace/state/\<close>, \<open>workspace/reconcile.rs\<close>, \<open>workspace/events.rs\<close>); \<open>Workspace_Report\<close> the
  summary, rescan, attribution of changes to runs and the opening of a workspace
  (\<open>workspace/summary.rs\<close>, \<open>workspace/run.rs\<close>, \<open>workspace/mod.rs\<close>). Proved: a reconcile keeps a
  current stamp current, and makes it current when it changes something.

  \<^bold>\<open>Edits.\<close> \<open>Edit_Text\<close>, \<open>Edit_Plan\<close>, \<open>Edit_Commit\<close>, \<open>Edit_Validation\<close> and \<open>Edit_Tool\<close> follow a request
  from its JSON to its response (\<open>requests/edit.rs\<close>, \<open>workspace/edit.rs\<close>, \<open>workspace/commit.rs\<close>,
  \<open>workspace/validation.rs\<close>, \<open>workspace/util.rs\<close>, \<open>workspace/io_helpers.rs\<close>, \<open>index/handle.rs\<close>,
  \<open>index/lines.rs\<close>). Proved: no change of an existing file without a precondition, all exact edits of a request
  found and disjoint, the code of the first bad change, exact replacement, the recheck before the commit, a successful commit writes the plan and a
  failed one restores or names every file, and the response tells the truth.

  \<^bold>\<open>Bash.\<close> \<open>Output_Decoder\<close>, \<open>Bounded_Tail\<close>, \<open>Run_Output\<close>, \<open>Run_Lifecycle\<close>, \<open>Run_Execution\<close>,
  \<open>Bash_Supervisor\<close> and \<open>Process_Group\<close> model \<open>bash.rs\<close>, \<open>bash/\<close> and \<open>process_runtime.rs\<close>: decoding and bounding the output, the one state
  machine of a record, the execution of a run as a step relation over its events, and the table
  of runs with admission, queue, polls and cancellation, and the process group with its signals. Proved: decoding does not depend on the
  chunks, the end of a run is recorded once, a requested cancellation wins, every execution
  ends with its record, one run owns the process, paging ends with the retained text, and a released
  group is killed and never signalled again.

  \<^bold>\<open>Retrieval and Git.\<close> \<open>Request_Contract\<close>, \<open>Retrieval_Request\<close>, \<open>Workspace_Fetch\<close> and \<open>Retrieval\<close>
  model the contracts of requests, the operations of \<open>code_retrieve\<close>, exact reads with their
  continuations, and the batch (\<open>requests/contract.rs\<close>, \<open>contracts.rs\<close>, \<open>retrieval/\<close>,
  \<open>workspace/fetch.rs\<close>, \<open>workspace/retrieve.rs\<close>); \<open>Git_Repository\<close> and \<open>Git_Tool\<close> the Git command
  line, its parsers and the tools over it (\<open>repository/\<close>, \<open>workspace/git.rs\<close>, \<open>requests/git.rs\<close>).
  Proved: a request passes exactly when its published schema accepts it, prepared operations are
  within their limits, a batch answers in order, each operation from the state it reads, reading by
  continuations ends and covers the text, unconfirmed Git changes nothing.

  \<^bold>\<open>Language servers.\<close> \<open>Lsp_Uri\<close>, \<open>Lsp_Position\<close>, \<open>Lsp_Sync\<close>, \<open>Lsp_Transport\<close>, \<open>Lsp_Server\<close>,
  \<open>Lsp_Worker\<close>, \<open>Lsp_Session\<close> and \<open>Lsp_Service\<close> model \<open>intelligence/\<close>: URIs and positions, the
  protocol and document synchronization, framing, one server over scripted transport events, its
  worker with restarts, sessions with their freshness checks over a history of the workspace, and
  the service. Proved: round trips of URIs and frames, synchronization refines a map to the latest
  text, a worker's answers are about synchronized text and its status agrees with its server, semantic
  answers are current, and a server's edit is applied simultaneously.

  \<^bold>\<open>Application and server.\<close> \<open>Application\<close> composes all of it into the state of \<open>manager.rs\<close> and binds
  the 25 tools of \<open>tools/\<close> to its operations; \<open>Http_Server\<close> models the configuration, the token
  file, the start and the middleware in front of them (\<open>cli/\<close>, \<open>token_file/\<close>). Proved: initialization
  is all or nothing and serves the configured directory, read-only tools write nothing, admitted requests are authorized and the
  buffered bodies are bounded.

  \<^bold>\<open>Interfaces.\<close> \<open>bounded_tail\<close> and \<open>counted_tail\<close> (logs that keep their end) are interpreted by the
  run output, the mutation log and the standard error of servers; \<open>lifecycle\<close> by the states of a
  run; \<open>dir_contract\<close> with \<open>file_store\<close> by the in-memory disk; \<open>semantic_backend\<close> by the worker.

  \<^bold>\<open>Loops and bounds.\<close> Loops of the code are structural recursion or functions with a termination
  proof. Only reading clients use fuel (following continuation tokens of output, pages and diffs):
  their theorems give the fuel that is enough, one page per item or byte left. The event scripts of a
  language server are finite lists and end in a time-out, as the request's deadline does.

  \<^bold>\<open>Concurrency.\<close> State behind one lock is updated in one step. Where the code really
  interleaves (the execution of a run against polls and cancellation, the supervisor's table,
  the requests of the HTTP server), the model is a step relation over reachable states.
  What other tasks do while an operation waits is an argument of it.

  \<^bold>\<open>Not modelled.\<close> Process creation itself (its outcome is an argument), Windows job objects, the
  spawning part of \<open>intelligence/transport.rs\<close>, the Windows access-control lists of
  \<open>token_file/windows.rs\<close>, the router and connection handling of the HTTP libraries, the
  installer and \<open>doctor\<close> dialogues of \<open>cli/\<close>, logging and run times are input and output without
  state of their own. Effects of Git reads on the disk are not modelled: a read is a
  function of the disk. Non-UTF-8 paths and Windows path syntax are left out.
\<close>

end
